(* ===== verification/Rust_Prelude.thy ===== *)
theory Rust_Prelude
  imports Main "HOL-Library.Word" "HOL-Library.AList"
begin

unbundle bit_operations_syntax

text \<open>
  What every component of the development shares: the part of Rust and of its standard
  library that the modelled code uses.
  \<^item> A Rust \<open>str\<close> or \<open>String\<close> is the list of its UTF-8 bytes, a HOL \<^typ>\<open>string\<close> (a HOL
    character is one byte). \<open>len\<close> is therefore \<^const>\<open>length\<close>, and methods that look at code
    points (\<open>trim\<close>, \<open>char::is_control\<close>, \<open>char::is_whitespace\<close>) are given on the byte sequences
    that encode those code points.
  \<^item> A fixed-width unsigned integer is a word of that width; \<open>usize\<close> values that count objects in
    memory are natural numbers.
  \<^item> \<open>Result<T, E>\<close> is the sum \<open>'e + 't\<close>, with \<^const>\<open>Inl\<close> for the error.
  \<^item> A \<open>HashMap\<close> is an association list with distinct keys; its order stands for the iteration
    order, and no theorem depends on which order it is.
  \<^item> A \<open>Path\<close> is its byte string; two paths are equal when their components are.
\<close>

section \<open>Names of types and collections of facts\<close>

type_synonym u8 = "8 word"
type_synonym u16 = "16 word"
type_synonym u32 = "32 word"
type_synonym u64 = "64 word"

named_theorems ascii_defs \<open>unfolding rules of the ASCII classes of a byte\<close>
named_theorems result_simps \<open>when a chain of fallible steps succeeds\<close>

section \<open>Results and early returns\<close>

text \<open>The \<open>?\<close> operator: continue with the value, or return the error.\<close>

fun and_then :: "'e + 'a \<Rightarrow> ('a \<Rightarrow> 'e + 'b) \<Rightarrow> 'e + 'b" where
  "and_then (Inl e) f = Inl e"
| "and_then (Inr x) f = f x"

fun map_err :: "('e \<Rightarrow> 'f) \<Rightarrow> 'e + 'a \<Rightarrow> 'f + 'a" where
  "map_err g (Inl e) = Inl (g e)"
| "map_err g (Inr x) = Inr x"

definition ok_or :: "'a option \<Rightarrow> 'e \<Rightarrow> 'e + 'a" where
  "ok_or x e = (case x of None \<Rightarrow> Inl e | Some v \<Rightarrow> Inr v)"

text \<open>\<open>for x in xs { f(x)?; }\<close>\<close>

fun try_each :: "('a \<Rightarrow> 'e + unit) \<Rightarrow> 'a list \<Rightarrow> 'e + unit" where
  "try_each f [] = Inr ()"
| "try_each f (x # xs) = and_then (f x) (\<lambda>_. try_each f xs)"

text \<open>\<open>Iterator::try_fold\<close>\<close>

fun try_fold :: "('s \<Rightarrow> 'a \<Rightarrow> 'e + 's) \<Rightarrow> 's \<Rightarrow> 'a list \<Rightarrow> 'e + 's" where
  "try_fold f s [] = Inr s"
| "try_fold f s (x # xs) = and_then (f s x) (\<lambda>s'. try_fold f s' xs)"

text \<open>\<open>iter.map(f).collect::<Result<Vec<_>>>()\<close>\<close>

fun try_map :: "('a \<Rightarrow> 'e + 'b) \<Rightarrow> 'a list \<Rightarrow> 'e + 'b list" where
  "try_map f [] = Inr []"
| "try_map f (x # xs) = and_then (f x) (\<lambda>y. and_then (try_map f xs) (\<lambda>ys. Inr (y # ys)))"

fun is_ok :: "'e + 'a \<Rightarrow> bool" where
  "is_ok (Inl e) = False"
| "is_ok (Inr x) = True"

section \<open>Checked and saturating arithmetic\<close>

definition checked_add :: "'a::len word \<Rightarrow> 'a word \<Rightarrow> 'a word option" where
  "checked_add a b = (if unat a + unat b < 2 ^ LENGTH('a) then Some (a + b) else None)"

definition checked_mul :: "'a::len word \<Rightarrow> 'a word \<Rightarrow> 'a word option" where
  "checked_mul a b = (if unat a * unat b < 2 ^ LENGTH('a) then Some (a * b) else None)"

definition saturating_add :: "'a::len word \<Rightarrow> 'a word \<Rightarrow> 'a word" where
  "saturating_add a b = (if unat a + unat b < 2 ^ LENGTH('a) then a + b else - 1)"

section \<open>Bytes of a string\<close>

abbreviation byte :: "char \<Rightarrow> nat" where
  "byte c \<equiv> of_char c"

definition is_ascii_digit :: "char \<Rightarrow> bool" where
  "is_ascii_digit c \<longleftrightarrow> 48 \<le> byte c \<and> byte c \<le> 57"

definition is_ascii_lowercase :: "char \<Rightarrow> bool" where
  "is_ascii_lowercase c \<longleftrightarrow> 97 \<le> byte c \<and> byte c \<le> 122"

definition is_ascii_uppercase :: "char \<Rightarrow> bool" where
  "is_ascii_uppercase c \<longleftrightarrow> 65 \<le> byte c \<and> byte c \<le> 90"

definition is_ascii_alphabetic :: "char \<Rightarrow> bool" where
  "is_ascii_alphabetic c \<longleftrightarrow> is_ascii_lowercase c \<or> is_ascii_uppercase c"

definition is_ascii_alphanumeric :: "char \<Rightarrow> bool" where
  "is_ascii_alphanumeric c \<longleftrightarrow> is_ascii_alphabetic c \<or> is_ascii_digit c"

definition is_ascii_hexdigit :: "char \<Rightarrow> bool" where
  "is_ascii_hexdigit c \<longleftrightarrow>
     is_ascii_digit c \<or> (65 \<le> byte c \<and> byte c \<le> 70) \<or> (97 \<le> byte c \<and> byte c \<le> 102)"

declare is_ascii_digit_def [ascii_defs] is_ascii_lowercase_def [ascii_defs]
  is_ascii_uppercase_def [ascii_defs] is_ascii_alphabetic_def [ascii_defs]
  is_ascii_alphanumeric_def [ascii_defs] is_ascii_hexdigit_def [ascii_defs]

definition to_ascii_lowercase_char :: "char \<Rightarrow> char" where
  "to_ascii_lowercase_char c = (if is_ascii_uppercase c then char_of (byte c + 32) else c)"

definition to_ascii_uppercase_char :: "char \<Rightarrow> char" where
  "to_ascii_uppercase_char c = (if is_ascii_lowercase c then char_of (byte c - 32) else c)"

definition to_ascii_lowercase :: "string \<Rightarrow> string" where
  "to_ascii_lowercase s = map to_ascii_lowercase_char s"

definition to_ascii_uppercase :: "string \<Rightarrow> string" where
  "to_ascii_uppercase s = map to_ascii_uppercase_char s"

definition eq_ignore_ascii_case :: "string \<Rightarrow> string \<Rightarrow> bool" where
  "eq_ignore_ascii_case a b \<longleftrightarrow> to_ascii_lowercase a = to_ascii_lowercase b"

subsection \<open>Control characters and white space\<close>

text \<open>
  \<open>char::is_control\<close> is the category Cc: U+0000--U+001F, U+007F and U+0080--U+009F; the last range
  is encoded as the byte C2 followed by 80--9F.
\<close>

definition ctrl1 :: "char \<Rightarrow> bool" where
  "ctrl1 a \<longleftrightarrow> byte a < 32 \<or> byte a = 127"

definition ctrl2 :: "char \<Rightarrow> char \<Rightarrow> bool" where
  "ctrl2 a b \<longleftrightarrow> byte a = 194 \<and> 128 \<le> byte b \<and> byte b \<le> 159"

fun has_control :: "string \<Rightarrow> bool" where
  "has_control [] = False"
| "has_control [a] = ctrl1 a"
| "has_control (a # b # s) = (ctrl1 a \<or> ctrl2 a b \<or> has_control (b # s))"

text \<open>
  \<open>char::is_whitespace\<close> is the Unicode property White_Space: the ASCII bytes 09--0D and 20, U+0085
  and U+00A0 in two bytes, and U+1680, U+2000--U+200A, U+2028, U+2029, U+202F, U+205F and U+3000 in
  three.
\<close>

definition ws1 :: "char \<Rightarrow> bool" where
  "ws1 a \<longleftrightarrow> (9 \<le> byte a \<and> byte a \<le> 13) \<or> byte a = 32"

definition ws2 :: "char \<Rightarrow> char \<Rightarrow> bool" where
  "ws2 a b \<longleftrightarrow> byte a = 194 \<and> (byte b = 133 \<or> byte b = 160)"

definition ws3 :: "char \<Rightarrow> char \<Rightarrow> char \<Rightarrow> bool" where
  "ws3 a b c \<longleftrightarrow>
     (byte a = 225 \<and> byte b = 154 \<and> byte c = 128)
     \<or> (byte a = 226 \<and> byte b = 128 \<and>
         ((128 \<le> byte c \<and> byte c \<le> 138) \<or> byte c = 168 \<or> byte c = 169 \<or> byte c = 175))
     \<or> (byte a = 226 \<and> byte b = 129 \<and> byte c = 159)
     \<or> (byte a = 227 \<and> byte b = 128 \<and> byte c = 128)"

fun has_whitespace :: "string \<Rightarrow> bool" where
  "has_whitespace [] = False"
| "has_whitespace [a] = ws1 a"
| "has_whitespace [a, b] = (ws1 a \<or> ws2 a b \<or> ws1 b)"
| "has_whitespace (a # b # c # s) =
     (ws1 a \<or> ws2 a b \<or> ws3 a b c \<or> has_whitespace (b # c # s))"

fun trim_start :: "string \<Rightarrow> string" where
  "trim_start [] = []"
| "trim_start [a] = (if ws1 a then [] else [a])"
| "trim_start [a, b] =
     (if ws1 a then trim_start [b] else if ws2 a b then [] else [a, b])"
| "trim_start (a # b # c # s) =
     (if ws1 a then trim_start (b # c # s)
      else if ws2 a b then trim_start (c # s)
      else if ws3 a b c then trim_start s
      else a # b # c # s)"

text \<open>Trimming at the end, on the reversed bytes.\<close>

fun trim_rev :: "string \<Rightarrow> string" where
  "trim_rev [] = []"
| "trim_rev [c] = (if ws1 c then [] else [c])"
| "trim_rev [c, b] =
     (if ws1 c then trim_rev [b] else if ws2 b c then [] else [c, b])"
| "trim_rev (c # b # a # s) =
     (if ws1 c then trim_rev (b # a # s)
      else if ws2 b c then trim_rev (a # s)
      else if ws3 a b c then trim_rev s
      else c # b # a # s)"

definition trim_end :: "string \<Rightarrow> string" where
  "trim_end s = rev (trim_rev (rev s))"

definition trim :: "string \<Rightarrow> string" where
  "trim s = trim_end (trim_start s)"

subsection \<open>Searching and splitting\<close>

fun position :: "('a \<Rightarrow> bool) \<Rightarrow> 'a list \<Rightarrow> nat option" where
  "position p [] = None"
| "position p (x # xs) = (if p x then Some 0 else map_option Suc (position p xs))"

definition rposition :: "('a \<Rightarrow> bool) \<Rightarrow> 'a list \<Rightarrow> nat option" where
  "rposition p xs = map_option (\<lambda>i. length xs - 1 - i) (position p (rev xs))"

definition starts_with :: "string \<Rightarrow> string \<Rightarrow> bool" where
  "starts_with s p \<longleftrightarrow> take (length p) s = p"

definition ends_with :: "string \<Rightarrow> string \<Rightarrow> bool" where
  "ends_with s p \<longleftrightarrow> length p \<le> length s \<and> drop (length s - length p) s = p"

definition strip_prefix :: "string \<Rightarrow> string \<Rightarrow> string option" where
  "strip_prefix s p = (if starts_with s p then Some (drop (length p) s) else None)"

definition strip_suffix :: "string \<Rightarrow> string \<Rightarrow> string option" where
  "strip_suffix s p = (if ends_with s p then Some (take (length s - length p) s) else None)"

fun contains_str :: "string \<Rightarrow> string \<Rightarrow> bool" where
  "contains_str [] p = (p = [])"
| "contains_str (c # s) p = (starts_with (c # s) p \<or> contains_str s p)"

fun split_on :: "char \<Rightarrow> string \<Rightarrow> string list" where
  "split_on d [] = [[]]"
| "split_on d (c # s) =
     (if c = d then [] # split_on d s
      else (case split_on d s of [] \<Rightarrow> [[c]] | w # ws \<Rightarrow> (c # w) # ws))"

fun split_once :: "char \<Rightarrow> string \<Rightarrow> (string \<times> string) option" where
  "split_once d [] = None"
| "split_once d (c # s) =
     (if c = d then Some ([], s)
      else map_option (\<lambda>(l, r). (c # l, r)) (split_once d s))"

text \<open>\<open>split_inclusive('\n')\<close>: the lines with their terminators; no empty last piece.\<close>

fun split_inclusive :: "char \<Rightarrow> string \<Rightarrow> string list" where
  "split_inclusive d [] = []"
| "split_inclusive d (c # s) =
     (if c = d then [c] # split_inclusive d s
      else (case split_inclusive d s of [] \<Rightarrow> [[c]] | w # ws \<Rightarrow> (c # w) # ws))"

fun join :: "string \<Rightarrow> string list \<Rightarrow> string" where
  "join sep [] = []"
| "join sep [x] = x"
| "join sep (x # y # ys) = x @ sep @ join sep (y # ys)"

subsection \<open>Decimal numbers\<close>

definition digit_value :: "char \<Rightarrow> nat" where
  "digit_value c = byte c - 48"

definition digits_value :: "string \<Rightarrow> nat" where
  "digits_value s = foldl (\<lambda>n c. 10 * n + digit_value c) 0 s"

text \<open>
  \<open>str::parse\<close> of an unsigned integer below \<open>bound\<close>: an optional plus sign, then at least one digit
  and nothing else, and no overflow.
\<close>

definition parse_digits :: "nat \<Rightarrow> string \<Rightarrow> nat option" where
  "parse_digits bound s =
     (if s \<noteq> [] \<and> list_all is_ascii_digit s \<and> digits_value s < bound
      then Some (digits_value s) else None)"

definition parse_uint :: "nat \<Rightarrow> string \<Rightarrow> nat option" where
  "parse_uint bound s =
     (case s of
        [] \<Rightarrow> None
      | c # r \<Rightarrow> if c = CHR ''+'' then parse_digits bound r else parse_digits bound s)"

fun show_nat :: "nat \<Rightarrow> string" where
  "show_nat n =
     (if n < 10 then [char_of (48 + n)] else show_nat (n div 10) @ [char_of (48 + n mod 10)])"

declare show_nat.simps [simp del]

section \<open>Paths\<close>

datatype component = RootDir | CurDir | ParentDir | Normal string

text \<open>
  \<open>Path::components\<close>: repeated separators and \<open>.\<close> components vanish, except for a \<open>.\<close> that starts a
  relative path.
\<close>

fun path_part :: "string \<Rightarrow> component list" where
  "path_part w =
     (if w = [] \<or> w = ''.'' then [] else if w = ''..'' then [ParentDir] else [Normal w])"

definition path_parts :: "string list \<Rightarrow> component list" where
  "path_parts ws = concat (map path_part ws)"

definition components :: "string \<Rightarrow> component list" where
  "components p =
     (if starts_with p ''/'' then RootDir # path_parts (split_on CHR ''/'' p)
      else case split_on CHR ''/'' p of
             [] \<Rightarrow> []
           | w # ws \<Rightarrow> (if w = ''.'' then [CurDir] else path_part w) @ path_parts ws)"

definition is_absolute :: "string \<Rightarrow> bool" where
  "is_absolute p \<longleftrightarrow> starts_with p ''/''"

definition path_eq :: "string \<Rightarrow> string \<Rightarrow> bool" where
  "path_eq p q \<longleftrightarrow> components p = components q"

text \<open>\<open>Path::file_name\<close>, and the components of \<open>Path::parent\<close>.\<close>

definition file_name :: "string \<Rightarrow> string option" where
  "file_name p =
     (if components p = [] then None
      else case last (components p) of Normal w \<Rightarrow> Some w | _ \<Rightarrow> None)"

definition parent_components :: "string \<Rightarrow> component list option" where
  "parent_components p =
     (if components p = [] then None
      else case last (components p) of RootDir \<Rightarrow> None | _ \<Rightarrow> Some (butlast (components p)))"

text \<open>\<open>PathBuf::join\<close> with a relative or absolute second part.\<close>

definition path_join :: "string \<Rightarrow> string \<Rightarrow> string" where
  "path_join p q =
     (if starts_with q ''/'' then q
      else if p = [] \<or> ends_with p ''/'' then p @ q
      else p @ ''/'' @ q)"

section \<open>Lemmas on results\<close>

lemma and_then_eq_Inr [result_simps, simp]:
  "and_then r f = Inr y \<longleftrightarrow> (\<exists>x. r = Inr x \<and> f x = Inr y)"
  by (cases r) auto

lemma and_then_eq_Inl:
  "and_then r f = Inl e \<longleftrightarrow> r = Inl e \<or> (\<exists>x. r = Inr x \<and> f x = Inl e)"
  by (cases r) auto

lemma map_err_eq_Inr [result_simps, simp]: "map_err g r = Inr x \<longleftrightarrow> r = Inr x"
  by (cases r) auto

lemma ok_or_eq_Inr [result_simps, simp]: "ok_or x e = Inr v \<longleftrightarrow> x = Some v"
  by (auto simp: ok_or_def split: option.splits)

lemma try_each_ok [result_simps, simp]:
  "try_each f xs = Inr u \<longleftrightarrow> (\<forall>x \<in> set xs. f x = Inr ())"
  by (induction xs) auto

lemma try_each_append:
  "try_each f (xs @ ys) = and_then (try_each f xs) (\<lambda>_. try_each f ys)"
proof (induction xs)
  case (Cons x xs)
  then show ?case by (cases "f x") auto
qed simp

lemma try_map_ok: "try_map f xs = Inr ys \<longleftrightarrow> list_all2 (\<lambda>x y. f x = Inr y) xs ys"
  by (induction xs arbitrary: ys) (auto simp: list_all2_Cons1)

lemma is_ok_iff: "is_ok r \<longleftrightarrow> (\<exists>x. r = Inr x)"
  by (cases r) auto

section \<open>Lemmas on checked arithmetic\<close>

lemma checked_add_Some:
  "checked_add a b = Some c \<longleftrightarrow>
     c = a + b \<and> unat (a :: 'a::len word) + unat b < 2 ^ LENGTH('a)"
  by (auto simp: checked_add_def)

lemma checked_add_unat:
  "checked_add a b = Some c \<Longrightarrow> unat c = unat a + unat b"
  by (auto simp: checked_add_Some unat_word_ariths)

lemma checked_mul_unat:
  "checked_mul a b = Some c \<Longrightarrow> unat c = unat a * unat b"
  by (auto simp: checked_mul_def unat_word_ariths split: if_splits)

lemma saturating_add_unat:
  "unat (saturating_add a (b :: 'a::len word)) = min (unat a + unat b) (2 ^ LENGTH('a) - 1)"
  by (auto simp: saturating_add_def unat_word_ariths unsigned_minus_1_eq_mask
      mask_eq_exp_minus_1 min_def)

lemma saturating_add_ge: "unat a \<le> unat (saturating_add a (b :: 'a::len word))"
proof -
  have "unat a < 2 ^ LENGTH('a)" by (rule unsigned_less)
  then have "unat a \<le> 2 ^ LENGTH('a) - 1" by linarith
  then show ?thesis by (simp add: saturating_add_unat)
qed

section \<open>Lemmas on strings\<close>

lemma split_on_not_Nil [simp]: "split_on d s \<noteq> []"
  by (induction s) (auto split: list.splits)

lemma split_on_nonmember: "w \<in> set (split_on d s) \<Longrightarrow> d \<notin> set w"
  by (induction s arbitrary: w) (auto split: list.splits if_splits)

lemma split_on_no_sep: "d \<notin> set s \<Longrightarrow> split_on d s = [s]"
  by (induction s) auto

lemma split_on_members:
  "c \<in> set s \<Longrightarrow> c \<noteq> d \<Longrightarrow> \<exists>w \<in> set (split_on d s). c \<in> set w"
  by (induction s) (auto split: list.splits)

lemma split_on_append:
  "split_on d (s @ d # t) = split_on d s @ split_on d t"
  by (induction s) (auto split: list.splits)

lemma join_split_on [simp]: "join [d] (split_on d s) = s"
proof (induction s)
  case (Cons c s)
  then show ?case
    by (cases "split_on d s"; cases "tl (split_on d s)") auto
qed simp

lemma split_once_Some:
  "split_once d s = Some (l, r) \<longleftrightarrow> s = l @ d # r \<and> d \<notin> set l"
proof (induction s arbitrary: l)
  case (Cons c s)
  then show ?case by (cases l) auto
qed simp

lemma split_once_None: "split_once d s = None \<longleftrightarrow> d \<notin> set s"
  by (induction s) auto

lemma concat_split_inclusive [simp]: "concat (split_inclusive d s) = s"
  by (induction s) (auto split: list.splits)

lemma split_inclusive_Nil_iff [simp]: "split_inclusive d s = [] \<longleftrightarrow> s = []"
  by (cases s) (auto split: list.splits)

lemma position_Some:
  "position p xs = Some i \<longleftrightarrow> i < length xs \<and> p (xs ! i) \<and> (\<forall>j < i. \<not> p (xs ! j))"
proof (induction xs arbitrary: i)
  case (Cons x xs)
  then show ?case by (cases i) (auto simp: less_Suc_eq_0_disj)
qed simp

lemma position_None: "position p xs = None \<longleftrightarrow> (\<forall>x \<in> set xs. \<not> p x)"
  by (induction xs) auto

lemma starts_with_iff: "starts_with s p \<longleftrightarrow> (\<exists>t. s = p @ t)"
  by (auto simp: starts_with_def) (metis append_take_drop_id)

lemma ends_with_iff: "ends_with s p \<longleftrightarrow> (\<exists>t. s = t @ p)"
  by (auto simp: ends_with_def) (metis append_take_drop_id)

lemma strip_suffix_Some: "strip_suffix s p = Some t \<longleftrightarrow> s = t @ p"
  by (auto simp: strip_suffix_def ends_with_iff ends_with_def split: if_splits)

lemma strip_prefix_Some: "strip_prefix s p = Some t \<longleftrightarrow> s = p @ t"
  by (auto simp: strip_prefix_def starts_with_iff split: if_splits)

lemma starts_with_Cons [simp]:
  "starts_with [] (d # p) = False"
  "starts_with (c # s) (d # p) \<longleftrightarrow> c = d \<and> starts_with s p"
  "starts_with s [] = True"
  by (auto simp: starts_with_def)

lemma has_control_append1: "has_control s \<Longrightarrow> has_control (c # s)"
  by (cases s) auto

lemma not_has_control_bytes: "\<not> has_control s \<Longrightarrow> c \<in> set s \<Longrightarrow> \<not> ctrl1 c"
  by (induction s rule: has_control.induct) auto

text \<open>Joining a plain name to an absolute directory goes down one level.\<close>

lemma path_join_child:
  assumes "starts_with dir ''/''" and "\<not> ends_with dir ''/''" and "CHR ''/'' \<notin> set s"
    and "s \<noteq> []" and "s \<noteq> ''.''" and "s \<noteq> ''..''"
  shows "components (path_join dir s) = components dir @ [Normal s]
    \<and> starts_with (path_join dir s) ''/'' \<and> \<not> ends_with (path_join dir s) ''/''"
proof -
  from assms have j: "path_join dir s = dir @ CHR ''/'' # s"
    by (cases s; cases dir) (auto simp: path_join_def)
  have start: "starts_with (dir @ CHR ''/'' # s) ''/''"
    using assms(1) by (auto simp: starts_with_iff)
  have "path_parts (xs @ ys) = path_parts xs @ path_parts ys" for xs ys
    by (simp add: path_parts_def)
  then have "components (path_join dir s) = components dir @ [Normal s]"
    using assms start
    by (simp add: j components_def split_on_append split_on_no_sep) (simp add: path_parts_def)
  moreover have "\<not> ends_with (dir @ CHR ''/'' # s) ''/''"
  proof
    assume "ends_with (dir @ CHR ''/'' # s) ''/''"
    then obtain t where "dir @ CHR ''/'' # s = t @ ''/''" by (auto simp: ends_with_iff)
    then have "last (CHR ''/'' # s) = CHR ''/''" by (metis last_appendR last_snoc list.distinct(1))
    with assms(3,4) show False by (metis last_ConsR last_in_set)
  qed
  ultimately show ?thesis using j start by simp
qed

text \<open>The same holds of every directory: relative, the root, empty or with slashes at its end.\<close>

lemma components_join:
  assumes "CHR ''/'' \<notin> set s" and "s \<noteq> []" and "s \<noteq> ''.''" and "s \<noteq> ''..''"
  shows "components (path_join dir s) = components dir @ [Normal s]"
proof -
  have parts: "path_parts (xs @ ys) = path_parts xs @ path_parts ys" for xs ys by (simp add: path_parts_def)
  have more: "path_parts (x # xs) = path_part x @ path_parts xs" for x xs by (simp add: path_parts_def)
  have leaf: "split_on CHR ''/'' s = [s]" "path_parts [s] = [Normal s]" "path_part s = [Normal s]" "path_parts [[]] = []"
    using assms by (simp_all add: split_on_no_sep path_parts_def)
  have "\<not> starts_with s ''/''" using assms(1,2) by (cases s) auto
  moreover have below: "components (t @ CHR ''/'' # s) = components (t @ ''/'') @ [Normal s]" for t
  proof -
    have "starts_with (t @ CHR ''/'' # s) ''/'' = starts_with (t @ ''/'') ''/''" by (cases t) auto
    then show ?thesis
      using split_on_append [of "CHR ''/''" t s] split_on_append [of "CHR ''/''" t "[]"] split_on_not_Nil [of "CHR ''/''" t] leaf
      by (cases "split_on CHR ''/'' t") (auto simp: components_def parts more simp del: path_part.simps)
  qed
  moreover have "components (dir @ ''/'') = components dir" if "dir \<noteq> []"
  proof -
    have "starts_with (dir @ ''/'') ''/'' = starts_with dir ''/''" using that by (cases dir) auto
    then show ?thesis
      using split_on_append [of "CHR ''/''" dir "[]"] split_on_not_Nil [of "CHR ''/''" dir] leaf
      by (cases "split_on CHR ''/'' dir") (auto simp: components_def parts more simp del: path_part.simps)
  qed
  moreover have "components s = [Normal s]" "components [] = []"
    using leaf assms(3) calculation(1) by (simp_all add: components_def path_parts_def)
  ultimately show ?thesis
    using below by (cases "dir = []") (auto simp: path_join_def ends_with_iff)
qed

text \<open>A string that starts and ends with visible ASCII bytes is its own trim.\<close>

definition visible :: "char \<Rightarrow> bool" where
  "visible c \<longleftrightarrow> 33 \<le> byte c \<and> byte c < 127"

lemma trim_start_visible: "s = [] \<or> visible (hd s) \<Longrightarrow> trim_start s = s"
  by (cases s rule: trim_start.cases) (auto simp: visible_def ws1_def ws2_def ws3_def)

lemma trim_rev_visible: "s = [] \<or> visible (hd s) \<Longrightarrow> trim_rev s = s"
  by (cases s rule: trim_rev.cases) (auto simp: visible_def ws1_def ws2_def ws3_def)

lemma trim_visible:
  assumes "list_all visible s"
  shows "trim s = s"
proof (cases "s = []")
  case False
  with assms have "visible (hd s)" "visible (hd (rev s))"
    by (auto simp: list_all_iff hd_rev)
  then show ?thesis by (simp add: trim_def trim_end_def trim_start_visible trim_rev_visible)
qed (simp add: trim_def trim_end_def)

lemma has_control_visible: "list_all visible s \<Longrightarrow> \<not> has_control s"
  by (induction s rule: has_control.induct) (auto simp: visible_def ctrl1_def ctrl2_def)

lemma contains_str_iff: "contains_str s p \<longleftrightarrow> (\<exists>a b. s = a @ p @ b)"
proof (induction s)
  case (Cons c s)
  have "(\<exists>a b. c # s = a @ p @ b) \<longleftrightarrow> (\<exists>b. c # s = p @ b) \<or> (\<exists>a b. s = a @ p @ b)"
  proof
    assume "\<exists>a b. c # s = a @ p @ b"
    then obtain a b where "c # s = a @ p @ b" by blast
    then show "(\<exists>b. c # s = p @ b) \<or> (\<exists>a b. s = a @ p @ b)" by (cases a) auto
  next
    assume "(\<exists>b. c # s = p @ b) \<or> (\<exists>a b. s = a @ p @ b)"
    then show "\<exists>a b. c # s = a @ p @ b" by (metis append_Cons append_Nil)
  qed
  with Cons show ?case by (simp add: starts_with_iff)
qed simp

lemma split_on_append_last:
  "d \<notin> set t \<Longrightarrow> split_on d (s @ t) = butlast (split_on d s) @ [last (split_on d s) @ t]"
  by (induction s) (auto simp: split_on_no_sep split: list.splits)

lemma rposition_Some:
  assumes "rposition p xs = Some i"
  shows "i < length xs" and "p (xs ! i)" and "\<forall>x \<in> set (drop (Suc i) xs). \<not> p x"
proof -
  from assms obtain j where j: "position p (rev xs) = Some j" "i = length xs - 1 - j"
    by (auto simp: rposition_def)
  then have *: "j < length xs" "p (rev xs ! j)" "\<forall>k < j. \<not> p (rev xs ! k)"
    by (auto simp: position_Some)
  with j(2) show "i < length xs" "p (xs ! i)" by (auto simp: rev_nth)
  have "take j (rev xs) = rev (drop (Suc i) xs)"
    using j(2) *(1) by (simp add: take_rev Suc_diff_Suc)
  moreover have "\<forall>x \<in> set (take j (rev xs)). \<not> p x"
    using *(1,3) by (auto simp: in_set_conv_nth)
  ultimately show "\<forall>x \<in> set (drop (Suc i) xs). \<not> p x" by simp
qed

lemma rposition_None: "rposition p xs = None \<longleftrightarrow> (\<forall>x \<in> set xs. \<not> p x)"
  by (simp add: rposition_def position_None)

lemma rposition_append:
  "p x \<Longrightarrow> \<forall>y \<in> set ys. \<not> p y \<Longrightarrow> rposition p (xs @ x # ys) = Some (length xs)"
proof -
  assume a: "p x" "\<forall>y \<in> set ys. \<not> p y"
  have "position p (rev ys @ x # rev xs) = Some (length ys)"
    using a by (auto simp: position_Some nth_append) (metis length_rev nth_mem set_rev)
  then show ?thesis by (simp add: rposition_def)
qed

subsection \<open>Printing and reading decimal numbers\<close>

lemma byte_char_of: "n < 256 \<Longrightarrow> byte (char_of n) = n"
  by (simp add: of_char_of)

lemma digits_value_snoc: "digits_value (s @ [c]) = 10 * digits_value s + digit_value c"
  by (simp add: digits_value_def)

lemma digits_value_Cons_aux:
  "foldl (\<lambda>n c. 10 * n + digit_value c) m s = m * 10 ^ length s + digits_value s"
proof (induction s rule: rev_induct)
  case Nil
  show ?case by (simp add: digits_value_def)
next
  case (snoc c s)
  then show ?case by (simp add: digits_value_snoc algebra_simps)
qed

lemma show_nat_digits: "show_nat n \<noteq> [] \<and> list_all is_ascii_digit (show_nat n)"
proof (induction n rule: show_nat.induct)
  case (1 n)
  have d: "is_ascii_digit (char_of (48 + k mod 10))" for k :: nat
    by (simp add: is_ascii_digit_def)
  show ?case
    using 1 d [of n] by (simp add: show_nat.simps [of n] is_ascii_digit_def)
qed

lemma digits_value_show_nat [simp]: "digits_value (show_nat n) = n"
proof (induction n rule: show_nat.induct)
  case (1 n)
  show ?case
  proof (cases "n < 10")
    case True
    then show ?thesis
      by (subst show_nat.simps) (simp add: digits_value_def digit_value_def of_char_of)
  next
    case False
    with 1 have "digits_value (show_nat (n div 10)) = n div 10" by simp
    with False show ?thesis
      by (subst show_nat.simps) (simp add: digits_value_snoc digit_value_def of_char_of)
  qed
qed

lemma parse_digits_show_nat: "n < bound \<Longrightarrow> parse_digits bound (show_nat n) = Some n"
  using show_nat_digits [of n] by (simp add: parse_digits_def)

lemma parse_uint_show_nat: "n < bound \<Longrightarrow> parse_uint bound (show_nat n) = Some n"
  using show_nat_digits [of n] parse_digits_show_nat [of n bound]
  by (cases "show_nat n") (auto simp: parse_uint_def is_ascii_digit_def)

lemma parse_uint_digits:
  "s \<noteq> [] \<Longrightarrow> list_all is_ascii_digit s \<Longrightarrow>
   parse_uint bound s = (if digits_value s < bound then Some (digits_value s) else None)"
  by (cases s) (auto simp: parse_uint_def parse_digits_def is_ascii_digit_def)

lemma length_show_nat: "n < 10 ^ Suc k \<Longrightarrow> length (show_nat n) \<le> Suc k"
proof (induction k arbitrary: n)
  case (Suc k)
  show ?case
  proof (cases "n < 10")
    case False
    have "n div 10 < 10 ^ Suc k" using Suc.prems by (simp add: less_mult_imp_div_less)
    from Suc.IH [OF this] False show ?thesis by (subst show_nat.simps) simp
  qed (simp add: show_nat.simps)
qed (simp add: show_nat.simps)

lemma show_nat_inj [simp]: "show_nat m = show_nat n \<longleftrightarrow> m = n"
  by (metis digits_value_show_nat)

section \<open>Lemmas on maps\<close>

lemma map_of_alist_update [simp]: "map_of (AList.update k v m) = (map_of m)(k \<mapsto> v)"
  by (rule AList.update_conv')

lemma map_of_alist_delete [simp]: "map_of (AList.delete k m) = (map_of m)(k := None)"
  by (rule AList.delete_conv')

lemma length_alist_delete:
  assumes "distinct (map fst m)" and "map_of m k = Some v"
  shows "length m = Suc (length (AList.delete k m))"
  using assms
proof (induction m)
  case (Cons p m)
  have "AList.delete k m = m" if "k \<notin> fst ` set m"
    using that by simp
  with Cons show ?case
    by (cases p) (auto split: if_splits)
qed simp

lemma length_alist_update:
  "length (AList.update k v m) = (if map_of m k = None then Suc (length m) else length m)"
  by (induction m) auto

lemma alist_distinct_update: "distinct (map fst m) \<Longrightarrow> distinct (map fst (AList.update k v m))"
  by (rule AList.distinct_update)

lemma alist_distinct_delete: "distinct (map fst m) \<Longrightarrow> distinct (map fst (AList.delete k m))"
  by (rule AList.distinct_delete)

lemma set_alist_update: "p \<in> set (AList.update k v m) \<Longrightarrow> p = (k, v) \<or> p \<in> set m"
  by (induction m) (auto split: if_splits)

lemma alist_distinct_filter: "distinct (map fst m) \<Longrightarrow> distinct (map fst (filter P m))"
  by (induction m) auto

section \<open>Interface: validated text\<close>

text \<open>
  The domain wraps text in a type whose only constructor validates it, and prints it back
  unchanged. \<open>new\<close> and \<open>as_str\<close> are the operations the clients call.
\<close>

locale validated_text =
  fixes valid :: "string \<Rightarrow> bool"
    and new :: "string \<Rightarrow> 'e + 'a"
    and as_str :: "'a \<Rightarrow> string"
  assumes new_valid: "valid s \<Longrightarrow> \<exists>x. new s = Inr x \<and> as_str x = s"
    and new_invalid: "\<not> valid s \<Longrightarrow> \<exists>e. new s = Inl e"
    and as_str_inj: "as_str x = as_str y \<Longrightarrow> x = y"
begin

lemma new_eq_Inr: "new s = Inr x \<longleftrightarrow> valid s \<and> as_str x = s"
proof (cases "valid s")
  case True
  then show ?thesis using new_valid [OF True] as_str_inj by auto
next
  case False
  then show ?thesis using new_invalid [OF False] by auto
qed

lemma new_ok: "is_ok (new s) \<longleftrightarrow> valid s"
  by (metis is_ok_iff new_eq_Inr new_valid)

lemma new_as_str: "new s = Inr x \<Longrightarrow> new (as_str x) = Inr x"
  by (simp add: new_eq_Inr)

lemma new_inj: "new s = Inr x \<Longrightarrow> new t = Inr x \<Longrightarrow> s = t"
  by (simp add: new_eq_Inr)

end

section \<open>Interface: a lossless vocabulary\<close>

text \<open>
  The observation plane keeps unknown words: \<open>parse\<close> never loses the text it was given.
\<close>

locale lossless_text =
  fixes parse :: "string \<Rightarrow> 'a" and show_text :: "'a \<Rightarrow> string"
  assumes show_parse: "show_text (parse s) = s"
begin

lemma parse_inj: "parse s = parse t \<longleftrightarrow> s = t"
  by (metis show_parse)

lemma parse_show_parse: "parse (show_text (parse s)) = parse s"
  by (simp add: show_parse)

end

subsection \<open>Trimming\<close>

lemma trim_start_length: "length (trim_start s) \<le> length s"
  by (induction s rule: trim_start.induct) auto

lemma trim_rev_length: "length (trim_rev s) \<le> length s"
  by (induction s rule: trim_rev.induct) auto

lemma trim_start_idem: "trim_start (trim_start s) = trim_start s"
  by (induction s rule: trim_start.induct) simp_all

lemma trim_rev_idem: "trim_rev (trim_rev s) = trim_rev s"
  by (induction s rule: trim_rev.induct) simp_all

lemma trim_start_prefix: "trim_start (s @ t) = s @ t \<Longrightarrow> trim_start s = s"
proof (induction s rule: trim_start.induct)
  case (2 a)
  then show ?case using trim_start_length [of t] by (cases t rule: trim_start.cases) (auto split: if_splits)
next
  case (3 a b)
  then show ?case using trim_start_length [of "b # t"] trim_start_length [of t] by (cases t) (auto split: if_splits)
next
  case (4 a b c s)
  then show ?case
    using trim_start_length [of "b # c # s @ t"] trim_start_length [of "c # s @ t"] trim_start_length [of "s @ t"]
    by (auto split: if_splits)
qed simp

lemma trim_rev_suffix: "\<exists>u. s = u @ trim_rev s"
proof (induction s rule: trim_rev.induct)
  case (4 c b a s)
  then show ?case by (auto intro: exI [of _ "[]"]) (metis append_Cons append_Nil)+
qed (auto intro: exI [of _ "[]"])

lemma trim_idem: "trim (trim s) = trim s"
proof -
  obtain u where u: "rev (trim_start s) = u @ trim_rev (rev (trim_start s))" using trim_rev_suffix by blast
  then have "trim_start s = rev (trim_rev (rev (trim_start s))) @ rev u" by (metis rev_append rev_rev_ident)
  then have "trim_start (trim s) = trim s"
    using trim_start_prefix [of "trim s" "rev u"] trim_start_idem [of s] by (simp add: trim_def trim_end_def)
  then show ?thesis by (simp add: trim_def [of "trim s"]) (simp add: trim_def trim_end_def trim_rev_idem)
qed

lemma trim_start_suffix: "\<exists>u. s = u @ trim_start s"
proof (induction s rule: trim_start.induct)
  case (4 a b c s)
  then show ?case by (auto intro: exI [of _ "[]"]) (metis append_Cons append_Nil)+
qed (auto intro: exI [of _ "[]"])

lemma trim_inside: "\<exists>u v. s = u @ trim s @ v"
proof -
  obtain u where "s = u @ trim_start s" using trim_start_suffix by blast
  moreover obtain v where "rev (trim_start s) = v @ trim_rev (rev (trim_start s))" using trim_rev_suffix by blast
  then have "trim_start s = trim s @ rev v" by (metis rev_append rev_rev_ident trim_def trim_end_def)
  ultimately show ?thesis by metis
qed

lemma contains_inside: "contains_str (u @ p @ v) p"
proof (induction u)
  case Nil
  have "starts_with (p @ v) p" by (simp add: starts_with_def)
  then show ?case by (cases "p @ v") (auto simp del: append_eq_Cons_conv)
qed simp

end
