(* ===== verification/Machine_Identity.thy ===== *)
theory Machine_Identity
  imports Rust_Prelude "HOL-Library.Char_ord" "HOL-Library.List_Lexorder"
    "HOL-Library.Product_Lexorder" "HOL-Library.Multiset"
begin

text \<open>
  The identities of machines and images (\<open>src/domain/machine.rs\<close>) and the machined observation
  plane (\<open>src/domain/runtime.rs\<close>): validated names, the class and provider of a registered machine,
  the access Lasper grants itself on it, machine states, address observations and the sorted
  runtime snapshot.
\<close>

section \<open>Definitions\<close>

subsection \<open>Machine names and guest host names\<close>

datatype AllowedSignal = Terminate | Kill

fun signal_as_name :: "AllowedSignal \<Rightarrow> string" where
  "signal_as_name Terminate = ''SIGTERM''"
| "signal_as_name Kill = ''SIGKILL''"

definition valid_label :: "string \<Rightarrow> bool" where
  "valid_label label \<longleftrightarrow>
     label \<noteq> [] \<and> \<not> starts_with label ''-'' \<and> \<not> ends_with label ''-''
     \<and> list_all (\<lambda>b. is_ascii_alphanumeric b \<or> b = CHR ''-'') label"

definition is_valid_nspawn_hostname :: "string \<Rightarrow> bool" where
  "is_valid_nspawn_hostname value \<longleftrightarrow>
     value \<noteq> [] \<and> length value \<le> 64
     \<and> \<not> starts_with value ''.'' \<and> \<not> ends_with value ''.''
     \<and> list_all valid_label (split_on CHR ''.'' value)"

datatype MachineName = MachineName string

datatype MachineNameError = MachineNameError string

definition machine_name_new :: "string \<Rightarrow> MachineNameError + MachineName" where
  "machine_name_new name =
     (if \<not> is_valid_nspawn_hostname name then Inl (MachineNameError name)
      else Inr (MachineName name))"

fun machine_as_str :: "MachineName \<Rightarrow> string" where
  "machine_as_str (MachineName s) = s"

definition systemd_nspawn_unit :: "MachineName \<Rightarrow> string" where
  "systemd_nspawn_unit m = ''systemd-nspawn@'' @ machine_as_str m @ ''.service''"

datatype GuestHostname = GuestHostname string

datatype GuestHostnameError = GuestHostnameError string

definition guest_hostname_new :: "string \<Rightarrow> GuestHostnameError + GuestHostname" where
  "guest_hostname_new hostname =
     (if \<not> is_valid_nspawn_hostname hostname then Inl (GuestHostnameError hostname)
      else Inr (GuestHostname hostname))"

fun guest_as_str :: "GuestHostname \<Rightarrow> string" where
  "guest_as_str (GuestHostname s) = s"

definition guest_hostname_resolve ::
  "string \<Rightarrow> MachineName \<Rightarrow> GuestHostnameError + GuestHostname" where
  "guest_hostname_resolve configured machine =
     (if configured = [] then guest_hostname_new (machine_as_str machine)
      else guest_hostname_new configured)"

definition validate_optional :: "string \<Rightarrow> GuestHostnameError + unit" where
  "validate_optional value =
     (if value = [] then Inr () else and_then (guest_hostname_new value) (\<lambda>_. Inr ()))"

subsection \<open>Class, provider and access\<close>

datatype MachineClass = Container | Vm | Host | UnknownClass string

definition class_parse :: "string \<Rightarrow> MachineClass" where
  "class_parse value =
     (if value = ''container'' then Container
      else if value = ''vm'' then Vm
      else if value = ''host'' then Host
      else UnknownClass value)"

fun class_as_str :: "MachineClass \<Rightarrow> string" where
  "class_as_str Container = ''container''"
| "class_as_str Vm = ''vm''"
| "class_as_str Host = ''host''"
| "class_as_str (UnknownClass value) = value"

datatype MachineProvider = Nspawn | Vmspawn | UnknownProvider string

definition provider_parse :: "string \<Rightarrow> MachineProvider" where
  "provider_parse value =
     (if value = ''systemd-nspawn'' then Nspawn
      else if value = ''systemd-vmspawn'' then Vmspawn
      else UnknownProvider value)"

fun provider_as_str :: "MachineProvider \<Rightarrow> string" where
  "provider_as_str Nspawn = ''systemd-nspawn''"
| "provider_as_str Vmspawn = ''systemd-vmspawn''"
| "provider_as_str (UnknownProvider value) = value"

datatype ReadOnlyReason =
    ReasonVirtualMachine
  | ReasonHost
  | ReasonUnknownClass string
  | ReasonUnknownProvider string
  | UnsupportedCombination string string
  | InvalidIdentity

datatype MachineAccess = AccessNspawn | ReadOnly ReadOnlyReason

record MachineRuntimeIdentity =
  id_name :: MachineName
  id_class :: MachineClass
  id_provider :: MachineProvider

definition identity_is_nspawn :: "MachineRuntimeIdentity \<Rightarrow> bool" where
  "identity_is_nspawn i \<longleftrightarrow> id_class i = Container \<and> id_provider i = Nspawn"

definition identity_access :: "MachineRuntimeIdentity \<Rightarrow> MachineAccess" where
  "identity_access i =
     (if identity_is_nspawn i then AccessNspawn
      else ReadOnly
        (case (id_class i, id_provider i) of
           (Vm, _) \<Rightarrow> ReasonVirtualMachine
         | (_, Vmspawn) \<Rightarrow> ReasonVirtualMachine
         | (Host, _) \<Rightarrow> ReasonHost
         | (UnknownClass cls, _) \<Rightarrow> ReasonUnknownClass cls
         | (_, UnknownProvider provider) \<Rightarrow> ReasonUnknownProvider provider
         | (cls, provider) \<Rightarrow>
             UnsupportedCombination (class_as_str cls) (provider_as_str provider)))"

subsection \<open>States and address observations\<close>

datatype MachineState = Running | Starting | Exiting | UnknownState string

definition state_from_systemd :: "string \<Rightarrow> MachineState" where
  "state_from_systemd value =
     (if value \<in> {''active'', ''running'', ''Running''} then Running
      else if value \<in> {''activating'', ''opening'', ''starting'', ''Starting''} then Starting
      else if value \<in> {''deactivating'', ''closing'', ''exiting'', ''Exiting''} then Exiting
      else UnknownState value)"

fun state_label :: "MachineState \<Rightarrow> string" where
  "state_label Running = ''running''"
| "state_label Starting = ''starting''"
| "state_label Exiting = ''exiting''"
| "state_label (UnknownState value) = value"

fun accepts_runtime_actions :: "MachineState \<Rightarrow> bool" where
  "accepts_runtime_actions Running = True"
| "accepts_runtime_actions _ = False"

text \<open>The wire form of a state, and reading it back.\<close>

fun state_serialize :: "MachineState \<Rightarrow> string" where
  "state_serialize Running = ''Running''"
| "state_serialize Starting = ''Starting''"
| "state_serialize Exiting = ''Exiting''"
| "state_serialize (UnknownState value) = value"

definition state_deserialize :: "string \<Rightarrow> MachineState" where
  "state_deserialize value = state_from_systemd value"

datatype MachineAddressObservation =
    Available "string list"
  | Unavailable string
  | NotPrivate string
  | Unsupported string

fun normalize :: "MachineAddressObservation \<Rightarrow> MachineAddressObservation" where
  "normalize (Available addresses) =
     Available (remdups_adj (sort (filter (\<lambda>a. a \<noteq> []) addresses)))"
| "normalize observation = observation"

definition available :: "string list \<Rightarrow> MachineAddressObservation" where
  "available addresses = normalize (Available addresses)"

fun primary :: "MachineAddressObservation \<Rightarrow> string option" where
  "primary (Available []) = None"
| "primary (Available (a # as)) = Some a"
| "primary _ = None"

fun property_value :: "MachineAddressObservation \<Rightarrow> string" where
  "property_value (Available addresses) =
     (if addresses = [] then ''(None)'' else join '', '' addresses)"
| "property_value (Unavailable _) = ''(Unavailable)''"
| "property_value (NotPrivate _) = ''(Not Private)''"
| "property_value (Unsupported _) = ''(Unsupported)''"

fun diagnostic_value :: "MachineAddressObservation \<Rightarrow> string" where
  "diagnostic_value (Available addresses) =
     (if addresses = [] then ''available (none)'' else join '', '' addresses)"
| "diagnostic_value (Unavailable reason) = ''unavailable ('' @ reason @ '')''"
| "diagnostic_value (NotPrivate reason) = ''not private ('' @ reason @ '')''"
| "diagnostic_value (Unsupported reason) = ''unsupported ('' @ reason @ '')''"

subsection \<open>Entries of the runtime catalog\<close>

record MachineEntry =
  m_name :: string
  m_class :: MachineClass
  m_service :: MachineProvider
  m_state :: MachineState
  m_addresses :: MachineAddressObservation

datatype RuntimeIdentityError = InvalidMachineName MachineNameError

definition optimistic_nspawn :: "string \<Rightarrow> MachineState \<Rightarrow> MachineEntry" where
  "optimistic_nspawn name state =
     \<lparr>m_name = name, m_class = class_parse ''container'',
      m_service = provider_parse ''systemd-nspawn'', m_state = state,
      m_addresses = Unavailable ''machine is not registered yet''\<rparr>"

definition entry_identity ::
  "MachineEntry \<Rightarrow> RuntimeIdentityError + MachineRuntimeIdentity" where
  "entry_identity e =
     and_then (map_err InvalidMachineName (machine_name_new (m_name e)))
       (\<lambda>name. Inr \<lparr>id_name = name, id_class = m_class e, id_provider = m_service e\<rparr>)"

definition entry_validated_name :: "MachineEntry \<Rightarrow> RuntimeIdentityError + MachineName" where
  "entry_validated_name e = and_then (entry_identity e) (\<lambda>i. Inr (id_name i))"

definition entry_access :: "MachineEntry \<Rightarrow> MachineAccess" where
  "entry_access e =
     (case entry_identity e of
        Inl _ \<Rightarrow> ReadOnly InvalidIdentity
      | Inr i \<Rightarrow> identity_access i)"

record ImageEntry =
  i_name :: string
  i_image_type :: string
  i_readonly :: bool
  i_usage :: "string option"
  i_dbus_object_path :: "string option"

text \<open>Image names are path components, not necessarily machine names.\<close>

definition is_valid_image_name :: "string \<Rightarrow> bool" where
  "is_valid_image_name name \<longleftrightarrow>
     name \<noteq> [] \<and> length name \<le> 255 \<and> name \<noteq> ''.'' \<and> name \<noteq> ''..''
     \<and> \<not> starts_with name ''.#''
     \<and> CHR ''/'' \<notin> set name
     \<and> \<not> list_ex (\<lambda>b. byte b < 32 \<or> byte b = 127) name"

datatype ImageName = ImageName string

datatype ImageNameError = ImageNameError string

definition image_name_new :: "string \<Rightarrow> ImageNameError + ImageName" where
  "image_name_new name =
     (if is_valid_image_name name then Inr (ImageName name) else Inl (ImageNameError name))"

fun image_as_str :: "ImageName \<Rightarrow> string" where
  "image_as_str (ImageName s) = s"

definition is_protected_name :: "string \<Rightarrow> bool" where
  "is_protected_name name \<longleftrightarrow> name = ''.host''"

definition is_hidden_name :: "string \<Rightarrow> bool" where
  "is_hidden_name name \<longleftrightarrow> starts_with name ''.''"

datatype ImageVisibility = Regular | Hidden

definition visibility :: "ImageEntry \<Rightarrow> ImageVisibility" where
  "visibility e = (if is_hidden_name (i_name e) then Hidden else Regular)"

definition removal_label :: "ImageEntry \<Rightarrow> string" where
  "removal_label e =
     (if is_protected_name (i_name e) then ''blocked: host image'' else ''available'')"

subsection \<open>Orders of the catalog and the snapshot\<close>

text \<open>
  The derived orders compare the variant first and its payload next; an entry is compared by its
  fields in declaration order.
\<close>

fun class_rank :: "MachineClass \<Rightarrow> nat \<times> string" where
  "class_rank Container = (0, [])"
| "class_rank Vm = (1, [])"
| "class_rank Host = (2, [])"
| "class_rank (UnknownClass value) = (3, value)"

fun provider_rank :: "MachineProvider \<Rightarrow> nat \<times> string" where
  "provider_rank Nspawn = (0, [])"
| "provider_rank Vmspawn = (1, [])"
| "provider_rank (UnknownProvider value) = (2, value)"

fun state_rank :: "MachineState \<Rightarrow> nat \<times> string" where
  "state_rank Running = (0, [])"
| "state_rank Starting = (1, [])"
| "state_rank Exiting = (2, [])"
| "state_rank (UnknownState value) = (3, value)"

fun address_rank :: "MachineAddressObservation \<Rightarrow> nat \<times> string list" where
  "address_rank (Available addresses) = (0, addresses)"
| "address_rank (Unavailable reason) = (1, [reason])"
| "address_rank (NotPrivate reason) = (2, [reason])"
| "address_rank (Unsupported reason) = (3, [reason])"

instantiation MachineClass :: linorder
begin
definition "(a :: MachineClass) \<le> b \<longleftrightarrow> class_rank a \<le> class_rank b"
definition "(a :: MachineClass) < b \<longleftrightarrow> class_rank a < class_rank b"
instance
proof
  fix a b :: MachineClass
  show "a \<le> b \<Longrightarrow> b \<le> a \<Longrightarrow> a = b"
    by (cases a; cases b) (auto simp: less_eq_MachineClass_def)
qed (auto simp: less_eq_MachineClass_def less_MachineClass_def)
end

instantiation MachineProvider :: linorder
begin
definition "(a :: MachineProvider) \<le> b \<longleftrightarrow> provider_rank a \<le> provider_rank b"
definition "(a :: MachineProvider) < b \<longleftrightarrow> provider_rank a < provider_rank b"
instance
proof
  fix a b :: MachineProvider
  show "a \<le> b \<Longrightarrow> b \<le> a \<Longrightarrow> a = b"
    by (cases a; cases b) (auto simp: less_eq_MachineProvider_def)
qed (auto simp: less_eq_MachineProvider_def less_MachineProvider_def)
end

instantiation MachineState :: linorder
begin
definition "(a :: MachineState) \<le> b \<longleftrightarrow> state_rank a \<le> state_rank b"
definition "(a :: MachineState) < b \<longleftrightarrow> state_rank a < state_rank b"
instance
proof
  fix a b :: MachineState
  show "a \<le> b \<Longrightarrow> b \<le> a \<Longrightarrow> a = b"
    by (cases a; cases b) (auto simp: less_eq_MachineState_def)
qed (auto simp: less_eq_MachineState_def less_MachineState_def)
end

instantiation MachineAddressObservation :: linorder
begin
definition "(a :: MachineAddressObservation) \<le> b \<longleftrightarrow> address_rank a \<le> address_rank b"
definition "(a :: MachineAddressObservation) < b \<longleftrightarrow> address_rank a < address_rank b"
instance
proof
  fix a b :: MachineAddressObservation
  show "a \<le> b \<Longrightarrow> b \<le> a \<Longrightarrow> a = b"
    by (cases a; cases b) (auto simp: less_eq_MachineAddressObservation_def)
qed (auto simp: less_eq_MachineAddressObservation_def less_MachineAddressObservation_def)
end

definition machine_key ::
  "MachineEntry \<Rightarrow>
     string \<times> MachineClass \<times> MachineProvider \<times> MachineState \<times> MachineAddressObservation" where
  "machine_key e = (m_name e, m_class e, m_service e, m_state e, m_addresses e)"

definition option_key :: "string option \<Rightarrow> nat \<times> string" where
  "option_key x = (case x of None \<Rightarrow> (0, []) | Some v \<Rightarrow> (1, v))"

definition image_key ::
  "ImageEntry \<Rightarrow> string \<times> string \<times> bool \<times> (nat \<times> string) \<times> (nat \<times> string)" where
  "image_key e =
     (i_name e, i_image_type e, i_readonly e, option_key (i_usage e),
      option_key (i_dbus_object_path e))"

record RuntimeSnapshot =
  snap_machines :: "MachineEntry list"
  snap_images :: "ImageEntry list"

definition snapshot_new :: "MachineEntry list \<Rightarrow> ImageEntry list \<Rightarrow> RuntimeSnapshot" where
  "snapshot_new machines images =
     \<lparr>snap_machines =
        sort_key machine_key (map (\<lambda>m. m\<lparr>m_addresses := normalize (m_addresses m)\<rparr>) machines),
      snap_images = sort_key image_key images\<rparr>"

section \<open>Names\<close>

interpretation machine_name:
  validated_text is_valid_nspawn_hostname machine_name_new machine_as_str
proof
  fix x y :: MachineName
  assume "machine_as_str x = machine_as_str y"
  then show "x = y" by (cases x; cases y) simp
qed (simp_all add: machine_name_new_def)

interpretation guest_hostname:
  validated_text is_valid_nspawn_hostname guest_hostname_new guest_as_str
proof
  fix x y :: GuestHostname
  assume "guest_as_str x = guest_as_str y"
  then show "x = y" by (cases x; cases y) simp
qed (simp_all add: guest_hostname_new_def)

interpretation image_name:
  validated_text is_valid_image_name image_name_new image_as_str
proof
  fix x y :: ImageName
  assume "image_as_str x = image_as_str y"
  then show "x = y" by (cases x; cases y) simp
qed (simp_all add: image_name_new_def)

interpretation machine_class: lossless_text class_parse class_as_str
  by unfold_locales (simp add: class_parse_def)

interpretation machine_provider: lossless_text provider_parse provider_as_str
  by unfold_locales (simp add: provider_parse_def)

definition hostname_byte :: "char \<Rightarrow> bool" where
  "hostname_byte c \<longleftrightarrow> is_ascii_alphanumeric c \<or> c = CHR ''-'' \<or> c = CHR ''.''"

lemma hostname_bytes:
  assumes "is_valid_nspawn_hostname s" and "c \<in> set s"
  shows "hostname_byte c"
proof (cases "c = CHR ''.''")
  case False
  with assms(2) obtain w where "w \<in> set (split_on CHR ''.'' s)" "c \<in> set w"
    using split_on_members by metis
  with assms(1) show ?thesis
    by (auto simp: is_valid_nspawn_hostname_def list_all_iff valid_label_def hostname_byte_def)
qed (simp add: hostname_byte_def)

lemma hostname_byte_safe:
  assumes "hostname_byte c"
  shows "c \<noteq> CHR ''/''" and "32 \<le> byte c" and "byte c \<noteq> 127" and "byte c < 128"
  using assms by (auto simp: hostname_byte_def ascii_defs)

lemma hostname_no_leading_dot:
  "is_valid_nspawn_hostname s \<Longrightarrow> s \<noteq> [] \<and> hd s \<noteq> CHR ''.''"
  by (cases s) (auto simp: is_valid_nspawn_hostname_def)

lemma hostname_is_image_name:
  assumes "is_valid_nspawn_hostname s"
  shows "is_valid_image_name s"
proof -
  have ok: "c \<noteq> CHR ''/'' \<and> \<not> (byte c < 32 \<or> byte c = 127)" if "c \<in> set s" for c
    using hostname_byte_safe [OF hostname_bytes [OF assms that]] by auto
  have "length s \<le> 64" using assms by (simp add: is_valid_nspawn_hostname_def)
  moreover have "s \<noteq> ''.''" "s \<noteq> ''..''" "\<not> starts_with s ''.#''" "s \<noteq> []"
    using hostname_no_leading_dot [OF assms] by (cases s; auto)+
  ultimately show ?thesis
    using ok by (auto simp: is_valid_image_name_def list_ex_iff)
qed

text \<open>
  C38. A machine name that was accepted is safe to use as a path component and in a unit name: it
  has 1 to 64 bytes, all of them ASCII letters, digits, hyphens or dots, it is also an image name,
  and joining it to any directory whatever (relative, empty, the root, or with slashes at its end)
  adds exactly the name as one more level and never leads elsewhere.
\<close>

theorem machine_name_safe:
  assumes "machine_name_new s = Inr m"
  shows "machine_as_str m = s \<and> 1 \<le> length s \<and> length s \<le> 64 \<and> list_all hostname_byte s
    \<and> is_ok (image_name_new s)
    \<and> components (path_join dir s) = components dir @ [Normal s]"
proof -
  from assms have v: "is_valid_nspawn_hostname s" and m: "machine_as_str m = s"
    by (auto simp: machine_name.new_eq_Inr)
  from hostname_is_image_name [OF v] have i: "is_valid_image_name s" .
  then have "components (path_join dir s) = components dir @ [Normal s]"
    using components_join [of s dir] by (auto simp: is_valid_image_name_def)
  moreover have "1 \<le> length s"
    using hostname_no_leading_dot [OF v] by (cases s) auto
  ultimately show ?thesis
    using v m i hostname_bytes [OF v]
    by (auto simp: image_name.new_ok is_valid_nspawn_hostname_def list_all_iff)
qed

theorem machine_name_safe_witness:
  "machine_as_str (MachineName ''web-1'') = ''web-1''
   \<and> components (path_join ''/var/lib/machines'' ''web-1'')
     = components ''/var/lib/machines'' @ [Normal ''web-1'']
   \<and> components (path_join ''/'' ''web-1'') = [RootDir, Normal ''web-1'']"
proof -
  have "machine_name_new ''web-1'' = Inr (MachineName ''web-1'')" by code_simp
  moreover have "components ''/'' = [RootDir]" by code_simp
  ultimately show ?thesis
    using machine_name_safe [of "''web-1''" "MachineName ''web-1''" "''/var/lib/machines''"]
      machine_name_safe [of "''web-1''" "MachineName ''web-1''" "''/''"] by simp
qed

lemma systemd_nspawn_unit_inj: "systemd_nspawn_unit a = systemd_nspawn_unit b \<longleftrightarrow> a = b"
  by (cases a; cases b) (simp add: systemd_nspawn_unit_def)

lemma guest_hostname_resolve_default:
  assumes "machine_name_new s = Inr m"
  shows "guest_hostname_resolve [] m = Inr (GuestHostname s)"
  using assms by (simp add: guest_hostname_resolve_def guest_hostname.new_eq_Inr machine_name.new_eq_Inr)

lemma validate_optional_iff:
  "validate_optional s = Inr () \<longleftrightarrow> s = [] \<or> is_valid_nspawn_hostname s"
  by (auto simp: validate_optional_def guest_hostname_new_def)

text \<open>
  Whenever the wizard accepts an optional guest host name, the host name the guest gets on
  deployment exists and is valid, whichever machine it is resolved for.
\<close>

lemma guest_hostname_resolves:
  assumes "validate_optional configured = Inr ()" and "machine_name_new s = Inr m"
  shows "\<exists>h. guest_hostname_resolve configured m = Inr h \<and> is_valid_nspawn_hostname (guest_as_str h)
    \<and> guest_as_str h = (if configured = [] then s else configured)"
proof (cases "configured = []")
  case True
  then show ?thesis
    using assms guest_hostname_resolve_default [OF assms(2)] by (auto simp: machine_name.new_eq_Inr)
next
  case False
  with assms(1) have "is_valid_nspawn_hostname configured" by (auto simp: validate_optional_iff)
  with False show ?thesis
    by (auto simp: guest_hostname_resolve_def guest_hostname_new_def)
qed

lemma guest_hostname_resolves_witness:
  "\<exists>h. guest_hostname_resolve [] (MachineName ''web'') = Inr h \<and> guest_as_str h = ''web''"
proof -
  have "machine_name_new ''web'' = Inr (MachineName ''web'')" by code_simp
  then show ?thesis
    using guest_hostname_resolves [of "[]" "''web''" "MachineName ''web''"]
    by (auto simp: validate_optional_def)
qed

section \<open>Access\<close>

text \<open>
  Lasper grants itself the nspawn operations on an observed machine exactly when machined
  registered it as a container of systemd-nspawn under a valid name; every other machine is
  read-only, and the reason names what disqualifies it (the catch-all reason never occurs).
\<close>

lemma entry_access_exact:
  "(entry_access e = AccessNspawn \<longleftrightarrow>
      is_valid_nspawn_hostname (m_name e) \<and> m_class e = Container \<and> m_service e = Nspawn)
   \<and> (entry_access e = ReadOnly InvalidIdentity \<longleftrightarrow> \<not> is_valid_nspawn_hostname (m_name e))
   \<and> entry_access e \<noteq> ReadOnly (UnsupportedCombination c p)"
  by (cases "is_valid_nspawn_hostname (m_name e)"; cases "m_class e"; cases "m_service e")
    (simp_all add: entry_access_def entry_identity_def machine_name_new_def
      identity_access_def identity_is_nspawn_def)

lemma optimistic_nspawn_access:
  "entry_access (optimistic_nspawn s st) =
     (if is_valid_nspawn_hostname s then AccessNspawn else ReadOnly InvalidIdentity)"
  by (simp add: optimistic_nspawn_def class_parse_def provider_parse_def entry_access_def
      entry_identity_def machine_name_new_def identity_access_def identity_is_nspawn_def)

section \<open>States, addresses and the snapshot\<close>

lemma state_wire_roundtrip:
  "state_deserialize (state_serialize (state_from_systemd v)) = state_from_systemd v"
  by (simp add: state_deserialize_def state_from_systemd_def)

lemma state_label_classifies:
  "state_from_systemd (state_label (state_from_systemd v)) = state_from_systemd v"
  by (simp add: state_from_systemd_def)

definition normalized :: "MachineAddressObservation \<Rightarrow> bool" where
  "normalized obs \<longleftrightarrow>
     (case obs of Available as \<Rightarrow> sorted as \<and> distinct as \<and> [] \<notin> set as | _ \<Rightarrow> True)"

lemma sorted_remdups_adj_distinct:
  "sorted xs \<Longrightarrow> distinct (remdups_adj (xs :: 'a::linorder list))"
  by (induction xs rule: remdups_adj.induct) auto

lemma normalize_normalized: "normalized (normalize obs)"
  by (cases obs) (auto simp: normalized_def sorted_remdups_adj sorted_remdups_adj_distinct)

lemma normalize_id: "normalized obs \<Longrightarrow> normalize obs = obs"
proof (cases obs)
  case (Available as)
  assume "normalized obs"
  with Available have "sorted as" "distinct as" "[] \<notin> set as" by (auto simp: normalized_def)
  then have "filter (\<lambda>a. a \<noteq> []) as = as" by (induction as) auto
  with Available \<open>sorted as\<close> \<open>distinct as\<close> show ?thesis
    by (simp add: sorted_sort_id remdups_adj_distinct)
qed auto

lemma normalize_idem: "normalize (normalize obs) = normalize obs"
  by (rule normalize_id [OF normalize_normalized])

lemma normalize_keeps_addresses:
  "normalize (Available as) = Available bs \<Longrightarrow> set bs = set as - {[]}"
  by auto

lemma machine_key_inj: "inj machine_key"
  by (rule injI) (simp add: machine_key_def)

lemma option_key_inj: "option_key a = option_key b \<Longrightarrow> a = b"
  by (auto simp: option_key_def split: option.splits)

lemma image_key_inj: "inj image_key"
  by (rule injI) (auto simp: image_key_def dest!: option_key_inj)

lemma sort_key_canonical:
  fixes f :: "'a \<Rightarrow> 'k::linorder"
  assumes "inj f" and "mset xs = mset ys"
  shows "sort_key f xs = sort_key f ys"
proof (rule sort_key_inj_key_eq)
  show "mset xs = mset (sort_key f ys)" using assms(2) by simp
  show "inj_on f (set xs)" using assms(1) by (rule inj_on_subset) simp
qed simp

text \<open>
  The runtime snapshot is canonical: it lists exactly the machines and images it was given,
  sorted by the entries' orders, with every address observation normalised; and two observations
  that differ only in the order of the entries give the same snapshot, so that comparing
  snapshots detects exactly the changes.
\<close>

lemma snapshot_canonical:
  "sorted (map machine_key (snap_machines (snapshot_new ms is)))
   \<and> sorted (map image_key (snap_images (snapshot_new ms is)))
   \<and> list_all (\<lambda>m. normalized (m_addresses m)) (snap_machines (snapshot_new ms is))
   \<and> mset (map m_name (snap_machines (snapshot_new ms is))) = mset (map m_name ms)
   \<and> mset (snap_images (snapshot_new ms is)) = mset is
   \<and> (mset ms = mset ms' \<and> mset is = mset is' \<longrightarrow> snapshot_new ms is = snapshot_new ms' is')"
proof -
  let ?n = "\<lambda>m. m\<lparr>m_addresses := normalize (m_addresses m)\<rparr>"
  have "mset (map m_name (sort_key machine_key (map ?n ms))) = mset (map m_name ms)"
    by (simp add: image_mset.compositionality comp_def)
  moreover have "snapshot_new ms is = snapshot_new ms' is'" if "mset ms = mset ms'" "mset is = mset is'"
  proof -
    from that(1) have "mset (map ?n ms) = mset (map ?n ms')" by simp
    from sort_key_canonical [OF machine_key_inj this] sort_key_canonical [OF image_key_inj that(2)]
    show ?thesis unfolding snapshot_new_def by simp
  qed
  ultimately show ?thesis
    by (auto simp: snapshot_new_def list_all_iff normalize_normalized)
qed

lemma snapshot_canonical_witness:
  "snapshot_new [optimistic_nspawn ''a'' Running, optimistic_nspawn ''b'' Running] []
   = snapshot_new [optimistic_nspawn ''b'' Running, optimistic_nspawn ''a'' Running] []"
  using snapshot_canonical [of "[optimistic_nspawn ''a'' Running, optimistic_nspawn ''b'' Running]"
      "[]" "[optimistic_nspawn ''b'' Running, optimistic_nspawn ''a'' Running]" "[]"]
  by simp

end
