(* ===== verification/Operation_Registry.thy ===== *)
theory Operation_Registry
  imports Machine_Identity
begin

text \<open>
  In-process resource coordination (\<open>src/application/operations/registry.rs\<close>): the claims a
  request makes on machines, images and the systemd manager, the registry that admits or refuses
  them, and the reservation guard whose drop releases them.
\<close>

section \<open>The registry\<close>

datatype ResourceKey = NspawnKey string | ImageKey string | SystemdManager

definition for_machine :: "MachineName \<Rightarrow> ResourceKey" where
  "for_machine name = NspawnKey (machine_as_str name)"

definition for_image :: "ImageName \<Rightarrow> ResourceKey" where
  "for_image name =
     (case machine_name_new (image_as_str name) of
        Inr machine \<Rightarrow> for_machine machine
      | Inl _ \<Rightarrow> ImageKey (image_as_str name))"

datatype ResourceAccess = Shared | Exclusive

record ResourceClaim =
  c_key :: ResourceKey
  c_access :: ResourceAccess

definition claim_shared :: "ResourceKey \<Rightarrow> ResourceClaim" where
  "claim_shared k = \<lparr>c_key = k, c_access = Shared\<rparr>"

definition claim_exclusive :: "ResourceKey \<Rightarrow> ResourceClaim" where
  "claim_exclusive k = \<lparr>c_key = k, c_access = Exclusive\<rparr>"

datatype ResourceConflict = ResourceConflict ResourceKey

type_synonym claim_map = "(ResourceKey \<times> (ResourceAccess \<times> u64) list) list"

text \<open>The registry with its state lock: the operations below run while the lock is held.\<close>

record OperationRegistry =
  next_id :: u64
  reg_claims :: claim_map
  image_removals :: "(string \<times> u64) list"

record ResourceReservation =
  res_id :: u64
  res_keys :: "ResourceKey list"

definition registry_new :: OperationRegistry where
  "registry_new = \<lparr>next_id = 0, reg_claims = [], image_removals = []\<rparr>"

text \<open>
  Claims are merged per key (an exclusive claim absorbs a shared one) and sorted by the
  \<open>Debug\<close> text of the key. \<open>esc\<close> stands for the \<open>Debug\<close> escape of a string, whose Unicode tables are
  not modelled; every result holds for any \<open>esc\<close>.
\<close>

fun key_debug :: "(string \<Rightarrow> string) \<Rightarrow> ResourceKey \<Rightarrow> string" where
  "key_debug esc (NspawnKey s) = ''Nspawn('' @ esc s @ '')''"
| "key_debug esc (ImageKey s) = ''Image('' @ esc s @ '')''"
| "key_debug esc SystemdManager = ''SystemdManager''"

definition merge_claim ::
  "(ResourceKey \<times> ResourceAccess) list \<Rightarrow> ResourceClaim \<Rightarrow> (ResourceKey \<times> ResourceAccess) list" where
  "merge_claim m claim =
     AList.update (c_key claim)
       (case map_of m (c_key claim) of
          None \<Rightarrow> c_access claim
        | Some access \<Rightarrow> if c_access claim = Exclusive then Exclusive else access) m"

definition canonicalize :: "(string \<Rightarrow> string) \<Rightarrow> ResourceClaim list \<Rightarrow> ResourceClaim list" where
  "canonicalize esc claims =
     sort_key (\<lambda>claim. key_debug esc (c_key claim))
       (map (\<lambda>(k, a). \<lparr>c_key = k, c_access = a\<rparr>) (foldl merge_claim [] claims))"

definition claim_conflicts :: "claim_map \<Rightarrow> ResourceClaim \<Rightarrow> bool" where
  "claim_conflicts m claim =
     (case map_of m (c_key claim) of
        None \<Rightarrow> False
      | Some holders \<Rightarrow>
          list_ex (\<lambda>(held_access, _). held_access = Exclusive \<or> c_access claim = Exclusive) holders)"

definition push_claim :: "u64 \<Rightarrow> claim_map \<Rightarrow> ResourceClaim \<Rightarrow> claim_map" where
  "push_claim rid m claim =
     AList.update (c_key claim)
       ((case map_of m (c_key claim) of None \<Rightarrow> [] | Some holders \<Rightarrow> holders)
        @ [(c_access claim, rid)]) m"

definition reserve_inner ::
  "(string \<Rightarrow> string) \<Rightarrow> ResourceClaim list \<Rightarrow> string option \<Rightarrow> OperationRegistry \<Rightarrow>
     ResourceConflict + ResourceReservation \<times> OperationRegistry" where
  "reserve_inner esc claims image_removal reg =
     (let claims = canonicalize esc claims in
      case find (claim_conflicts (reg_claims reg)) claims of
        Some claim \<Rightarrow> Inl (ResourceConflict (c_key claim))
      | None \<Rightarrow>
          let rid = next_id reg + 1;
              reg = reg\<lparr>next_id := next_id reg + 1,
                        reg_claims := foldl (push_claim rid) (reg_claims reg) claims\<rparr>;
              reg = (case image_removal of
                       Some image_name \<Rightarrow>
                         reg\<lparr>image_removals := AList.update image_name rid (image_removals reg)\<rparr>
                     | None \<Rightarrow> reg)
          in Inr (\<lparr>res_id = rid, res_keys = map c_key claims\<rparr>, reg))"

definition reserve ::
  "(string \<Rightarrow> string) \<Rightarrow> ResourceClaim list \<Rightarrow> OperationRegistry \<Rightarrow>
     ResourceConflict + ResourceReservation \<times> OperationRegistry" where
  "reserve esc claims reg = reserve_inner esc claims None reg"

definition reserve_image_removal ::
  "(string \<Rightarrow> string) \<Rightarrow> string \<Rightarrow> ResourceClaim list \<Rightarrow> OperationRegistry \<Rightarrow>
     ResourceConflict + ResourceReservation \<times> OperationRegistry" where
  "reserve_image_removal esc image_name claims reg = reserve_inner esc claims (Some image_name) reg"

definition is_held :: "OperationRegistry \<Rightarrow> ResourceKey \<Rightarrow> bool" where
  "is_held reg key \<longleftrightarrow> map_of (reg_claims reg) key \<noteq> None"

definition active_image_names :: "OperationRegistry \<Rightarrow> string set" where
  "active_image_names reg = set (map fst (image_removals reg))"

definition release_key :: "u64 \<Rightarrow> claim_map \<Rightarrow> ResourceKey \<Rightarrow> claim_map" where
  "release_key rid m key =
     (case map_of m key of
        None \<Rightarrow> m
      | Some holders \<Rightarrow>
          let holders = filter (\<lambda>(_, owner). owner \<noteq> rid) holders in
          if holders = [] then AList.delete key m else AList.update key holders m)"

definition release :: "u64 \<Rightarrow> ResourceKey list \<Rightarrow> OperationRegistry \<Rightarrow> OperationRegistry" where
  "release rid keys reg =
     reg\<lparr>reg_claims := foldl (release_key rid) (reg_claims reg) keys,
         image_removals := filter (\<lambda>(_, owner). owner \<noteq> rid) (image_removals reg)\<rparr>"

definition drop_reservation ::
  "ResourceReservation \<Rightarrow> OperationRegistry \<Rightarrow> OperationRegistry" where
  "drop_reservation r reg = release (res_id r) (res_keys r) reg"

section \<open>Interface: a table of shared and exclusive claims\<close>

text \<open>
  What the clients of the registry (the daemon's dispatcher and its deployment jobs) rely on:
  \<open>holders\<close> is the table they reason about, \<open>needs\<close> the strongest access a request asks of a key and
  \<open>room\<close> that an identifier is left.
\<close>

locale claim_table =
  fixes holders :: "'s \<Rightarrow> 'k \<Rightarrow> (ResourceAccess \<times> u64) list"
    and needs :: "'c \<Rightarrow> 'k \<Rightarrow> ResourceAccess option"
    and admit :: "'c \<Rightarrow> 's \<Rightarrow> 'e + 'r \<times> 's"
    and discard :: "'r \<Rightarrow> 's \<Rightarrow> 's"
    and ident :: "'r \<Rightarrow> u64"
    and inv :: "'s \<Rightarrow> 'r list \<Rightarrow> bool"
    and room :: "'s \<Rightarrow> bool"
  assumes admit_refused: "(\<exists>e. admit c s = Inl e) \<longleftrightarrow>
      (\<exists>k a h i. needs c k = Some a \<and> (h, i) \<in> set (holders s k) \<and> (h = Exclusive \<or> a = Exclusive))"
    and admit_holders: "admit c s = Inr (r, s') \<Longrightarrow>
      holders s' k = holders s k @ (case needs c k of None \<Rightarrow> [] | Some a \<Rightarrow> [(a, ident r)])"
    and admit_inv: "inv s rs \<Longrightarrow> room s \<Longrightarrow> admit c s = Inr (r, s') \<Longrightarrow> inv s' (r # rs)"
    and discard_inv: "inv s rs \<Longrightarrow> r \<in> set rs \<Longrightarrow> inv (discard r s) (remove1 r rs)"
    and discard_holders: "inv s rs \<Longrightarrow> r \<in> set rs \<Longrightarrow>
      holders (discard r s) k = filter (\<lambda>(_, i). i \<noteq> ident r) (holders s k)"
    and admit_fresh: "inv s rs \<Longrightarrow> room s \<Longrightarrow> admit c s = Inr (r, s') \<Longrightarrow>
      ident r \<notin> snd ` set (holders s k)"
begin

lemma exclusive_blocks:
  assumes "admit c s = Inr (r, s')" and "needs c k = Some Exclusive" and "needs c' k = Some a"
  shows "\<exists>e. admit c' s' = Inl e"
proof -
  have "(Exclusive, ident r) \<in> set (holders s' k)"
    using admit_holders [OF assms(1), of k] assms(2) by simp
  with assms(3) show ?thesis by (auto simp: admit_refused)
qed

lemma any_blocks_exclusive:
  assumes "admit c s = Inr (r, s')" and "needs c k = Some a" and "needs c' k = Some Exclusive"
  shows "\<exists>e. admit c' s' = Inl e"
proof -
  have "(a, ident r) \<in> set (holders s' k)"
    using admit_holders [OF assms(1), of k] assms(2) by simp
  with assms(3) show ?thesis by (auto simp: admit_refused)
qed

lemma discard_undoes_admit:
  assumes "inv s rs" and "room s" and "admit c s = Inr (r, s')"
  shows "holders (discard r s') k = holders s k"
proof -
  have "inv s' (r # rs)" using assms by (rule admit_inv)
  then have "holders (discard r s') k = filter (\<lambda>(_, i). i \<noteq> ident r) (holders s' k)"
    by (rule discard_holders) simp
  moreover have "filter (\<lambda>(_, i). i \<noteq> ident r) (holders s k) = holders s k"
    using admit_fresh [OF assms, of k] by (force simp: filter_id_conv)
  ultimately show ?thesis
    using admit_holders [OF assms(3), of k] by (simp split: option.splits)
qed

lemma retry_after_discard:
  assumes "inv s rs" and "room s" and "admit c s = Inr (r, s')"
  shows "(\<exists>e. admit c' (discard r s') = Inl e) \<longleftrightarrow> (\<exists>e. admit c' s = Inl e)"
  using discard_undoes_admit [OF assms] by (simp add: admit_refused)

end

section \<open>The registry provides it\<close>

definition lookup_holders :: "claim_map \<Rightarrow> ResourceKey \<Rightarrow> (ResourceAccess \<times> u64) list" where
  "lookup_holders m k = (case map_of m k of None \<Rightarrow> [] | Some hs \<Rightarrow> hs)"

definition holders_of :: "OperationRegistry \<Rightarrow> ResourceKey \<Rightarrow> (ResourceAccess \<times> u64) list" where
  "holders_of reg k = lookup_holders (reg_claims reg) k"

text \<open>The strongest access that a list of claims asks of a key.\<close>

definition strongest :: "ResourceClaim list \<Rightarrow> ResourceKey \<Rightarrow> ResourceAccess option" where
  "strongest claims k =
     (if \<exists>c \<in> set claims. c_key c = k \<and> c_access c = Exclusive then Some Exclusive
      else if \<exists>c \<in> set claims. c_key c = k then Some Shared else None)"

lemma merge_claims_distinct:
  "distinct (map fst m) \<Longrightarrow> distinct (map fst (foldl merge_claim m claims))"
  by (induction claims arbitrary: m) (auto simp: merge_claim_def alist_distinct_update)

lemma merge_claims_lookup:
  "map_of (foldl merge_claim m claims) k =
     (case (map_of m k, strongest claims k) of
        (None, b) \<Rightarrow> b
      | (a, None) \<Rightarrow> a
      | (Some a, Some b) \<Rightarrow> Some (if b = Exclusive then Exclusive else a))"
proof (induction claims arbitrary: m)
  case Nil
  show ?case by (auto simp: strongest_def split: option.splits)
next
  case (Cons c claims)
  show ?case
    unfolding foldl_Cons Cons.IH
    by (cases "c_access c"; cases "map_of m k"; cases "c_key c = k")
      (auto simp: merge_claim_def strongest_def)
qed

lemma canonicalize_keys_distinct: "distinct (map c_key (canonicalize esc claims))"
proof -
  have "distinct (map c_key (map (\<lambda>(k, a). \<lparr>c_key = k, c_access = a\<rparr>) (foldl merge_claim [] claims)))"
    using merge_claims_distinct [of "[]" claims] by (simp add: comp_def case_prod_unfold)
  then show ?thesis
    unfolding canonicalize_def by (metis mset_map mset_sort mset_eq_imp_distinct_iff)
qed

lemma canonicalize_members:
  "c \<in> set (canonicalize esc claims) \<longleftrightarrow> strongest claims (c_key c) = Some (c_access c)"
proof -
  have "c \<in> set (canonicalize esc claims) \<longleftrightarrow>
    (c_key c, c_access c) \<in> set (foldl merge_claim [] claims)"
    by (cases c) (force simp: canonicalize_def)
  also have "\<dots> \<longleftrightarrow> map_of (foldl merge_claim [] claims) (c_key c) = Some (c_access c)"
    using merge_claims_distinct [of "[]" claims] by simp
  finally show ?thesis by (simp add: merge_claims_lookup)
qed

lemma canonicalize_keys:
  "k \<in> c_key ` set (canonicalize esc claims) \<longleftrightarrow> strongest claims k \<noteq> None"
proof
  assume "k \<in> c_key ` set (canonicalize esc claims)"
  then show "strongest claims k \<noteq> None" by (auto simp: canonicalize_members)
next
  assume "strongest claims k \<noteq> None"
  then obtain a where "strongest claims k = Some a" by auto
  then have "\<lparr>c_key = k, c_access = a\<rparr> \<in> set (canonicalize esc claims)"
    by (simp add: canonicalize_members)
  then show "k \<in> c_key ` set (canonicalize esc claims)" by force
qed

lemma claim_conflicts_iff:
  "claim_conflicts m c \<longleftrightarrow>
     (\<exists>h i. (h, i) \<in> set (lookup_holders m (c_key c)) \<and> (h = Exclusive \<or> c_access c = Exclusive))"
  by (auto simp: claim_conflicts_def lookup_holders_def list_ex_iff split: option.splits)

lemma push_claims_lookup:
  assumes "distinct (map c_key cs)"
  shows "lookup_holders (foldl (push_claim rid) m cs) k = lookup_holders m k @
    (case find (\<lambda>c. c_key c = k) cs of None \<Rightarrow> [] | Some c \<Rightarrow> [(c_access c, rid)])"
  using assms
proof (induction cs arbitrary: m)
  case (Cons c cs)
  have "lookup_holders (push_claim rid m c) k =
    lookup_holders m k @ (if c_key c = k then [(c_access c, rid)] else [])"
    by (auto simp: push_claim_def lookup_holders_def split: option.splits)
  moreover have "find (\<lambda>c. c_key c = k) cs = None" if "c_key c = k"
    using Cons.prems that by (auto simp: find_None_iff image_iff)
  ultimately show ?case
    using Cons by (auto simp del: not_None_eq)
qed simp

lemma find_canonical:
  "(case find (\<lambda>c. c_key c = k) (canonicalize esc claims) of
      None \<Rightarrow> [] | Some c \<Rightarrow> [(c_access c, rid)]) =
   (case strongest claims k of None \<Rightarrow> [] | Some a \<Rightarrow> [(a, rid)])"
proof (cases "find (\<lambda>c. c_key c = k) (canonicalize esc claims)")
  case None
  then have "strongest claims k = None"
    using canonicalize_keys [of k esc claims] by (auto simp: find_None_iff)
  with None show ?thesis by simp
next
  case (Some c)
  then have "c \<in> set (canonicalize esc claims)" "c_key c = k"
    by (auto simp: find_Some_iff)
  with Some show ?thesis by (auto simp: canonicalize_members)
qed

lemma release_key_lookup:
  "lookup_holders (release_key rid m key) k =
     (if k = key then filter (\<lambda>(_, owner). owner \<noteq> rid) (lookup_holders m k)
      else lookup_holders m k)"
  by (auto simp: release_key_def lookup_holders_def Let_def split: option.splits)

lemma release_keys_lookup:
  "lookup_holders (foldl (release_key rid) m keys) k =
     (if k \<in> set keys then filter (\<lambda>(_, owner). owner \<noteq> rid) (lookup_holders m k)
      else lookup_holders m k)"
  by (induction keys arbitrary: m) (auto simp: release_key_lookup intro!: filter_cong)

text \<open>No key of the map is left without a holder.\<close>

definition wf_claims :: "claim_map \<Rightarrow> bool" where
  "wf_claims m \<longleftrightarrow> distinct (map fst m) \<and> (\<forall>k. map_of m k \<noteq> Some [])"

lemma push_claims_wf: "wf_claims m \<Longrightarrow> wf_claims (foldl (push_claim rid) m cs)"
proof (induction cs arbitrary: m)
  case (Cons c cs)
  have "wf_claims (push_claim rid m c)"
    using Cons.prems
    by (auto simp: wf_claims_def push_claim_def alist_distinct_update
        simp del: map_of_eq_Some_iff)
  with Cons.IH show ?case by simp
qed simp

lemma release_keys_wf: "wf_claims m \<Longrightarrow> wf_claims (foldl (release_key rid) m keys)"
proof (induction keys arbitrary: m)
  case (Cons k keys)
  have "wf_claims (release_key rid m k)"
    using Cons.prems
    by (auto simp: wf_claims_def release_key_def Let_def alist_distinct_update
        alist_distinct_delete simp del: map_of_eq_Some_iff split: option.splits)
  with Cons.IH show ?case by simp
qed simp

lemma wf_claims_empty:
  assumes "wf_claims m" and "\<And>k. lookup_holders m k = []"
  shows "m = []"
proof (cases m)
  case (Cons p m')
  with assms(2) [of "fst p"] have "snd p = []" by (simp add: lookup_holders_def)
  with Cons have "map_of m (fst p) = Some []" by simp
  with assms(1) show ?thesis by (simp add: wf_claims_def)
qed simp

lemma reserve_inner_Inl:
  "(\<exists>e. reserve_inner esc cs rm reg = Inl e) \<longleftrightarrow>
   (\<exists>k a h i. strongest cs k = Some a \<and> (h, i) \<in> set (holders_of reg k)
      \<and> (h = Exclusive \<or> a = Exclusive))"
proof -
  have "(\<exists>e. reserve_inner esc cs rm reg = Inl e) \<longleftrightarrow>
    (\<exists>c \<in> set (canonicalize esc cs). claim_conflicts (reg_claims reg) c)"
    by (auto simp: reserve_inner_def Let_def find_None_iff split: option.splits)
      (metis find_Some_iff nth_mem option.distinct(1) find_None_iff)
  also have "\<dots> \<longleftrightarrow> (\<exists>k a h i. strongest cs k = Some a \<and> (h, i) \<in> set (holders_of reg k)
      \<and> (h = Exclusive \<or> a = Exclusive))" (is "_ \<longleftrightarrow> ?R")
  proof
    assume ?R
    then obtain k a h i where *: "strongest cs k = Some a" "(h, i) \<in> set (holders_of reg k)"
      "h = Exclusive \<or> a = Exclusive" by blast
    let ?c = "\<lparr>c_key = k, c_access = a\<rparr>"
    from * have "?c \<in> set (canonicalize esc cs)" "claim_conflicts (reg_claims reg) ?c"
      by (auto simp: canonicalize_members claim_conflicts_iff holders_of_def)
    then show "\<exists>c \<in> set (canonicalize esc cs). claim_conflicts (reg_claims reg) c" by blast
  next
    assume "\<exists>c \<in> set (canonicalize esc cs). claim_conflicts (reg_claims reg) c"
    then show ?R
      unfolding claim_conflicts_iff holders_of_def Bex_def canonicalize_members by blast
  qed
  finally show ?thesis .
qed

lemma reserve_inner_Inr:
  assumes "reserve_inner esc cs rm reg = Inr (r, reg')"
  shows "res_id r = next_id reg + 1" and "next_id reg' = next_id reg + 1"
    and "res_keys r = map c_key (canonicalize esc cs)"
    and "reg_claims reg' = foldl (push_claim (res_id r)) (reg_claims reg) (canonicalize esc cs)"
    and "image_removals reg' = (case rm of None \<Rightarrow> image_removals reg
      | Some n \<Rightarrow> AList.update n (res_id r) (image_removals reg))"
  using assms by (auto simp: reserve_inner_def Let_def split: option.splits)

lemma reserve_inner_holders:
  "reserve_inner esc cs rm reg = Inr (r, reg') \<Longrightarrow>
   holders_of reg' k = holders_of reg k @
     (case strongest cs k of None \<Rightarrow> [] | Some a \<Rightarrow> [(a, res_id r)])"
  using push_claims_lookup [OF canonicalize_keys_distinct] find_canonical
  by (simp add: holders_of_def reserve_inner_Inr(4))

lemma reserve_inner_keys:
  "reserve_inner esc cs rm reg = Inr (r, reg') \<Longrightarrow>
   k \<in> set (res_keys r) \<longleftrightarrow> strongest cs k \<noteq> None"
  using canonicalize_keys [of k esc cs] by (simp add: reserve_inner_Inr(3))

lemma drop_holders:
  "holders_of (drop_reservation r reg) k =
     (if k \<in> set (res_keys r) then filter (\<lambda>(_, owner). owner \<noteq> res_id r) (holders_of reg k)
      else holders_of reg k)"
  by (simp add: holders_of_def drop_reservation_def release_def release_keys_lookup)

subsection \<open>The invariant\<close>

text \<open>
  \<open>live\<close> is the list of the reservations that have not been dropped. Every entry of the table
  belongs to one of them and the other way round, no exclusive holder shares its key, and the
  images shown as being removed belong to live reservations.
\<close>

definition exclusive_alone :: "(ResourceAccess \<times> u64) list \<Rightarrow> bool" where
  "exclusive_alone hs \<longleftrightarrow> (\<forall>i. (Exclusive, i) \<in> set hs \<longrightarrow> hs = [(Exclusive, i)])"

definition registry_inv :: "OperationRegistry \<Rightarrow> ResourceReservation list \<Rightarrow> bool" where
  "registry_inv reg live \<longleftrightarrow>
     wf_claims (reg_claims reg)
     \<and> (\<forall>k. exclusive_alone (holders_of reg k))
     \<and> (\<forall>k i. i \<in> snd ` set (holders_of reg k) \<longleftrightarrow>
          (\<exists>r \<in> set live. res_id r = i \<and> k \<in> set (res_keys r)))
     \<and> snd ` set (image_removals reg) \<subseteq> res_id ` set live
     \<and> distinct (map res_id live)
     \<and> (\<forall>r \<in> set live. unat (res_id r) \<le> unat (next_id reg))"

definition id_available :: "OperationRegistry \<Rightarrow> bool" where
  "id_available reg \<longleftrightarrow> unat (next_id reg) + 1 < 2 ^ 64"

lemma next_id_succ: "id_available reg \<Longrightarrow> unat (next_id reg + 1) = unat (next_id reg) + 1"
  by (simp add: id_available_def unat_word_ariths)

lemma registry_inv_new: "registry_inv registry_new []"
  by (simp add: registry_inv_def registry_new_def wf_claims_def holders_of_def lookup_holders_def
      exclusive_alone_def)

lemma registry_inv_holders:
  "registry_inv reg live \<Longrightarrow>
   i \<in> snd ` set (holders_of reg k) \<longleftrightarrow> (\<exists>r \<in> set live. res_id r = i \<and> k \<in> set (res_keys r))"
  by (simp add: registry_inv_def)

lemma registry_inv_fresh:
  assumes "registry_inv reg live" and "id_available reg"
  shows "next_id reg + 1 \<notin> res_id ` set live" and "next_id reg + 1 \<notin> snd ` set (holders_of reg k)"
proof -
  show *: "next_id reg + 1 \<notin> res_id ` set live"
  proof
    assume "next_id reg + 1 \<in> res_id ` set live"
    then obtain r where r: "r \<in> set live" "res_id r = next_id reg + 1" by auto
    with assms(1) have "unat (res_id r) \<le> unat (next_id reg)" by (auto simp: registry_inv_def)
    with r(2) next_id_succ [OF assms(2)] show False by simp
  qed
  then show "next_id reg + 1 \<notin> snd ` set (holders_of reg k)"
    unfolding registry_inv_holders [OF assms(1)] by (auto simp: image_iff)
qed

lemma exclusive_alone_admit:
  assumes "exclusive_alone hs" and "\<forall>(h, i) \<in> set hs. h \<noteq> Exclusive \<and> a \<noteq> Exclusive"
  shows "exclusive_alone (hs @ [(a, j)])"
  using assms by (cases hs) (auto simp: exclusive_alone_def)

lemma exclusive_alone_filter: "exclusive_alone hs \<Longrightarrow> exclusive_alone (filter P hs)"
  by (auto simp: exclusive_alone_def)

lemma snd_filter_owner:
  "i \<in> snd ` set (filter (\<lambda>(_, owner). owner \<noteq> j) hs) \<longleftrightarrow> i \<in> snd ` set hs \<and> i \<noteq> j"
  by force

lemma reserve_inner_inv:
  assumes inv: "registry_inv reg live" and room: "id_available reg"
    and ok: "reserve_inner esc cs rm reg = Inr (r, reg')"
  shows "registry_inv reg' (r # live)"
proof -
  note eff = reserve_inner_Inr [OF ok]
  have "wf_claims (reg_claims reg')"
    using inv by (simp add: registry_inv_def eff(4) push_claims_wf)
  moreover have "exclusive_alone (holders_of reg' k)" for k
  proof (cases "strongest cs k")
    case None
    then show ?thesis
      using inv by (simp add: reserve_inner_holders [OF ok] registry_inv_def)
  next
    case (Some a)
    have "\<not> (\<exists>e. reserve_inner esc cs rm reg = Inl e)" using ok by simp
    with Some have "\<forall>(h, i) \<in> set (holders_of reg k). h \<noteq> Exclusive \<and> a \<noteq> Exclusive"
      unfolding reserve_inner_Inl by blast
    with inv Some show ?thesis
      by (simp add: reserve_inner_holders [OF ok] registry_inv_def exclusive_alone_admit)
  qed
  moreover have "i \<in> snd ` set (holders_of reg' k) \<longleftrightarrow>
      (\<exists>r \<in> set (r # live). res_id r = i \<and> k \<in> set (res_keys r))" for k i
    using inv reserve_inner_keys [OF ok, of k]
    by (cases "strongest cs k") (auto simp: reserve_inner_holders [OF ok] registry_inv_def)
  moreover have "snd ` set (image_removals reg') \<subseteq> res_id ` set (r # live)"
  proof
    fix i
    assume "i \<in> snd ` set (image_removals reg')"
    then obtain n where "(n, i) \<in> set (image_removals reg')" by auto
    then have "i = res_id r \<or> (n, i) \<in> set (image_removals reg)"
      by (cases rm) (auto simp: eff(5) dest: set_alist_update)
    with inv show "i \<in> res_id ` set (r # live)" by (force simp: registry_inv_def)
  qed
  moreover have "distinct (map res_id (r # live))"
    using inv registry_inv_fresh(1) [OF inv room] by (simp add: registry_inv_def eff(1))
  moreover have "\<forall>r \<in> set (r # live). unat (res_id r) \<le> unat (next_id reg')"
    using inv by (auto simp: registry_inv_def eff(1,2) next_id_succ [OF room])
  ultimately show ?thesis unfolding registry_inv_def by blast
qed

lemma remove1_unique:
  "distinct (map res_id live) \<Longrightarrow> r \<in> set live \<Longrightarrow>
   x \<in> set (remove1 r live) \<longleftrightarrow> x \<in> set live \<and> res_id x \<noteq> res_id r"
  by (induction live) (auto simp: image_iff)

lemma drop_holders_live:
  assumes "registry_inv reg live" and "r \<in> set live"
  shows "holders_of (drop_reservation r reg) k =
    filter (\<lambda>(_, owner). owner \<noteq> res_id r) (holders_of reg k)"
proof (cases "k \<in> set (res_keys r)")
  case False
  have "res_id r \<notin> snd ` set (holders_of reg k)"
  proof
    assume "res_id r \<in> snd ` set (holders_of reg k)"
    then obtain r' where "r' \<in> set live" "res_id r' = res_id r" "k \<in> set (res_keys r')"
      unfolding registry_inv_holders [OF assms(1)] by blast
    moreover have "inj_on res_id (set live)"
      using assms(1) by (simp add: registry_inv_def distinct_map)
    ultimately show False using assms(2) False by (auto dest: inj_onD)
  qed
  then have "filter (\<lambda>(_, owner). owner \<noteq> res_id r) (holders_of reg k) = holders_of reg k"
    by (force simp: filter_id_conv)
  with False show ?thesis by (simp add: drop_holders)
qed (simp add: drop_holders)

lemma drop_reservation_inv:
  assumes inv: "registry_inv reg live" and r: "r \<in> set live"
  shows "registry_inv (drop_reservation r reg) (remove1 r live)"
proof -
  have d: "distinct (map res_id live)" using inv by (simp add: registry_inv_def)
  note mem = remove1_unique [OF d r]
  note reg_eqs = drop_reservation_def release_def
  have "wf_claims (reg_claims (drop_reservation r reg))"
    using inv by (simp add: registry_inv_def reg_eqs release_keys_wf)
  moreover have "exclusive_alone (holders_of (drop_reservation r reg) k)" for k
    using inv by (simp add: drop_holders_live [OF inv r] registry_inv_def exclusive_alone_filter)
  moreover have "i \<in> snd ` set (holders_of (drop_reservation r reg) k) \<longleftrightarrow>
      (\<exists>x \<in> set (remove1 r live). res_id x = i \<and> k \<in> set (res_keys x))" for k i
    unfolding drop_holders_live [OF inv r] snd_filter_owner registry_inv_holders [OF inv] Bex_def mem
    by auto
  moreover have "snd ` set (image_removals (drop_reservation r reg)) \<subseteq> res_id ` set (remove1 r live)"
    using inv by (force simp: registry_inv_def reg_eqs mem image_iff)
  moreover have "distinct (map res_id (remove1 r live))"
    using d by (auto simp: distinct_map intro: inj_on_subset)
  moreover have "\<forall>x \<in> set (remove1 r live). unat (res_id x) \<le> unat (next_id (drop_reservation r reg))"
    using inv by (auto simp: registry_inv_def reg_eqs mem)
  ultimately show ?thesis unfolding registry_inv_def by blast
qed

text \<open>
  A request, as the clients make it: the claims and, for an image removal, the name to show.
\<close>

interpretation registry:
  claim_table holders_of "\<lambda>(claims, _). strongest claims"
    "\<lambda>(claims, removal). reserve_inner esc claims removal" drop_reservation res_id
    registry_inv id_available
proof (unfold_locales, goal_cases)
  case (1 c s)
  show ?case by (cases c) (simp add: reserve_inner_Inl)
next
  case (2 c s r s' k)
  then show ?case by (cases c) (simp add: reserve_inner_holders)
next
  case (3 s rs c r s')
  then show ?case by (cases c) (auto intro: reserve_inner_inv)
next
  case (4 s rs r)
  then show ?case by (rule drop_reservation_inv)
next
  case (5 s rs r k)
  then show ?case by (rule drop_holders_live)
next
  case (6 s rs c r s' k)
  then show ?case
    using registry_inv_fresh(2) by (cases c) (simp add: reserve_inner_Inr(1))
qed

section \<open>Histories of the registry\<close>

text \<open>
  The registry as its clients drive it, with the reservations that are alive: any sequence of
  reservations and drops, as long as fewer than \<open>2 ^ 64 - 1\<close> reservations were ever made. A refused
  reservation is no step, since it changes nothing.
\<close>

inductive registry_run ::
  "(string \<Rightarrow> string) \<Rightarrow> OperationRegistry \<Rightarrow> ResourceReservation list \<Rightarrow> bool"
  for esc :: "string \<Rightarrow> string" where
  Start: "registry_run esc registry_new []"
| Admit: "registry_run esc reg live \<Longrightarrow> id_available reg \<Longrightarrow>
    reserve_inner esc claims removal reg = Inr (r, reg') \<Longrightarrow> registry_run esc reg' (r # live)"
| Discard: "registry_run esc reg live \<Longrightarrow> r \<in> set live \<Longrightarrow>
    registry_run esc (drop_reservation r reg) (remove1 r live)"

lemma registry_run_inv: "registry_run esc reg live \<Longrightarrow> registry_inv reg live"
  by (induction rule: registry_run.induct)
    (auto intro: registry_inv_new reserve_inner_inv drop_reservation_inv)

text \<open>
  C3. Mutual exclusion, over every history of the registry: each live reservation holds every key
  it asked for, and whenever two live reservations hold the same key, every holder of that key is
  shared. So an exclusive claim is never held together with another claim on the same resource.
\<close>

theorem registry_exclusion:
  assumes "registry_run esc reg live" and "r \<in> set live" and "k \<in> set (res_keys r)"
  shows "res_id r \<in> snd ` set (holders_of reg k) \<and> is_held reg k
    \<and> (\<forall>r'. r' \<in> set live \<and> r' \<noteq> r \<and> k \<in> set (res_keys r') \<longrightarrow>
         fst ` set (holders_of reg k) = {Shared})"
proof -
  note inv = registry_run_inv [OF assms(1)]
  from assms(2,3) have h: "res_id r \<in> snd ` set (holders_of reg k)"
    unfolding registry_inv_holders [OF inv] by blast
  have "fst ` set (holders_of reg k) = {Shared}"
    if r': "r' \<in> set live" "r' \<noteq> r" "k \<in> set (res_keys r')" for r'
  proof -
    from r'(1,3) have h': "res_id r' \<in> snd ` set (holders_of reg k)"
      unfolding registry_inv_holders [OF inv] by blast
    have "inj_on res_id (set live)" using inv by (simp add: registry_inv_def distinct_map)
    with assms(2) r'(1,2) have ne: "res_id r' \<noteq> res_id r" by (auto dest: inj_onD)
    have "(Exclusive, i) \<notin> set (holders_of reg k)" for i
    proof
      assume "(Exclusive, i) \<in> set (holders_of reg k)"
      with inv have "holders_of reg k = [(Exclusive, i)]"
        by (simp add: registry_inv_def exclusive_alone_def)
      with h h' ne show False by simp
    qed
    then have "a = Shared" if "(a, i) \<in> set (holders_of reg k)" for a i
      using that by (cases a) auto
    with h show ?thesis by force
  qed
  moreover have "is_held reg k"
    using h by (cases "map_of (reg_claims reg) k")
      (simp_all add: is_held_def holders_of_def lookup_holders_def)
  ultimately show ?thesis using h by blast
qed

definition example_esc :: "string \<Rightarrow> string" where
  "example_esc s = ''\"'' @ s @ ''\"''"

definition example_run :: "OperationRegistry \<times> ResourceReservation list" where
  "example_run =
     (case reserve example_esc [claim_shared (NspawnKey ''base'')] registry_new of
        Inr (r, reg) \<Rightarrow>
          (case reserve example_esc [claim_shared (NspawnKey ''base'')] reg of
             Inr (r', reg') \<Rightarrow> (reg', [r', r])
           | Inl _ \<Rightarrow> (reg, [r]))
      | Inl _ \<Rightarrow> (registry_new, []))"

lemma example_run_eq:
  "example_run =
    (\<lparr>next_id = 2, reg_claims = [(NspawnKey ''base'', [(Shared, 1), (Shared, 2)])],
      image_removals = []\<rparr>,
     [\<lparr>res_id = 2, res_keys = [NspawnKey ''base'']\<rparr>,
      \<lparr>res_id = 1, res_keys = [NspawnKey ''base'']\<rparr>])"
  by code_simp

lemma example_run_run: "registry_run example_esc (fst example_run) (snd example_run)"
proof -
  let ?r1 = "\<lparr>res_id = 1, res_keys = [NspawnKey ''base'']\<rparr> :: ResourceReservation"
  let ?g1 = "\<lparr>next_id = 1, reg_claims = [(NspawnKey ''base'', [(Shared, 1)])],
    image_removals = []\<rparr> :: OperationRegistry"
  have "reserve_inner example_esc [claim_shared (NspawnKey ''base'')] None registry_new = Inr (?r1, ?g1)"
    by code_simp
  moreover have "id_available registry_new" by (simp add: id_available_def registry_new_def)
  ultimately have "registry_run example_esc ?g1 [?r1]" using Admit [OF Start] by blast
  moreover have "reserve_inner example_esc [claim_shared (NspawnKey ''base'')] None ?g1 =
    Inr (hd (snd example_run), fst example_run)"
    by code_simp
  ultimately have "registry_run example_esc (fst example_run) (hd (snd example_run) # [?r1])"
    using Admit by (simp add: id_available_def)
  then show ?thesis by (simp add: example_run_eq)
qed

theorem registry_exclusion_witness:
  "fst ` set (holders_of (fst example_run) (NspawnKey ''base'')) = {Shared}"
proof -
  let ?r1 = "\<lparr>res_id = 1, res_keys = [NspawnKey ''base'']\<rparr> :: ResourceReservation"
  let ?r2 = "\<lparr>res_id = 2, res_keys = [NspawnKey ''base'']\<rparr> :: ResourceReservation"
  have live: "snd example_run = [?r2, ?r1]" by (simp add: example_run_eq)
  have r1: "?r1 \<in> set (snd example_run) \<and> ?r1 \<noteq> ?r2 \<and> NspawnKey ''base'' \<in> set (res_keys ?r1)"
    by (simp add: live)
  have "?r2 \<in> set (snd example_run)" "NspawnKey ''base'' \<in> set (res_keys ?r2)"
    by (simp_all add: live)
  from registry_exclusion [OF example_run_run this] r1 show ?thesis by metis
qed

lemma registry_inv_empty:
  assumes "registry_inv reg []"
  shows "reg_claims reg = [] \<and> active_image_names reg = {}"
proof -
  have "holders_of reg k = []" for k
    using registry_inv_holders [OF assms, of _ k] by (cases "holders_of reg k") auto
  then have "reg_claims reg = []"
    using assms wf_claims_empty by (simp add: registry_inv_def holders_of_def)
  then show ?thesis using assms by (auto simp: registry_inv_def active_image_names_def)
qed

text \<open>
  C30. Nothing leaks: once every reservation of a history has been dropped, no key is held and no
  image is shown as being removed, whatever the order of the drops.
\<close>

theorem registry_no_leak:
  assumes "registry_run esc reg []"
  shows "reg_claims reg = [] \<and> active_image_names reg = {}"
  using registry_run_inv [OF assms] by (rule registry_inv_empty)

theorem registry_no_leak_witness:
  "reg_claims (drop_reservation \<lparr>res_id = 1, res_keys = [NspawnKey ''base'']\<rparr>
     (drop_reservation \<lparr>res_id = 2, res_keys = [NspawnKey ''base'']\<rparr> (fst example_run))) = []"
proof -
  let ?r1 = "\<lparr>res_id = 1, res_keys = [NspawnKey ''base'']\<rparr> :: ResourceReservation"
  let ?r2 = "\<lparr>res_id = 2, res_keys = [NspawnKey ''base'']\<rparr> :: ResourceReservation"
  have "snd example_run = [?r2, ?r1]" by (simp add: example_run_eq)
  with example_run_run have "registry_run example_esc (fst example_run) [?r2, ?r1]" by simp
  from Discard [OF this, of ?r2]
  have "registry_run example_esc (drop_reservation ?r2 (fst example_run)) [?r1]" by simp
  from Discard [OF this, of ?r1]
  have "registry_run example_esc (drop_reservation ?r1 (drop_reservation ?r2 (fst example_run))) []"
    by simp
  then show ?thesis using registry_no_leak by blast
qed

text \<open>
  C31. A reservation is refused exactly when one of its keys is held and either side is exclusive,
  and the conflict it reports names such a key; when it is admitted it gets what it asked for.
\<close>

theorem reserve_exact:
  "(case reserve esc claims reg of
      Inl (ResourceConflict k) \<Rightarrow>
        \<exists>a h i. strongest claims k = Some a \<and> (h, i) \<in> set (holders_of reg k)
          \<and> (h = Exclusive \<or> a = Exclusive)
    | Inr (r, reg') \<Rightarrow>
        (\<forall>k a h i. strongest claims k = Some a \<and> (h, i) \<in> set (holders_of reg k) \<longrightarrow>
           h = Shared \<and> a = Shared)
        \<and> (\<forall>k. holders_of reg' k = holders_of reg k @
             (case strongest claims k of None \<Rightarrow> [] | Some a \<Rightarrow> [(a, res_id r)])))"
proof (cases "reserve esc claims reg")
  case (Inl e)
  then obtain c where c: "find (claim_conflicts (reg_claims reg)) (canonicalize esc claims) = Some c"
    and e: "e = ResourceConflict (c_key c)"
    by (auto simp: reserve_def reserve_inner_def Let_def split: option.splits)
  then have "c \<in> set (canonicalize esc claims)" "claim_conflicts (reg_claims reg) c"
    by (auto simp: find_Some_iff)
  then have "strongest claims (c_key c) = Some (c_access c)"
    "\<exists>h i. (h, i) \<in> set (holders_of reg (c_key c)) \<and> (h = Exclusive \<or> c_access c = Exclusive)"
    unfolding canonicalize_members claim_conflicts_iff holders_of_def by auto
  with Inl e show ?thesis by auto
next
  case (Inr p)
  obtain r reg' where p: "p = (r, reg')" by (cases p)
  with Inr have ok: "reserve_inner esc claims None reg = Inr (r, reg')" by (simp add: reserve_def)
  then have "\<not> (\<exists>e. reserve_inner esc claims None reg = Inl e)" by simp
  then have *: "h \<noteq> Exclusive \<and> a \<noteq> Exclusive"
    if "strongest claims k = Some a" "(h, i) \<in> set (holders_of reg k)" for k a h i
    using that unfolding reserve_inner_Inl by blast
  have "h = Shared \<and> a = Shared"
    if "strongest claims k = Some a" "(h, i) \<in> set (holders_of reg k)" for k a h i
    using * [OF that] by (cases h; cases a) auto
  then show ?thesis
    using Inr p reserve_inner_holders [OF ok] by auto
qed

theorem reserve_exact_witness:
  "\<exists>a h i. strongest [claim_exclusive (NspawnKey ''base'')] (NspawnKey ''base'') = Some a
     \<and> (h, i) \<in> set (holders_of (fst example_run) (NspawnKey ''base''))
     \<and> (h = Exclusive \<or> a = Exclusive)"
proof -
  have "reserve example_esc [claim_exclusive (NspawnKey ''base'')] (fst example_run) =
    Inl (ResourceConflict (NspawnKey ''base''))"
    by code_simp
  then show ?thesis
    using reserve_exact [where esc = example_esc and reg = "fst example_run"
        and claims = "[claim_exclusive (NspawnKey ''base'')]"]
    by simp
qed

text \<open>
  Dropping a reservation undoes it: the table of holders is the one before the reservation, so
  any later request is refused or admitted exactly as if the reservation had never been made.
\<close>

lemma reserve_drop_roundtrip:
  assumes "registry_run esc reg live" and "id_available reg"
    and "reserve_inner esc claims removal reg = Inr (r, reg')"
  shows "holders_of (drop_reservation r reg') k = holders_of reg k
    \<and> is_ok (reserve esc' later (drop_reservation r reg')) = is_ok (reserve esc' later reg)"
proof -
  note inv = registry_run_inv [OF assms(1)]
  have ok: "(case (claims, removal) of (c, rm) \<Rightarrow> reserve_inner esc c rm) reg = Inr (r, reg')"
    using assms(3) by simp
  have h: "holders_of (drop_reservation r reg') k = holders_of reg k" for k
    using registry.discard_undoes_admit [OF inv assms(2) ok] .
  have "(\<exists>e. reserve esc' later (drop_reservation r reg') = Inl e) \<longleftrightarrow>
    (\<exists>e. reserve esc' later reg = Inl e)"
    unfolding reserve_def reserve_inner_Inl h ..
  then show ?thesis
    using h by (cases "reserve esc' later (drop_reservation r reg')"; cases "reserve esc' later reg") auto
qed

lemma reserve_drop_roundtrip_witness:
  "holders_of (drop_reservation \<lparr>res_id = 1, res_keys = [SystemdManager]\<rparr>
      \<lparr>next_id = 1, reg_claims = [(SystemdManager, [(Exclusive, 1)])], image_removals = []\<rparr>)
      SystemdManager = holders_of registry_new SystemdManager"
proof -
  have "reserve_inner example_esc [claim_exclusive SystemdManager] None registry_new =
    Inr (\<lparr>res_id = 1, res_keys = [SystemdManager]\<rparr>,
      \<lparr>next_id = 1, reg_claims = [(SystemdManager, [(Exclusive, 1)])], image_removals = []\<rparr>)"
    by code_simp
  moreover have "id_available registry_new" by (simp add: id_available_def registry_new_def)
  ultimately show ?thesis
    using reserve_drop_roundtrip [OF Start, where k = SystemdManager] by blast
qed

end
