(* ===== verification/Request_Claims.thy ===== *)
theory Request_Claims
  imports Operation_Registry
begin

text \<open>
  The closed inventory of methods on the daemon's control channel (\<open>src/ipc/protocol/mod.rs\<close>) and the
  claims the dispatcher takes for the duration of each request (\<open>src/daemon/dispatch/claims.rs\<close>,
  with the \<open>resource_claims\<close> methods of the operations it decodes).
\<close>

section \<open>The requests of the control channel\<close>

text \<open>
  The operations that \<open>resource_claims\<close> looks at, with the targets it reads from them; the remaining
  fields of the requests do not influence the claims.
\<close>

datatype NspawnConfigOperation =
    NspawnRead MachineName
  | NspawnInspect ImageName
  | NspawnWrite MachineName
  | NspawnPrepareOciPromotion MachineName
  | NspawnPromoteOci MachineName
  | NspawnUpdateGpu MachineName
  | NspawnRemove MachineName
  | NspawnCleanupSidecarLocks ImageName

fun nspawn_config_claims :: "NspawnConfigOperation \<Rightarrow> ResourceClaim list" where
  "nspawn_config_claims (NspawnRead _) = []"
| "nspawn_config_claims (NspawnInspect _) = []"
| "nspawn_config_claims (NspawnPrepareOciPromotion _) = []"
| "nspawn_config_claims (NspawnWrite m) = [claim_exclusive (for_machine m)]"
| "nspawn_config_claims (NspawnPromoteOci m) = [claim_exclusive (for_machine m)]"
| "nspawn_config_claims (NspawnUpdateGpu m) = [claim_exclusive (for_machine m)]"
| "nspawn_config_claims (NspawnRemove m) = [claim_exclusive (for_machine m)]"
| "nspawn_config_claims (NspawnCleanupSidecarLocks i) = [claim_exclusive (for_image i)]"

datatype SystemdUnitOperation =
    UnitRead MachineName
  | UnitProbeOwnedOverrides MachineName
  | UnitWriteOverride MachineName
  | UnitCloneOverride MachineName MachineName
  | UnitWriteNvidiaDeviceAllow MachineName
  | UnitRemoveOverride MachineName
  | UnitRemoveOwnedOverrides MachineName

definition unit_mutation_claims :: "MachineName \<Rightarrow> ResourceClaim list" where
  "unit_mutation_claims m = [claim_exclusive (for_machine m), claim_shared SystemdManager]"

fun systemd_unit_claims :: "SystemdUnitOperation \<Rightarrow> ResourceClaim list" where
  "systemd_unit_claims (UnitRead _) = []"
| "systemd_unit_claims (UnitProbeOwnedOverrides _) = []"
| "systemd_unit_claims (UnitCloneOverride source destination) =
     [claim_shared (for_machine source), claim_exclusive (for_machine destination),
      claim_shared SystemdManager]"
| "systemd_unit_claims (UnitWriteOverride m) = unit_mutation_claims m"
| "systemd_unit_claims (UnitWriteNvidiaDeviceAllow m) = unit_mutation_claims m"
| "systemd_unit_claims (UnitRemoveOverride m) = unit_mutation_claims m"
| "systemd_unit_claims (UnitRemoveOwnedOverrides m) = unit_mutation_claims m"

datatype NvidiaStateOperation =
    NvidiaRead MachineName
  | NvidiaProbeOwned MachineName
  | NvidiaWrite MachineName
  | NvidiaWriteInitial MachineName
  | NvidiaRemove MachineName
  | NvidiaRemoveOwned MachineName

fun nvidia_state_claims :: "NvidiaStateOperation \<Rightarrow> ResourceClaim list" where
  "nvidia_state_claims (NvidiaRead _) = []"
| "nvidia_state_claims (NvidiaProbeOwned _) = []"
| "nvidia_state_claims (NvidiaWrite m) = [claim_exclusive (for_machine m)]"
| "nvidia_state_claims (NvidiaWriteInitial m) = [claim_exclusive (for_machine m)]"
| "nvidia_state_claims (NvidiaRemove m) = [claim_exclusive (for_machine m)]"
| "nvidia_state_claims (NvidiaRemoveOwned m) = [claim_exclusive (for_machine m)]"

definition machine_start_claims :: "MachineName \<Rightarrow> ResourceClaim list" where
  "machine_start_claims m = [claim_exclusive (for_machine m), claim_exclusive SystemdManager]"

datatype SystemOperation =
    SysStart MachineName
  | SysTerminate MachineName
  | SysPoweroff MachineName
  | SysReboot MachineName
  | SysEnable MachineName
  | SysDisable MachineName
  | SysKill MachineName AllowedSignal
  | SysRemoveImage ImageName
  | SysCloneImage ImageName ImageName
  | SysReloadDaemon

fun system_operation_claims :: "SystemOperation \<Rightarrow> ResourceClaim list" where
  "system_operation_claims (SysStart m) = [claim_exclusive (for_machine m)]"
| "system_operation_claims (SysTerminate m) = [claim_exclusive (for_machine m)]"
| "system_operation_claims (SysPoweroff m) = [claim_exclusive (for_machine m)]"
| "system_operation_claims (SysReboot m) = [claim_exclusive (for_machine m)]"
| "system_operation_claims (SysKill m _) = [claim_exclusive (for_machine m)]"
| "system_operation_claims (SysEnable m) =
     [claim_exclusive (for_machine m), claim_shared SystemdManager]"
| "system_operation_claims (SysDisable m) =
     [claim_exclusive (for_machine m), claim_shared SystemdManager]"
| "system_operation_claims (SysRemoveImage i) = [claim_exclusive (for_image i)]"
| "system_operation_claims (SysCloneImage source destination) =
     [claim_shared (for_image source), claim_exclusive (for_image destination)]"
| "system_operation_claims SysReloadDaemon = [claim_exclusive SystemdManager]"

datatype ConfigurationTarget = TargetMachine MachineName | TargetImage ImageName

datatype ConfigurationOperation =
    ConfigInspect ConfigurationTarget
  | ConfigPreview ConfigurationTarget
  | ConfigApply ConfigurationTarget

fun configuration_is_mutation :: "ConfigurationOperation \<Rightarrow> bool" where
  "configuration_is_mutation (ConfigApply _) = True"
| "configuration_is_mutation _ = False"

fun target_key :: "ConfigurationTarget \<Rightarrow> ResourceKey" where
  "target_key (TargetMachine machine) = for_machine machine"
| "target_key (TargetImage i) = for_image i"

fun configuration_claims :: "ConfigurationOperation \<Rightarrow> ResourceClaim list" where
  "configuration_claims (ConfigApply target) = [claim_exclusive (target_key target)]"
| "configuration_claims (ConfigInspect _) = []"
| "configuration_claims (ConfigPreview _) = []"

record NspawnLaunchRequest =
  launch_image :: ImageName
  launch_machine :: MachineName

definition validates_same_name_route :: "NspawnLaunchRequest \<Rightarrow> bool" where
  "validates_same_name_route r \<longleftrightarrow>
     image_as_str (launch_image r) = machine_as_str (launch_machine r)"

subsection \<open>The inventory of methods\<close>

datatype RpcFamily = FamilyQuery | FamilyCommand | FamilyJob | FamilySession

datatype RpcMethod =
    Ping | Exit | CloseSession | PrepareWayland | ProbeX11Projection | NspawnConfig
  | Configuration | SystemdUnit | NvidiaStateMethod | DeploymentState | DeploymentStatus
  | ResolveDeploymentSubmission | AcknowledgeDeploymentSubmission | CancelDeployment
  | AcknowledgeDeployment | ProbeDeploymentRecovery | ReconcileDeployment
  | ReleaseUnresolvedDeployment | AssessTarRuntime | SystemOperationMethod
  | SystemdToolsInspectMachine | SystemdToolsInspectUnit | DbusListMachines | DbusListImages
  | NspawnLaunch | PrepareMachineStart | MachineRuntimeControl | NspawnUnitControl | ImageRemove
  | DbusGetProperties | DbusGetUnitProperties | DbusIsAvailable

definition rpc_methods :: "(RpcMethod \<times> string \<times> RpcFamily) list" where
  "rpc_methods =
    [(Ping, ''ping'', FamilyQuery),
     (Exit, ''exit'', FamilyCommand),
     (CloseSession, ''close_session'', FamilySession),
     (PrepareWayland, ''prepare_wayland'', FamilySession),
     (ProbeX11Projection, ''probe_x11_projection'', FamilySession),
     (NspawnConfig, ''nspawn_config'', FamilyCommand),
     (Configuration, ''configuration'', FamilyCommand),
     (SystemdUnit, ''systemd_unit'', FamilyCommand),
     (NvidiaStateMethod, ''nvidia_state'', FamilyCommand),
     (DeploymentState, ''deployment_state'', FamilyCommand),
     (DeploymentStatus, ''deployment_status'', FamilyJob),
     (ResolveDeploymentSubmission, ''resolve_deployment_submission'', FamilyJob),
     (AcknowledgeDeploymentSubmission, ''acknowledge_deployment_submission'', FamilyJob),
     (CancelDeployment, ''cancel_deployment'', FamilyJob),
     (AcknowledgeDeployment, ''acknowledge_deployment'', FamilyJob),
     (ProbeDeploymentRecovery, ''probe_deployment_recovery'', FamilyJob),
     (ReconcileDeployment, ''reconcile_deployment'', FamilyJob),
     (ReleaseUnresolvedDeployment, ''release_unresolved_deployment'', FamilyJob),
     (AssessTarRuntime, ''assess_tar_runtime'', FamilyQuery),
     (SystemOperationMethod, ''system_operation'', FamilyCommand),
     (SystemdToolsInspectMachine, ''systemd_tools_inspect_machine'', FamilyQuery),
     (SystemdToolsInspectUnit, ''systemd_tools_inspect_unit'', FamilyQuery),
     (DbusListMachines, ''dbus_list_machines'', FamilyQuery),
     (DbusListImages, ''dbus_list_images'', FamilyQuery),
     (NspawnLaunch, ''nspawn_launch'', FamilyCommand),
     (PrepareMachineStart, ''prepare_machine_start'', FamilyCommand),
     (MachineRuntimeControl, ''machine_runtime_control'', FamilyCommand),
     (NspawnUnitControl, ''nspawn_unit_control'', FamilyCommand),
     (ImageRemove, ''image_remove'', FamilyCommand),
     (DbusGetProperties, ''dbus_get_properties'', FamilyQuery),
     (DbusGetUnitProperties, ''dbus_get_unit_properties'', FamilyQuery),
     (DbusIsAvailable, ''dbus_is_available'', FamilyQuery)]"

definition method_parse :: "string \<Rightarrow> RpcMethod option" where
  "method_parse name = map_option fst (find (\<lambda>(_, wire, _). wire = name) rpc_methods)"

definition method_wire_name :: "RpcMethod \<Rightarrow> string" where
  "method_wire_name m = fst (the (map_of rpc_methods m))"

definition method_family :: "RpcMethod \<Rightarrow> RpcFamily" where
  "method_family m = snd (the (map_of rpc_methods m))"

record RpcRequest =
  rq_jsonrpc :: string
  rq_id :: u64
  rq_method :: string

datatype RpcError = RpcError int string

definition method_kind :: "RpcRequest \<Rightarrow> RpcError + RpcMethod" where
  "method_kind r =
     (if rq_jsonrpc r \<noteq> ''2.0'' then Inl (RpcError (- 32600) ''JSON-RPC version must be 2.0'')
      else ok_or (method_parse (rq_method r))
        (RpcError (- 32601) (''unknown RPC method: '' @ rq_method r)))"

text \<open>
  Decoding the JSON parameters is \<open>serde_json::from_value\<close>, a package outside the sources: one
  decoder per request type, failing with the package's message.
\<close>

record 'j Decoders =
  dec_nspawn_config :: "'j \<Rightarrow> string + NspawnConfigOperation"
  dec_systemd_unit :: "'j \<Rightarrow> string + SystemdUnitOperation"
  dec_nvidia_state :: "'j \<Rightarrow> string + NvidiaStateOperation"
  dec_prepare_start :: "'j \<Rightarrow> string + MachineName"
  dec_image_remove :: "'j \<Rightarrow> string + ImageName"
  dec_nspawn_launch :: "'j \<Rightarrow> string + NspawnLaunchRequest"
  dec_runtime_control :: "'j \<Rightarrow> string + MachineName"
  dec_unit_control :: "'j \<Rightarrow> string + MachineName"
  dec_configuration :: "'j \<Rightarrow> string + ConfigurationOperation"
  dec_system_operation :: "'j \<Rightarrow> string + SystemOperation"

definition decode_with ::
  "string \<Rightarrow> ('j \<Rightarrow> string + 'a) \<Rightarrow> 'j \<Rightarrow> ('a \<Rightarrow> string + 'b) \<Rightarrow> string + 'b" where
  "decode_with name dec params k =
     and_then (map_err (\<lambda>e. ''invalid '' @ name @ '' request: '' @ e) (dec params)) k"

definition resource_claims ::
  "'j Decoders \<Rightarrow> RpcMethod \<Rightarrow> 'j \<Rightarrow> string + ResourceClaim list" where
  "resource_claims d m params =
     (case m of
        NspawnConfig \<Rightarrow>
          decode_with ''nspawn_config'' (dec_nspawn_config d) params
            (\<lambda>op. Inr (nspawn_config_claims op))
      | SystemdUnit \<Rightarrow>
          decode_with ''systemd_unit'' (dec_systemd_unit d) params
            (\<lambda>op. Inr (systemd_unit_claims op))
      | NvidiaStateMethod \<Rightarrow>
          decode_with ''nvidia_state'' (dec_nvidia_state d) params
            (\<lambda>op. Inr (nvidia_state_claims op))
      | PrepareMachineStart \<Rightarrow>
          decode_with ''prepare_machine_start'' (dec_prepare_start d) params
            (\<lambda>machine. Inr (machine_start_claims machine))
      | ImageRemove \<Rightarrow>
          decode_with ''image_remove'' (dec_image_remove d) params
            (\<lambda>i. Inr [claim_exclusive (for_image i)])
      | NspawnLaunch \<Rightarrow>
          decode_with ''nspawn_launch'' (dec_nspawn_launch d) params
            (\<lambda>request.
               if \<not> validates_same_name_route request
               then Inl ''invalid nspawn_launch request: image and machine names must match''
               else Inr [claim_exclusive (for_image (launch_image request))])
      | MachineRuntimeControl \<Rightarrow>
          decode_with ''machine_runtime_control'' (dec_runtime_control d) params
            (\<lambda>machine. Inr [claim_exclusive (for_machine machine)])
      | NspawnUnitControl \<Rightarrow>
          decode_with ''nspawn_unit_control'' (dec_unit_control d) params
            (\<lambda>machine. Inr [claim_exclusive (for_machine machine), claim_shared SystemdManager])
      | Configuration \<Rightarrow>
          decode_with ''configuration'' (dec_configuration d) params
            (\<lambda>op. Inr (configuration_claims op))
      | SystemOperationMethod \<Rightarrow>
          decode_with ''system_operation'' (dec_system_operation d) params
            (\<lambda>op. Inr (system_operation_claims op))
      | _ \<Rightarrow> Inr [])"

section \<open>The inventory is closed and unambiguous\<close>

lemma rpc_methods_complete: "map_of rpc_methods m \<noteq> None"
  by (cases m) (simp_all add: rpc_methods_def)

text \<open>
  The wire names of the methods are a bijection with the inventory: every method is parsed
  back from its own wire name, and a request is dispatched to a method only if its name is that
  method's wire name and it speaks JSON-RPC 2.0.
\<close>

lemma method_wire_roundtrip:
  "method_parse (method_wire_name m) = Some m
   \<and> (method_kind r = Inr m \<longleftrightarrow> rq_jsonrpc r = ''2.0'' \<and> rq_method r = method_wire_name m)"
proof -
  have rt: "method_parse (method_wire_name m) = Some m" for m
    by (cases m) (simp_all add: method_parse_def method_wire_name_def rpc_methods_def)
  moreover have "method_wire_name m = n" if "method_parse n = Some m" for n
  proof -
    from that obtain wf where "find (\<lambda>(_, wire, _). wire = n) rpc_methods = Some (m, wf)"
      by (auto simp: method_parse_def)
    then have "(m, wf) \<in> set rpc_methods" "fst wf = n"
      by (auto simp: find_Some_iff dest: nth_mem)
    moreover have "distinct (map fst rpc_methods)" by (simp add: rpc_methods_def)
    ultimately show ?thesis by (simp add: method_wire_name_def)
  qed
  ultimately show ?thesis by (auto simp: method_kind_def)
qed

section \<open>What the claims protect\<close>

lemma for_image_of_machine:
  assumes "machine_as_str m = image_as_str i" and "machine_name_new (machine_as_str m) = Inr m"
  shows "for_image i = for_machine m"
  using assms by (simp add: for_image_def)

lemma for_image_eq_machine_iff:
  "for_image i = for_machine m \<longleftrightarrow>
     image_as_str i = machine_as_str m \<and> is_valid_nspawn_hostname (image_as_str i)"
  by (auto simp: for_image_def for_machine_def machine_name_new_def split: sum.splits if_splits)

lemma for_image_inj: "for_image i = for_image j \<longleftrightarrow> i = j"
  by (cases i; cases j)
    (auto simp: for_image_def for_machine_def machine_name_new_def split: sum.splits if_splits)

lemma decode_with_Inr [simp]:
  "decode_with n dec p k = Inr y \<longleftrightarrow> (\<exists>x. dec p = Inr x \<and> k x = Inr y)"
  by (simp add: decode_with_def)

text \<open>
  Only commands take claims: a query, a job request and a session request never claims a
  resource, so observing the host is never blocked by a running operation.
\<close>

lemma only_commands_claim:
  assumes "method_family m \<noteq> FamilyCommand"
  shows "resource_claims d m params = Inr []"
  using assms by (cases m) (simp_all add: resource_claims_def method_family_def rpc_methods_def)

definition example_decoders :: "unit Decoders" where
  "example_decoders =
     \<lparr>dec_nspawn_config = (\<lambda>_. Inl []), dec_systemd_unit = (\<lambda>_. Inl []),
      dec_nvidia_state = (\<lambda>_. Inl []), dec_prepare_start = (\<lambda>_. Inl []),
      dec_image_remove = (\<lambda>_. Inr (ImageName ''web'')),
      dec_nspawn_launch = (\<lambda>_. Inr \<lparr>launch_image = ImageName ''web'', launch_machine = MachineName ''web''\<rparr>),
      dec_runtime_control = (\<lambda>_. Inr (MachineName ''web'')), dec_unit_control = (\<lambda>_. Inl []),
      dec_configuration = (\<lambda>_. Inl []), dec_system_operation = (\<lambda>_. Inl [])\<rparr>"

lemma only_commands_claim_example:
  "resource_claims example_decoders DbusListMachines () = Inr []"
  by (rule only_commands_claim) (simp add: method_family_def rpc_methods_def)

section \<open>Requests on the same resource exclude each other\<close>

text \<open>
  What a request works on, read off the decoded request alone: the machine or image that it changes, the
  one that it copies from, and the service manager, which reloading and preparing a start change for every
  unit and which the operations on one unit use. An image and a machine are the same resource when they have the
  same name and it is a machine name.
\<close>

datatype Subject = OfMachine MachineName | OfImage ImageName | OfManager

fun subject_name :: "Subject \<Rightarrow> string" where
  "subject_name (OfMachine m) = machine_as_str m"
| "subject_name (OfImage i) = image_as_str i"
| "subject_name OfManager = []"

fun same_subject :: "Subject \<Rightarrow> Subject \<Rightarrow> bool" where
  "same_subject (OfMachine m) (OfMachine n) = (m = n)"
| "same_subject (OfImage i) (OfImage j) = (i = j)"
| "same_subject OfManager OfManager = True"
| "same_subject OfManager _ = False"
| "same_subject _ OfManager = False"
| "same_subject x y = (subject_name x = subject_name y \<and> is_valid_nspawn_hostname (subject_name x))"

fun config_changes :: "NspawnConfigOperation \<Rightarrow> Subject list" where
  "config_changes (NspawnWrite m) = [OfMachine m]"
| "config_changes (NspawnPromoteOci m) = [OfMachine m]"
| "config_changes (NspawnUpdateGpu m) = [OfMachine m]"
| "config_changes (NspawnRemove m) = [OfMachine m]"
| "config_changes (NspawnCleanupSidecarLocks i) = [OfImage i]"
| "config_changes _ = []"

fun unit_changes :: "SystemdUnitOperation \<Rightarrow> Subject list" where
  "unit_changes (UnitWriteOverride m) = [OfMachine m]"
| "unit_changes (UnitCloneOverride source destination) = [OfMachine destination]"
| "unit_changes (UnitWriteNvidiaDeviceAllow m) = [OfMachine m]"
| "unit_changes (UnitRemoveOverride m) = [OfMachine m]"
| "unit_changes (UnitRemoveOwnedOverrides m) = [OfMachine m]"
| "unit_changes _ = []"

fun unit_uses :: "SystemdUnitOperation \<Rightarrow> Subject list" where
  "unit_uses (UnitRead m) = []"
| "unit_uses (UnitProbeOwnedOverrides m) = []"
| "unit_uses (UnitCloneOverride source destination) = [OfMachine source, OfManager]"
| "unit_uses _ = [OfManager]"

fun nvidia_changes :: "NvidiaStateOperation \<Rightarrow> Subject list" where
  "nvidia_changes (NvidiaRead m) = []"
| "nvidia_changes (NvidiaProbeOwned m) = []"
| "nvidia_changes (NvidiaWrite m) = [OfMachine m]"
| "nvidia_changes (NvidiaWriteInitial m) = [OfMachine m]"
| "nvidia_changes (NvidiaRemove m) = [OfMachine m]"
| "nvidia_changes (NvidiaRemoveOwned m) = [OfMachine m]"

fun system_changes :: "SystemOperation \<Rightarrow> Subject list" where
  "system_changes (SysRemoveImage i) = [OfImage i]"
| "system_changes (SysCloneImage source destination) = [OfImage destination]"
| "system_changes SysReloadDaemon = [OfManager]"
| "system_changes (SysKill m signal) = [OfMachine m]"
| "system_changes (SysStart m) = [OfMachine m]"
| "system_changes (SysTerminate m) = [OfMachine m]"
| "system_changes (SysPoweroff m) = [OfMachine m]"
| "system_changes (SysReboot m) = [OfMachine m]"
| "system_changes (SysEnable m) = [OfMachine m]"
| "system_changes (SysDisable m) = [OfMachine m]"

fun system_uses :: "SystemOperation \<Rightarrow> Subject list" where
  "system_uses (SysCloneImage source destination) = [OfImage source]"
| "system_uses (SysEnable m) = [OfManager]"
| "system_uses (SysDisable m) = [OfManager]"
| "system_uses _ = []"

fun configuration_changes :: "ConfigurationOperation \<Rightarrow> Subject list" where
  "configuration_changes (ConfigApply (TargetMachine m)) = [OfMachine m]"
| "configuration_changes (ConfigApply (TargetImage i)) = [OfImage i]"
| "configuration_changes _ = []"

definition decoded :: "('a \<Rightarrow> Subject list) \<Rightarrow> string + 'a \<Rightarrow> Subject list" where
  "decoded f r = (case r of Inl _ \<Rightarrow> [] | Inr op \<Rightarrow> f op)"

fun request_changes :: "'j Decoders \<Rightarrow> RpcMethod \<Rightarrow> 'j \<Rightarrow> Subject list" where
  "request_changes d NspawnConfig p = decoded config_changes (dec_nspawn_config d p)"
| "request_changes d SystemdUnit p = decoded unit_changes (dec_systemd_unit d p)"
| "request_changes d NvidiaStateMethod p = decoded nvidia_changes (dec_nvidia_state d p)"
| "request_changes d PrepareMachineStart p = decoded (\<lambda>m. [OfMachine m, OfManager]) (dec_prepare_start d p)"
| "request_changes d ImageRemove p = decoded (\<lambda>i. [OfImage i]) (dec_image_remove d p)"
| "request_changes d NspawnLaunch p = decoded (\<lambda>l. [OfImage (launch_image l)]) (dec_nspawn_launch d p)"
| "request_changes d MachineRuntimeControl p = decoded (\<lambda>m. [OfMachine m]) (dec_runtime_control d p)"
| "request_changes d NspawnUnitControl p = decoded (\<lambda>m. [OfMachine m]) (dec_unit_control d p)"
| "request_changes d Configuration p = decoded configuration_changes (dec_configuration d p)"
| "request_changes d SystemOperationMethod p = decoded system_changes (dec_system_operation d p)"
| "request_changes d _ p = []"

fun request_uses :: "'j Decoders \<Rightarrow> RpcMethod \<Rightarrow> 'j \<Rightarrow> Subject list" where
  "request_uses d SystemdUnit p = decoded unit_uses (dec_systemd_unit d p)"
| "request_uses d NspawnUnitControl p = decoded (\<lambda>_. [OfManager]) (dec_unit_control d p)"
| "request_uses d SystemOperationMethod p = decoded system_uses (dec_system_operation d p)"
| "request_uses d _ p = []"

fun subject_key :: "Subject \<Rightarrow> ResourceKey" where
  "subject_key (OfMachine m) = for_machine m"
| "subject_key (OfImage i) = for_image i"
| "subject_key OfManager = SystemdManager"

lemma image_is_machine:
  "image_as_str i = machine_as_str m \<Longrightarrow> is_valid_nspawn_hostname (image_as_str i) \<Longrightarrow> for_image i = for_machine m"
  by (simp add: for_image_eq_machine_iff)

lemma same_subject_key: "same_subject x y \<Longrightarrow> subject_key x = subject_key y"
  by (cases x; cases y) (auto intro: image_is_machine image_is_machine [symmetric])

lemma strongest_exclusive: "claim_exclusive k \<in> set claims \<Longrightarrow> strongest claims k = Some Exclusive"
proof -
  assume "claim_exclusive k \<in> set claims"
  moreover have "c_key (claim_exclusive k) = k" "c_access (claim_exclusive k) = Exclusive" by (simp_all add: claim_exclusive_def)
  ultimately show ?thesis unfolding strongest_def by metis
qed

lemma strongest_claimed: "c \<in> set claims \<Longrightarrow> strongest claims (c_key c) \<noteq> None"
  by (force simp: strongest_def)

lemmas request_claims_defs = resource_claims_def unit_mutation_claims_def machine_start_claims_def decoded_def

lemma changes_claimed:
  assumes "resource_claims d m params = Inr claims" and "x \<in> set (request_changes d m params)"
  shows "claim_exclusive (subject_key x) \<in> set claims"
proof -
  have "x \<in> set (config_changes op) \<Longrightarrow> claim_exclusive (subject_key x) \<in> set (nspawn_config_claims op)" for op
    by (cases op) auto
  moreover have "x \<in> set (unit_changes op) \<Longrightarrow> claim_exclusive (subject_key x) \<in> set (systemd_unit_claims op)" for op
    by (cases op) (auto simp: unit_mutation_claims_def)
  moreover have "x \<in> set (nvidia_changes op) \<Longrightarrow> claim_exclusive (subject_key x) \<in> set (nvidia_state_claims op)" for op
    by (cases op) auto
  moreover have "x \<in> set (system_changes op) \<Longrightarrow> claim_exclusive (subject_key x) \<in> set (system_operation_claims op)" for op
    by (cases op) auto
  moreover have "x \<in> set (configuration_changes op) \<Longrightarrow> claim_exclusive (subject_key x) \<in> set (configuration_claims op)" for op
    by (cases op rule: configuration_changes.cases) auto
  ultimately show ?thesis
    using assms by (cases m) (auto simp: request_claims_defs split: if_splits)
qed

lemma uses_claimed:
  assumes "resource_claims d m params = Inr claims" and "x \<in> set (request_uses d m params)"
  shows "claim_shared (subject_key x) \<in> set claims"
proof -
  have "x \<in> set (unit_uses op) \<Longrightarrow> claim_shared (subject_key x) \<in> set (systemd_unit_claims op)" for op
    by (cases op) (auto simp: unit_mutation_claims_def)
  moreover have "x \<in> set (system_uses op) \<Longrightarrow> claim_shared (subject_key x) \<in> set (system_operation_claims op)" for op
    by (cases op) auto
  ultimately show ?thesis
    using assms by (cases m) (auto simp: request_claims_defs)
qed

text \<open>What else may happen while a reservation is held: other requests are admitted and finish.\<close>

inductive while_held :: "(string \<Rightarrow> string) \<Rightarrow> ResourceReservation \<Rightarrow> OperationRegistry \<Rightarrow> OperationRegistry \<Rightarrow> bool"
  for esc r where
  Held: "while_held esc r reg reg"
| OtherStarts: "while_held esc r reg reg1 \<Longrightarrow> reserve_inner esc claims removal reg1 = Inr (r1, reg2) \<Longrightarrow> while_held esc r reg reg2"
| OtherEnds: "while_held esc r reg reg1 \<Longrightarrow> res_id r1 \<noteq> res_id r \<Longrightarrow> while_held esc r reg (drop_reservation r1 reg1)"

lemma held_stays:
  "while_held esc r reg reg' \<Longrightarrow> (a, res_id r) \<in> set (holders_of reg k) \<Longrightarrow> (a, res_id r) \<in> set (holders_of reg' k)"
proof (induction rule: while_held.induct)
  case (OtherStarts reg1 claims removal r1 reg2)
  then show ?case using reserve_inner_holders [OF OtherStarts.hyps(2)] by simp
next
  case (OtherEnds reg1 r1)
  then show ?case by (simp add: drop_holders)
qed

text \<open>
  C29. Requests on the same resource are serialised: once a request that changes a machine, an image or the
  service manager has been admitted, and for as long as it runs, whatever other requests start and finish in
  the meantime, every request that changes the same resource, or copies from it or uses it, is refused. The
  requests that change a machine or image are those that write, promote or remove its settings, overrides or GPU
  state, start, stop or signal it, launch, clone onto or remove it, or apply a configuration to it; an image and a
  machine of the same name are one resource.
\<close>

theorem mutations_serialized:
  assumes "resource_claims d m params = Inr claims" and "x \<in> set (request_changes d m params)"
    and "reserve esc claims reg = Inr (r, reg1)" and "while_held esc r reg1 reg2"
    and "resource_claims d m' params' = Inr claims'"
    and "y \<in> set (request_changes d m' params') \<union> set (request_uses d m' params')" and "same_subject x y"
  shows "\<exists>conflict. reserve esc claims' reg2 = Inl conflict"
proof -
  have "strongest claims (subject_key x) = Some Exclusive"
    using changes_claimed [OF assms(1,2)] by (rule strongest_exclusive)
  then have "(Exclusive, res_id r) \<in> set (holders_of reg1 (subject_key x))"
    using reserve_inner_holders [OF assms(3) [unfolded reserve_def]] by simp
  then have held: "(Exclusive, res_id r) \<in> set (holders_of reg2 (subject_key x))" by (rule held_stays [OF assms(4)])
  have "strongest claims' (subject_key y) \<noteq> None"
    using assms(6) changes_claimed [OF assms(5)] uses_claimed [OF assms(5)] strongest_claimed
    by (fastforce simp: claim_exclusive_def claim_shared_def)
  then obtain a where "strongest claims' (subject_key x) = Some a" using same_subject_key [OF assms(7)] by auto
  with held show ?thesis unfolding reserve_def reserve_inner_Inl by blast
qed

theorem mutations_serialized_witness:
  "\<exists>conflict. reserve example_esc [claim_exclusive (NspawnKey ''web'')]
     \<lparr>next_id = 1, reg_claims = [(NspawnKey ''web'', [(Exclusive, 1)])], image_removals = []\<rparr>
     = Inl conflict"
proof -
  have c: "resource_claims example_decoders NspawnLaunch () = Inr [claim_exclusive (NspawnKey ''web'')]"
    "resource_claims example_decoders MachineRuntimeControl () = Inr [claim_exclusive (NspawnKey ''web'')]"
    by code_simp+
  have r: "reserve example_esc [claim_exclusive (NspawnKey ''web'')] registry_new =
    Inr (\<lparr>res_id = 1, res_keys = [NspawnKey ''web'']\<rparr>,
      \<lparr>next_id = 1, reg_claims = [(NspawnKey ''web'', [(Exclusive, 1)])], image_removals = []\<rparr>)"
    by code_simp
  have "OfImage (ImageName ''web'') \<in> set (request_changes example_decoders NspawnLaunch ())"
    "OfMachine (MachineName ''web'') \<in> set (request_changes example_decoders MachineRuntimeControl ()) \<union>
       set (request_uses example_decoders MachineRuntimeControl ())"
    "same_subject (OfImage (ImageName ''web'')) (OfMachine (MachineName ''web''))" by code_simp+
  then show ?thesis using mutations_serialized [OF c(1) _ r Held c(2)] by blast
qed

end
