(* ===== verification/Domain_Values.thy ===== *)
theory Domain_Values
  imports Rust_Prelude
begin

text \<open>
  The values of a provisioning request that do not depend on a transport: disk image sizes and
  partitions (\<open>src/domain/storage.rs\<close>), OCI references (\<open>src/domain/oci.rs\<close>), artifact sources
  (\<open>src/domain/source.rs\<close>), networks, binds and accounts (\<open>src/domain/provisioning.rs\<close>), passwords
  (\<open>src/domain/secret.rs\<close>) and session identities and sizes (\<open>src/domain/session.rs\<close>).
\<close>

section \<open>Storage\<close>

definition MAX_DISK_IMAGE_SIZE_BYTES :: u64 where
  "MAX_DISK_IMAGE_SIZE_BYTES = 64 * 1024 * 1024 * 1024 * 1024"

definition MAX_DISK_IMAGE_PARTITIONS :: u32 where
  "MAX_DISK_IMAGE_PARTITIONS = 128"

datatype DiskImageValidationError =
  InvalidSize | SizeOverflow | UnsupportedUnit | SizeOutOfRange | InvalidPartition

definition size_factor :: "string \<Rightarrow> u64 option" where
  "size_factor unit =
     (if unit = [] \<or> unit = ''B'' then Some 1
      else if unit \<in> {''K'', ''KB'', ''KIB''} then Some 1024
      else if unit \<in> {''M'', ''MB'', ''MIB''} then Some (1024 ^ 2)
      else if unit \<in> {''G'', ''GB'', ''GIB''} then Some (1024 ^ 3)
      else if unit \<in> {''T'', ''TB'', ''TIB''} then Some (1024 ^ 4)
      else None)"

definition parse_disk_image_size :: "string \<Rightarrow> DiskImageValidationError + u64" where
  "parse_disk_image_size text =
     (if text = [] \<or> trim text \<noteq> text \<or> length text > 32 then Inl InvalidSize
      else
        let digits = takeWhile is_ascii_digit text in
        if length digits = 0 then Inl InvalidSize
        else
          and_then (ok_or (parse_uint (2 ^ 64) digits) SizeOverflow) (\<lambda>amount.
          and_then (ok_or (size_factor (to_ascii_uppercase (drop (length digits) text)))
                      UnsupportedUnit) (\<lambda>factor.
          and_then (ok_or (checked_mul (of_nat amount) factor) SizeOverflow) (\<lambda>bytes.
          if bytes = 0 \<or> bytes > MAX_DISK_IMAGE_SIZE_BYTES then Inl SizeOutOfRange
          else Inr bytes))))"

datatype DiskImageFilesystem = Ext4 | Xfs | Btrfs

fun filesystem_as_str :: "DiskImageFilesystem \<Rightarrow> string" where
  "filesystem_as_str Ext4 = ''ext4''"
| "filesystem_as_str Xfs = ''xfs''"
| "filesystem_as_str Btrfs = ''btrfs''"

datatype DiskImageSource = CreateNew string DiskImageFilesystem | ImportExisting string

datatype DiskImagePartition = DiskImagePartition u32

definition partition_new :: "u32 \<Rightarrow> DiskImageValidationError + DiskImagePartition" where
  "partition_new number =
     (if 1 \<le> number \<and> number \<le> MAX_DISK_IMAGE_PARTITIONS then Inr (DiskImagePartition number)
      else Inl InvalidPartition)"

fun partition_number :: "DiskImagePartition \<Rightarrow> u32" where
  "partition_number (DiskImagePartition n) = n"

record DiskImageConfig =
  di_source :: DiskImageSource
  di_use_partition_table :: bool
  di_root_partition :: "DiskImagePartition option"

definition disk_image_default :: DiskImageConfig where
  "disk_image_default =
     \<lparr>di_source = CreateNew ''10G'' Ext4, di_use_partition_table = True,
      di_root_partition = None\<rparr>"

section \<open>OCI references\<close>

datatype OciReference = OciReference string

record OciReferenceError =
  oe_reference :: string
  oe_reason :: string

definition tag_head :: "char \<Rightarrow> bool" where
  "tag_head b \<longleftrightarrow> is_ascii_alphanumeric b \<or> b = CHR ''_''"

definition tag_byte :: "char \<Rightarrow> bool" where
  "tag_byte b \<longleftrightarrow> is_ascii_alphanumeric b \<or> b \<in> set ''._-''"

definition validate_tag :: "string \<Rightarrow> string + unit" where
  "validate_tag tag =
     (if tag = [] \<or> length tag > 128 then Inl ''tag must contain 1-128 characters''
      else if \<not> tag_head (hd tag) \<or> \<not> list_all tag_byte (tl tag)
      then Inl ''tag is not valid according to the OCI distribution grammar''
      else Inr ())"

definition image_head :: "char \<Rightarrow> bool" where
  "image_head b \<longleftrightarrow> is_ascii_lowercase b \<or> is_ascii_digit b \<or> b \<in> set ''_-+''"

definition image_byte :: "char \<Rightarrow> bool" where
  "image_byte b \<longleftrightarrow> is_ascii_lowercase b \<or> is_ascii_digit b \<or> b \<in> set ''._-+''"

fun validate_image_component :: "string \<Rightarrow> string + unit" where
  "validate_image_component [] = Inl ''image path components cannot be empty''"
| "validate_image_component (first # bytes) =
     (if \<not> image_head first
      then Inl ''image names must use systemd's lowercase OCI grammar''
      else if \<not> list_all image_byte bytes
      then Inl ''image names must use systemd's lowercase OCI grammar''
      else Inr ())"

definition validate_image :: "string \<Rightarrow> string + unit" where
  "validate_image img =
     (if img = [] then Inl ''image name is empty''
      else try_each validate_image_component (split_on CHR ''/'' img))"

definition registry_byte :: "char \<Rightarrow> bool" where
  "registry_byte b \<longleftrightarrow> is_ascii_alphanumeric b \<or> b \<in> set ''-_''"

definition registry_label :: "string \<Rightarrow> bool" where
  "registry_label label \<longleftrightarrow> label \<noteq> [] \<and> length label \<le> 63 \<and> list_all registry_byte label"

definition valid_port :: "string \<Rightarrow> bool" where
  "valid_port port \<longleftrightarrow>
     port \<noteq> [] \<and> list_all is_ascii_digit port
     \<and> (case parse_uint (2 ^ 16) port of Some n \<Rightarrow> n \<noteq> 0 | None \<Rightarrow> False)"

definition validate_registry :: "string \<Rightarrow> string + unit" where
  "validate_registry registry =
     (let (host, port) =
        (case split_once CHR '':'' registry of
           Some (host, port) \<Rightarrow> (host, Some port)
         | None \<Rightarrow> (registry, None)) in
      if host = [] \<or> length host > 253 \<or> starts_with host ''.'' then Inl ''registry name is invalid''
      else
        let host = (case strip_suffix host ''.'' of Some h \<Rightarrow> h | None \<Rightarrow> host) in
        if host = [] \<or> list_ex (\<lambda>label. \<not> registry_label label) (split_on CHR ''.'' host)
        then Inl ''registry name is invalid''
        else
          case port of
            None \<Rightarrow> Inr ()
          | Some port \<Rightarrow> if valid_port port then Inr () else Inl ''registry name is invalid'')"

definition rfind :: "char \<Rightarrow> string \<Rightarrow> nat option" where
  "rfind c s = rposition (\<lambda>b. b = c) s"

definition tag_separator :: "string \<Rightarrow> nat option" where
  "tag_separator reference =
     (case (rfind CHR '':'' reference, rfind CHR ''/'' reference) of
        (Some colon, Some slash) \<Rightarrow> if colon > slash then Some colon else None
      | (Some colon, None) \<Rightarrow> Some colon
      | _ \<Rightarrow> None)"

definition validate_oci_reference :: "string \<Rightarrow> string + unit" where
  "validate_oci_reference reference =
     (if reference = [] \<or> length reference > 512 then Inl ''expected 1-512 characters''
      else if trim reference \<noteq> reference \<or> has_control reference
      then Inl ''whitespace and control characters are not allowed''
      else if starts_with reference ''-'' \<or> contains_str reference ''://''
        \<or> CHR ''@'' \<in> set reference
      then Inl ''expected a registry image reference, not a transport URL or digest''
      else
        let (without_tag, tag) =
          (case tag_separator reference of
             Some colon \<Rightarrow> (take colon reference, Some (drop (colon + 1) reference))
           | None \<Rightarrow> (reference, None)) in
        and_then (case tag of Some tag \<Rightarrow> validate_tag tag | None \<Rightarrow> Inr ()) (\<lambda>_.
        let (registry, img) =
          (case split_once CHR ''/'' without_tag of
             Some (registry, img) \<Rightarrow> (Some registry, img)
           | None \<Rightarrow> (None, without_tag)) in
        and_then (case registry of Some registry \<Rightarrow> validate_registry registry | None \<Rightarrow> Inr ()) (\<lambda>_.
        validate_image img)))"

definition oci_reference_new :: "string \<Rightarrow> OciReferenceError + OciReference" where
  "oci_reference_new reference =
     and_then
       (map_err (\<lambda>reason. \<lparr>oe_reference = reference, oe_reason = reason\<rparr>)
          (validate_oci_reference reference))
       (\<lambda>_. Inr (OciReference reference))"

fun oci_as_str :: "OciReference \<Rightarrow> string" where
  "oci_as_str (OciReference s) = s"

section \<open>Artifact sources\<close>

datatype BootstrapMethod = MethodDebootstrap | MethodPacstrap | MethodDnf5 | MethodArtifact

fun required_tools :: "BootstrapMethod \<Rightarrow> string list" where
  "required_tools MethodDebootstrap = [''debootstrap'']"
| "required_tools MethodPacstrap = [''pacstrap'', ''pacman'']"
| "required_tools MethodDnf5 = [''dnf5'']"
| "required_tools MethodArtifact = []"

datatype ArtifactValidationError = EmptyPath | ControlCharacter | FormatMismatch

datatype ArtifactFormat = FormatAuto | FormatTar | FormatRaw

record ArtifactSpec =
  art_path :: string
  art_format :: ArtifactFormat

fun find_strip_suffix :: "string \<Rightarrow> string list \<Rightarrow> string option" where
  "find_strip_suffix s [] = None"
| "find_strip_suffix s (p # ps) =
     (case strip_suffix s p of Some t \<Rightarrow> Some t | None \<Rightarrow> find_strip_suffix s ps)"

definition artifact_basename_without_compression :: "string \<Rightarrow> string" where
  "artifact_basename_without_compression path =
     (let lower = to_ascii_lowercase path in
      case find_strip_suffix lower [''.gz'', ''.xz'', ''.zst'', ''.bz2''] of
        Some base \<Rightarrow> base | None \<Rightarrow> lower)"

definition looks_like_raw_artifact :: "string \<Rightarrow> bool" where
  "looks_like_raw_artifact path \<longleftrightarrow>
     (let base = artifact_basename_without_compression path in
      ends_with base ''.raw'' \<or> ends_with base ''.img'')"

definition looks_like_tar_artifact :: "string \<Rightarrow> bool" where
  "looks_like_tar_artifact path \<longleftrightarrow>
     ends_with (artifact_basename_without_compression path) ''.tar''
     \<or> ends_with (to_ascii_lowercase path) ''.tgz''"

definition from_path :: "string \<Rightarrow> ArtifactSpec" where
  "from_path path =
     \<lparr>art_path = path,
      art_format = (if looks_like_raw_artifact path then FormatRaw else FormatTar)\<rparr>"

definition artifact_validate :: "ArtifactSpec \<Rightarrow> ArtifactValidationError + unit" where
  "artifact_validate a =
     (if trim (art_path a) = [] then Inl EmptyPath
      else if has_control (art_path a) then Inl ControlCharacter
      else if (art_format a = FormatRaw \<and> looks_like_tar_artifact (art_path a))
        \<or> (art_format a = FormatTar \<and> looks_like_raw_artifact (art_path a))
      then Inl FormatMismatch
      else Inr ())"

text \<open>\<open>home\<close> is what \<open>dirs::home_dir\<close> answers.\<close>

definition expanded_path :: "string option \<Rightarrow> ArtifactSpec \<Rightarrow> string" where
  "expanded_path home a =
     (if art_path a = ''~'' \<or> starts_with (art_path a) ''~/''
      then case home of
             Some h \<Rightarrow> if art_path a = ''~'' then h else path_join h (drop 2 (art_path a))
           | None \<Rightarrow> art_path a
      else art_path a)"

definition resolved_format :: "ArtifactSpec \<Rightarrow> ArtifactFormat" where
  "resolved_format a =
     (case art_format a of
        FormatAuto \<Rightarrow> if looks_like_raw_artifact (art_path a) then FormatRaw else FormatTar
      | explicit \<Rightarrow> explicit)"

definition is_external_storage :: "ArtifactSpec \<Rightarrow> bool" where
  "is_external_storage a \<longleftrightarrow> resolved_format a = FormatRaw"

section \<open>Networks, binds and accounts\<close>

datatype NetworkMode =
    NetHost | NetNone | NetVeth | Bridge string | MacVlan string | IpVlan string | Interface string

fun is_private :: "NetworkMode \<Rightarrow> bool" where
  "is_private NetHost = False"
| "is_private _ = True"

fun uses_default_guest_network_stack :: "NetworkMode \<Rightarrow> bool" where
  "uses_default_guest_network_stack NetVeth = True"
| "uses_default_guest_network_stack (Bridge _) = True"
| "uses_default_guest_network_stack _ = False"

fun supports_port_forwarding :: "NetworkMode \<Rightarrow> bool" where
  "supports_port_forwarding NetVeth = True"
| "supports_port_forwarding (Bridge _) = True"
| "supports_port_forwarding _ = False"

datatype NetworkInterfaceNameError = NetworkInterfaceNameError string

definition validate_network_interface_name :: "string \<Rightarrow> NetworkInterfaceNameError + unit" where
  "validate_network_interface_name name =
     (if name \<noteq> [] \<and> length name \<le> 15
        \<and> name \<notin> {''.'', ''..'', ''all'', ''default''}
        \<and> \<not> list_all is_ascii_digit name
        \<and> list_all (\<lambda>b. 33 \<le> byte b \<and> byte b \<le> 126 \<and> b \<notin> set '':/%'') name
      then Inr ()
      else Inl (NetworkInterfaceNameError name))"

datatype OciNetworkMode = OciHost | OciIsolated | OciVeth

fun oci_network_as_str :: "OciNetworkMode \<Rightarrow> string" where
  "oci_network_as_str OciHost = ''host''"
| "oci_network_as_str OciIsolated = ''isolated''"
| "oci_network_as_str OciVeth = ''veth''"

fun into_network_mode :: "OciNetworkMode \<Rightarrow> NetworkMode" where
  "into_network_mode OciHost = NetHost"
| "into_network_mode OciIsolated = NetNone"
| "into_network_mode OciVeth = NetVeth"

datatype PrivateUsersMode = UsersYes | UsersNo | UsersPick | UsersIdentity | UsersManaged

fun private_users_as_str :: "PrivateUsersMode \<Rightarrow> string" where
  "private_users_as_str UsersYes = ''yes''"
| "private_users_as_str UsersNo = ''no''"
| "private_users_as_str UsersPick = ''pick''"
| "private_users_as_str UsersIdentity = ''identity''"
| "private_users_as_str UsersManaged = ''managed''"

record PortForward =
  pf_host :: u16
  pf_container :: u16
  pf_proto :: string

datatype IdmapSuffix = SuffixNone | Noidmap | Idmap | Rootidmap | Owneridmap

fun suffix_display :: "IdmapSuffix \<Rightarrow> string" where
  "suffix_display SuffixNone = []"
| "suffix_display Noidmap = '':noidmap''"
| "suffix_display Idmap = '':idmap''"
| "suffix_display Rootidmap = '':rootidmap''"
| "suffix_display Owneridmap = '':owneridmap''"

record BindMount =
  bm_source :: string
  bm_target :: string
  bm_readonly :: bool
  bm_suffix :: IdmapSuffix

record CreateUser =
  cu_username :: string
  cu_uid :: "u32 option"
  cu_sudoer :: bool
  cu_shell :: string

datatype UserValidationError =
    EmptyUsername | UsernameTooLong | UsernameNotAscii | UsernameInvalidStart
  | UsernameInvalidCharacters | RootUid | ShellWhitespace | ShellInvalidCharacters
  | ShellNotAbsolute | ShellRelativeComponent | ShellMissingExecutable

definition username_byte :: "char \<Rightarrow> bool" where
  "username_byte b \<longleftrightarrow> is_ascii_alphanumeric b \<or> b = CHR ''_'' \<or> b = CHR ''-''"

text \<open>The loop over the bytes after the first: a dollar sign may only end the name.\<close>

fun check_username_tail :: "string \<Rightarrow> UserValidationError + unit" where
  "check_username_tail [] = Inr ()"
| "check_username_tail (b # bs) =
     (if username_byte b then check_username_tail bs
      else if bs = [] \<and> b = CHR ''$'' then check_username_tail bs
      else Inl UsernameInvalidCharacters)"

definition validate_login_username :: "string \<Rightarrow> UserValidationError + unit" where
  "validate_login_username name =
     (if name = [] then Inl EmptyUsername
      else if length name > 32 then Inl UsernameTooLong
      else if \<not> list_all (\<lambda>b. byte b < 128) name then Inl UsernameNotAscii
      else if \<not> is_ascii_alphabetic (hd name) \<and> hd name \<noteq> CHR ''_'' then Inl UsernameInvalidStart
      else check_username_tail (tl name))"

definition is_safe_shell_path_byte :: "char \<Rightarrow> bool" where
  "is_safe_shell_path_byte b \<longleftrightarrow> is_ascii_alphanumeric b \<or> b \<in> set ''/._-+''"

fun check_shell_components :: "bool \<Rightarrow> component list \<Rightarrow> UserValidationError + bool" where
  "check_shell_components has_normal [] = Inr has_normal"
| "check_shell_components has_normal (RootDir # cs) = check_shell_components has_normal cs"
| "check_shell_components has_normal (Normal _ # cs) = check_shell_components True cs"
| "check_shell_components has_normal (CurDir # cs) = Inl ShellRelativeComponent"
| "check_shell_components has_normal (ParentDir # cs) = Inl ShellRelativeComponent"

definition validate_login_shell :: "string \<Rightarrow> UserValidationError + unit" where
  "validate_login_shell shell =
     (if shell = [] then Inr ()
      else if trim shell \<noteq> shell then Inl ShellWhitespace
      else if length shell > 255 \<or> CHR '':'' \<in> set shell \<or> has_control shell
        \<or> \<not> list_all is_safe_shell_path_byte shell
      then Inl ShellInvalidCharacters
      else if \<not> is_absolute shell then Inl ShellNotAbsolute
      else and_then (check_shell_components False (components shell)) (\<lambda>has_normal.
        if \<not> has_normal then Inl ShellMissingExecutable else Inr ()))"

definition create_user_validate :: "CreateUser \<Rightarrow> UserValidationError + unit" where
  "create_user_validate u =
     and_then (validate_login_username (cu_username u)) (\<lambda>_.
     if cu_uid u = Some 0 then Inl RootUid
     else validate_login_shell (cu_shell u))"

definition login_shell :: "CreateUser \<Rightarrow> string" where
  "login_shell u = (if cu_shell u = [] then ''/bin/bash'' else cu_shell u)"

section \<open>Secrets and sessions\<close>

definition MAX_CHPASSWD_SECRET_BYTES :: nat where
  "MAX_CHPASSWD_SECRET_BYTES = 4096"

datatype SecretValidationError = TooLong | ContainsControlCharacter

definition validate_chpasswd_secret :: "string \<Rightarrow> SecretValidationError + unit" where
  "validate_chpasswd_secret secret =
     (if length secret > MAX_CHPASSWD_SECRET_BYTES then Inl TooLong
      else if has_control secret then Inl ContainsControlCharacter
      else Inr ())"

datatype SessionId = SessionId u64

definition session_id_new :: "u64 \<Rightarrow> unit + SessionId" where
  "session_id_new n = (if n = 0 then Inl () else Inr (SessionId n))"

record SessionSize =
  ss_cols :: u16
  ss_rows :: u16

definition session_size_new :: "u16 \<Rightarrow> u16 \<Rightarrow> unit + SessionSize" where
  "session_size_new cols rows =
     (if cols = 0 then Inl () else if rows = 0 then Inl ()
      else Inr \<lparr>ss_cols = cols, ss_rows = rows\<rparr>)"

datatype SessionLifecycle =
    SessionRunning | SessionExited bool "int option" | SessionFailed string | SessionClosed

fun session_is_running :: "SessionLifecycle \<Rightarrow> bool" where
  "session_is_running SessionRunning = True"
| "session_is_running _ = False"

section \<open>Disk image sizes\<close>

lemma takeWhile_digits_split:
  "s = takeWhile is_ascii_digit s @ drop (length (takeWhile is_ascii_digit s)) s"
  by (metis append_take_drop_id takeWhile_eq_take)

lemma takeWhile_all: "list_all is_ascii_digit (takeWhile is_ascii_digit s)"
  by (simp add: list_all_iff) (meson set_takeWhileD)

lemma max_size_unat: "unat MAX_DISK_IMAGE_SIZE_BYTES = 64 * 1024 ^ 4"
  by (simp add: MAX_DISK_IMAGE_SIZE_BYTES_def)

lemma of_nat_u64: "n < 2 ^ 64 \<Longrightarrow> unat (of_nat n :: u64) = n"
  by (simp add: unsigned_of_nat take_bit_nat_eq_self)

lemmas size_eval = trim_def trim_end_def ws1_def ws2_def ws3_def parse_uint_def parse_digits_def
  digits_value_def digit_value_def is_ascii_digit_def size_factor_def to_ascii_uppercase_def
  to_ascii_uppercase_char_def is_ascii_lowercase_def checked_mul_def MAX_DISK_IMAGE_SIZE_BYTES_def

text \<open>
  C40. A disk image size that is accepted means what it says: the text is a decimal number with
  one of the known binary units, the result is the mathematical product of the two (nothing
  wrapped around), and it lies between one byte and 64 TiB.
\<close>

theorem disk_size_exact:
  assumes "parse_disk_image_size s = Inr n"
  shows "\<exists>digits unit factor. s = digits @ unit \<and> digits \<noteq> [] \<and> list_all is_ascii_digit digits
    \<and> size_factor (to_ascii_uppercase unit) = Some factor
    \<and> unat n = digits_value digits * unat factor
    \<and> 1 \<le> unat n \<and> unat n \<le> 64 * 1024 ^ 4"
proof -
  let ?d = "takeWhile is_ascii_digit s"
  let ?u = "drop (length ?d) s"
  from assms obtain a f where d: "?d \<noteq> []" and a: "parse_uint (2 ^ 64) ?d = Some a"
    and f: "size_factor (to_ascii_uppercase ?u) = Some f"
    and m: "checked_mul (of_nat a) f = Some n" and n: "n \<noteq> 0" "n \<le> MAX_DISK_IMAGE_SIZE_BYTES"
    by (auto simp: parse_disk_image_size_def Let_def not_less split: if_splits)
  from a d takeWhile_all have "a = digits_value ?d" "a < 2 ^ 64"
    by (auto simp: parse_uint_digits split: if_splits)
  then have "unat n = digits_value ?d * unat f"
    using checked_mul_unat [OF m] by (simp add: of_nat_u64)
  moreover have "1 \<le> unat n"
    using n(1) by (metis One_nat_def Suc_leI unat_eq_zero neq0_conv)
  moreover have "unat n \<le> 64 * 1024 ^ 4"
    using n(2) by (simp add: word_le_nat_alt max_size_unat)
  moreover note d f takeWhile_all takeWhile_digits_split
  ultimately show ?thesis by metis
qed

theorem disk_size_exact_witness:
  "\<exists>digits unit factor. ''500M'' = digits @ unit \<and> digits \<noteq> []
     \<and> size_factor (to_ascii_uppercase unit) = Some factor
     \<and> unat (524288000 :: u64) = digits_value digits * unat factor"
proof -
  have "parse_disk_image_size ''500M'' = Inr 524288000"
    by (simp add: parse_disk_image_size_def size_eval)
  from disk_size_exact [OF this] show ?thesis by blast
qed

lemma digit_visible: "is_ascii_digit c \<Longrightarrow> visible c"
  by (simp add: is_ascii_digit_def visible_def)

text \<open>
  Every size from one byte to 64 TiB that is a multiple of a unit can be written with that
  unit and is read back exactly.
\<close>

lemma disk_size_roundtrip:
  assumes "(unit, factor) \<in> {([], 1), (''K'', 1024), (''M'', 1024 ^ 2), (''G'', 1024 ^ 3), (''T'', 1024 ^ 4)}"
    and "1 \<le> k * factor" and "k * factor \<le> 64 * 1024 ^ 4"
  shows "parse_disk_image_size (show_nat k @ unit) = Inr (of_nat (k * factor))"
proof -
  have f1: "1 \<le> factor" using assms(1) by auto
  have "k \<le> k * factor" using f1 by simp
  then have "k \<le> 64 * 1024 ^ 4" using assms(3) by (rule order_trans)
  then have k: "k < 10 ^ 14" by simp
  have digits: "show_nat k \<noteq> []" "list_all is_ascii_digit (show_nat k)"
    using show_nat_digits by auto
  have len: "length (show_nat k) \<le> 14" using length_show_nat [of k 13] k by simp
  have unit: "length unit \<le> 1" "list_all visible unit" "takeWhile is_ascii_digit unit = []"
    using assms(1) by (auto simp: visible_def is_ascii_digit_def)
  have tw: "takeWhile is_ascii_digit (show_nat k @ unit) = show_nat k"
    using digits(2) unit(3) by (simp add: takeWhile_append list_all_iff)
  have tr: "trim (show_nat k @ unit) = show_nat k @ unit"
    using digits(2) unit(2) by (intro trim_visible) (auto simp: list_all_iff digit_visible)
  have fac: "size_factor (to_ascii_uppercase unit) = Some (of_nat factor :: u64)"
    using assms(1)
    by (auto simp: size_factor_def to_ascii_uppercase_def to_ascii_uppercase_char_def
        is_ascii_lowercase_def)
  have fb: "factor < 2 ^ 64" using assms(1) by auto
  have mul: "checked_mul (of_nat k) (of_nat factor) = Some (of_nat (k * factor) :: u64)"
    using assms(3) k fb by (simp add: checked_mul_def of_nat_u64)
  have "unat (of_nat (k * factor) :: u64) = k * factor"
    using assms(3) by (intro of_nat_u64) simp
  then have rng: "(of_nat (k * factor) :: u64) \<noteq> 0"
      "\<not> MAX_DISK_IMAGE_SIZE_BYTES < (of_nat (k * factor) :: u64)"
    using assms(2,3) by (auto simp: word_less_nat_alt max_size_unat unat_eq_zero [symmetric]
        simp del: of_nat_mult)
  show ?thesis
    using digits len unit k rng
    by (simp add: parse_disk_image_size_def Let_def tw tr fac mul parse_uint_show_nat
        del: of_nat_mult)
qed

lemma disk_size_roundtrip_example:
  "parse_disk_image_size (show_nat 10 @ ''G'') = Inr (of_nat (10 * 1024 ^ 3))"
  by (rule disk_size_roundtrip) simp_all

section \<open>OCI references\<close>

interpretation oci_reference:
  validated_text "\<lambda>s. validate_oci_reference s = Inr ()" oci_reference_new oci_as_str
proof
  fix s :: string
  assume "validate_oci_reference s \<noteq> Inr ()"
  then show "\<exists>e. oci_reference_new s = Inl e"
    by (cases "validate_oci_reference s") (auto simp: oci_reference_new_def)
next
  fix x y :: OciReference
  assume "oci_as_str x = oci_as_str y"
  then show "x = y" by (cases x; cases y) simp
qed (simp add: oci_reference_new_def)

text \<open>How a reference is put together.\<close>

definition assemble :: "string option \<Rightarrow> string \<Rightarrow> string option \<Rightarrow> string" where
  "assemble registry img tag =
     (case registry of None \<Rightarrow> [] | Some r \<Rightarrow> r @ ''/'') @ img
     @ (case tag of None \<Rightarrow> [] | Some t \<Rightarrow> CHR '':'' # t)"

definition oci_parts :: "string option \<Rightarrow> string \<Rightarrow> string option \<Rightarrow> bool" where
  "oci_parts registry img tag \<longleftrightarrow>
     (case registry of None \<Rightarrow> CHR ''/'' \<notin> set img | Some r \<Rightarrow> validate_registry r = Inr ())
     \<and> validate_image img = Inr ()
     \<and> (case tag of None \<Rightarrow> True | Some t \<Rightarrow> validate_tag t = Inr ())"

lemma tag_bytes:
  "validate_tag t = Inr () \<Longrightarrow> t \<noteq> [] \<and> list_all tag_byte t"
  by (cases t) (auto simp: validate_tag_def tag_head_def tag_byte_def split: if_splits)

lemma tag_byte_plain: "tag_byte b \<Longrightarrow> visible b \<and> b \<notin> set '':/@''"
  by (auto simp: tag_byte_def visible_def ascii_defs)

lemma image_byte_plain: "image_byte b \<Longrightarrow> visible b \<and> b \<notin> set '':/@''"
  by (auto simp: image_byte_def visible_def ascii_defs)

lemma registry_byte_plain: "registry_byte b \<Longrightarrow> visible b \<and> b \<notin> set '':/@.''"
  by (auto simp: registry_byte_def visible_def ascii_defs)

lemma image_component_bytes:
  "validate_image_component w = Inr () \<Longrightarrow> w \<noteq> [] \<and> list_all image_byte w"
  by (cases w) (auto simp: image_head_def image_byte_def split: if_splits)

lemma image_components:
  "validate_image img = Inr () \<Longrightarrow> w \<in> set (split_on CHR ''/'' img) \<Longrightarrow>
   w \<noteq> [] \<and> list_all image_byte w"
  using image_component_bytes by (auto simp: validate_image_def split: if_splits)

lemma image_bytes:
  assumes "validate_image img = Inr ()" and "c \<in> set img"
  shows "visible c \<and> c \<noteq> CHR '':'' \<and> c \<noteq> CHR ''@''"
proof (cases "c = CHR ''/''")
  case False
  with assms(2) obtain w where "w \<in> set (split_on CHR ''/'' img)" "c \<in> set w"
    using split_on_members by metis
  with image_components [OF assms(1)] image_byte_plain show ?thesis by (force simp: list_all_iff)
qed (simp add: visible_def)

lemma validate_registry_parts:
  assumes "validate_registry r = Inr ()"
  shows "r \<noteq> []" and "\<forall>c \<in> set r. visible c \<and> c \<noteq> CHR ''/'' \<and> c \<noteq> CHR ''@''"
proof -
  obtain host port where hp: "(case split_once CHR '':'' r of Some (h, p) \<Rightarrow> (h, Some p)
      | None \<Rightarrow> (r, None)) = (host, port)" by fastforce
  define h where "h = (case strip_suffix host ''.'' of Some h \<Rightarrow> h | None \<Rightarrow> host)"
  from assms hp have host: "host \<noteq> []" "\<forall>l \<in> set (split_on CHR ''.'' h). registry_label l"
    and port: "\<forall>p. port = Some p \<longrightarrow> valid_port p"
    by (auto simp: validate_registry_def h_def list_ex_iff Let_def split: if_splits option.splits)
  have r: "r = host @ (case port of None \<Rightarrow> [] | Some p \<Rightarrow> CHR '':'' # p)"
    using hp by (auto simp: split_once_Some split: option.splits prod.splits)
  show "r \<noteq> []" using r host(1) by simp
  have hb: "visible c \<and> c \<noteq> CHR ''/'' \<and> c \<noteq> CHR ''@''" if "c \<in> set h" for c
  proof (cases "c = CHR ''.''")
    case False
    with that obtain w where "w \<in> set (split_on CHR ''.'' h)" "c \<in> set w"
      using split_on_members by metis
    with host(2) have "registry_byte c" by (auto simp: registry_label_def list_all_iff)
    then show ?thesis using registry_byte_plain by auto
  qed (simp add: visible_def)
  have "set host \<subseteq> insert (CHR ''.'') (set h)"
    by (auto simp: h_def strip_suffix_Some split: option.splits)
  moreover have "visible c \<and> c \<noteq> CHR ''/'' \<and> c \<noteq> CHR ''@''"
    if "port = Some p" "c \<in> set p" for c p
    using port that by (auto simp: valid_port_def list_all_iff is_ascii_digit_def visible_def)
  ultimately show "\<forall>c \<in> set r. visible c \<and> c \<noteq> CHR ''/'' \<and> c \<noteq> CHR ''@''"
    using hb by (auto simp: r visible_def split: option.splits)
qed

lemma nth_suffix_mem:
  "i < length (a @ b) \<Longrightarrow> \<not> i < length a \<Longrightarrow> (a @ b) ! i \<in> set b"
  by (metis le_add_diff_inverse length_append nat_add_left_cancel_less not_less nth_append nth_mem)

lemma tag_separator_tagged:
  assumes "\<forall>c \<in> set t. c \<noteq> CHR '':'' \<and> c \<noteq> CHR ''/''"
  shows "tag_separator (p @ CHR '':'' # t) = Some (length p)"
proof -
  have colon: "rfind CHR '':'' (p @ CHR '':'' # t) = Some (length p)"
    using assms unfolding rfind_def by (intro rposition_append) auto
  have "slash < length p" if "rfind CHR ''/'' (p @ CHR '':'' # t) = Some slash" for slash
  proof (rule ccontr)
    assume "\<not> slash < length p"
    with rposition_Some [OF that [unfolded rfind_def]] have "CHR ''/'' \<in> set (CHR '':'' # t)"
      using nth_suffix_mem by metis
    with assms show False by auto
  qed
  with colon show ?thesis by (auto simp: tag_separator_def split: option.splits)
qed

lemma tag_separator_port:
  assumes "CHR '':'' \<notin> set img"
  shows "tag_separator (r @ CHR ''/'' # img) = None"
proof -
  let ?s = "r @ CHR ''/'' # img"
  have slash: "length r \<le> slash" if "rfind CHR ''/'' ?s = Some slash" for slash
  proof (rule ccontr)
    assume "\<not> length r \<le> slash"
    then have "CHR ''/'' \<in> set (drop (Suc slash) ?s)" by simp
    with rposition_Some(3) [OF that [unfolded rfind_def]] show False by auto
  qed
  have colon: "colon < length r" if "rfind CHR '':'' ?s = Some colon" for colon
  proof (rule ccontr)
    assume "\<not> colon < length r"
    with rposition_Some [OF that [unfolded rfind_def]] have "CHR '':'' \<in> set (CHR ''/'' # img)"
      using nth_suffix_mem by metis
    with assms show False by auto
  qed
  have "rfind CHR ''/'' ?s \<noteq> None" by (simp add: rfind_def rposition_None)
  with slash colon show ?thesis
    by (fastforce simp: tag_separator_def split: option.splits)
qed

lemma tag_separator_assemble:
  assumes "oci_parts registry img tag"
  shows "tag_separator (assemble registry img tag) =
    (case tag of None \<Rightarrow> None | Some t \<Rightarrow> Some (length (assemble registry img None)))"
proof (cases tag)
  case (Some t)
  then have "\<forall>c \<in> set t. c \<noteq> CHR '':'' \<and> c \<noteq> CHR ''/''"
    using assms tag_bytes tag_byte_plain by (fastforce simp: oci_parts_def list_all_iff)
  from tag_separator_tagged [OF this, of "assemble registry img None"] Some show ?thesis
    by (simp add: assemble_def)
next
  case None
  have i: "CHR '':'' \<notin> set img" using assms image_bytes by (auto simp: oci_parts_def)
  then have "rfind CHR '':'' img = None" by (auto simp: rfind_def rposition_None)
  then have "tag_separator img = None" by (simp add: tag_separator_def)
  with None tag_separator_port [OF i] show ?thesis
    by (simp add: assemble_def split: option.splits)
qed

lemma assemble_bytes:
  assumes "oci_parts registry img tag" and "c \<in> set (assemble registry img tag)"
  shows "visible c \<and> c \<noteq> CHR ''@''"
proof -
  consider r where "registry = Some r" "c \<in> set r" | "c = CHR ''/''" | "c \<in> set img"
    | "c = CHR '':''" | t where "tag = Some t" "c \<in> set t"
    using assms(2) by (auto simp: assemble_def split: option.splits)
  then show ?thesis
  proof cases
    case 1
    with assms(1) have "validate_registry r = Inr ()" by (simp add: oci_parts_def)
    from validate_registry_parts(2) [OF this] 1 show ?thesis by blast
  next
    case 3
    then show ?thesis using assms(1) image_bytes by (auto simp: oci_parts_def)
  next
    case 5
    then have "tag_byte c" using assms(1) tag_bytes by (auto simp: oci_parts_def list_all_iff)
    then show ?thesis using tag_byte_plain by auto
  qed (simp_all add: visible_def)
qed

lemma assemble_no_url:
  assumes "oci_parts registry img tag"
  shows "\<not> contains_str (assemble registry img tag) ''://''"
proof
  define rest where "rest = img @ (case tag of None \<Rightarrow> [] | Some t \<Rightarrow> CHR '':'' # t)"
  have i: "\<forall>w \<in> set (split_on CHR ''/'' img). w \<noteq> []"
    using assms image_components by (auto simp: oci_parts_def)
  have "CHR ''/'' \<notin> set t" if "tag = Some t" for t
    using assms that tag_bytes tag_byte_plain by (fastforce simp: oci_parts_def list_all_iff)
  then have "split_on CHR ''/'' rest = butlast (split_on CHR ''/'' img)
      @ [last (split_on CHR ''/'' img) @ (case tag of None \<Rightarrow> [] | Some t \<Rightarrow> CHR '':'' # t)]"
    unfolding rest_def by (intro split_on_append_last) (auto split: option.splits)
  then have rest: "[] \<notin> set (split_on CHR ''/'' rest)"
    using i by (auto dest: in_set_butlastD)
  have all: "[] \<notin> set (split_on CHR ''/'' (assemble registry img tag))"
  proof (cases registry)
    case (Some r)
    then have r: "r \<noteq> []" "CHR ''/'' \<notin> set r"
      using assms validate_registry_parts by (auto simp: oci_parts_def)
    have "assemble registry img tag = r @ CHR ''/'' # rest"
      using Some by (simp add: assemble_def rest_def)
    then have "split_on CHR ''/'' (assemble registry img tag) = r # split_on CHR ''/'' rest"
      using split_on_no_sep [OF r(2)] by (simp add: split_on_append)
    with r rest show ?thesis by auto
  next
    case None
    then show ?thesis using rest by (simp add: assemble_def rest_def)
  qed
  assume "contains_str (assemble registry img tag) ''://''"
  then obtain a b where "assemble registry img tag = (a @ '':'') @ CHR ''/'' # CHR ''/'' # b"
    by (auto simp: contains_str_iff)
  then have "split_on CHR ''/'' (assemble registry img tag) =
    split_on CHR ''/'' (a @ '':'') @ [] # split_on CHR ''/'' b"
    by (simp only: split_on_append) simp
  with all show False by simp
qed

lemma split_once_no_sep: "d \<notin> set l \<Longrightarrow> split_once d (l @ d # r) = Some (l, r)"
  by (simp add: split_once_Some)

lemma oci_reference_parse:
  assumes v: "validate_oci_reference s = Inr ()"
  shows "length s \<le> 512" and "\<not> starts_with s ''-''"
    and "\<exists>registry img tag. s = assemble registry img tag \<and> oci_parts registry img tag"
proof -
  define wt where "wt = (case tag_separator s of
      Some colon \<Rightarrow> (take colon s, Some (drop (colon + 1) s)) | None \<Rightarrow> (s, None))"
  define ri where "ri = (case split_once CHR ''/'' (fst wt) of
      Some (registry, img) \<Rightarrow> (Some registry, img) | None \<Rightarrow> (None, fst wt))"
  from v have chk: "length s \<le> 512" "\<not> starts_with s ''-''"
    and parts: "\<forall>t. snd wt = Some t \<longrightarrow> validate_tag t = Inr ()"
      "\<forall>r. fst ri = Some r \<longrightarrow> validate_registry r = Inr ()" "validate_image (snd ri) = Inr ()"
    by (auto simp: validate_oci_reference_def wt_def ri_def Let_def split_beta
        split: if_splits option.splits)
  have s: "s = fst wt @ (case snd wt of None \<Rightarrow> [] | Some t \<Rightarrow> CHR '':'' # t)"
  proof (cases "tag_separator s")
    case (Some colon)
    then have "rfind CHR '':'' s = Some colon"
      by (auto simp: tag_separator_def split: option.splits if_splits)
    note c = rposition_Some [OF this [unfolded rfind_def]]
    from id_take_nth_drop [OF c(1)] c(2) Some show ?thesis by (simp add: wt_def)
  qed (simp add: wt_def)
  have wt: "fst wt = (case fst ri of None \<Rightarrow> [] | Some r \<Rightarrow> r @ ''/'') @ snd ri"
    "fst ri = None \<Longrightarrow> CHR ''/'' \<notin> set (snd ri)"
    by (auto simp: ri_def split_once_Some split_once_None split: option.splits)
  have "s = assemble (fst ri) (snd ri) (snd wt)"
    using s wt(1) by (simp add: assemble_def)
  moreover have "oci_parts (fst ri) (snd ri) (snd wt)"
    using parts wt(2) by (auto simp: oci_parts_def split: option.splits)
  ultimately show "\<exists>registry img tag. s = assemble registry img tag \<and> oci_parts registry img tag"
    by blast
  show "length s \<le> 512" "\<not> starts_with s ''-''" by (fact chk)+
qed

lemma oci_reference_accept:
  assumes len: "length s \<le> 512" and hyphen: "\<not> starts_with s ''-''"
    and s: "s = assemble registry img tag" and p: "oci_parts registry img tag"
  shows "validate_oci_reference s = Inr ()"
proof -
  have vis: "list_all visible s" and at: "CHR ''@'' \<notin> set s"
    using assemble_bytes [OF p] s by (auto simp: list_all_iff)
  have "img \<noteq> []" using p by (auto simp: oci_parts_def validate_image_def)
  then have ne: "s \<noteq> []" by (simp add: s assemble_def)
  let ?w = "assemble registry img None"
  have sw: "s = ?w @ (case tag of None \<Rightarrow> [] | Some t \<Rightarrow> CHR '':'' # t)"
    by (simp add: s assemble_def)
  have tag: "(case tag_separator s of Some colon \<Rightarrow> (take colon s, Some (drop (colon + 1) s))
      | None \<Rightarrow> (s, None)) = (?w, tag)"
  proof (cases tag)
    case (Some t)
    then have e: "s = ?w @ CHR '':'' # t" using sw by simp
    have "tag_separator s = Some (length ?w)" using tag_separator_assemble [OF p] Some s by simp
    moreover have "take (length ?w) s = ?w" "drop (length ?w + 1) s = t"
      by (subst e, simp)+
    ultimately show ?thesis using Some by simp
  next
    case None
    then show ?thesis using tag_separator_assemble [OF p] s by simp
  qed
  have "split_once CHR ''/'' ?w = (case registry of None \<Rightarrow> None | Some r \<Rightarrow> Some (r, img))"
  proof (cases registry)
    case (Some r)
    with p have "validate_registry r = Inr ()" by (simp add: oci_parts_def)
    then have "CHR ''/'' \<notin> set r" using validate_registry_parts(2) by blast
    with Some show ?thesis by (simp add: assemble_def split_once_no_sep)
  next
    case None
    with p show ?thesis by (simp add: assemble_def oci_parts_def split_once_None)
  qed
  then have ri: "(case split_once CHR ''/'' ?w of Some (r, i) \<Rightarrow> (Some r, i) | None \<Rightarrow> (None, ?w))
      = (registry, img)"
    by (cases registry) (auto simp: assemble_def)
  show ?thesis
    using len hyphen ne at trim_visible [OF vis] has_control_visible [OF vis]
      assemble_no_url [OF p] p
    unfolding validate_oci_reference_def tag Let_def
    by (auto simp: ri s [symmetric] oci_parts_def split: option.splits)
qed

text \<open>
  C39. The OCI reference grammar, both ways: a reference is accepted exactly when it has at most
  512 bytes, does not start with a hyphen and is an optional valid registry (with an optional
  port), a valid image path and an optional valid tag, put together in that order. A colon of a
  registry port is never taken for a tag, and digests and transport URLs are never accepted.
\<close>

theorem oci_reference_grammar:
  "validate_oci_reference s = Inr () \<longleftrightarrow>
     length s \<le> 512 \<and> \<not> starts_with s ''-''
     \<and> (\<exists>registry img tag. s = assemble registry img tag \<and> oci_parts registry img tag)"
  using oci_reference_parse [of s] oci_reference_accept [of s] by blast

section \<open>Accounts, secrets and artifacts\<close>

lemma check_username_tail_ok:
  "check_username_tail bs = Inr () \<Longrightarrow> list_all (\<lambda>b. username_byte b \<or> b = CHR ''$'') bs"
  by (induction bs rule: check_username_tail.induct) (auto split: if_splits)

lemma check_shell_components_ok:
  "check_shell_components n cs = Inr m \<Longrightarrow>
     CurDir \<notin> set cs \<and> ParentDir \<notin> set cs \<and> m = (n \<or> (\<exists>w. Normal w \<in> set cs))"
  by (induction n cs rule: check_shell_components.induct) auto

lemma validate_login_shell_ok:
  assumes "validate_login_shell shell = Inr ()" and "shell \<noteq> []"
  shows "is_absolute shell \<and> list_all is_safe_shell_path_byte shell \<and> ParentDir \<notin> set (components shell)
    \<and> (\<exists>w. Normal w \<in> set (components shell))"
  using assms check_shell_components_ok [of False "components shell"]
  by (auto simp: validate_login_shell_def split: if_splits)

text \<open>The bytes that would break a line of the account database or of \<open>chpasswd\<close>.\<close>

definition line_safe :: "string \<Rightarrow> bool" where
  "line_safe s \<longleftrightarrow> list_all (\<lambda>b. b \<noteq> CHR '':'' \<and> \<not> ctrl1 b) s"

text \<open>
  An account that passes validation cannot corrupt the account database: the user name is
  made of letters, digits, underscores and hyphens with at most a dollar sign at the end, it is not
  empty, starts with a letter or an underscore and has at most 32 bytes; the requested uid is not
  root; and the login shell that is written is an absolute path without parent components. Neither
  name nor shell contains a colon or a control character.
\<close>

lemma create_user_safe:
  assumes "create_user_validate u = Inr ()"
  shows "cu_username u \<noteq> [] \<and> length (cu_username u) \<le> 32
    \<and> list_all (\<lambda>b. username_byte b \<or> b = CHR ''$'') (cu_username u)
    \<and> (is_ascii_alphabetic (hd (cu_username u)) \<or> hd (cu_username u) = CHR ''_'')
    \<and> cu_uid u \<noteq> Some 0
    \<and> is_absolute (login_shell u) \<and> ParentDir \<notin> set (components (login_shell u))
    \<and> line_safe (cu_username u) \<and> line_safe (login_shell u)"
proof -
  have u: "validate_login_username (cu_username u) = Inr ()" "cu_uid u \<noteq> Some 0"
    "validate_login_shell (cu_shell u) = Inr ()"
    using assms by (auto simp: create_user_validate_def split: if_splits)
  from u(1) have ne: "cu_username u \<noteq> []" "length (cu_username u) \<le> 32"
      "is_ascii_alphabetic (hd (cu_username u)) \<or> hd (cu_username u) = CHR ''_''"
      "check_username_tail (tl (cu_username u)) = Inr ()"
    by (auto simp: validate_login_username_def split: if_splits)
  then have bytes: "list_all (\<lambda>b. username_byte b \<or> b = CHR ''$'') (cu_username u)"
    using check_username_tail_ok
    by (cases "cu_username u") (auto simp: username_byte_def is_ascii_alphanumeric_def)
  then have name: "line_safe (cu_username u)"
    unfolding line_safe_def list_all_iff
    by (auto simp: username_byte_def ctrl1_def ascii_defs)
  have shell: "is_absolute (login_shell u) \<and> list_all is_safe_shell_path_byte (login_shell u)
      \<and> ParentDir \<notin> set (components (login_shell u))"
  proof (cases "cu_shell u = []")
    case True
    then show ?thesis
      by (simp add: login_shell_def is_absolute_def components_def path_parts_def
          is_safe_shell_path_byte_def ascii_defs)
  next
    case False
    with validate_login_shell_ok [OF u(3) False] show ?thesis by (simp add: login_shell_def)
  qed
  then have "line_safe (login_shell u)"
    unfolding line_safe_def list_all_iff
    by (auto simp: is_safe_shell_path_byte_def ctrl1_def ascii_defs)
  with ne bytes u(2) name shell show ?thesis by blast
qed

lemma create_user_safe_witness:
  "line_safe ''lynn'' \<and> is_absolute ''/bin/zsh''"
proof -
  let ?u = "\<lparr>cu_username = ''lynn'', cu_uid = Some 1000, cu_sudoer = True, cu_shell = ''/bin/zsh''\<rparr>"
  have "create_user_validate ?u = Inr ()" by code_simp
  from create_user_safe [OF this] show ?thesis by (simp add: login_shell_def)
qed

lemma validate_chpasswd_secret_ok:
  "validate_chpasswd_secret s = Inr () \<Longrightarrow> length s \<le> 4096 \<and> list_all (\<lambda>b. \<not> ctrl1 b) s"
  using not_has_control_bytes [of s]
  by (auto simp: validate_chpasswd_secret_def MAX_CHPASSWD_SECRET_BYTES_def list_all_iff
      split: if_splits)

lemma raw_tar_exclusive: "looks_like_raw_artifact p \<Longrightarrow> \<not> looks_like_tar_artifact p"
proof -
  let ?l = "to_ascii_lowercase p"
  assume raw: "looks_like_raw_artifact p"
  have "\<not> ends_with ?l ''.tgz''"
  proof
    assume "ends_with ?l ''.tgz''"
    then obtain t where t: "?l = t @ ''.tgz''" by (auto simp: ends_with_iff)
    then have "artifact_basename_without_compression p = ?l"
      by (simp add: artifact_basename_without_compression_def Let_def strip_suffix_def
          ends_with_def split: option.splits)
    with raw t show False by (auto simp: looks_like_raw_artifact_def ends_with_iff)
  qed
  with raw show ?thesis
    by (auto simp: looks_like_raw_artifact_def looks_like_tar_artifact_def Let_def ends_with_iff)
qed

text \<open>
  The storage class of an artifact is settled by its path: a spec built from a path that is
  not blank and has no control character is always valid, its format is never left open, and for
  any spec that validates the resolved format is raw whenever the name looks raw and tar whenever
  it looks like a tar archive, whether the format was given or detected.
\<close>

lemma artifact_format_resolved:
  "(trim p \<noteq> [] \<and> \<not> has_control p \<longrightarrow> artifact_validate (from_path p) = Inr ())
   \<and> resolved_format a \<noteq> FormatAuto
   \<and> (artifact_validate a = Inr () \<longrightarrow>
        (looks_like_raw_artifact (art_path a) \<longrightarrow> resolved_format a = FormatRaw)
        \<and> (looks_like_tar_artifact (art_path a) \<longrightarrow> resolved_format a = FormatTar))"
  using raw_tar_exclusive [of p] raw_tar_exclusive [of "art_path a"]
  by (cases "art_format a") (auto simp: artifact_validate_def from_path_def resolved_format_def)

lemma artifact_format_resolved_example:
  "artifact_validate (from_path ''disk.raw.zst'') = Inr ()
   \<and> resolved_format \<lparr>art_path = ''disk.raw.zst'', art_format = FormatAuto\<rparr> = FormatRaw"
proof -
  have "trim ''disk.raw.zst'' \<noteq> []" "\<not> has_control ''disk.raw.zst''" by code_simp+
  moreover have "artifact_validate \<lparr>art_path = ''disk.raw.zst'', art_format = FormatAuto\<rparr> = Inr ()"
    "looks_like_raw_artifact ''disk.raw.zst''"
    by code_simp+
  ultimately show ?thesis
    using artifact_format_resolved [of "''disk.raw.zst''"
        "\<lparr>art_path = ''disk.raw.zst'', art_format = FormatAuto\<rparr>"]
    by simp
qed

end
