(* ===== verification/Display_Domain.thy ===== *)
theory Display_Domain
  imports Domain_Values
begin

text \<open>
  Host display integration: Wayland sockets, grant intents and resolved grants
  (\<open>src/domain/wayland.rs\<close> and \<open>src/application/provisioning/wayland.rs\<close>) and X11 sockets, peer
  identities and bind intents (\<open>src/domain/x11.rs\<close>). A \<open>PathBuf\<close> is its byte string; sets of paths
  compare components. The octal masks \<open>0o7777\<close>, \<open>0o200\<close>, \<open>0o020\<close> and \<open>0o002\<close> of the source are
  written in hexadecimal.
\<close>

section \<open>Wayland\<close>

definition CONTAINER_WAYLAND_ROOT :: string where
  "CONTAINER_WAYLAND_ROOT = ''/run/lasper/wayland''"

datatype WaylandDisplay = WaylandDisplay string

datatype WaylandValidationError =
    InvalidDisplayName string
  | EvidencePathNotAbsolute string string
  | SocketOwnerMismatch u32 u32
  | EmptyTargetUsername
  | NoSocketSelection
  | MixedSocketOwners u32 u32
  | DuplicateDisplay WaylandDisplay
  | DuplicateSocketPath string
  | ResolvedGrantWithoutSockets
  | SocketAccessMismatch WaylandDisplay
  | DuplicateResolvedDisplay WaylandDisplay

definition is_valid_display_name :: "string \<Rightarrow> bool" where
  "is_valid_display_name name \<longleftrightarrow>
     \<not> (name = [] \<or> has_control name \<or> file_name name \<noteq> Some name)"

definition wayland_display_new :: "string \<Rightarrow> WaylandValidationError + WaylandDisplay" where
  "wayland_display_new name =
     (if \<not> is_valid_display_name name then Inl (InvalidDisplayName name)
      else Inr (WaylandDisplay name))"

fun display_as_str :: "WaylandDisplay \<Rightarrow> string" where
  "display_as_str (WaylandDisplay s) = s"

definition container_socket_path :: "u32 \<Rightarrow> WaylandDisplay \<Rightarrow> string" where
  "container_socket_path uid display =
     path_join (path_join CONTAINER_WAYLAND_ROOT (show_nat (unat uid))) (display_as_str display)"

record SocketRevision =
  rev_device :: u64
  rev_inode :: u64
  rev_ctime_seconds :: "64 word"
  rev_ctime_nanoseconds :: "64 word"

record HostWaylandSocket =
  ws_display :: WaylandDisplay
  ws_runtime_dir :: string
  ws_canonical_path :: string
  ws_session_uid :: u32
  ws_owner_uid :: u32
  ws_owner_gid :: u32
  ws_mode :: u32
  ws_revision :: SocketRevision

definition wayland_socket_from_verified_parts ::
  "WaylandDisplay \<Rightarrow> string \<Rightarrow> string \<Rightarrow> u32 \<Rightarrow> u32 \<Rightarrow> u32 \<Rightarrow> u32 \<Rightarrow> SocketRevision \<Rightarrow>
     WaylandValidationError + HostWaylandSocket" where
  "wayland_socket_from_verified_parts display runtime_dir canonical_path session_uid owner_uid
       owner_gid mode revision =
     (if \<not> is_absolute runtime_dir
      then Inl (EvidencePathNotAbsolute ''runtime directory'' runtime_dir)
      else if \<not> is_absolute canonical_path
      then Inl (EvidencePathNotAbsolute ''canonical socket path'' canonical_path)
      else if owner_uid \<noteq> session_uid then Inl (SocketOwnerMismatch session_uid owner_uid)
      else Inr \<lparr>ws_display = display, ws_runtime_dir = runtime_dir,
                ws_canonical_path = canonical_path, ws_session_uid = session_uid,
                ws_owner_uid = owner_uid, ws_owner_gid = owner_gid,
                ws_mode = mode AND 0xFFF, ws_revision = revision\<rparr>)"

record ContainerUserIdentity =
  ci_username :: string
  ci_uid :: u32
  ci_gid :: u32

datatype WaylandSocketAccess = AccessOwner | AccessGroup | AccessOther

datatype WaylandBindPolicy = BindIdmap | BindNoIdmap

definition write_access_for ::
  "HostWaylandSocket \<Rightarrow> ContainerUserIdentity \<Rightarrow> WaylandSocketAccess option" where
  "write_access_for s target =
     (if ci_uid target = ws_owner_uid s
      then if ws_mode s AND 0x80 \<noteq> 0 then Some AccessOwner else None
      else if ci_gid target = ws_owner_gid s
      then if ws_mode s AND 0x10 \<noteq> 0 then Some AccessGroup else None
      else if ws_mode s AND 0x02 \<noteq> 0 then Some AccessOther else None)"

record WaylandGrantIntent =
  wi_target_username :: string
  wi_sources :: "HostWaylandSocket list"

text \<open>The loop over the sources, with the sets of displays and paths seen so far.\<close>

fun check_sources ::
  "u32 \<Rightarrow> WaylandDisplay set \<Rightarrow> component list set \<Rightarrow> HostWaylandSocket list \<Rightarrow>
     WaylandValidationError + unit" where
  "check_sources owner_uid displays paths [] = Inr ()"
| "check_sources owner_uid displays paths (source # sources) =
     (if ws_owner_uid source \<noteq> owner_uid
      then Inl (MixedSocketOwners owner_uid (ws_owner_uid source))
      else if ws_display source \<in> displays then Inl (DuplicateDisplay (ws_display source))
      else if components (ws_canonical_path source) \<in> paths
      then Inl (DuplicateSocketPath (ws_canonical_path source))
      else check_sources owner_uid (insert (ws_display source) displays)
             (insert (components (ws_canonical_path source)) paths) sources)"

definition grant_intent_new ::
  "string \<Rightarrow> HostWaylandSocket list \<Rightarrow> WaylandValidationError + WaylandGrantIntent" where
  "grant_intent_new target_username sources =
     (if target_username = [] then Inl EmptyTargetUsername
      else if sources = [] then Inl NoSocketSelection
      else and_then (check_sources (ws_owner_uid (hd sources)) {} {} sources) (\<lambda>_.
        Inr \<lparr>wi_target_username = target_username, wi_sources = sources\<rparr>))"

text \<open>\<open>None\<close> stands for the panic of indexing an empty vector.\<close>

definition required_uid :: "WaylandGrantIntent \<Rightarrow> u32 option" where
  "required_uid i = (case wi_sources i of [] \<Rightarrow> None | s # _ \<Rightarrow> Some (ws_owner_uid s))"

record WaylandSocketGrant =
  sg_source :: HostWaylandSocket
  sg_access :: WaylandSocketAccess

record WaylandGrant =
  wg_target :: ContainerUserIdentity
  wg_sockets :: "WaylandSocketGrant list"
  wg_bind_policy :: WaylandBindPolicy

fun check_grants ::
  "ContainerUserIdentity \<Rightarrow> WaylandDisplay set \<Rightarrow> WaylandSocketGrant list \<Rightarrow>
     WaylandValidationError + unit" where
  "check_grants target displays [] = Inr ()"
| "check_grants target displays (socket # sockets) =
     (if write_access_for (sg_source socket) target \<noteq> Some (sg_access socket)
      then Inl (SocketAccessMismatch (ws_display (sg_source socket)))
      else if ws_display (sg_source socket) \<in> displays
      then Inl (DuplicateResolvedDisplay (ws_display (sg_source socket)))
      else check_grants target (insert (ws_display (sg_source socket)) displays) sockets)"

definition grant_resolved ::
  "ContainerUserIdentity \<Rightarrow> WaylandSocketGrant list \<Rightarrow> WaylandBindPolicy \<Rightarrow>
     WaylandValidationError + WaylandGrant" where
  "grant_resolved target sockets bind_policy =
     (if sockets = [] then Inl ResolvedGrantWithoutSockets
      else and_then (check_grants target {} sockets) (\<lambda>_.
        Inr \<lparr>wg_target = target, wg_sockets = sockets, wg_bind_policy = bind_policy\<rparr>))"

subsection \<open>Resolution against the provisioned root file system\<close>

text \<open>The rejections of the deployment contract; the message of a wrapped error is the error.\<close>

datatype WaylandRejection =
    NotOwnedBySession
  | ManagedUnsupported
  | IdentityUnsupported
  | TargetMismatch
  | CannotWrite string u32 u32 WaylandDisplay
  | InvalidGrant WaylandValidationError

fun resolve_wayland_bind_policy ::
  "PrivateUsersMode option \<Rightarrow> WaylandRejection + WaylandBindPolicy" where
  "resolve_wayland_bind_policy (Some UsersNo) = Inr BindNoIdmap"
| "resolve_wayland_bind_policy None = Inr BindIdmap"
| "resolve_wayland_bind_policy (Some UsersYes) = Inr BindIdmap"
| "resolve_wayland_bind_policy (Some UsersPick) = Inr BindIdmap"
| "resolve_wayland_bind_policy (Some UsersManaged) = Inl ManagedUnsupported"
| "resolve_wayland_bind_policy (Some UsersIdentity) = Inl IdentityUnsupported"

definition validate_wayland_intent ::
  "WaylandGrantIntent \<Rightarrow> PrivateUsersMode option \<Rightarrow> WaylandRejection + unit" where
  "validate_wayland_intent intent private_users =
     and_then
       (try_each
          (\<lambda>s. if ws_owner_uid s \<noteq> ws_session_uid s then Inl NotOwnedBySession else Inr ())
          (wi_sources intent))
       (\<lambda>_. and_then (resolve_wayland_bind_policy private_users) (\<lambda>_. Inr ()))"

definition grant_socket ::
  "ContainerUserIdentity \<Rightarrow> HostWaylandSocket \<Rightarrow> WaylandRejection + WaylandSocketGrant" where
  "grant_socket target source =
     (case write_access_for source target of
        None \<Rightarrow>
          Inl (CannotWrite (ci_username target) (ci_uid target) (ci_gid target) (ws_display source))
      | Some access \<Rightarrow> Inr \<lparr>sg_source = source, sg_access = access\<rparr>)"

definition resolve_wayland_grant ::
  "WaylandGrantIntent \<Rightarrow> ContainerUserIdentity \<Rightarrow> PrivateUsersMode option \<Rightarrow>
     WaylandRejection + WaylandGrant" where
  "resolve_wayland_grant intent target private_users =
     and_then (validate_wayland_intent intent private_users) (\<lambda>_.
     if wi_target_username intent \<noteq> ci_username target then Inl TargetMismatch
     else
       and_then (try_map (grant_socket target) (wi_sources intent)) (\<lambda>sockets.
       and_then (resolve_wayland_bind_policy private_users) (\<lambda>policy.
       map_err InvalidGrant (grant_resolved target sockets policy))))"

section \<open>X11\<close>

definition X11_SOCKET_DIRECTORY :: string where
  "X11_SOCKET_DIRECTORY = ''/tmp/.X11-unix''"

datatype X11ValidationError =
    InvalidSource u16
  | InvalidDirectorySource string
  | CanonicalPathNotAbsolute string
  | InvalidPeerPid u32
  | BindTargetNotAbsolute string
  | BindTargetRelative string
  | BindTargetControlCharacter

datatype X11PeerIdentity = LocalProcess u32 u32 u32 | ExternalPeer u32 u32

definition peer_from_raw :: "u32 \<Rightarrow> u32 \<Rightarrow> u32 \<Rightarrow> X11ValidationError + X11PeerIdentity" where
  "peer_from_raw pid uid gid =
     (if pid > 0x7FFFFFFF then Inl (InvalidPeerPid pid)
      else Inr (if pid = 0 then ExternalPeer uid gid else LocalProcess pid uid gid))"

fun peer_pid :: "X11PeerIdentity \<Rightarrow> u32 option" where
  "peer_pid (LocalProcess pid _ _) = Some pid"
| "peer_pid (ExternalPeer _ _) = None"

fun peer_uid :: "X11PeerIdentity \<Rightarrow> u32" where
  "peer_uid (LocalProcess _ uid _) = uid"
| "peer_uid (ExternalPeer uid _) = uid"

fun peer_gid :: "X11PeerIdentity \<Rightarrow> u32" where
  "peer_gid (LocalProcess _ _ gid) = gid"
| "peer_gid (ExternalPeer _ gid) = gid"

definition legacy_tuple :: "X11PeerIdentity \<Rightarrow> u32 \<times> u32 \<times> u32" where
  "legacy_tuple p = ((case peer_pid p of Some pid \<Rightarrow> pid | None \<Rightarrow> 0), peer_uid p, peer_gid p)"

record HostX11Socket =
  xs_display :: u16
  xs_alternate :: bool
  xs_source :: string
  xs_canonical_path :: string
  xs_owner_uid :: u32
  xs_owner_gid :: u32
  xs_mode :: u32
  xs_peer_pid :: u32
  xs_peer_uid :: u32
  xs_peer_gid :: u32
  xs_revision :: SocketRevision

definition x11_socket_name :: "u16 \<Rightarrow> bool \<Rightarrow> string" where
  "x11_socket_name display alternate =
     ''X'' @ show_nat (unat display) @ (if alternate then ''_'' else [])"

definition x11_socket_from_verified_parts ::
  "u16 \<Rightarrow> bool \<Rightarrow> string \<Rightarrow> string \<Rightarrow> u32 \<Rightarrow> u32 \<Rightarrow> u32 \<Rightarrow> u32 \<Rightarrow> u32 \<Rightarrow> u32 \<Rightarrow> SocketRevision \<Rightarrow>
     X11ValidationError + HostX11Socket" where
  "x11_socket_from_verified_parts display alternate source canonical_path owner_uid owner_gid mode
       pid uid gid revision =
     (if parent_components source \<noteq> Some (components X11_SOCKET_DIRECTORY)
        \<or> file_name source \<noteq> Some (x11_socket_name display alternate)
      then Inl (InvalidSource display)
      else if \<not> is_absolute canonical_path then Inl (CanonicalPathNotAbsolute canonical_path)
      else and_then (peer_from_raw pid uid gid) (\<lambda>_.
        Inr \<lparr>xs_display = display, xs_alternate = alternate, xs_source = source,
             xs_canonical_path = canonical_path, xs_owner_uid = owner_uid,
             xs_owner_gid = owner_gid, xs_mode = mode AND 0xFFF, xs_peer_pid = pid,
             xs_peer_uid = uid, xs_peer_gid = gid, xs_revision = revision\<rparr>))"

text \<open>\<open>expect\<close> is a panic: \<open>None\<close>.\<close>

definition expect_ok :: "'e + 'a \<Rightarrow> 'a option" where
  "expect_ok r = (case r of Inl _ \<Rightarrow> None | Inr x \<Rightarrow> Some x)"

definition peer_identity :: "HostX11Socket \<Rightarrow> X11PeerIdentity option" where
  "peer_identity s = expect_ok (peer_from_raw (xs_peer_pid s) (xs_peer_uid s) (xs_peer_gid s))"

datatype X11BindSource = SourceDirectory string | SourceSocket HostX11Socket

record X11BindIntent =
  xb_source :: X11BindSource
  xb_target :: string

definition validate_bind_target :: "string \<Rightarrow> X11ValidationError + unit" where
  "validate_bind_target target =
     (if \<not> is_absolute target then Inl (BindTargetNotAbsolute target)
      else if CurDir \<in> set (components target) \<or> ParentDir \<in> set (components target)
      then Inl (BindTargetRelative target)
      else if has_control target then Inl BindTargetControlCharacter
      else Inr ())"

definition bind_from_socket :: "HostX11Socket \<Rightarrow> string \<Rightarrow> X11ValidationError + X11BindIntent" where
  "bind_from_socket socket target =
     and_then (validate_bind_target target) (\<lambda>_.
       Inr \<lparr>xb_source = SourceSocket socket, xb_target = target\<rparr>)"

definition bind_directory :: "string \<Rightarrow> string \<Rightarrow> X11ValidationError + X11BindIntent" where
  "bind_directory source target =
     (if \<not> path_eq source X11_SOCKET_DIRECTORY then Inl (InvalidDirectorySource source)
      else and_then (validate_bind_target target) (\<lambda>_.
        Inr \<lparr>xb_source = SourceDirectory source, xb_target = target\<rparr>))"

definition bind_same_path :: "HostX11Socket \<Rightarrow> X11BindIntent option" where
  "bind_same_path socket = expect_ok (bind_from_socket socket (xs_source socket))"

definition bind_standard_directory :: "X11BindIntent option" where
  "bind_standard_directory = expect_ok (bind_directory X11_SOCKET_DIRECTORY X11_SOCKET_DIRECTORY)"

fun bind_source_path :: "X11BindSource \<Rightarrow> string" where
  "bind_source_path (SourceDirectory source) = source"
| "bind_source_path (SourceSocket socket) = xs_source socket"

fun is_directory_source :: "X11BindSource \<Rightarrow> bool" where
  "is_directory_source (SourceDirectory _) = True"
| "is_directory_source (SourceSocket _) = False"

text \<open>Reading a bind intent back from the wire, once its source and target are decoded.\<close>

definition bind_deserialize :: "X11BindSource \<Rightarrow> string \<Rightarrow> X11ValidationError + X11BindIntent" where
  "bind_deserialize source target =
     (case source of
        SourceDirectory dir \<Rightarrow>
          if \<not> path_eq dir X11_SOCKET_DIRECTORY then Inl (InvalidDirectorySource dir)
          else and_then (validate_bind_target target) (\<lambda>_.
            Inr \<lparr>xb_source = source, xb_target = target\<rparr>)
      | SourceSocket _ \<Rightarrow>
          and_then (validate_bind_target target) (\<lambda>_.
            Inr \<lparr>xb_source = source, xb_target = target\<rparr>))"

section \<open>Paths handed to the guest\<close>

lemma path_part_pieces:
  "w \<in> set ws \<Longrightarrow> w = [] \<or> w = ''.'' \<or> w = ''..'' \<or> Normal w \<in> set (path_parts ws)"
  by (auto simp: path_parts_def)

text \<open>A relative path with one component is that component, up to trailing separators.\<close>

lemma file_name_self:
  assumes "file_name s = Some s"
  shows "CHR ''/'' \<notin> set s" and "s \<noteq> ''.''" and "s \<noteq> ''..''"
proof -
  from assms have ne: "components s \<noteq> []" and l: "last (components s) = Normal s"
    by (auto simp: file_name_def split: if_splits component.splits)
  then have mem: "Normal s \<in> set (components s)" by (metis last_in_set)
  have "\<exists>ws. Normal s \<in> set (path_parts ws) \<and> set ws \<subseteq> set (split_on CHR ''/'' s)"
  proof (cases "starts_with s ''/''")
    case True
    with mem show ?thesis by (auto simp: components_def)
  next
    case False
    obtain w ws where w: "split_on CHR ''/'' s = w # ws" by (metis list.exhaust split_on_not_Nil)
    with mem False have "Normal s \<in> set (path_parts (w # ws))"
      by (auto simp: components_def path_parts_def split: if_splits)
    with w show ?thesis by (metis order_refl)
  qed
  then obtain w where "w \<in> set (split_on CHR ''/'' s)" "Normal s \<in> set (path_part w)"
    by (auto simp: path_parts_def simp del: path_part.simps)
  then have "w = s" "s \<noteq> ''.''" "s \<noteq> ''..''" "w \<in> set (split_on CHR ''/'' s)"
    by (auto split: if_splits)
  then show "CHR ''/'' \<notin> set s" "s \<noteq> ''.''" "s \<noteq> ''..''"
    using split_on_nonmember by metis+
qed

interpretation wayland_display:
  validated_text is_valid_display_name wayland_display_new display_as_str
proof
  fix x y :: WaylandDisplay
  assume "display_as_str x = display_as_str y"
  then show "x = y" by (cases x; cases y) simp
qed (simp_all add: wayland_display_new_def)

lemma digits_component:
  "CHR ''/'' \<notin> set (show_nat n)" "show_nat n \<noteq> []" "show_nat n \<noteq> ''.''" "show_nat n \<noteq> ''..''"
proof -
  have "list_all is_ascii_digit (show_nat n)" and ne: "show_nat n \<noteq> []"
    using show_nat_digits by auto
  then show "CHR ''/'' \<notin> set (show_nat n)" "show_nat n \<noteq> ''.''" "show_nat n \<noteq> ''..''"
    by (auto simp: list_all_iff is_ascii_digit_def)
  show "show_nat n \<noteq> []" by (fact ne)
qed

text \<open>
  The guest path of a Wayland socket lies directly in the directory of its user below
  \<open>/run/lasper/wayland\<close>, whatever display name was accepted: a display name can neither add nor
  remove path levels, and different users or displays never share a path.
\<close>

lemma container_socket_path_confined:
  assumes "wayland_display_new s = Inr d"
  shows "components (container_socket_path uid d) =
      [RootDir, Normal ''run'', Normal ''lasper'', Normal ''wayland'',
       Normal (show_nat (unat uid)), Normal s]
    \<and> (wayland_display_new s' = Inr d' \<and> container_socket_path uid d = container_socket_path uid' d'
        \<longrightarrow> uid = uid' \<and> d = d')"
proof -
  have comp: "components (container_socket_path u e) =
      [RootDir, Normal ''run'', Normal ''lasper'', Normal ''wayland'',
       Normal (show_nat (unat u)), Normal t]"
    if e: "wayland_display_new t = Inr e" for t e u
  proof -
    from e have t: "display_as_str e = t" "is_valid_display_name t"
      by (auto simp: wayland_display.new_eq_Inr)
    then have t': "t \<noteq> []" "CHR ''/'' \<notin> set t" "t \<noteq> ''.''" "t \<noteq> ''..''"
      using file_name_self [of t] by (auto simp: is_valid_display_name_def)
    have root: "starts_with CONTAINER_WAYLAND_ROOT ''/''" "\<not> ends_with CONTAINER_WAYLAND_ROOT ''/''"
      "components CONTAINER_WAYLAND_ROOT = [RootDir, Normal ''run'', Normal ''lasper'', Normal ''wayland'']"
      by code_simp+
    note user = path_join_child [OF root(1,2) digits_component, of "unat u"]
    from path_join_child [of "path_join CONTAINER_WAYLAND_ROOT (show_nat (unat u))" t] user t'
    show ?thesis by (simp add: container_socket_path_def t(1) root(3))
  qed
  show ?thesis
  proof (intro conjI impI)
    show "components (container_socket_path uid d) =
      [RootDir, Normal ''run'', Normal ''lasper'', Normal ''wayland'',
       Normal (show_nat (unat uid)), Normal s]"
      using comp [OF assms] .
    assume eq: "wayland_display_new s' = Inr d' \<and>
      container_socket_path uid d = container_socket_path uid' d'"
    with comp [OF assms, of uid] comp [of s' d' uid'] have "unat uid = unat uid'" "s = s'" by auto
    with assms eq show "uid = uid'" "d = d'" by (auto simp: word_unat_eq_iff)
  qed
qed

lemma container_socket_path_confined_witness:
  "components (container_socket_path 1000 (WaylandDisplay ''wayland-0'')) =
     [RootDir, Normal ''run'', Normal ''lasper'', Normal ''wayland'', Normal (show_nat (unat (1000 :: u32))),
      Normal ''wayland-0'']"
proof -
  have "wayland_display_new ''wayland-0'' = Inr (WaylandDisplay ''wayland-0'')" by code_simp
  from container_socket_path_confined [OF this] show ?thesis by blast
qed

section \<open>Grants\<close>

lemma check_sources_ok:
  "check_sources uid D P ss = Inr () \<longleftrightarrow>
     (\<forall>s \<in> set ss. ws_owner_uid s = uid)
     \<and> distinct (map ws_display ss) \<and> ws_display ` set ss \<inter> D = {}
     \<and> distinct (map (components \<circ> ws_canonical_path) ss)
     \<and> (components \<circ> ws_canonical_path) ` set ss \<inter> P = {}"
  by (induction ss arbitrary: D P) auto

lemma check_grants_ok:
  "check_grants target D gs = Inr () \<longleftrightarrow>
     (\<forall>g \<in> set gs. write_access_for (sg_source g) target = Some (sg_access g))
     \<and> distinct (map (ws_display \<circ> sg_source) gs) \<and> (ws_display \<circ> sg_source) ` set gs \<inter> D = {}"
  by (induction gs arbitrary: D) auto

lemma grant_socket_ok:
  "grant_socket target s = Inr g \<longleftrightarrow>
     sg_source g = s \<and> write_access_for s target = Some (sg_access g)"
  by (cases g) (auto simp: grant_socket_def split: option.splits)

lemma grant_sockets_ok:
  "try_map (grant_socket target) ss = Inr gs \<Longrightarrow>
     map sg_source gs = ss \<and> (\<forall>g \<in> set gs. write_access_for (sg_source g) target = Some (sg_access g))"
  unfolding try_map_ok by (induction rule: list_all2_induct) (auto simp: grant_socket_ok)

lemma grant_sockets_total:
  "(\<exists>gs. try_map (grant_socket target) ss = Inr gs) \<longleftrightarrow>
     (\<forall>s \<in> set ss. write_access_for s target \<noteq> None)"
proof (induction ss)
  case (Cons s ss)
  show ?case
  proof (cases "write_access_for s target")
    case None
    then show ?thesis by (simp add: grant_socket_def)
  next
    case (Some a)
    then have "grant_socket target s = Inr \<lparr>sg_source = s, sg_access = a\<rparr>"
      by (simp add: grant_socket_def)
    with Some Cons show ?thesis by auto
  qed
qed simp

text \<open>
  Resolving a Wayland intent grants exactly what the intent selected, and only to its user: it
  succeeds if and only if the name space mode supports binds, the resolved identity is the intended
  user and that identity may write every selected socket; the grant then has one entry per selected
  socket with the permission class that allows the write. The constructor's own checks can no
  longer fail for an intent that was validly built.
\<close>

lemma resolve_wayland_grant_exact:
  assumes "grant_intent_new username sources = Inr intent"
    and "\<forall>s \<in> set sources. ws_session_uid s = ws_owner_uid s"
  shows "((\<exists>g. resolve_wayland_grant intent target private_users = Inr g) \<longleftrightarrow>
      private_users \<notin> {Some UsersManaged, Some UsersIdentity} \<and> username = ci_username target
      \<and> (\<forall>s \<in> set sources. write_access_for s target \<noteq> None))
    \<and> (resolve_wayland_grant intent target private_users = Inr g \<longrightarrow>
      wg_target g = target \<and> map sg_source (wg_sockets g) = sources
      \<and> (\<forall>k \<in> set (wg_sockets g). write_access_for (sg_source k) target = Some (sg_access k)))
    \<and> resolve_wayland_grant intent target private_users \<noteq> Inl (InvalidGrant e)"
proof -
  from assms(1) have i: "wi_target_username intent = username" "wi_sources intent = sources"
    and ne: "sources \<noteq> []" and d: "distinct (map ws_display sources)"
    by (auto simp: grant_intent_new_def check_sources_ok split: if_splits)
  have policy: "(\<exists>p. resolve_wayland_bind_policy private_users = Inr p) \<longleftrightarrow>
      private_users \<notin> {Some UsersManaged, Some UsersIdentity}"
    by (cases private_users rule: resolve_wayland_bind_policy.cases) auto
  have valid: "validate_wayland_intent intent private_users =
      and_then (resolve_wayland_bind_policy private_users) (\<lambda>_. Inr ())"
  proof -
    have "try_each (\<lambda>s. if ws_owner_uid s \<noteq> ws_session_uid s then Inl NotOwnedBySession else Inr ())
        sources = Inr ()"
      using assms(2) by simp
    then show ?thesis by (simp only: validate_wayland_intent_def i and_then.simps)
  qed
  have made: "grant_resolved target gs p = Inr \<lparr>wg_target = target, wg_sockets = gs, wg_bind_policy = p\<rparr>"
    if "try_map (grant_socket target) sources = Inr gs" for gs p
    using grant_sockets_ok [OF that] ne d
    by (auto simp: grant_resolved_def check_grants_ok map_map [symmetric] simp del: map_map)
  show ?thesis
  proof (cases "resolve_wayland_bind_policy private_users")
    case (Inl r)
    then show ?thesis
      using policy by (cases r) (auto simp: resolve_wayland_grant_def valid)
  next
    case (Inr p)
    show ?thesis
    proof (cases "try_map (grant_socket target) sources")
      case (Inl r)
      have "r \<noteq> InvalidGrant e"
        using Inl by (induction sources) (auto simp: grant_socket_def and_then_eq_Inl split: option.splits)
      then show ?thesis
        using Inl Inr policy grant_sockets_total [of target sources]
        by (auto simp: resolve_wayland_grant_def valid i)
    next
      case (Inr gs)
      then show ?thesis
        using \<open>resolve_wayland_bind_policy private_users = Inr p\<close> policy made [OF Inr]
          grant_sockets_ok [OF Inr] grant_sockets_total [of target sources]
        by (auto simp: resolve_wayland_grant_def valid i)
    qed
  qed
qed

definition example_socket :: HostWaylandSocket where
  "example_socket =
     \<lparr>ws_display = WaylandDisplay ''wayland-0'', ws_runtime_dir = ''/run/user/1000'',
      ws_canonical_path = ''/run/user/1000/wayland-0'', ws_session_uid = 1000, ws_owner_uid = 1000,
      ws_owner_gid = 1000, ws_mode = 0x1ED,
      ws_revision = \<lparr>rev_device = 1, rev_inode = 2, rev_ctime_seconds = 3, rev_ctime_nanoseconds = 4\<rparr>\<rparr>"

definition example_target :: ContainerUserIdentity where
  "example_target = \<lparr>ci_username = ''lynn'', ci_uid = 1000, ci_gid = 100\<rparr>"

lemma resolve_wayland_grant_exact_witness:
  "\<exists>g. resolve_wayland_grant \<lparr>wi_target_username = ''lynn'', wi_sources = [example_socket]\<rparr>
     example_target None = Inr g"
proof -
  have "grant_intent_new ''lynn'' [example_socket] =
    Inr \<lparr>wi_target_username = ''lynn'', wi_sources = [example_socket]\<rparr>"
    by (simp add: grant_intent_new_def example_socket_def)
  moreover have "\<forall>s \<in> set [example_socket]. ws_session_uid s = ws_owner_uid s"
    by (simp add: example_socket_def)
  moreover have "write_access_for example_socket example_target \<noteq> None"
    by (simp add: write_access_for_def example_socket_def example_target_def)
  ultimately show ?thesis
    using resolve_wayland_grant_exact [of "''lynn''" "[example_socket]" _ example_target None]
    by (simp add: example_target_def)
qed

section \<open>X11 sources\<close>

lemma peer_from_raw_legacy:
  "peer_from_raw pid uid gid = Inr p \<Longrightarrow> legacy_tuple p = (pid, uid, gid)"
  by (auto simp: peer_from_raw_def legacy_tuple_def split: if_splits)

lemma components_absolute:
  assumes "components p = RootDir # cs"
  shows "is_absolute p \<and> path_parts (split_on CHR ''/'' p) = cs"
proof (cases "starts_with p ''/''")
  case True
  with assms show ?thesis by (simp add: components_def is_absolute_def)
next
  case False
  have "RootDir \<notin> set (path_parts ws)" for ws
    by (auto simp: path_parts_def split: if_splits)
  moreover obtain w ws where "split_on CHR ''/'' p = w # ws"
    by (metis list.exhaust split_on_not_Nil)
  ultimately have "RootDir \<notin> set (components p)"
    using False by (auto simp: components_def)
  with assms show ?thesis by simp
qed

text \<open>The bytes of an absolute path are separators and dots beside the bytes of its components.\<close>

lemma absolute_path_bytes:
  assumes "components p = RootDir # cs" and "c \<in> set p"
  shows "c = CHR ''/'' \<or> c = CHR ''.'' \<or> (\<exists>w. Normal w \<in> set cs \<and> c \<in> set w)"
proof (cases "c = CHR ''/''")
  case False
  with assms(2) obtain w where w: "w \<in> set (split_on CHR ''/'' p)" "c \<in> set w"
    using split_on_members by metis
  from path_part_pieces [OF w(1)] components_absolute [OF assms(1)] w(2) show ?thesis by auto
qed simp

lemma x11_source_components:
  assumes "x11_socket_from_verified_parts d alt src canon ou og m pid uid gid rv = Inr s"
  shows "components src = components X11_SOCKET_DIRECTORY @ [Normal (x11_socket_name d alt)]"
    and "xs_source s = src" and "\<exists>p. peer_from_raw pid uid gid = Inr p"
    and "xs_peer_pid s = pid" and "xs_peer_uid s = uid" and "xs_peer_gid s = gid"
proof -
  from assms have parent: "parent_components src = Some (components X11_SOCKET_DIRECTORY)"
    and name: "file_name src = Some (x11_socket_name d alt)"
    by (auto simp: x11_socket_from_verified_parts_def split: if_splits)
  from name have "components src \<noteq> []" "last (components src) = Normal (x11_socket_name d alt)"
    by (auto simp: file_name_def split: if_splits component.splits)
  moreover from parent this have "butlast (components src) = components X11_SOCKET_DIRECTORY"
    by (simp add: parent_components_def)
  ultimately show "components src = components X11_SOCKET_DIRECTORY @ [Normal (x11_socket_name d alt)]"
    by (metis append_butlast_last_id)
  show "xs_source s = src" "\<exists>p. peer_from_raw pid uid gid = Inr p"
    "xs_peer_pid s = pid" "xs_peer_uid s = uid" "xs_peer_gid s = gid"
    using assms by (auto simp: x11_socket_from_verified_parts_def split: if_splits)
qed

text \<open>
  The assertions of the X11 domain never fail: for every socket that was built from verified
  parts, its peer identity can be recovered and reproduces the stored credentials, and it can be
  bound at its own path; and the standard directory projection always exists.
\<close>

lemma x11_expectations_hold:
  assumes "x11_socket_from_verified_parts d alt src canon ou og m pid uid gid rv = Inr s"
  shows "(\<exists>p. peer_identity s = Some p \<and> legacy_tuple p = (pid, uid, gid))
    \<and> bind_same_path s = Some \<lparr>xb_source = SourceSocket s, xb_target = src\<rparr>
    \<and> bind_standard_directory \<noteq> None"
proof -
  note parts = x11_source_components [OF assms]
  from parts(3) obtain p where p: "peer_from_raw pid uid gid = Inr p" ..
  then have "peer_identity s = Some p" by (simp add: peer_identity_def parts(4-6) expect_ok_def)
  moreover have "legacy_tuple p = (pid, uid, gid)" using p by (rule peer_from_raw_legacy)
  moreover have dir: "components X11_SOCKET_DIRECTORY = [RootDir, Normal ''tmp'', Normal ''.X11-unix'']"
    by code_simp
  have comp: "components src = RootDir # [Normal ''tmp'', Normal ''.X11-unix'', Normal (x11_socket_name d alt)]"
    using parts(1) by (simp add: dir)
  have "visible c" if c: "c \<in> set src" for c
  proof -
    have "list_all visible (x11_socket_name d alt)"
      using show_nat_digits [of "unat d"] digit_visible
      by (auto simp: x11_socket_name_def list_all_iff visible_def)
    then show ?thesis
      using absolute_path_bytes [OF comp c] by (auto simp: list_all_iff visible_def)
  qed
  then have "\<not> has_control src" by (simp add: has_control_visible list_all_iff)
  then have "validate_bind_target src = Inr ()"
    using components_absolute [OF comp] by (simp add: validate_bind_target_def comp)
  then have "bind_same_path s = Some \<lparr>xb_source = SourceSocket s, xb_target = src\<rparr>"
    by (simp add: bind_same_path_def bind_from_socket_def parts(2) expect_ok_def)
  moreover have "bind_standard_directory \<noteq> None" by code_simp
  ultimately show ?thesis by blast
qed

lemma x11_expectations_hold_witness:
  "\<exists>s. x11_socket_from_verified_parts 0 False ''/tmp/.X11-unix/X0'' ''/tmp/.X11-unix/X0'' 0 0 0x1FF 0 1000 1000
        \<lparr>rev_device = 1, rev_inode = 2, rev_ctime_seconds = 3, rev_ctime_nanoseconds = 4\<rparr> = Inr s
     \<and> bind_same_path s \<noteq> None"
proof -
  let ?r = "x11_socket_from_verified_parts 0 False ''/tmp/.X11-unix/X0'' ''/tmp/.X11-unix/X0'' 0 0 0x1FF 0
      1000 1000 \<lparr>rev_device = 1, rev_inode = 2, rev_ctime_seconds = 3, rev_ctime_nanoseconds = 4\<rparr>"
  have "is_ok ?r" by code_simp
  then obtain s where s: "?r = Inr s" by (auto simp: is_ok_iff)
  from x11_expectations_hold [OF s] s show ?thesis by auto
qed

end
