(* ===== verification/Bootstrap.thy ===== *)
theory Bootstrap
  imports Domain_Values
begin

text \<open>
  Bootstrap intent (\<open>src/domain/bootstrap.rs\<close>): the specifications of the three providers and their
  validation; and their projection into command lines
  (\<open>src/adapters/provisioning/engine/bootstrap_args.rs\<close>). Parsing a URL is the \<open>url\<close> package: a
  parameter \<open>url_parse\<close> that gives the scheme and the host.
\<close>

section \<open>Specifications\<close>

datatype DebootstrapTransportPolicy = TransportProviderDefault | HttpsOnly

datatype DebootstrapReleaseSignaturePolicy =
  SignaturesProviderDefault | SignaturesRequired | SignaturesDisabled

datatype DebootstrapUsrMergeMode = UsrMergeProviderDefault | Merged | Unmerged

datatype DebootstrapDependencyMode = Resolve | SkipResolution

record DebootstrapPolicy =
  dp_transport :: DebootstrapTransportPolicy
  dp_release_signatures :: DebootstrapReleaseSignaturePolicy
  dp_allowed_mirror_hosts :: "string list"

record DebootstrapSpec =
  deb_suite :: string
  deb_architecture :: "string option"
  deb_mirror :: "string option"
  deb_packages :: "string list"
  deb_inherit_default_packages :: bool
  deb_exclude_packages :: "string list"
  deb_extra_suites :: "string list"
  deb_variant :: "string option"
  deb_components :: "string list"
  deb_usr_merge :: DebootstrapUsrMergeMode
  deb_dependency_resolution :: DebootstrapDependencyMode
  deb_log_extra_dependencies :: bool
  deb_policy :: DebootstrapPolicy

definition debootstrap_default :: DebootstrapSpec where
  "debootstrap_default =
     \<lparr>deb_suite = [], deb_architecture = None, deb_mirror = None, deb_packages = [],
      deb_inherit_default_packages = True, deb_exclude_packages = [], deb_extra_suites = [],
      deb_variant = None, deb_components = [], deb_usr_merge = UsrMergeProviderDefault,
      deb_dependency_resolution = Resolve, deb_log_extra_dependencies = False,
      deb_policy = \<lparr>dp_transport = TransportProviderDefault,
        dp_release_signatures = SignaturesProviderDefault, dp_allowed_mirror_hosts = []\<rparr>\<rparr>"

datatype PacstrapCacheMode = CacheTarget | CacheHost

datatype PacmanKeyringMode = KeyringCopyHost | KeyringDoNotCopy | InitializeEmpty

datatype PacmanMirrorlistMode = MirrorlistCopyHost | MirrorlistDoNotCopy

datatype PacstrapIsolationMode = IsolationHost | Unshare

datatype PacstrapPacmanConfigMode = PacmanConfigProviderDefault | PacmanConfigCopyHost

datatype PacstrapDependencyMode = Check | SkipChecks

record PacstrapPolicy =
  pp_keyring :: PacmanKeyringMode
  pp_mirrorlist :: PacmanMirrorlistMode
  pp_pacman_config :: PacstrapPacmanConfigMode

record PacstrapSpec =
  pac_packages :: "string list"
  pac_inherit_default_packages :: bool
  pac_cache :: PacstrapCacheMode
  pac_isolation :: PacstrapIsolationMode
  pac_dependency_checks :: PacstrapDependencyMode
  pac_policy :: PacstrapPolicy

definition pacstrap_default :: PacstrapSpec where
  "pacstrap_default =
     \<lparr>pac_packages = [], pac_inherit_default_packages = True, pac_cache = CacheHost,
      pac_isolation = IsolationHost, pac_dependency_checks = Check,
      pac_policy = \<lparr>pp_keyring = KeyringCopyHost, pp_mirrorlist = MirrorlistCopyHost,
        pp_pacman_config = PacmanConfigProviderDefault\<rparr>\<rparr>"

datatype Dnf5RepositorySource = RepositoryUnspecified | RepositoryHost

datatype Dnf5PackageSignaturePolicy = RepositoryConfig | PackageSignaturesDisabled

datatype Dnf5MetadataMode = MetadataProviderDefault | MetadataRefresh | CacheOnly

datatype Dnf5WeakDependencyPolicy = WeakProviderDefault | WeakEnabled | WeakDisabled

datatype Dnf5DocumentationPolicy = DocsProviderDefault | DocsExclude

datatype Dnf5BestCandidatePolicy = BestProviderDefault | BestRequired | AllowOlder

record Dnf5Policy =
  fp_package_signatures :: Dnf5PackageSignaturePolicy
  fp_weak_dependencies :: Dnf5WeakDependencyPolicy
  fp_documentation :: Dnf5DocumentationPolicy
  fp_best_candidate :: Dnf5BestCandidatePolicy

record Dnf5Spec =
  dnf_releasever :: string
  dnf_architecture :: "string option"
  dnf_packages :: "string list"
  dnf_inherit_default_packages :: bool
  dnf_exclude_packages :: "string list"
  dnf_only_repositories :: "string list"
  dnf_enable_repositories :: "string list"
  dnf_disable_repositories :: "string list"
  dnf_metadata :: Dnf5MetadataMode
  dnf_repository :: Dnf5RepositorySource
  dnf_policy :: Dnf5Policy

definition dnf5_default :: Dnf5Spec where
  "dnf5_default =
     \<lparr>dnf_releasever = [], dnf_architecture = None, dnf_packages = [],
      dnf_inherit_default_packages = True, dnf_exclude_packages = [], dnf_only_repositories = [],
      dnf_enable_repositories = [], dnf_disable_repositories = [],
      dnf_metadata = MetadataProviderDefault, dnf_repository = RepositoryUnspecified,
      dnf_policy = \<lparr>fp_package_signatures = RepositoryConfig,
        fp_weak_dependencies = WeakProviderDefault, fp_documentation = DocsProviderDefault,
        fp_best_candidate = BestProviderDefault\<rparr>\<rparr>"

datatype RootfsSourceSpec =
    RootfsDebootstrap DebootstrapSpec
  | RootfsPacstrap PacstrapSpec
  | RootfsDnf5 Dnf5Spec
  | RootfsArtifact ArtifactSpec

datatype BootstrapSpec =
    BootDebootstrap DebootstrapSpec
  | BootPacstrap PacstrapSpec
  | BootDnf5 Dnf5Spec

section \<open>Validation\<close>

datatype BootstrapValidationError =
    InvalidToken string
  | InvalidPackage string
  | InvalidRepositorySelector string
  | HttpsMirrorRequired
  | InvalidMirror string
  | InsecureMirror
  | MissingMirrorHost
  | MirrorHostNotAllowed string
  | MirrorAllowlistRequiresMirror
  | UnsupportedDnf5Repository
  | ConflictingDnf5RepositorySelection
  | ArtifactError ArtifactValidationError

definition token_byte :: "char \<Rightarrow> bool" where
  "token_byte b \<longleftrightarrow> is_ascii_alphanumeric b \<or> b \<in> set ''-._:+/@''"

definition validate_token :: "string \<Rightarrow> string \<Rightarrow> BootstrapValidationError + unit" where
  "validate_token field text =
     (if text = [] \<or> length text > 128 \<or> starts_with text ''-'' \<or> \<not> list_all token_byte text
      then Inl (InvalidToken field) else Inr ())"

definition shell_meta :: "char \<Rightarrow> bool" where
  "shell_meta c \<longleftrightarrow> byte c \<in> {59, 124, 38, 96, 39, 34}"

definition validate_package :: "string \<Rightarrow> BootstrapValidationError + unit" where
  "validate_package text =
     (if text = [] \<or> length text > 256 \<or> starts_with text ''-''
        \<or> has_control text \<or> has_whitespace text \<or> list_ex shell_meta text
      then Inl (InvalidPackage text) else Inr ())"

definition selector_byte :: "char \<Rightarrow> bool" where
  "selector_byte b \<longleftrightarrow> is_ascii_alphanumeric b \<or> b \<in> set ''-._*?''"

definition validate_repository_selector :: "string \<Rightarrow> BootstrapValidationError + unit" where
  "validate_repository_selector text =
     (if text = [] \<or> length text > 128 \<or> starts_with text ''-'' \<or> \<not> list_all selector_byte text
      then Inl (InvalidRepositorySelector text) else Inr ())"

record ParsedUrl =
  url_scheme :: string
  url_host :: "string option"

definition validate_debootstrap_policy ::
  "(string \<Rightarrow> string + ParsedUrl) \<Rightarrow> DebootstrapPolicy \<Rightarrow> string option \<Rightarrow>
     BootstrapValidationError + unit" where
  "validate_debootstrap_policy url_parse policy mirror =
     (if dp_transport policy = HttpsOnly \<and> mirror = None then Inl HttpsMirrorRequired
      else
        case mirror of
          Some mirror \<Rightarrow>
            and_then (map_err InvalidMirror (url_parse mirror)) (\<lambda>parsed.
            if dp_transport policy = HttpsOnly \<and> url_scheme parsed \<noteq> ''https''
            then Inl InsecureMirror
            else if dp_allowed_mirror_hosts policy \<noteq> []
            then and_then (ok_or (url_host parsed) MissingMirrorHost) (\<lambda>host.
              if host \<notin> set (dp_allowed_mirror_hosts policy) then Inl (MirrorHostNotAllowed host)
              else Inr ())
            else Inr ())
        | None \<Rightarrow>
            if dp_allowed_mirror_hosts policy \<noteq> [] then Inl MirrorAllowlistRequiresMirror
            else Inr ())"

definition validate_optional_token ::
  "string \<Rightarrow> string option \<Rightarrow> BootstrapValidationError + unit" where
  "validate_optional_token field text =
     (case text of None \<Rightarrow> Inr () | Some v \<Rightarrow> validate_token field v)"

definition debootstrap_validate_optional_fields ::
  "(string \<Rightarrow> string + ParsedUrl) \<Rightarrow> DebootstrapSpec \<Rightarrow> BootstrapValidationError + unit" where
  "debootstrap_validate_optional_fields url_parse spec =
     and_then (validate_optional_token ''architecture'' (deb_architecture spec)) (\<lambda>_.
     and_then (try_each validate_package (deb_packages spec)) (\<lambda>_.
     and_then (try_each validate_package (deb_exclude_packages spec)) (\<lambda>_.
     and_then (try_each (validate_token ''extra suite'') (deb_extra_suites spec)) (\<lambda>_.
     and_then (try_each (validate_token ''component'') (deb_components spec)) (\<lambda>_.
     and_then (validate_optional_token ''variant'' (deb_variant spec)) (\<lambda>_.
     validate_debootstrap_policy url_parse (deb_policy spec) (deb_mirror spec)))))))"

definition debootstrap_validate ::
  "(string \<Rightarrow> string + ParsedUrl) \<Rightarrow> DebootstrapSpec \<Rightarrow> BootstrapValidationError + unit" where
  "debootstrap_validate url_parse spec =
     and_then (validate_token ''suite'' (deb_suite spec)) (\<lambda>_.
     debootstrap_validate_optional_fields url_parse spec)"

definition debootstrap_validate_default_preset ::
  "(string \<Rightarrow> string + ParsedUrl) \<Rightarrow> DebootstrapSpec \<Rightarrow> BootstrapValidationError + unit" where
  "debootstrap_validate_default_preset url_parse spec =
     and_then (if deb_suite spec \<noteq> [] then validate_token ''suite'' (deb_suite spec) else Inr ()) (\<lambda>_.
     debootstrap_validate_optional_fields url_parse spec)"

definition pacstrap_validate :: "PacstrapSpec \<Rightarrow> BootstrapValidationError + unit" where
  "pacstrap_validate spec = try_each validate_package (pac_packages spec)"

definition dnf5_validate_optional_fields :: "Dnf5Spec \<Rightarrow> BootstrapValidationError + unit" where
  "dnf5_validate_optional_fields spec =
     and_then (validate_optional_token ''architecture'' (dnf_architecture spec)) (\<lambda>_.
     and_then (try_each validate_package (dnf_packages spec @ dnf_exclude_packages spec)) (\<lambda>_.
     and_then (try_each validate_repository_selector
                 (dnf_only_repositories spec @ dnf_enable_repositories spec
                  @ dnf_disable_repositories spec)) (\<lambda>_.
     if dnf_only_repositories spec \<noteq> []
        \<and> (dnf_enable_repositories spec \<noteq> [] \<or> dnf_disable_repositories spec \<noteq> [])
     then Inl ConflictingDnf5RepositorySelection
     else Inr ())))"

definition dnf5_validate :: "Dnf5Spec \<Rightarrow> BootstrapValidationError + unit" where
  "dnf5_validate spec =
     and_then (validate_token ''releasever'' (dnf_releasever spec)) (\<lambda>_.
     if dnf_repository spec \<noteq> RepositoryHost then Inl UnsupportedDnf5Repository
     else dnf5_validate_optional_fields spec)"

definition dnf5_validate_default_preset :: "Dnf5Spec \<Rightarrow> BootstrapValidationError + unit" where
  "dnf5_validate_default_preset spec =
     and_then (if dnf_releasever spec \<noteq> [] then validate_token ''releasever'' (dnf_releasever spec)
               else Inr ()) (\<lambda>_.
     dnf5_validate_optional_fields spec)"

fun rootfs_source_validate ::
  "(string \<Rightarrow> string + ParsedUrl) \<Rightarrow> RootfsSourceSpec \<Rightarrow> BootstrapValidationError + unit" where
  "rootfs_source_validate u (RootfsDebootstrap spec) = debootstrap_validate u spec"
| "rootfs_source_validate u (RootfsPacstrap spec) = pacstrap_validate spec"
| "rootfs_source_validate u (RootfsDnf5 spec) = dnf5_validate spec"
| "rootfs_source_validate u (RootfsArtifact spec) = map_err ArtifactError (artifact_validate spec)"

fun rootfs_source_validate_default_preset ::
  "(string \<Rightarrow> string + ParsedUrl) \<Rightarrow> RootfsSourceSpec \<Rightarrow> BootstrapValidationError + unit" where
  "rootfs_source_validate_default_preset u (RootfsDebootstrap spec) =
     debootstrap_validate_default_preset u spec"
| "rootfs_source_validate_default_preset u (RootfsPacstrap spec) = pacstrap_validate spec"
| "rootfs_source_validate_default_preset u (RootfsDnf5 spec) = dnf5_validate_default_preset spec"
| "rootfs_source_validate_default_preset u (RootfsArtifact spec) =
     map_err ArtifactError (artifact_validate spec)"

fun rootfs_source_method :: "RootfsSourceSpec \<Rightarrow> BootstrapMethod" where
  "rootfs_source_method (RootfsDebootstrap _) = MethodDebootstrap"
| "rootfs_source_method (RootfsPacstrap _) = MethodPacstrap"
| "rootfs_source_method (RootfsDnf5 _) = MethodDnf5"
| "rootfs_source_method (RootfsArtifact _) = MethodArtifact"

fun bootstrap_method :: "BootstrapSpec \<Rightarrow> BootstrapMethod" where
  "bootstrap_method (BootDebootstrap _) = MethodDebootstrap"
| "bootstrap_method (BootPacstrap _) = MethodPacstrap"
| "bootstrap_method (BootDnf5 _) = MethodDnf5"

fun bootstrap_validate ::
  "(string \<Rightarrow> string + ParsedUrl) \<Rightarrow> BootstrapSpec \<Rightarrow> BootstrapValidationError + unit" where
  "bootstrap_validate u (BootDebootstrap spec) = debootstrap_validate u spec"
| "bootstrap_validate u (BootPacstrap spec) = pacstrap_validate spec"
| "bootstrap_validate u (BootDnf5 spec) = dnf5_validate spec"

fun inherits_default_packages :: "BootstrapSpec \<Rightarrow> bool" where
  "inherits_default_packages (BootDebootstrap spec) = deb_inherit_default_packages spec"
| "inherits_default_packages (BootPacstrap spec) = pac_inherit_default_packages spec"
| "inherits_default_packages (BootDnf5 spec) = dnf_inherit_default_packages spec"

section \<open>Command lines\<close>

definition DEBOOTSTRAP_DEFAULT_PACKAGES :: "string list" where
  "DEBOOTSTRAP_DEFAULT_PACKAGES =
     [''systemd-sysv'', ''libpam-systemd'', ''dbus'', ''dbus-user-session'', ''systemd-resolved'']"

definition PACSTRAP_DEFAULT_PACKAGES :: "string list" where
  "PACSTRAP_DEFAULT_PACKAGES = [''base'']"

definition DNF5_DEFAULT_PACKAGES :: "string list" where
  "DNF5_DEFAULT_PACKAGES =
     [''systemd'', ''systemd-pam'', ''dbus'', ''shadow-utils'', ''util-linux'', ''dnf5'',
      ''systemd-networkd'', ''systemd-resolved'']"

datatype DebootstrapSignatureOptionStyle = StyleSig | StyleGpg

text \<open>A validation failure of the arguments: the intent's, or an empty package list.\<close>

datatype ArgsError = IntentInvalid BootstrapValidationError | NoPackages string

fun push_new :: "string list \<Rightarrow> string \<Rightarrow> string list" where
  "push_new packages package = (if package \<in> set packages then packages else packages @ [package])"

definition effective_packages :: "string list \<Rightarrow> bool \<Rightarrow> bool \<Rightarrow> string list \<Rightarrow> string list" where
  "effective_packages defaults inherit_defaults include_sudo additional =
     foldl push_new []
       ((if inherit_defaults then defaults else []) @ (if include_sudo then [''sudo''] else [])
        @ additional)"

definition option_arg :: "string \<Rightarrow> string option \<Rightarrow> string list" where
  "option_arg name text = (case text of None \<Rightarrow> [] | Some v \<Rightarrow> [name @ v])"

definition list_arg :: "string \<Rightarrow> string list \<Rightarrow> string list" where
  "list_arg name vs = (if vs = [] then [] else [name @ join '','' vs])"

definition debootstrap_options ::
  "DebootstrapSpec \<Rightarrow> bool \<Rightarrow> DebootstrapSignatureOptionStyle \<Rightarrow> string list" where
  "debootstrap_options spec include_sudo style =
     option_arg ''--arch='' (deb_architecture spec)
     @ list_arg ''--include='' (effective_packages DEBOOTSTRAP_DEFAULT_PACKAGES
         (deb_inherit_default_packages spec) include_sudo (deb_packages spec))
     @ list_arg ''--exclude='' (deb_exclude_packages spec)
     @ list_arg ''--extra-suites='' (deb_extra_suites spec)
     @ option_arg ''--variant='' (deb_variant spec)
     @ list_arg ''--components='' (deb_components spec)
     @ (case deb_usr_merge spec of
          UsrMergeProviderDefault \<Rightarrow> []
        | Merged \<Rightarrow> [''--merged-usr''] | Unmerged \<Rightarrow> [''--no-merged-usr''])
     @ (if deb_dependency_resolution spec = SkipResolution then [''--no-resolve-deps''] else [])
     @ (if deb_log_extra_dependencies spec then [''--log-extra-deps''] else [])
     @ (case dp_release_signatures (deb_policy spec) of
          SignaturesProviderDefault \<Rightarrow> []
        | SignaturesRequired \<Rightarrow>
            [case style of StyleSig \<Rightarrow> ''--force-check-sig'' | StyleGpg \<Rightarrow> ''--force-check-gpg'']
        | SignaturesDisabled \<Rightarrow>
            [case style of StyleSig \<Rightarrow> ''--no-check-sig'' | StyleGpg \<Rightarrow> ''--no-check-gpg''])"

definition debootstrap_args_with_signature_style ::
  "(string \<Rightarrow> string + ParsedUrl) \<Rightarrow> DebootstrapSpec \<Rightarrow> string \<Rightarrow> bool \<Rightarrow>
     DebootstrapSignatureOptionStyle \<Rightarrow> ArgsError + string list" where
  "debootstrap_args_with_signature_style url_parse spec target include_sudo style =
     and_then (map_err IntentInvalid (debootstrap_validate url_parse spec)) (\<lambda>_.
       Inr (debootstrap_options spec include_sudo style @ [deb_suite spec, target]
            @ (case deb_mirror spec of None \<Rightarrow> [] | Some mirror \<Rightarrow> [mirror])))"

definition pacstrap_options :: "PacstrapSpec \<Rightarrow> string list" where
  "pacstrap_options spec =
     (if pac_cache spec = CacheHost then [''-c''] else [])
     @ (if pac_isolation spec = Unshare then [''-N''] else [])
     @ (if pac_dependency_checks spec = SkipChecks then [''-D''] else [])
     @ (if pp_pacman_config (pac_policy spec) = PacmanConfigCopyHost then [''-P''] else [])
     @ (case pp_keyring (pac_policy spec) of
          KeyringCopyHost \<Rightarrow> [] | KeyringDoNotCopy \<Rightarrow> [''-G''] | InitializeEmpty \<Rightarrow> [''-K''])
     @ (if pp_mirrorlist (pac_policy spec) = MirrorlistDoNotCopy then [''-M''] else [])"

definition pacstrap_args ::
  "PacstrapSpec \<Rightarrow> string \<Rightarrow> bool \<Rightarrow> ArgsError + string list" where
  "pacstrap_args spec target include_sudo =
     and_then (map_err IntentInvalid (pacstrap_validate spec)) (\<lambda>_.
       let packages = effective_packages PACSTRAP_DEFAULT_PACKAGES
             (pac_inherit_default_packages spec) include_sudo (pac_packages spec) in
       if packages = [] then Inl (NoPackages ''pacstrap'')
       else Inr (pacstrap_options spec @ [target] @ packages))"

definition dnf5_options :: "Dnf5Spec \<Rightarrow> string list" where
  "dnf5_options spec =
     option_arg ''--forcearch='' (dnf_architecture spec)
     @ (if dnf_repository spec = RepositoryHost then [''--use-host-config''] else [])
     @ (case dnf_metadata spec of
          MetadataProviderDefault \<Rightarrow> []
        | MetadataRefresh \<Rightarrow> [''--refresh''] | CacheOnly \<Rightarrow> [''--cacheonly''])
     @ list_arg ''--repo='' (dnf_only_repositories spec)
     @ list_arg ''--enable-repo='' (dnf_enable_repositories spec)
     @ list_arg ''--disable-repo='' (dnf_disable_repositories spec)
     @ list_arg ''--exclude='' (dnf_exclude_packages spec)
     @ (if fp_package_signatures (dnf_policy spec) = PackageSignaturesDisabled
        then [''--no-gpgchecks''] else [])
     @ (case fp_weak_dependencies (dnf_policy spec) of
          WeakProviderDefault \<Rightarrow> []
        | WeakEnabled \<Rightarrow> [''--setopt=install_weak_deps=True'']
        | WeakDisabled \<Rightarrow> [''--setopt=install_weak_deps=False''])
     @ (if fp_documentation (dnf_policy spec) = DocsExclude then [''--no-docs''] else [])
     @ (case fp_best_candidate (dnf_policy spec) of
          BestProviderDefault \<Rightarrow> [] | BestRequired \<Rightarrow> [''--best''] | AllowOlder \<Rightarrow> [''--no-best''])"

definition dnf5_args :: "Dnf5Spec \<Rightarrow> string \<Rightarrow> bool \<Rightarrow> ArgsError + string list" where
  "dnf5_args spec target include_sudo =
     and_then (map_err IntentInvalid (dnf5_validate spec)) (\<lambda>_.
       let packages = effective_packages DNF5_DEFAULT_PACKAGES
             (dnf_inherit_default_packages spec) include_sudo (dnf_packages spec) in
       if packages = [] then Inl (NoPackages ''dnf5'')
       else Inr ([''--installroot'', target, ''--releasever'', dnf_releasever spec]
                 @ dnf5_options spec @ [''--assumeyes'', ''install''] @ packages))"

section \<open>No value is read as an option\<close>

definition positional :: "string list \<Rightarrow> string list" where
  "positional args = filter (\<lambda>a. \<not> starts_with a ''-'') args"

lemma positional_append [simp]: "positional (xs @ ys) = positional xs @ positional ys"
  by (simp add: positional_def)

lemma positional_option [simp]:
  "starts_with name ''-'' \<Longrightarrow> positional (option_arg name v) = []"
  "starts_with name ''-'' \<Longrightarrow> positional (list_arg name vs) = []"
  by (auto simp: positional_def option_arg_def list_arg_def starts_with_iff split: option.splits)

lemma positional_debootstrap_options [simp]: "positional (debootstrap_options spec b style) = []"
  by (simp add: debootstrap_options_def)
    (simp add: positional_def split: DebootstrapUsrMergeMode.splits
      DebootstrapReleaseSignaturePolicy.splits DebootstrapSignatureOptionStyle.splits)

lemma positional_pacstrap_options [simp]: "positional (pacstrap_options spec) = []"
  by (simp add: pacstrap_options_def positional_def split: PacmanKeyringMode.splits)

lemma positional_dnf5_options [simp]: "positional (dnf5_options spec) = []"
  by (simp add: dnf5_options_def)
    (simp add: positional_def split: Dnf5MetadataMode.splits Dnf5WeakDependencyPolicy.splits
      Dnf5BestCandidatePolicy.splits)

lemma effective_packages_fold:
  "distinct ps \<Longrightarrow> distinct (foldl push_new ps qs) \<and> set (foldl push_new ps qs) = set ps \<union> set qs"
  by (induction qs arbitrary: ps) auto

lemma effective_packages_set:
  "distinct (effective_packages ds inh sudo extra)
   \<and> set (effective_packages ds inh sudo extra) =
       (if inh then set ds else {}) \<union> (if sudo then {''sudo''} else {}) \<union> set extra"
  unfolding effective_packages_def
  using effective_packages_fold [of "[]" "(if inh then ds else []) @ (if sudo then [''sudo''] else []) @ extra"]
  by (simp del: foldl_append split: if_splits)

lemma positional_id: "\<forall>a \<in> set args. \<not> starts_with a ''-'' \<Longrightarrow> positional args = args"
  by (simp add: positional_def filter_id_conv)

lemma validate_token_ok: "validate_token f s = Inr () \<Longrightarrow> s \<noteq> [] \<and> \<not> starts_with s ''-''"
  by (auto simp: validate_token_def split: if_splits)

lemma validate_package_ok:
  "validate_package s = Inr () \<Longrightarrow>
     s \<noteq> [] \<and> \<not> starts_with s ''-'' \<and> \<not> list_ex shell_meta s \<and> \<not> has_whitespace s"
  by (auto simp: validate_package_def split: if_splits)

lemma positional_effective:
  assumes "\<forall>p \<in> set extra. validate_package p = Inr ()" and "\<forall>p \<in> set ds. \<not> starts_with p ''-''"
  shows "positional (effective_packages ds inh sudo extra) = effective_packages ds inh sudo extra"
proof (rule positional_id, rule ballI)
  fix p
  assume "p \<in> set (effective_packages ds inh sudo extra)"
  then have "p \<in> set ds \<or> p = ''sudo'' \<or> p \<in> set extra"
    using effective_packages_set [of ds inh sudo extra] by (auto split: if_splits)
  with assms validate_package_ok show "\<not> starts_with p ''-''" by auto
qed

text \<open>
  C37. Argument injection is impossible: for every specification that passes validation, the
  command lines of the three providers have exactly the intended positional arguments (suite,
  target and mirror; target and packages; the install root, the release, the verb and the
  packages), so no suite, release, package or mirror is ever read as an option. It relies on one
  fact of the \<open>url\<close> package, that text that starts with a hyphen is no URL, and on the target being
  a path that does not start with a hyphen, as the absolute path of every root filesystem target.
\<close>

theorem no_argument_injection:
  assumes "\<And>m u. url_parse m = Inr u \<Longrightarrow> \<not> starts_with m ''-''" and "\<not> starts_with target ''-''"
  shows "(debootstrap_args_with_signature_style url_parse deb target sudo style = Inr args \<longrightarrow>
      positional args = [deb_suite deb, target] @ (case deb_mirror deb of None \<Rightarrow> [] | Some m \<Rightarrow> [m]))
    \<and> (pacstrap_args pac target sudo = Inr args \<longrightarrow>
      positional args = target # effective_packages PACSTRAP_DEFAULT_PACKAGES
        (pac_inherit_default_packages pac) sudo (pac_packages pac))
    \<and> (dnf5_args dnf target sudo = Inr args \<longrightarrow>
      positional args = [target, dnf_releasever dnf, ''install''] @
        effective_packages DNF5_DEFAULT_PACKAGES (dnf_inherit_default_packages dnf) sudo (dnf_packages dnf))"
proof (intro conjI impI)
  assume "debootstrap_args_with_signature_style url_parse deb target sudo style = Inr args"
  then have v: "debootstrap_validate url_parse deb = Inr ()"
    and args: "args = debootstrap_options deb sudo style @ [deb_suite deb, target]
            @ (case deb_mirror deb of None \<Rightarrow> [] | Some mirror \<Rightarrow> [mirror])"
    by (auto simp: debootstrap_args_with_signature_style_def)
  from v have "\<not> starts_with (deb_suite deb) ''-''"
    using validate_token_ok by (auto simp: debootstrap_validate_def)
  moreover have "\<not> starts_with m ''-''" if "deb_mirror deb = Some m" for m
    using v that assms(1)
    by (auto simp: debootstrap_validate_def debootstrap_validate_optional_fields_def
        validate_debootstrap_policy_def split: if_splits)
  ultimately show "positional args = [deb_suite deb, target]
      @ (case deb_mirror deb of None \<Rightarrow> [] | Some m \<Rightarrow> [m])"
    using assms(2) by (auto simp: args positional_def [of "_ # _"] positional_def [of "[]"]
        split: option.splits)
next
  assume "pacstrap_args pac target sudo = Inr args"
  then have "\<forall>p \<in> set (pac_packages pac). validate_package p = Inr ()"
    and args: "args = pacstrap_options pac @ [target] @ effective_packages PACSTRAP_DEFAULT_PACKAGES
        (pac_inherit_default_packages pac) sudo (pac_packages pac)"
    by (auto simp: pacstrap_args_def pacstrap_validate_def Let_def split: if_splits)
  then show "positional args = target # effective_packages PACSTRAP_DEFAULT_PACKAGES
        (pac_inherit_default_packages pac) sudo (pac_packages pac)"
    using assms(2) positional_effective [of "pac_packages pac" PACSTRAP_DEFAULT_PACKAGES]
    by (simp add: positional_pacstrap_options [unfolded positional_def] PACSTRAP_DEFAULT_PACKAGES_def
        positional_def)
next
  assume "dnf5_args dnf target sudo = Inr args"
  then have "\<forall>p \<in> set (dnf_packages dnf). validate_package p = Inr ()"
    and "\<not> starts_with (dnf_releasever dnf) ''-''"
    and args: "args = [''--installroot'', target, ''--releasever'', dnf_releasever dnf]
                 @ dnf5_options dnf @ [''--assumeyes'', ''install''] @
        effective_packages DNF5_DEFAULT_PACKAGES (dnf_inherit_default_packages dnf) sudo (dnf_packages dnf)"
    using validate_token_ok
    by (auto simp: dnf5_args_def dnf5_validate_def dnf5_validate_optional_fields_def Let_def
        split: if_splits)
  then show "positional args = [target, dnf_releasever dnf, ''install''] @
        effective_packages DNF5_DEFAULT_PACKAGES (dnf_inherit_default_packages dnf) sudo (dnf_packages dnf)"
    using assms(2) positional_effective [of "dnf_packages dnf" DNF5_DEFAULT_PACKAGES]
    by (simp add: positional_dnf5_options [unfolded positional_def] DNF5_DEFAULT_PACKAGES_def
        positional_def)
qed

definition example_url :: "string \<Rightarrow> string + ParsedUrl" where
  "example_url m =
     (if starts_with m ''https://'' then Inr \<lparr>url_scheme = ''https'', url_host = Some (drop 8 m)\<rparr>
      else Inl ''relative URL without a base'')"

theorem no_argument_injection_witness:
  "\<exists>args. pacstrap_args (pacstrap_default\<lparr>pac_packages := [''vim'']\<rparr>) ''/var/lib/machines/arch'' True
       = Inr args
     \<and> positional args = [''/var/lib/machines/arch'', ''base'', ''sudo'', ''vim'']"
proof -
  let ?p = "pacstrap_default\<lparr>pac_packages := [''vim'']\<rparr>"
  let ?args = "[''-c'', ''/var/lib/machines/arch'', ''base'', ''sudo'', ''vim'']"
  have url: "\<And>m u. example_url m = Inr u \<Longrightarrow> \<not> starts_with m ''-''"
    by (auto simp: example_url_def starts_with_iff split: if_splits)
  have ok: "pacstrap_args ?p ''/var/lib/machines/arch'' True = Inr ?args" by code_simp
  have "effective_packages PACSTRAP_DEFAULT_PACKAGES (pac_inherit_default_packages ?p) True
      (pac_packages ?p) = [''base'', ''sudo'', ''vim'']"
    by code_simp
  with no_argument_injection [of example_url "''/var/lib/machines/arch''" _ True _ ?args ?p, OF url] ok
  show ?thesis by auto
qed

text \<open>
  The transport policy of debootstrap is enforced: under the https-only policy every accepted
  specification names a mirror whose scheme is https, and a host allow-list, when given, contains
  the mirror's host. A specification that is accepted for deployment is also accepted as an
  editable preset.
\<close>

lemma debootstrap_policy_enforced:
  assumes "debootstrap_validate url_parse spec = Inr ()"
  shows "(dp_transport (deb_policy spec) = HttpsOnly \<longrightarrow>
      (\<exists>m u. deb_mirror spec = Some m \<and> url_parse m = Inr u \<and> url_scheme u = ''https''))
    \<and> (dp_allowed_mirror_hosts (deb_policy spec) \<noteq> [] \<longrightarrow>
      (\<exists>m u h. deb_mirror spec = Some m \<and> url_parse m = Inr u \<and> url_host u = Some h
         \<and> h \<in> set (dp_allowed_mirror_hosts (deb_policy spec))))
    \<and> debootstrap_validate_default_preset url_parse spec = Inr ()"
proof -
  from assms have pol: "validate_debootstrap_policy url_parse (deb_policy spec) (deb_mirror spec) = Inr ()"
    and "debootstrap_validate_default_preset url_parse spec = Inr ()"
    by (auto simp: debootstrap_validate_def debootstrap_validate_optional_fields_def
        debootstrap_validate_default_preset_def)
  with pol show ?thesis
    by (cases "deb_mirror spec") (auto simp: validate_debootstrap_policy_def split: if_splits)
qed

lemma debootstrap_policy_enforced_witness:
  "\<exists>m u. deb_mirror (debootstrap_default\<lparr>deb_suite := ''trixie'', deb_mirror := Some ''https://deb.debian.org'',
      deb_policy := \<lparr>dp_transport = HttpsOnly, dp_release_signatures = SignaturesRequired,
        dp_allowed_mirror_hosts = [''deb.debian.org'']\<rparr>\<rparr>) = Some m
     \<and> example_url m = Inr u \<and> url_scheme u = ''https''"
proof -
  let ?s = "debootstrap_default\<lparr>deb_suite := ''trixie'', deb_mirror := Some ''https://deb.debian.org'',
      deb_policy := \<lparr>dp_transport = HttpsOnly, dp_release_signatures = SignaturesRequired,
        dp_allowed_mirror_hosts = [''deb.debian.org'']\<rparr>\<rparr>"
  have "debootstrap_validate example_url ?s = Inr ()" by code_simp
  from debootstrap_policy_enforced [OF this] show ?thesis by simp
qed

end
