(* ===== verification/Deployment_Contract.thy ===== *)
theory Deployment_Contract
  imports Operation_Registry Bootstrap Display_Domain
begin

text \<open>
  The contract of a deployment: the request with its validation
  (\<open>src/application/provisioning/contract/request.rs\<close> and \<open>config.rs\<close>), the secrets that travel beside
  it (\<open>secrets.rs\<close>), the status, claim status and errors of a job (\<open>job.rs\<close>), the terminal result
  the executor's outcome is turned into (\<open>src/application/provisioning/service.rs\<close>), and the plan with
  its fingerprint and claims (\<open>src/application/provisioning/state.rs\<close>).
\<close>

section \<open>The request\<close>

datatype DeploymentSource =
    Copy string
  | Oci string bool OciNetworkMode
  | BootstrapSource BootstrapSpec
  | Pull string bool
  | ArtifactSource ArtifactSpec

definition is_unacknowledged_remote_tar :: "DeploymentSource \<Rightarrow> bool \<Rightarrow> bool" where
  "is_unacknowledged_remote_tar source acknowledged \<longleftrightarrow>
     (case source of Pull _ is_raw \<Rightarrow> \<not> is_raw | _ \<Rightarrow> False) \<and> \<not> acknowledged"

fun supports_rootfs_configuration :: "DeploymentSource \<Rightarrow> bool" where
  "supports_rootfs_configuration (Copy _) = False"
| "supports_rootfs_configuration (Oci _ _ _) = False"
| "supports_rootfs_configuration _ = True"

datatype DeploymentStorage = Directory | Subvolume | DiskImage DiskImageConfig

datatype NvidiaCdiSource = CdiGenerate | CdiExisting "string option"

fun explicit_path :: "NvidiaCdiSource \<Rightarrow> string option" where
  "explicit_path CdiGenerate = None"
| "explicit_path (CdiExisting path) = path"

definition cdi_validate :: "NvidiaCdiSource \<Rightarrow> string + unit" where
  "cdi_validate source =
     (case explicit_path source of
        None \<Rightarrow> Inr ()
      | Some path \<Rightarrow>
          if \<not> is_absolute path then Inl ''the NVIDIA CDI file path must be absolute''
          else if path = [] then Inl ''the NVIDIA CDI file path cannot be empty''
          else Inr ())"

record MachineProvisioningConfig =
  mc_name :: string
  mc_guest_hostname :: string
  mc_network :: "NetworkMode option"
  mc_port_forwards :: "PortForward list"
  mc_bind_mounts :: "BindMount list"
  mc_x11_binds :: "X11BindIntent list"
  mc_device_binds :: "string list"
  mc_readonly_binds :: "string list"
  mc_privileged :: bool
  mc_private_users :: "PrivateUsersMode option"
  mc_graphics_acceleration :: bool
  mc_gpu_passthrough_all :: bool
  mc_users :: "CreateUser list"
  mc_nvidia_gpu :: bool
  mc_disk_config :: "DiskImageConfig option"
  mc_boot :: bool

definition machine_config_default :: MachineProvisioningConfig where
  "machine_config_default =
     \<lparr>mc_name = [], mc_guest_hostname = [], mc_network = None, mc_port_forwards = [],
      mc_bind_mounts = [], mc_x11_binds = [], mc_device_binds = [], mc_readonly_binds = [],
      mc_privileged = False, mc_private_users = None, mc_graphics_acceleration = False,
      mc_gpu_passthrough_all = False, mc_users = [], mc_nvidia_gpu = False,
      mc_disk_config = None, mc_boot = True\<rparr>"

text \<open>
  The NVIDIA profile of a request takes no part in its validation and plan: its type is a
  parameter of the request.
\<close>

record 'n DeploymentRequest =
  dr_config :: MachineProvisioningConfig
  dr_source :: DeploymentSource
  dr_storage :: DeploymentStorage
  dr_nvidia_profile :: "'n option"
  dr_nvidia_cdi_source :: NvidiaCdiSource
  dr_wayland :: "WaylandGrantIntent list"
  dr_allow_unsafe_remote_tar :: bool

text \<open>Why a request is rejected; the text of the error is that of the cause.\<close>

datatype RequestRejection =
    RejectCdi string
  | RejectMachineName MachineNameError
  | RejectGuestHostname GuestHostnameError
  | RejectCloneSource ImageNameError
  | RejectUser UserValidationError
  | RejectDuplicateUid u32
  | RejectX11PrivateUsers
  | RejectX11Source
  | RejectX11DuplicateTarget
  | RejectX11Mixed
  | RejectWaylandSource
  | RejectWaylandUnknownUser
  | RejectWaylandDuplicateTarget
  | RejectWaylandDuplicateSocket
  | RejectWaylandUid string u32
  | RejectWayland WaylandRejection
  | PanicNoSockets

fun check_uids :: "u32 set \<Rightarrow> u32 list \<Rightarrow> RequestRejection + unit" where
  "check_uids seen [] = Inr ()"
| "check_uids seen (uid # uids) =
     (if uid \<in> seen then Inl (RejectDuplicateUid uid) else check_uids (insert uid seen) uids)"

text \<open>The loop over the X11 binds; it returns whether a directory and a socket were seen.\<close>

fun check_x11_binds ::
  "bool \<Rightarrow> component list set \<Rightarrow> bool \<times> bool \<Rightarrow> X11BindIntent list \<Rightarrow>
     RequestRejection + bool \<times> bool" where
  "check_x11_binds rootfs targets kinds [] = Inr kinds"
| "check_x11_binds rootfs targets (dir, sock) (bind # binds) =
     (if \<not> rootfs then Inl RejectX11Source
      else if components (xb_target bind) \<in> targets then Inl RejectX11DuplicateTarget
      else check_x11_binds rootfs (insert (components (xb_target bind)) targets)
             (dir \<or> is_directory_source (xb_source bind),
              sock \<or> \<not> is_directory_source (xb_source bind)) binds)"

fun check_wayland_sources ::
  "component list set \<Rightarrow> HostWaylandSocket list \<Rightarrow> RequestRejection + component list set" where
  "check_wayland_sources seen [] = Inr seen"
| "check_wayland_sources seen (source # sources) =
     (if components (ws_canonical_path source) \<in> seen then Inl RejectWaylandDuplicateSocket
      else check_wayland_sources (insert (components (ws_canonical_path source)) seen) sources)"

text \<open>
  The loop over the Wayland intents. \<open>required_uid\<close> of an intent without sockets would panic:
  \<open>PanicNoSockets\<close>.
\<close>

fun check_wayland ::
  "bool \<Rightarrow> CreateUser list \<Rightarrow> PrivateUsersMode option \<Rightarrow> string set \<Rightarrow> component list set \<Rightarrow>
     WaylandGrantIntent list \<Rightarrow> RequestRejection + unit" where
  "check_wayland rootfs users private_users targets sources [] = Inr ()"
| "check_wayland rootfs users private_users targets sources (intent # intents) =
     (if \<not> rootfs then Inl RejectWaylandSource
      else case find (\<lambda>user. cu_username user = wi_target_username intent) users of
        None \<Rightarrow> Inl RejectWaylandUnknownUser
      | Some user \<Rightarrow>
          if wi_target_username intent \<in> targets then Inl RejectWaylandDuplicateTarget
          else
            and_then (check_wayland_sources sources (wi_sources intent)) (\<lambda>sources.
            and_then (map_err RejectUser (create_user_validate user)) (\<lambda>_.
            and_then (ok_or (required_uid intent) PanicNoSockets) (\<lambda>uid.
            if cu_uid user \<noteq> Some uid then Inl (RejectWaylandUid (cu_username user) uid)
            else
              and_then (map_err RejectWayland (validate_wayland_intent intent private_users)) (\<lambda>_.
              check_wayland rootfs users private_users
                (insert (wi_target_username intent) targets) sources intents)))))"

definition request_validate :: "'n DeploymentRequest \<Rightarrow> RequestRejection + unit" where
  "request_validate r =
     (let config = dr_config r; rootfs = supports_rootfs_configuration (dr_source r) in
      and_then (map_err RejectCdi (cdi_validate (dr_nvidia_cdi_source r))) (\<lambda>_.
      and_then (map_err RejectMachineName (machine_name_new (mc_name config))) (\<lambda>machine.
      and_then (map_err RejectGuestHostname
                  (guest_hostname_resolve (mc_guest_hostname config) machine)) (\<lambda>_.
      and_then (case dr_source r of
                  Copy source_name \<Rightarrow>
                    and_then (map_err RejectCloneSource (image_name_new source_name)) (\<lambda>_. Inr ())
                | _ \<Rightarrow> Inr ()) (\<lambda>_.
      and_then (try_each (\<lambda>user. map_err RejectUser (create_user_validate user))
                  (mc_users config)) (\<lambda>_.
      and_then (check_uids {} (List.map_filter cu_uid (mc_users config))) (\<lambda>_.
      if mc_x11_binds config \<noteq> []
         \<and> mc_private_users config \<in> {Some UsersManaged, Some UsersIdentity}
      then Inl RejectX11PrivateUsers
      else
        and_then (check_x11_binds rootfs {} (False, False) (mc_x11_binds config)) (\<lambda>(dir, sock).
        if dir \<and> sock then Inl RejectX11Mixed
        else check_wayland rootfs (mc_users config) (mc_private_users config) {} {}
               (dr_wayland r)))))))))"

section \<open>Secrets\<close>

record UserSecret =
  us_username :: string
  us_password :: "string option"

definition user_secret_new :: "string \<Rightarrow> string \<Rightarrow> UserSecret" where
  "user_secret_new username password =
     \<lparr>us_username = username, us_password = (if password \<noteq> [] then Some password else None)\<rparr>"

record DeploymentSecrets =
  ds_root_password :: "string option"
  ds_users :: "UserSecret list"

definition secrets_new :: "string \<Rightarrow> UserSecret list \<Rightarrow> DeploymentSecrets" where
  "secrets_new root_password users =
     \<lparr>ds_root_password = (if root_password \<noteq> [] then Some root_password else None),
      ds_users = users\<rparr>"

datatype SecretRejection =
    RejectRootPassword SecretValidationError
  | RejectSecretsMismatch
  | RejectUserPassword SecretValidationError
  | RejectAccountConfiguration
  | RejectMissingCapsule string

definition validate_password ::
  "(SecretValidationError \<Rightarrow> SecretRejection) \<Rightarrow> string option \<Rightarrow> SecretRejection + unit" where
  "validate_password reject password =
     (case password of
        None \<Rightarrow> Inr ()
      | Some p \<Rightarrow> map_err reject (validate_chpasswd_secret p))"

definition validate_for ::
  "DeploymentSecrets \<Rightarrow> MachineProvisioningConfig \<Rightarrow> SecretRejection + unit" where
  "validate_for secrets config =
     and_then (validate_password RejectRootPassword (ds_root_password secrets)) (\<lambda>_.
     if length (ds_users secrets) \<noteq> length (mc_users config)
        \<or> list_ex (\<lambda>(secret, user). us_username secret \<noteq> cu_username user)
            (zip (ds_users secrets) (mc_users config))
     then Inl RejectSecretsMismatch
     else try_each (\<lambda>s. validate_password RejectUserPassword (us_password s)) (ds_users secrets))"

definition has_account_changes :: "DeploymentSecrets \<Rightarrow> bool" where
  "has_account_changes s \<longleftrightarrow> ds_root_password s \<noteq> None \<or> ds_users s \<noteq> []"

definition take_root_password :: "DeploymentSecrets \<Rightarrow> string option \<times> DeploymentSecrets" where
  "take_root_password s = (ds_root_password s, s\<lparr>ds_root_password := None\<rparr>)"

definition take_user_password ::
  "string \<Rightarrow> DeploymentSecrets \<Rightarrow> SecretRejection + string option \<times> DeploymentSecrets" where
  "take_user_password username s =
     (case position (\<lambda>secret. us_username secret = username) (ds_users s) of
        None \<Rightarrow> Inl (RejectMissingCapsule username)
      | Some index \<Rightarrow>
          Inr (us_password (ds_users s ! index),
               s\<lparr>ds_users := take index (ds_users s) @ drop (Suc index) (ds_users s)\<rparr>))"

definition submission_validate_secrets ::
  "'n DeploymentRequest \<Rightarrow> DeploymentSecrets \<Rightarrow> SecretRejection + unit" where
  "submission_validate_secrets request secrets =
     and_then (validate_for secrets (dr_config request)) (\<lambda>_.
     if \<not> supports_rootfs_configuration (dr_source request) \<and> has_account_changes secrets
     then Inl RejectAccountConfiguration
     else Inr ())"

section \<open>The job\<close>

record DeploymentProgress =
  pr_label :: string
  pr_permille :: u16

definition progress_new :: "string \<Rightarrow> u16 \<Rightarrow> DeploymentProgress" where
  "progress_new label permille = \<lparr>pr_label = label, pr_permille = min permille 1000\<rparr>"

datatype DeploymentEvent = Line string | Progress DeploymentProgress

datatype DeploymentStatus =
    StatusRunning | RollingBack | Succeeded | Failed string | Cancelled string
  | StatusReconciliationRequired string

fun is_finished :: "DeploymentStatus \<Rightarrow> bool" where
  "is_finished StatusRunning = False"
| "is_finished RollingBack = False"
| "is_finished _ = True"

datatype DeploymentClaimStatus =
    ClaimHeld | ClaimReleased | ClaimReconciliationRequired | ClaimReconciled
  | ClaimReleasedUnresolved

datatype DeploymentErrorKind =
    KindRejected | KindFailed | KindCancelled | KindReconciliationRequired | KindReconciledUnknown

record DeploymentError =
  err_kind :: DeploymentErrorKind
  err_message :: string

definition is_cancelled :: "DeploymentError \<Rightarrow> bool" where
  "is_cancelled e \<longleftrightarrow> err_kind e = KindCancelled"

definition requires_reconciliation :: "DeploymentError \<Rightarrow> bool" where
  "requires_reconciliation e \<longleftrightarrow>
     err_kind e \<in> {KindReconciliationRequired, KindReconciledUnknown}"

definition retains_resource_claim :: "DeploymentError \<Rightarrow> bool" where
  "retains_resource_claim e \<longleftrightarrow> err_kind e = KindReconciliationRequired"

record DeploymentTerminal =
  term_status :: DeploymentStatus
  term_claim_status :: DeploymentClaimStatus

text \<open>How the executor's future ended: normally, with an error, or by a panic.\<close>

datatype ExecutorResult = ExecOk | ExecErr DeploymentError | ExecPanic

fun run_deployment_executor :: "ExecutorResult \<Rightarrow> DeploymentTerminal" where
  "run_deployment_executor ExecOk =
     \<lparr>term_status = Succeeded, term_claim_status = ClaimReleased\<rparr>"
| "run_deployment_executor (ExecErr e) =
     (if is_cancelled e
      then \<lparr>term_status = Cancelled (err_message e), term_claim_status = ClaimReleased\<rparr>
      else if requires_reconciliation e
      then \<lparr>term_status = StatusReconciliationRequired (err_message e),
            term_claim_status =
              (if retains_resource_claim e then ClaimReconciliationRequired else ClaimReconciled)\<rparr>
      else \<lparr>term_status = Failed (err_message e), term_claim_status = ClaimReleased\<rparr>)"
| "run_deployment_executor ExecPanic =
     \<lparr>term_status = StatusReconciliationRequired
        ''Deployment pipeline panicked; inspect durable deployment state before retrying'',
      term_claim_status = ClaimReconciliationRequired\<rparr>"

section \<open>The plan\<close>

datatype PlanFingerprint = PlanFingerprint string

fun fingerprint_is_valid :: "PlanFingerprint \<Rightarrow> bool" where
  "fingerprint_is_valid (PlanFingerprint s) \<longleftrightarrow> length s = 64 \<and> list_all is_ascii_hexdigit s"

record 'n DeploymentPlan =
  plan_request :: "'n DeploymentRequest"
  plan_target :: MachineName
  plan_fingerprint :: PlanFingerprint

definition hex_digit :: "nat \<Rightarrow> char" where
  "hex_digit n = char_of (if n < 10 then 48 + n else 87 + n)"

definition hex_byte :: "u8 \<Rightarrow> string" where
  "hex_byte b = [hex_digit (unat b div 16), hex_digit (unat b mod 16)]"

datatype PlanError = PlanRejected RequestRejection | PlanNotNormalized string

text \<open>
  \<open>normalize_request\<close> stands for \<open>serde_json::to_vec\<close> and \<open>sha256\<close> for \<open>Sha256::digest\<close>, packages outside
  the sources.
\<close>

definition plan_build ::
  "('n DeploymentRequest \<Rightarrow> string + u8 list) \<Rightarrow> (u8 list \<Rightarrow> u8 list) \<Rightarrow> 'n DeploymentRequest \<Rightarrow>
     PlanError + 'n DeploymentPlan" where
  "plan_build normalize_request sha256 request =
     and_then (map_err PlanRejected (request_validate request)) (\<lambda>_.
     and_then (map_err (PlanRejected \<circ> RejectMachineName)
                 (machine_name_new (mc_name (dr_config request)))) (\<lambda>target.
     and_then (map_err PlanNotNormalized (normalize_request request)) (\<lambda>normalized.
     Inr \<lparr>plan_request = request, plan_target = target,
          plan_fingerprint = PlanFingerprint (concat (map hex_byte (sha256 normalized)))\<rparr>)))"

text \<open>\<open>None\<close> is the panic of the \<open>expect\<close> on the clone source.\<close>

definition plan_resource_claims :: "'n DeploymentPlan \<Rightarrow> ResourceClaim list option" where
  "plan_resource_claims plan =
     (case dr_source (plan_request plan) of
        Copy source_name \<Rightarrow>
          (case image_name_new source_name of
             Inl _ \<Rightarrow> None
           | Inr source \<Rightarrow>
               Some [claim_exclusive (for_machine (plan_target plan)),
                     claim_shared (for_image source)])
      | _ \<Rightarrow> Some [claim_exclusive (for_machine (plan_target plan))])"

section \<open>What a validated request guarantees\<close>

lemma check_uids_ok: "check_uids seen us = Inr () \<longleftrightarrow> distinct us \<and> set us \<inter> seen = {}"
  by (induction us arbitrary: seen) auto

lemma check_x11_binds_ok:
  "check_x11_binds rootfs T (d, k) bs = Inr (d', k') \<Longrightarrow>
     distinct (map (components \<circ> xb_target) bs)
     \<and> (components \<circ> xb_target) ` set bs \<inter> T = {}
     \<and> (bs \<noteq> [] \<longrightarrow> rootfs)
     \<and> d' = (d \<or> (\<exists>b \<in> set bs. is_directory_source (xb_source b)))
     \<and> k' = (k \<or> (\<exists>b \<in> set bs. \<not> is_directory_source (xb_source b)))"
proof (induction bs arbitrary: T d k)
  case (Cons b bs)
  from Cons.prems have "rootfs" "components (xb_target b) \<notin> T"
    and rest: "check_x11_binds rootfs (insert (components (xb_target b)) T)
      (d \<or> is_directory_source (xb_source b), k \<or> \<not> is_directory_source (xb_source b)) bs = Inr (d', k')"
    by (auto split: if_splits)
  with Cons.IH [OF rest] show ?case by auto
qed simp

lemma check_wayland_sources_ok:
  "check_wayland_sources P ss = Inr P' \<longleftrightarrow>
     distinct (map (components \<circ> ws_canonical_path) ss)
     \<and> (components \<circ> ws_canonical_path) ` set ss \<inter> P = {}
     \<and> P' = P \<union> (components \<circ> ws_canonical_path) ` set ss"
  by (induction ss arbitrary: P) auto

definition granted_paths :: "WaylandGrantIntent list \<Rightarrow> component list list" where
  "granted_paths intents = concat (map (\<lambda>i. map (components \<circ> ws_canonical_path) (wi_sources i)) intents)"

definition wayland_target_ok ::
  "CreateUser list \<Rightarrow> PrivateUsersMode option \<Rightarrow> WaylandGrantIntent \<Rightarrow> bool" where
  "wayland_target_ok users pu i \<longleftrightarrow>
     (\<exists>u \<in> set users. cu_username u = wi_target_username i \<and> cu_uid u = required_uid i
        \<and> create_user_validate u = Inr ())
     \<and> validate_wayland_intent i pu = Inr ()"

lemma check_wayland_step:
  assumes "check_wayland rootfs users pu T P (i # is) = Inr ()"
  obtains P' where "rootfs" and "wayland_target_ok users pu i" and "wi_target_username i \<notin> T"
    and "check_wayland_sources P (wi_sources i) = Inr P'"
    and "check_wayland rootfs users pu (insert (wi_target_username i) T) P' is = Inr ()"
proof -
  from assms obtain u where u: "find (\<lambda>user. cu_username user = wi_target_username i) users = Some u"
    by (auto split: if_splits option.splits)
  then have "u \<in> set users" "cu_username u = wi_target_username i"
    by (auto simp: find_Some_iff)
  with assms u that show thesis
    by (auto simp: wayland_target_ok_def split: if_splits)
qed

lemma check_wayland_ok:
  "check_wayland rootfs users pu T P is = Inr () \<Longrightarrow>
     (is \<noteq> [] \<longrightarrow> rootfs)
     \<and> (\<forall>i \<in> set is. wayland_target_ok users pu i)
     \<and> distinct (map wi_target_username is) \<and> wi_target_username ` set is \<inter> T = {}
     \<and> distinct (granted_paths is) \<and> set (granted_paths is) \<inter> P = {}"
proof (induction "is" arbitrary: T P)
  case (Cons i "is")
  from Cons.prems obtain P' where step: "rootfs" "wayland_target_ok users pu i"
      "wi_target_username i \<notin> T" "check_wayland_sources P (wi_sources i) = Inr P'"
    and rest: "check_wayland rootfs users pu (insert (wi_target_username i) T) P' is = Inr ()"
    by (rule check_wayland_step)
  have gp: "granted_paths (i # is) =
    map (components \<circ> ws_canonical_path) (wi_sources i) @ granted_paths is"
    by (simp add: granted_paths_def)
  from step(4) have "distinct (map (components \<circ> ws_canonical_path) (wi_sources i))"
      "(components \<circ> ws_canonical_path) ` set (wi_sources i) \<inter> P = {}"
      "P' = P \<union> (components \<circ> ws_canonical_path) ` set (wi_sources i)"
    by (auto simp: check_wayland_sources_ok)
  with Cons.IH [OF rest] have "distinct (granted_paths (i # is))"
      "set (granted_paths (i # is)) \<inter> P = {}"
    unfolding gp distinct_append set_append set_map by blast+
  with Cons.IH [OF rest] step(1,2,3) show ?case by auto
qed (simp add: granted_paths_def)

lemma request_validate_parts:
  assumes "request_validate r = Inr ()"
  shows "is_valid_nspawn_hostname (mc_name (dr_config r))"
    and "\<forall>u \<in> set (mc_users (dr_config r)). create_user_validate u = Inr ()"
    and "distinct (List.map_filter cu_uid (mc_users (dr_config r)))"
    and "dr_source r = Copy n \<Longrightarrow> is_valid_image_name n"
    and "\<exists>d k. check_x11_binds (supports_rootfs_configuration (dr_source r)) {} (False, False)
            (mc_x11_binds (dr_config r)) = Inr (d, k) \<and> \<not> (d \<and> k)"
    and "check_wayland (supports_rootfs_configuration (dr_source r)) (mc_users (dr_config r))
            (mc_private_users (dr_config r)) {} {} (dr_wayland r) = Inr ()"
  using assms
  by (auto simp: request_validate_def Let_def machine_name.new_eq_Inr image_name.new_eq_Inr
      check_uids_ok split: if_splits prod.splits)

text \<open>
  C36. A deployment request that passes validation is consistent as a whole: the machine name is
  valid, no two accounts ask for the same uid and none for root, every X11 target is bound at most
  once and directory and socket projections are not mixed, every Wayland grant goes to one of the
  request's own accounts whose uid is the socket owner's, no account receives two grants, and no
  host socket is granted twice across all of them.
\<close>

theorem request_consistent:
  assumes "request_validate r = Inr ()"
  shows "is_valid_nspawn_hostname (mc_name (dr_config r))
    \<and> distinct (List.map_filter cu_uid (mc_users (dr_config r)))
    \<and> 0 \<notin> set (List.map_filter cu_uid (mc_users (dr_config r)))
    \<and> distinct (map (components \<circ> xb_target) (mc_x11_binds (dr_config r)))
    \<and> \<not> ((\<exists>b \<in> set (mc_x11_binds (dr_config r)). is_directory_source (xb_source b))
         \<and> (\<exists>b \<in> set (mc_x11_binds (dr_config r)). \<not> is_directory_source (xb_source b)))
    \<and> (\<forall>i \<in> set (dr_wayland r). \<exists>u \<in> set (mc_users (dr_config r)).
         cu_username u = wi_target_username i \<and> cu_uid u = required_uid i)
    \<and> distinct (map wi_target_username (dr_wayland r)) \<and> distinct (granted_paths (dr_wayland r))"
proof -
  note v = request_validate_parts [OF assms]
  have "0 \<notin> set (List.map_filter cu_uid (mc_users (dr_config r)))"
    using v(2) by (auto simp: List.map_filter_def create_user_validate_def split: if_splits)
  moreover obtain d k where "check_x11_binds (supports_rootfs_configuration (dr_source r)) {}
      (False, False) (mc_x11_binds (dr_config r)) = Inr (d, k)" "\<not> (d \<and> k)"
    using v(5) by blast
  note x11 = check_x11_binds_ok [OF this(1)] this(2)
  note w = check_wayland_ok [OF v(6)]
  ultimately show ?thesis using v(1,3) x11 w by (auto simp: wayland_target_ok_def)
qed

definition example_request :: "unit DeploymentRequest" where
  "example_request =
     \<lparr>dr_config = machine_config_default\<lparr>mc_name := ''web'', mc_users :=
        [\<lparr>cu_username = ''lynn'', cu_uid = Some 1000, cu_sudoer = True, cu_shell = []\<rparr>]\<rparr>,
      dr_source = Pull ''https://example.org/root.raw'' True, dr_storage = Directory,
      dr_nvidia_profile = None, dr_nvidia_cdi_source = CdiGenerate,
      dr_wayland = [\<lparr>wi_target_username = ''lynn'', wi_sources = [example_socket]\<rparr>],
      dr_allow_unsafe_remote_tar = False\<rparr>"

theorem request_consistent_witness:
  "distinct (granted_paths (dr_wayland example_request))
   \<and> (\<exists>u \<in> set (mc_users (dr_config example_request)).
        cu_username u = ''lynn'' \<and> cu_uid u = required_uid (hd (dr_wayland example_request)))"
proof -
  have "request_validate example_request = Inr ()" by code_simp
  note c = request_consistent [OF this]
  have "hd (dr_wayland example_request) \<in> set (dr_wayland example_request)"
    "wi_target_username (hd (dr_wayland example_request)) = ''lynn''"
    by (simp_all add: example_request_def)
  with c show ?thesis by metis
qed

lemma check_wayland_no_panic:
  "\<forall>i \<in> set is. wi_sources i \<noteq> [] \<Longrightarrow>
     check_wayland rootfs users pu T P is \<noteq> Inl PanicNoSockets"
proof (induction "is" arbitrary: T P)
  case (Cons i "is")
  have "check_wayland_sources Q ss \<noteq> Inl PanicNoSockets" for Q ss
    by (induction Q ss rule: check_wayland_sources.induct) auto
  moreover have "map_err RejectUser x \<noteq> Inl PanicNoSockets"
    and "map_err RejectWayland y \<noteq> Inl PanicNoSockets"
    for x :: "UserValidationError + unit" and y :: "WaylandRejection + unit"
    by (cases x; simp) (cases y; simp)
  moreover have "required_uid i \<noteq> None"
    using Cons.prems by (auto simp: required_uid_def split: list.splits)
  ultimately show ?case
    using Cons by (auto simp: and_then_eq_Inl ok_or_def split: option.splits if_splits)
qed simp

section \<open>The plan of a validated request\<close>

lemma hex_digit_hex: "n < 16 \<Longrightarrow> is_ascii_hexdigit (hex_digit n)"
  by (auto simp: hex_digit_def is_ascii_hexdigit_def is_ascii_digit_def of_char_of)

lemma hex_byte_hex: "length (hex_byte b) = 2 \<and> list_all is_ascii_hexdigit (hex_byte b)"
proof -
  have "unat b < 256" using unsigned_less [of b] by simp
  then show ?thesis by (simp add: hex_byte_def hex_digit_hex less_mult_imp_div_less)
qed

lemma hex_bytes_hex:
  "length (concat (map hex_byte bs)) = 2 * length bs
   \<and> list_all is_ascii_hexdigit (concat (map hex_byte bs))"
  using hex_byte_hex by (induction bs) auto

text \<open>
  C35. A plan can always be claimed: for every plan built from a request the clone source parses,
  so computing its claims never panics; the claims ask for the target machine exclusively, and for
  the image a clone is copied from at least shared. With a digest of 32 bytes the fingerprint is
  one that the durable manifest accepts.
\<close>

theorem plan_claims_total:
  assumes "plan_build nrm sha request = Inr plan"
    and "\<And>x. length (sha x) = 32"
  shows "(\<exists>claims. plan_resource_claims plan = Some claims
      \<and> strongest claims (for_machine (plan_target plan)) = Some Exclusive
      \<and> (\<forall>n. dr_source request = Copy n \<longrightarrow> strongest claims (for_image (ImageName n)) \<noteq> None))
    \<and> machine_as_str (plan_target plan) = mc_name (dr_config request)
    \<and> fingerprint_is_valid (plan_fingerprint plan)"
proof -
  from assms(1) obtain bytes where v: "request_validate request = Inr ()"
    and target: "machine_name_new (mc_name (dr_config request)) = Inr (plan_target plan)"
    and req: "plan_request plan = request"
    and fp: "plan_fingerprint plan = PlanFingerprint (concat (map hex_byte (sha bytes)))"
    by (auto simp: plan_build_def)
  have "fingerprint_is_valid (plan_fingerprint plan)"
    using hex_bytes_hex [of "sha bytes"] assms(2) by (simp add: fp)
  moreover have "machine_as_str (plan_target plan) = mc_name (dr_config request)"
    using target by (simp add: machine_name.new_eq_Inr)
  moreover have "image_name_new n = Inr (ImageName n)" if "dr_source request = Copy n" for n
    using request_validate_parts(4) [OF v that] by (simp add: image_name_new_def)
  then have "\<exists>claims. plan_resource_claims plan = Some claims
      \<and> strongest claims (for_machine (plan_target plan)) = Some Exclusive
      \<and> (\<forall>n. dr_source request = Copy n \<longrightarrow> strongest claims (for_image (ImageName n)) \<noteq> None)"
    by (cases "dr_source request")
      (auto simp: plan_resource_claims_def req strongest_def claim_exclusive_def claim_shared_def)
  ultimately show ?thesis by blast
qed

theorem plan_claims_total_witness:
  "\<exists>plan claims. plan_build (\<lambda>_. Inr []) (\<lambda>_. replicate 32 0) example_request = Inr plan
     \<and> plan_resource_claims plan = Some claims \<and> fingerprint_is_valid (plan_fingerprint plan)"
proof -
  let ?p = "plan_build (\<lambda>_. Inr []) (\<lambda>_. replicate 32 0) example_request"
  have "is_ok ?p" by code_simp
  then obtain plan where p: "?p = Inr plan" by (auto simp: is_ok_iff)
  from plan_claims_total [OF p] p show ?thesis by auto
qed

section \<open>Secrets reach their accounts\<close>

text \<open>Taking the password of every account, in the order in which accounts are created.\<close>

fun take_all :: "string list \<Rightarrow> DeploymentSecrets \<Rightarrow> SecretRejection + string option list \<times> DeploymentSecrets" where
  "take_all [] s = Inr ([], s)"
| "take_all (u # us) s =
     and_then (take_user_password u s) (\<lambda>(p, s').
     and_then (take_all us s') (\<lambda>(ps, s''). Inr (p # ps, s'')))"

lemma take_all_aligned:
  "map us_username (ds_users s) = us \<Longrightarrow>
   take_all us s = Inr (map us_password (ds_users s), s\<lparr>ds_users := []\<rparr>)"
  by (induction us arbitrary: s) (auto simp: take_user_password_def)

lemma list_ex_zip_names:
  "length xs = length ys \<Longrightarrow> \<not> list_ex (\<lambda>(a, b). f a \<noteq> g b) (zip xs ys) \<Longrightarrow> map f xs = map g ys"
  by (induction xs ys rule: list_induct2) auto

text \<open>
  Secrets that were validated for a request reach exactly the accounts they were given for:
  taking the passwords account by account, in creation order, never fails, gives the passwords in
  that order even when a user name occurs twice, and leaves none behind; every password is short
  enough and free of the bytes that would break a line of \<open>chpasswd\<close>; and a source without a root
  file system never receives secrets.
\<close>

lemma secrets_reach_accounts:
  assumes "submission_validate_secrets request secrets = Inr ()"
  shows "take_all (map cu_username (mc_users (dr_config request))) secrets =
      Inr (map us_password (ds_users secrets), secrets\<lparr>ds_users := []\<rparr>)
    \<and> map us_username (ds_users secrets) = map cu_username (mc_users (dr_config request))
    \<and> (\<forall>s \<in> set (ds_users secrets). \<forall>p. us_password s = Some p \<longrightarrow>
         length p \<le> 4096 \<and> list_all (\<lambda>b. \<not> ctrl1 b) p)
    \<and> (supports_rootfs_configuration (dr_source request) \<or> \<not> has_account_changes secrets)"
proof -
  from assms have v: "validate_for secrets (dr_config request) = Inr ()"
    and src: "supports_rootfs_configuration (dr_source request) \<or> \<not> has_account_changes secrets"
    by (auto simp: submission_validate_secrets_def split: if_splits)
  from v have names: "map us_username (ds_users secrets) = map cu_username (mc_users (dr_config request))"
    by (intro list_ex_zip_names) (auto simp: validate_for_def split: if_splits)
  have "\<forall>s \<in> set (ds_users secrets). validate_password RejectUserPassword (us_password s) = Inr ()"
    using v by (auto simp: validate_for_def split: if_splits)
  then have "\<forall>s \<in> set (ds_users secrets). \<forall>p. us_password s = Some p \<longrightarrow>
      length p \<le> 4096 \<and> list_all (\<lambda>b. \<not> ctrl1 b) p"
    using validate_chpasswd_secret_ok by (force simp: validate_password_def)
  with src names take_all_aligned [OF names] show ?thesis by blast
qed

lemma secrets_reach_accounts_witness:
  "take_all [''lynn''] \<lparr>ds_root_password = None, ds_users = [user_secret_new ''lynn'' ''hunter2'']\<rparr> =
     Inr ([Some ''hunter2''], \<lparr>ds_root_password = None, ds_users = []\<rparr>)"
proof -
  have "submission_validate_secrets example_request
    \<lparr>ds_root_password = None, ds_users = [user_secret_new ''lynn'' ''hunter2'']\<rparr> = Inr ()"
    by (simp add: submission_validate_secrets_def validate_for_def validate_password_def
        example_request_def user_secret_new_def validate_chpasswd_secret_def
        MAX_CHPASSWD_SECRET_BYTES_def ctrl1_def ctrl2_def)
  from secrets_reach_accounts [OF this] show ?thesis
    by (simp add: example_request_def user_secret_new_def)
qed

end
