(* ===== verification/Deployment_State.thy ===== *)
theory Deployment_State
  imports Deployment_Contract
begin

text \<open>
  Resource ownership and crash state of a deployment (\<open>src/application/provisioning/state.rs\<close>): the
  ledger of resources, the crash manifest, the contract of the port that stores it, and the session
  that writes every transition ahead of the work. The filesystem store behind the port is in
  \<open>Deployment_Store\<close>.
\<close>

section \<open>Resources and the ledger\<close>

datatype DeploymentId = DeploymentId "128 word"

datatype DeploymentStage =
    Validation | StoragePreparation | SourceDeployment | RootfsMutation | HostConfiguration
  | RuntimeCommit | Cleanup | Rollback

datatype DeploymentResource =
    LocalStorage MachineName
  | ExternalImage MachineName
  | StorageMount MachineName
  | RawConfigurationMount MachineName
  | NvidiaState MachineName
  | NspawnConfigFile MachineName
  | SystemdOverride MachineName
  | RootfsHostname MachineName
  | RootfsAccounts MachineName
  | RootfsNvidia MachineName
  | RootfsNetwork MachineName

fun resource_target :: "DeploymentResource \<Rightarrow> MachineName" where
  "resource_target (LocalStorage target) = target"
| "resource_target (ExternalImage target) = target"
| "resource_target (StorageMount target) = target"
| "resource_target (RawConfigurationMount target) = target"
| "resource_target (NvidiaState target) = target"
| "resource_target (NspawnConfigFile target) = target"
| "resource_target (SystemdOverride target) = target"
| "resource_target (RootfsHostname target) = target"
| "resource_target (RootfsAccounts target) = target"
| "resource_target (RootfsNvidia target) = target"
| "resource_target (RootfsNetwork target) = target"

datatype ResourceDisposition =
    Created | Adopted | PreExisting | Transferred | DispCommitted | DispCleanupPending
  | OutcomeUnknown

record ResourceLedgerEntry =
  le_resource :: DeploymentResource
  le_disposition :: ResourceDisposition

type_synonym ResourceLedger = "ResourceLedgerEntry list"

text \<open>Update the first entry of the resource, or append one.\<close>

fun ledger_record ::
  "DeploymentResource \<Rightarrow> ResourceDisposition \<Rightarrow> ResourceLedger \<Rightarrow> ResourceLedger" where
  "ledger_record resource disposition [] =
     [\<lparr>le_resource = resource, le_disposition = disposition\<rparr>]"
| "ledger_record resource disposition (entry # entries) =
     (if le_resource entry = resource then entry\<lparr>le_disposition := disposition\<rparr> # entries
      else entry # ledger_record resource disposition entries)"

definition owning :: "ResourceDisposition \<Rightarrow> bool" where
  "owning d \<longleftrightarrow> d \<in> {Created, Adopted, Transferred, DispCommitted, DispCleanupPending}"

definition ledger_owns :: "ResourceLedger \<Rightarrow> DeploymentResource \<Rightarrow> bool" where
  "ledger_owns entries resource \<longleftrightarrow>
     list_ex (\<lambda>entry. le_resource entry = resource \<and> owning (le_disposition entry)) entries"

definition ledger_disposition ::
  "ResourceLedger \<Rightarrow> DeploymentResource \<Rightarrow> ResourceDisposition option" where
  "ledger_disposition entries resource =
     map_option le_disposition (find (\<lambda>entry. le_resource entry = resource) entries)"

definition ledger_remove :: "DeploymentResource \<Rightarrow> ResourceLedger \<Rightarrow> ResourceLedger" where
  "ledger_remove resource entries = filter (\<lambda>entry. le_resource entry \<noteq> resource) entries"

definition owned_in_reverse :: "ResourceLedger \<Rightarrow> DeploymentResource list" where
  "owned_in_reverse entries =
     map le_resource (filter (\<lambda>entry. ledger_owns entries (le_resource entry)) (rev entries))"

section \<open>The crash manifest\<close>

datatype DeploymentStateError = Invalid string | Conflict string | StateUnavailable string

text \<open>\<open>any(|x| !set.insert(x))\<close>: whether an element occurs twice.\<close>

fun has_duplicate :: "'a set \<Rightarrow> 'a list \<Rightarrow> bool" where
  "has_duplicate seen [] = False"
| "has_duplicate seen (x # xs) = (if x \<in> seen then True else has_duplicate (insert x seen) xs)"

definition snapshot_validate :: "MachineName \<Rightarrow> ResourceLedger \<Rightarrow> DeploymentStateError + unit" where
  "snapshot_validate target entries =
     (if has_duplicate {} (map le_resource entries)
      then Inl (Invalid ''deployment ledger contains a duplicate resource'')
      else if list_ex (\<lambda>entry. resource_target (le_resource entry) \<noteq> target) entries
      then Inl (Invalid ''deployment ledger contains a resource for another target'')
      else Inr ())"

datatype DeploymentManifestState =
    Prepared
  | Applying DeploymentStage "DeploymentResource list"
  | Committed DeploymentStage
  | CleanupPending

record DeploymentCrashManifest =
  schema_version :: u32
  mf_deployment_id :: DeploymentId
  mf_target :: MachineName
  plan_hash :: PlanFingerprint
  mf_revision :: u64
  mf_state :: DeploymentManifestState
  committed_ledger :: ResourceLedger

definition DEPLOYMENT_MANIFEST_SCHEMA_VERSION :: u32 where
  "DEPLOYMENT_MANIFEST_SCHEMA_VERSION = 1"

definition manifest_prepared :: "DeploymentId \<Rightarrow> 'n DeploymentPlan \<Rightarrow> DeploymentCrashManifest" where
  "manifest_prepared did plan =
     \<lparr>schema_version = DEPLOYMENT_MANIFEST_SCHEMA_VERSION, mf_deployment_id = did,
      mf_target = plan_target plan, plan_hash = plan_fingerprint plan, mf_revision = 1,
      mf_state = Prepared, committed_ledger = []\<rparr>"

definition intended_validate ::
  "MachineName \<Rightarrow> DeploymentManifestState \<Rightarrow> DeploymentStateError + unit" where
  "intended_validate target state =
     (case state of
        Applying _ intended \<Rightarrow>
          if has_duplicate {} intended
          then Inl (Invalid ''deployment manifest contains duplicate intended resources'')
          else if list_ex (\<lambda>resource. resource_target resource \<noteq> target) intended
          then Inl (Invalid ''deployment manifest intends a resource for another target'')
          else Inr ()
      | _ \<Rightarrow> Inr ())"

definition manifest_validate :: "DeploymentCrashManifest \<Rightarrow> DeploymentStateError + unit" where
  "manifest_validate m =
     (if schema_version m \<noteq> DEPLOYMENT_MANIFEST_SCHEMA_VERSION
      then Inl (Invalid (''unsupported deployment manifest schema '' @ show_nat (unat (schema_version m))))
      else if mf_revision m = 0 \<or> \<not> fingerprint_is_valid (plan_hash m)
      then Inl (Invalid ''deployment manifest has an invalid revision or plan hash'')
      else and_then (snapshot_validate (mf_target m) (committed_ledger m)) (\<lambda>_.
        intended_validate (mf_target m) (mf_state m)))"

definition recovery_claim :: "DeploymentCrashManifest \<Rightarrow> ResourceClaim" where
  "recovery_claim m = claim_exclusive (for_machine (mf_target m))"

section \<open>The session\<close>

text \<open>
  The session owns the manifest it last stored; the port's state \<open>'s\<close> is threaded through. A port
  call may fail and still have taken effect, so it returns a state on both branches.
\<close>

record 's StatePort =
  port_create :: "DeploymentCrashManifest \<Rightarrow> 's \<Rightarrow> (DeploymentStateError + unit) \<times> 's"
  port_update :: "u64 \<Rightarrow> DeploymentCrashManifest \<Rightarrow> 's \<Rightarrow> (DeploymentStateError + unit) \<times> 's"
  port_remove :: "DeploymentId \<Rightarrow> u64 \<Rightarrow> 's \<Rightarrow> (DeploymentStateError + unit) \<times> 's"

definition session_new :: "DeploymentId \<Rightarrow> 'n DeploymentPlan \<Rightarrow> DeploymentCrashManifest" where
  "session_new did plan = manifest_prepared did plan"

definition session_prepare ::
  "'s StatePort \<Rightarrow> DeploymentCrashManifest \<Rightarrow> 's \<Rightarrow> (DeploymentStateError + unit) \<times> 's" where
  "session_prepare port current s = port_create port current s"

definition session_transition ::
  "'s StatePort \<Rightarrow> DeploymentManifestState \<Rightarrow> ResourceLedger \<Rightarrow> DeploymentCrashManifest \<Rightarrow> 's \<Rightarrow>
     (DeploymentStateError + unit) \<times> DeploymentCrashManifest \<times> 's" where
  "session_transition port state ledger current s =
     (case checked_add (mf_revision current) 1 of
        None \<Rightarrow> (Inl (Invalid ''manifest revision overflow''), current, s)
      | Some revision \<Rightarrow>
          let next = current\<lparr>mf_revision := revision, mf_state := state,
                             committed_ledger := ledger\<rparr> in
          (case port_update port (mf_revision current) next s of
             (Inl e, s') \<Rightarrow> (Inl e, current, s')
           | (Inr _, s') \<Rightarrow> (Inr (), next, s')))"

definition session_applying where
  "session_applying port stage intended ledger current s =
     session_transition port (Applying stage intended) ledger current s"

definition session_committed where
  "session_committed port stage ledger current s =
     session_transition port (Committed stage) ledger current s"

definition session_cleanup_pending where
  "session_cleanup_pending port ledger current s =
     session_transition port CleanupPending ledger current s"

definition session_finish ::
  "'s StatePort \<Rightarrow> DeploymentCrashManifest \<Rightarrow> 's \<Rightarrow> (DeploymentStateError + unit) \<times> 's" where
  "session_finish port current s =
     port_remove port (mf_deployment_id current) (mf_revision current) s"

definition current_applying_resources :: "DeploymentCrashManifest \<Rightarrow> DeploymentResource list" where
  "current_applying_resources current =
     (case mf_state current of Applying _ intended \<Rightarrow> intended | _ \<Rightarrow> [])"

section \<open>The ledger owns each resource once\<close>

definition ledger_wf :: "ResourceLedger \<Rightarrow> bool" where
  "ledger_wf entries \<longleftrightarrow> distinct (map le_resource entries)"

lemma ledger_record_resources:
  "set (map le_resource (ledger_record r d es)) = insert r (set (map le_resource es))"
  by (induction es) auto

lemma ledger_record_wf: "ledger_wf es \<Longrightarrow> ledger_wf (ledger_record r d es)"
  unfolding ledger_wf_def
proof (induction es)
  case (Cons e es)
  then show ?case using ledger_record_resources [of r d es] by auto
qed simp

lemma ledger_remove_wf: "ledger_wf es \<Longrightarrow> ledger_wf (ledger_remove r es)"
  by (simp add: ledger_wf_def ledger_remove_def distinct_map_filter)

lemma ledger_disposition_record:
  "ledger_disposition (ledger_record r d es) x =
     (if x = r then Some d else ledger_disposition es x)"
  by (induction es) (auto simp: ledger_disposition_def)

lemma ledger_disposition_remove:
  "ledger_disposition (ledger_remove r es) x = (if x = r then None else ledger_disposition es x)"
  by (induction es) (auto simp: ledger_disposition_def ledger_remove_def)

lemma ledger_owns_iff:
  assumes "ledger_wf es"
  shows "ledger_owns es r \<longleftrightarrow> (\<exists>d. ledger_disposition es r = Some d \<and> owning d)"
  using assms
proof (induction es)
  case (Cons e es)
  have "\<not> ledger_owns es r" if "le_resource e = r"
    using Cons.prems that by (auto simp: ledger_wf_def ledger_owns_def list_ex_iff image_iff)
  with Cons show ?case by (auto simp: ledger_owns_def ledger_disposition_def ledger_wf_def)
qed (simp add: ledger_owns_def ledger_disposition_def)

text \<open>The interface of the ledger towards the rollback: a map from resources to dispositions.\<close>

locale ownership_ledger =
  fixes note_resource :: "'r \<Rightarrow> 'd \<Rightarrow> 'l \<Rightarrow> 'l"
    and forget :: "'r \<Rightarrow> 'l \<Rightarrow> 'l"
    and disposition :: "'l \<Rightarrow> 'r \<Rightarrow> 'd option"
    and owns :: "'l \<Rightarrow> 'r \<Rightarrow> bool"
    and owner :: "'d \<Rightarrow> bool"
    and wf :: "'l \<Rightarrow> bool"
  assumes disposition_note: "disposition (note_resource r d l) x = (if x = r then Some d else disposition l x)"
    and disposition_forget: "disposition (forget r l) x = (if x = r then None else disposition l x)"
    and wf_note: "wf l \<Longrightarrow> wf (note_resource r d l)"
    and wf_forget: "wf l \<Longrightarrow> wf (forget r l)"
    and owns_disposition: "wf l \<Longrightarrow> owns l r \<longleftrightarrow> (\<exists>d. disposition l r = Some d \<and> owner d)"
begin

lemma owns_note: "wf l \<Longrightarrow> owns (note_resource r d l) x \<longleftrightarrow> (if x = r then owner d else owns l x)"
  by (simp add: owns_disposition wf_note disposition_note)

lemma owns_forget: "wf l \<Longrightarrow> owns (forget r l) x \<longleftrightarrow> x \<noteq> r \<and> owns l x"
  by (simp add: owns_disposition wf_forget disposition_forget)

lemma note_forget: "wf l \<Longrightarrow> owns (forget r (note_resource r d l)) x \<longleftrightarrow> x \<noteq> r \<and> owns l x"
  by (simp add: owns_forget owns_note wf_note)

end

interpretation ledger:
  ownership_ledger ledger_record ledger_remove ledger_disposition ledger_owns owning ledger_wf
  by unfold_locales
    (simp_all add: ledger_disposition_record ledger_disposition_remove ledger_record_wf
      ledger_remove_wf ledger_owns_iff)

text \<open>
  C34. The ledger is a map of dispositions: recording a resource never duplicates it, ownership
  after recording depends only on the last disposition (an unknown outcome or a pre-existing
  resource is never owned), removing it ends the ownership, and the rollback order lists exactly
  the owned resources, each once, latest first.
\<close>

theorem ledger_ownership:
  assumes "ledger_wf entries"
  shows "ledger_wf (ledger_record r d entries)
    \<and> (ledger_owns (ledger_record r d entries) x \<longleftrightarrow> (if x = r then owning d else ledger_owns entries x))
    \<and> (ledger_owns (ledger_remove r entries) x \<longleftrightarrow> x \<noteq> r \<and> ledger_owns entries x)
    \<and> set (owned_in_reverse entries) = {x. ledger_owns entries x}
    \<and> distinct (owned_in_reverse entries)
    \<and> (\<exists>owned. rev (owned_in_reverse entries) = filter owned (map le_resource entries))"
proof -
  have rv: "rev (owned_in_reverse entries) = filter (ledger_owns entries) (map le_resource entries)"
    by (simp add: owned_in_reverse_def rev_map rev_filter filter_map comp_def)
  moreover have "distinct (filter (ledger_owns entries) (map le_resource entries))"
    using assms by (simp add: ledger_wf_def)
  then have "distinct (owned_in_reverse entries)" using rv by (metis distinct_rev)
  moreover have "set (owned_in_reverse entries) = {x. ledger_owns entries x}"
    by (auto simp: owned_in_reverse_def ledger_owns_def list_ex_iff)
  ultimately show ?thesis
    using assms ledger.wf_note ledger.owns_note ledger.owns_forget by blast
qed

theorem ledger_ownership_witness:
  "\<not> ledger_owns (ledger_record (LocalStorage (MachineName ''a'')) OutcomeUnknown
       [\<lparr>le_resource = LocalStorage (MachineName ''a''), le_disposition = Created\<rparr>])
       (LocalStorage (MachineName ''a''))"
  using ledger_ownership [of "[\<lparr>le_resource = LocalStorage (MachineName ''a''), le_disposition = Created\<rparr>]"
      "LocalStorage (MachineName ''a'')" OutcomeUnknown "LocalStorage (MachineName ''a'')"]
  by (simp add: ledger_wf_def owning_def)

end
