(* ===== verification/Deployment_Registry.thy ===== *)
theory Deployment_Registry
  imports Deployment_State
begin

text \<open>
  The daemon's registry of deployment jobs (\<open>src/daemon/jobs/server.rs\<close>, with the wire types of
  \<open>src/ipc/protocol/deployment.rs\<close>): submissions, jobs, their resource reservations, stream leases
  and the eviction of old records. The daemon's histories and the invariant are in
  \<open>Deployment_Jobs\<close>.
\<close>

section \<open>Records\<close>

datatype DeploymentRequestId = DeploymentRequestId "128 word"

datatype DeploymentClaimState =
    Held | Released | ReconciliationRequired | Reconciled | ReleasedUnresolved

datatype DeploymentSubmissionStatus =
    Pending | Accepted DeploymentId | Rejected string

record DeploymentJobSnapshot =
  snap_deployment_id :: DeploymentId
  snap_revision :: u64
  snap_status :: DeploymentStatus
  snap_cancellation_requested :: bool
  snap_claim :: DeploymentClaimState

record DeploymentSubmissionSnapshot =
  subsnap_request_id :: DeploymentRequestId
  subsnap_status :: DeploymentSubmissionStatus
  subsnap_acknowledged :: bool

text \<open>
  A cancellation handle is the identity of its shared flag; the flags that are set are part of the
  daemon's state.
\<close>

datatype DeploymentCancellation = DeploymentCancellation nat

record DeploymentRecord =
  request_id :: DeploymentRequestId
  revision :: u64
  status :: DeploymentStatus
  claim :: DeploymentClaimState
  cancellation :: DeploymentCancellation
  cancellation_requested :: bool
  reservation :: "ResourceReservation option"
  acknowledged :: bool
  stream_leases :: u64
  sequence :: u64

record DeploymentSubmissionIdentity =
  deployment_id :: DeploymentId
  plan :: PlanFingerprint

record DeploymentSubmissionRecord =
  sub_identity :: DeploymentSubmissionIdentity
  sub_status :: DeploymentSubmissionStatus
  sub_acknowledged :: bool
  sub_sequence :: u64

record DeploymentRegistry =
  jobs :: "(DeploymentId \<times> DeploymentRecord) list"
  submissions :: "(DeploymentRequestId \<times> DeploymentSubmissionRecord) list"
  next_sequence :: u64

text \<open>
  The part of the server's state that the deployment handlers touch: the deployment registry, the
  operation registry its jobs reserve from, and the cancellation flags that are set. The methods
  below run under the registry's lock.
\<close>

record DaemonServerState = DeploymentRegistry +
  operations :: OperationRegistry
  cancelled :: "DeploymentCancellation list"

definition MAX_DEPLOYMENT_RECORDS :: nat where
  "MAX_DEPLOYMENT_RECORDS = 64"

section \<open>Errors\<close>

text \<open>One constructor per \<open>io::Error\<close> the registry builds; \<open>RegistryPanic\<close> is a failed \<open>expect\<close>.\<close>

datatype RegistryError =
    SubmissionAlreadyExists DeploymentRequestId
  | SubmissionDifferentIdentity DeploymentRequestId
  | SubmissionsAtCapacity
  | SubmissionNotRegistered DeploymentRequestId
  | SubmissionNotPending DeploymentRequestId DeploymentId
  | DeploymentsAtCapacity
  | DeploymentAlreadyExists DeploymentId
  | ResourceBusy ResourceKey
  | TerminalStatusObserved
  | DeploymentNotRegistered DeploymentId
  | DeploymentAlreadyTerminal DeploymentId
  | DifferentTerminalResult DeploymentId
  | SubmissionStillPending DeploymentRequestId
  | DeploymentStillRunning DeploymentId
  | StillRequiresReconciliation DeploymentId
  | SubmissionNotAcknowledged DeploymentRequestId
  | ConfirmationRequired
  | NotEligibleForRelease DeploymentId
  | DoesNotRequireReconciliation DeploymentId
  | CannotBeReconciled DeploymentId
  | InvalidTerminalClaim
  | InconsistentTerminalResult
  | RegistryPanic string

datatype IoErrorKind = AlreadyExists | NotFound | InvalidInput | WouldBlock | Other

text \<open>\<open>None\<close> for a panic, which is no \<open>io::Error\<close>.\<close>

fun error_kind :: "RegistryError \<Rightarrow> IoErrorKind option" where
  "error_kind (SubmissionAlreadyExists _) = Some AlreadyExists"
| "error_kind (SubmissionDifferentIdentity _) = Some AlreadyExists"
| "error_kind SubmissionsAtCapacity = Some Other"
| "error_kind (SubmissionNotRegistered _) = Some NotFound"
| "error_kind (SubmissionNotPending _ _) = Some InvalidInput"
| "error_kind DeploymentsAtCapacity = Some Other"
| "error_kind (DeploymentAlreadyExists _) = Some AlreadyExists"
| "error_kind (ResourceBusy _) = Some WouldBlock"
| "error_kind TerminalStatusObserved = Some InvalidInput"
| "error_kind (DeploymentNotRegistered _) = Some NotFound"
| "error_kind (DeploymentAlreadyTerminal _) = Some InvalidInput"
| "error_kind (DifferentTerminalResult _) = Some InvalidInput"
| "error_kind (SubmissionStillPending _) = Some WouldBlock"
| "error_kind (DeploymentStillRunning _) = Some WouldBlock"
| "error_kind (StillRequiresReconciliation _) = Some WouldBlock"
| "error_kind (SubmissionNotAcknowledged _) = Some WouldBlock"
| "error_kind ConfirmationRequired = Some InvalidInput"
| "error_kind (NotEligibleForRelease _) = Some WouldBlock"
| "error_kind (DoesNotRequireReconciliation _) = Some InvalidInput"
| "error_kind (CannotBeReconciled _) = Some InvalidInput"
| "error_kind InvalidTerminalClaim = Some InvalidInput"
| "error_kind InconsistentTerminalResult = Some InvalidInput"
| "error_kind (RegistryPanic _) = None"

section \<open>Helpers\<close>

definition take_sequence :: "'a DeploymentRegistry_scheme \<Rightarrow> u64 \<times> 'a DeploymentRegistry_scheme" where
  "take_sequence inner =
     (let n = saturating_add (next_sequence inner) 1 in (n, inner\<lparr>next_sequence := n\<rparr>))"

definition job_snapshot :: "DeploymentId \<Rightarrow> DeploymentRecord \<Rightarrow> DeploymentJobSnapshot" where
  "job_snapshot did r =
     \<lparr>snap_deployment_id = did, snap_revision = revision r, snap_status = status r,
      snap_cancellation_requested = cancellation_requested r, snap_claim = claim r\<rparr>"

definition cancellation_request ::
  "DeploymentCancellation \<Rightarrow> DaemonServerState \<Rightarrow> DaemonServerState" where
  "cancellation_request c s = s\<lparr>cancelled := List.insert c (cancelled s)\<rparr>"

definition cancellation_is_requested :: "DeploymentCancellation \<Rightarrow> DaemonServerState \<Rightarrow> bool" where
  "cancellation_is_requested c s \<longleftrightarrow> c \<in> set (cancelled s)"

text \<open>\<open>Option::take\<close> on a reservation, or the drop of a whole record: the guard releases its claims.\<close>

fun drop_guard :: "ResourceReservation option \<Rightarrow> DaemonServerState \<Rightarrow> DaemonServerState" where
  "drop_guard None s = s"
| "drop_guard (Some r) s = s\<lparr>operations := drop_reservation r (operations s)\<rparr>"

abbreviation put_job :: "DeploymentId \<Rightarrow> DeploymentRecord \<Rightarrow> DaemonServerState \<Rightarrow> DaemonServerState" where
  "put_job did r s \<equiv> s\<lparr>jobs := AList.update did r (jobs s)\<rparr>"

abbreviation put_submission ::
  "DeploymentRequestId \<Rightarrow> DeploymentSubmissionRecord \<Rightarrow> DaemonServerState \<Rightarrow> DaemonServerState" where
  "put_submission rid r s \<equiv> s\<lparr>submissions := AList.update rid r (submissions s)\<rparr>"

definition terminal_claim_state ::
  "DeploymentStatus \<Rightarrow> DeploymentClaimStatus \<Rightarrow> RegistryError + DeploymentClaimState" where
  "terminal_claim_state st claim_status =
     and_then
       (case claim_status of
          ClaimReleased \<Rightarrow> Inr Released
        | ClaimReconciliationRequired \<Rightarrow> Inr ReconciliationRequired
        | ClaimReconciled \<Rightarrow> Inr Reconciled
        | ClaimHeld \<Rightarrow> Inl InvalidTerminalClaim
        | ClaimReleasedUnresolved \<Rightarrow> Inl InvalidTerminalClaim)
       (\<lambda>c.
          let consistent =
            (case st of
               StatusReconciliationRequired _ \<Rightarrow> c = ReconciliationRequired \<or> c = Reconciled
             | Succeeded \<Rightarrow> c = Released
             | Failed _ \<Rightarrow> c = Released
             | Cancelled _ \<Rightarrow> c = Released
             | StatusRunning \<Rightarrow> False
             | RollingBack \<Rightarrow> False)
          in if \<not> consistent then Inl InconsistentTerminalResult else Inr c)"

section \<open>Eviction\<close>

text \<open>\<open>Iterator::min_by_key\<close>: the first of the elements with the least key.\<close>

fun min_by_key :: "('a \<Rightarrow> u64) \<Rightarrow> 'a list \<Rightarrow> 'a option" where
  "min_by_key f [] = None"
| "min_by_key f (x # xs) =
     (case min_by_key f xs of
        None \<Rightarrow> Some x
      | Some y \<Rightarrow> if f x \<le> f y then Some x else Some y)"

definition evictable_job :: "DeploymentRecord \<Rightarrow> bool" where
  "evictable_job job \<longleftrightarrow>
     acknowledged job \<and> stream_leases job = 0
     \<and> claim job \<in> {Released, Reconciled, ReleasedUnresolved}"

definition evictable :: "DaemonServerState \<Rightarrow> DeploymentSubmissionRecord \<Rightarrow> bool" where
  "evictable s submission \<longleftrightarrow>
     (if \<not> sub_acknowledged submission then False
      else case sub_status submission of
             Rejected _ \<Rightarrow> True
           | Accepted did \<Rightarrow>
               (case map_of (jobs s) did of None \<Rightarrow> False | Some job \<Rightarrow> evictable_job job)
           | Pending \<Rightarrow> False)"

text \<open>\<open>None\<close> when nothing can be evicted. Removing a job drops the reservation it may still have.\<close>

definition remove_job :: "DeploymentId \<Rightarrow> DaemonServerState \<Rightarrow> DaemonServerState" where
  "remove_job did s =
     drop_guard (case map_of (jobs s) did of None \<Rightarrow> None | Some job \<Rightarrow> reservation job)
       (s\<lparr>jobs := AList.delete did (jobs s)\<rparr>)"

definition evict_one :: "DaemonServerState \<Rightarrow> DaemonServerState option" where
  "evict_one s =
     (case min_by_key (\<lambda>(_, submission). sub_sequence submission)
             (filter (\<lambda>(_, submission). evictable s submission) (submissions s)) of
        None \<Rightarrow> None
      | Some (rid, _) \<Rightarrow>
          let removed = map_of (submissions s) rid;
              s = s\<lparr>submissions := AList.delete rid (submissions s)\<rparr> in
          Some (case removed of
                  None \<Rightarrow> s
                | Some submission \<Rightarrow>
                    (case sub_status submission of
                       Accepted did \<Rightarrow> remove_job did s
                     | _ \<Rightarrow> s)))"

lemma min_by_key_None [simp]: "min_by_key f xs = None \<longleftrightarrow> xs = []"
  by (cases xs) (auto split: option.splits if_splits)

lemma min_by_key_Some: "min_by_key f xs = Some x \<Longrightarrow> x \<in> set xs \<and> (\<forall>y \<in> set xs. f x \<le> f y)"
proof (induction xs arbitrary: x)
  case (Cons a xs)
  then show ?case
    by (cases "min_by_key f xs") (auto split: if_splits dest: order_trans)
qed simp

lemma drop_guard_frame [simp]:
  "jobs (drop_guard r s) = jobs s" "submissions (drop_guard r s) = submissions s"
  "next_sequence (drop_guard r s) = next_sequence s" "cancelled (drop_guard r s) = cancelled s"
  by (cases r; simp)+

lemma remove_job_frame [simp]:
  "jobs (remove_job did s) = AList.delete did (jobs s)"
  "submissions (remove_job did s) = submissions s"
  by (simp_all add: remove_job_def)

lemma evict_one_Some:
  assumes "evict_one s = Some s'"
  obtains rid sub where "(rid, sub) \<in> set (submissions s)" and "evictable s sub"
    and "\<And>r x. (r, x) \<in> set (submissions s) \<Longrightarrow> evictable s x \<Longrightarrow> sub_sequence sub \<le> sub_sequence x"
    and "submissions s' = AList.delete rid (submissions s)"
    and "s' = (let u = s\<lparr>submissions := AList.delete rid (submissions s)\<rparr> in
           case map_of (submissions s) rid of
             None \<Rightarrow> u
           | Some x \<Rightarrow> (case sub_status x of Accepted did \<Rightarrow> remove_job did u | _ \<Rightarrow> u))"
proof -
  obtain rid sub where m: "min_by_key (\<lambda>(_, x). sub_sequence x)
      (filter (\<lambda>(_, x). evictable s x) (submissions s)) = Some (rid, sub)"
    using assms by (auto simp: evict_one_def split: option.splits)
  note mem = min_by_key_Some [OF m]
  have s': "s' = (let u = s\<lparr>submissions := AList.delete rid (submissions s)\<rparr> in
           case map_of (submissions s) rid of
             None \<Rightarrow> u
           | Some x \<Rightarrow> (case sub_status x of Accepted did \<Rightarrow> remove_job did u | _ \<Rightarrow> u))"
    using assms m by (auto simp: evict_one_def Let_def)
  then have "submissions s' = AList.delete rid (submissions s)"
    by (auto simp: Let_def split: option.splits DeploymentSubmissionStatus.splits)
  with mem s' show thesis by (intro that [of rid sub]) auto
qed

lemma length_delete_member:
  "(k, v) \<in> set m \<Longrightarrow> length (AList.delete k m) < length m"
  by (induction m) (auto simp: AList.delete_eq intro: le_imp_less_Suc)

text \<open>The \<open>while\<close> loop of \<open>reserve_submission\<close>; the flag is false when nothing could be evicted.\<close>

function make_room :: "DaemonServerState \<Rightarrow> bool \<times> DaemonServerState" where
  "make_room s =
     (if length (submissions s) \<ge> MAX_DEPLOYMENT_RECORDS
      then (case evict_one s of None \<Rightarrow> (False, s) | Some s' \<Rightarrow> make_room s')
      else (True, s))"
  by pat_completeness auto

termination
  by (relation "measure (\<lambda>s. length (submissions s))")
    (auto elim!: evict_one_Some intro: length_delete_member)

declare make_room.simps [simp del]

section \<open>The registry's methods\<close>

definition reserve_submission ::
  "DeploymentRequestId \<Rightarrow> DeploymentId \<Rightarrow> PlanFingerprint \<Rightarrow> DaemonServerState \<Rightarrow>
     (RegistryError + unit) \<times> DaemonServerState" where
  "reserve_submission rid did fingerprint s =
     (let ident = \<lparr>deployment_id = did, plan = fingerprint\<rparr> in
      case map_of (submissions s) rid of
        Some existing \<Rightarrow>
          (Inl (if sub_identity existing = ident then SubmissionAlreadyExists rid
                else SubmissionDifferentIdentity rid), s)
      | None \<Rightarrow>
          (case make_room s of
             (False, s) \<Rightarrow> (Inl SubmissionsAtCapacity, s)
           | (True, s) \<Rightarrow>
               (case take_sequence s of (n, s) \<Rightarrow>
                 (Inr (), put_submission rid
                    \<lparr>sub_identity = ident, sub_status = Pending, sub_acknowledged = False,
                     sub_sequence = n\<rparr> s))))"

definition reject_submission ::
  "DeploymentRequestId \<Rightarrow> string \<Rightarrow> DaemonServerState \<Rightarrow> DaemonServerState" where
  "reject_submission rid message s =
     (case take_sequence s of (n, s) \<Rightarrow>
        (case map_of (submissions s) rid of
           None \<Rightarrow> s
         | Some r \<Rightarrow> put_submission rid (r\<lparr>sub_status := Rejected message, sub_sequence := n\<rparr>) s))"

definition register ::
  "(string \<Rightarrow> string) \<Rightarrow> DeploymentRequestId \<Rightarrow> DeploymentId \<Rightarrow> ResourceClaim list \<Rightarrow>
     DeploymentCancellation \<Rightarrow> DaemonServerState \<Rightarrow> (RegistryError + unit) \<times> DaemonServerState" where
  "register esc rid did claims cancel_handle s =
     (case map_of (submissions s) rid of
        None \<Rightarrow> (Inl (SubmissionNotRegistered rid), s)
      | Some submission \<Rightarrow>
          if sub_status submission \<noteq> Pending \<or> deployment_id (sub_identity submission) \<noteq> did
          then (Inl (SubmissionNotPending rid did), s)
          else if length (jobs s) \<ge> MAX_DEPLOYMENT_RECORDS then (Inl DeploymentsAtCapacity, s)
          else if map_of (jobs s) did \<noteq> None then (Inl (DeploymentAlreadyExists did), s)
          else
            (case reserve esc claims (operations s) of
               Inl (ResourceConflict key) \<Rightarrow> (Inl (ResourceBusy key), s)
             | Inr (guard, ops) \<Rightarrow>
                 (case take_sequence (s\<lparr>operations := ops\<rparr>) of (n, s) \<Rightarrow>
                   let s = put_job did
                         \<lparr>request_id = rid, revision = 1, status = StatusRunning, claim = Held,
                          cancellation = cancel_handle, cancellation_requested = False,
                          reservation = Some guard, acknowledged = False, stream_leases = 0,
                          sequence = n\<rparr> s in
                   (case map_of (submissions s) rid of
                      None \<Rightarrow> (Inl (RegistryPanic ''pending submission remains registered''), s)
                    | Some submission \<Rightarrow>
                        (Inr (), put_submission rid
                           (submission\<lparr>sub_status := Accepted did, sub_sequence := n\<rparr>) s)))))"

definition observe_status ::
  "DeploymentId \<Rightarrow> DeploymentStatus \<Rightarrow> DaemonServerState \<Rightarrow>
     (RegistryError + DeploymentJobSnapshot) \<times> DaemonServerState" where
  "observe_status did st s =
     (if is_finished st then (Inl TerminalStatusObserved, s)
      else
        (case take_sequence s of (n, s) \<Rightarrow>
          (case map_of (jobs s) did of
             None \<Rightarrow> (Inl (DeploymentNotRegistered did), s)
           | Some r \<Rightarrow>
               if is_finished (status r) then (Inl (DeploymentAlreadyTerminal did), s)
               else
                 let r = (if st \<noteq> status r
                          then r\<lparr>revision := saturating_add (revision r) 1, status := st,
                                 sequence := n\<rparr>
                          else r) in
                 (Inr (job_snapshot did r), put_job did r s))))"

definition finalize ::
  "DeploymentId \<Rightarrow> DeploymentStatus \<Rightarrow> DeploymentClaimStatus \<Rightarrow> DaemonServerState \<Rightarrow>
     (RegistryError + DeploymentJobSnapshot) \<times> DaemonServerState" where
  "finalize did st claim_status s =
     (case terminal_claim_state st claim_status of
        Inl e \<Rightarrow> (Inl e, s)
      | Inr c \<Rightarrow>
          (case take_sequence s of (n, s) \<Rightarrow>
            (case map_of (jobs s) did of
               None \<Rightarrow> (Inl (DeploymentNotRegistered did), s)
             | Some r \<Rightarrow>
                 if is_finished (status r)
                 then (if status r = st \<and> claim r = c then (Inr (job_snapshot did r), s)
                       else (Inl (DifferentTerminalResult did), s))
                 else
                   let r' = r\<lparr>revision := saturating_add (revision r) 1, status := st, claim := c,
                              sequence := n\<rparr> in
                   if c \<noteq> ReconciliationRequired
                   then (Inr (job_snapshot did r'),
                         drop_guard (reservation r) (put_job did (r'\<lparr>reservation := None\<rparr>) s))
                   else (Inr (job_snapshot did r'), put_job did r' s))))"

definition deployment_snapshot ::
  "DeploymentId \<Rightarrow> DaemonServerState \<Rightarrow> RegistryError + DeploymentJobSnapshot" where
  "deployment_snapshot did s =
     and_then (ok_or (map_of (jobs s) did) (DeploymentNotRegistered did)) (\<lambda>r.
       Inr (job_snapshot did r))"

definition resolve_submission ::
  "DeploymentRequestId \<Rightarrow> DaemonServerState \<Rightarrow> RegistryError + DeploymentSubmissionSnapshot" where
  "resolve_submission rid s =
     and_then (ok_or (map_of (submissions s) rid) (SubmissionNotRegistered rid)) (\<lambda>r.
       Inr \<lparr>subsnap_request_id = rid, subsnap_status = sub_status r,
            subsnap_acknowledged = sub_acknowledged r\<rparr>)"

definition acknowledge_submission ::
  "DeploymentRequestId \<Rightarrow> DaemonServerState \<Rightarrow> (RegistryError + unit) \<times> DaemonServerState" where
  "acknowledge_submission rid s =
     (case take_sequence s of (n, s) \<Rightarrow>
        (case map_of (submissions s) rid of
           None \<Rightarrow> (Inl (SubmissionNotRegistered rid), s)
         | Some r \<Rightarrow>
             if sub_status r = Pending then (Inl (SubmissionStillPending rid), s)
             else (Inr (), put_submission rid (r\<lparr>sub_acknowledged := True, sub_sequence := n\<rparr>) s)))"

definition cancel ::
  "DeploymentId \<Rightarrow> DaemonServerState \<Rightarrow>
     (RegistryError + DeploymentJobSnapshot) \<times> DaemonServerState" where
  "cancel did s =
     (case take_sequence s of (n, s) \<Rightarrow>
        (case map_of (jobs s) did of
           None \<Rightarrow> (Inl (DeploymentNotRegistered did), s)
         | Some r \<Rightarrow>
             if is_finished (status r) then (Inr (job_snapshot did r), s)
             else
               let r = (if \<not> cancellation_requested r
                        then r\<lparr>cancellation_requested := True,
                               revision := saturating_add (revision r) 1, sequence := n\<rparr>
                        else r) in
               (Inr (job_snapshot did r), cancellation_request (cancellation r) (put_job did r s))))"

definition acknowledge ::
  "DeploymentId \<Rightarrow> DaemonServerState \<Rightarrow> (RegistryError + unit) \<times> DaemonServerState" where
  "acknowledge did s =
     (case map_of (jobs s) did of
        None \<Rightarrow> (Inl (DeploymentNotRegistered did), s)
      | Some r \<Rightarrow>
          if \<not> is_finished (status r) then (Inl (DeploymentStillRunning did), s)
          else if claim r = ReconciliationRequired then (Inl (StillRequiresReconciliation did), s)
          else
            (case map_of (submissions s) (request_id r) of
               None \<Rightarrow> (Inl (RegistryPanic ''job retains its submission record''), s)
             | Some submission \<Rightarrow>
                 if \<not> sub_acknowledged submission
                 then (Inl (SubmissionNotAcknowledged (request_id r)), s)
                 else
                   (case take_sequence s of (n, s) \<Rightarrow>
                     (case map_of (jobs s) did of
                        None \<Rightarrow> (Inl (RegistryPanic ''validated deployment remains registered''), s)
                      | Some r \<Rightarrow>
                          (Inr (), put_job did (r\<lparr>acknowledged := True, sequence := n\<rparr>) s)))))"

definition register_stream ::
  "DeploymentId \<Rightarrow> DaemonServerState \<Rightarrow> (RegistryError + unit) \<times> DaemonServerState" where
  "register_stream did s =
     (case map_of (jobs s) did of
        None \<Rightarrow> (Inl (DeploymentNotRegistered did), s)
      | Some r \<Rightarrow>
          (Inr (), put_job did (r\<lparr>stream_leases := saturating_add (stream_leases r) 1\<rparr>) s))"

definition saturating_sub :: "u64 \<Rightarrow> u64 \<Rightarrow> u64" where
  "saturating_sub a b = (if b \<le> a then a - b else 0)"

text \<open>Also the drop of a \<open>DeploymentStreamLease\<close>.\<close>

definition release_stream :: "DeploymentId \<Rightarrow> DaemonServerState \<Rightarrow> DaemonServerState" where
  "release_stream did s =
     (case map_of (jobs s) did of
        None \<Rightarrow> s
      | Some r \<Rightarrow> put_job did (r\<lparr>stream_leases := saturating_sub (stream_leases r) 1\<rparr>) s)"

definition release_unresolved ::
  "DeploymentId \<Rightarrow> bool \<Rightarrow> DaemonServerState \<Rightarrow>
     (RegistryError + DeploymentJobSnapshot) \<times> DaemonServerState" where
  "release_unresolved did confirmed s =
     (if \<not> confirmed then (Inl ConfirmationRequired, s)
      else
        (case take_sequence s of (n, s) \<Rightarrow>
          (case map_of (jobs s) did of
             None \<Rightarrow> (Inl (DeploymentNotRegistered did), s)
           | Some r \<Rightarrow>
               if \<not> is_finished (status r) \<or> claim r \<noteq> ReconciliationRequired
               then (Inl (NotEligibleForRelease did), s)
               else
                 let r' = r\<lparr>reservation := None, claim := ReleasedUnresolved,
                            revision := saturating_add (revision r) 1, sequence := n\<rparr> in
                 (Inr (job_snapshot did r'), drop_guard (reservation r) (put_job did r' s)))))"

definition is_reconciliation_required :: "DeploymentStatus \<Rightarrow> bool" where
  "is_reconciliation_required st \<longleftrightarrow>
     (case st of StatusReconciliationRequired _ \<Rightarrow> True | _ \<Rightarrow> False)"

definition reconcile ::
  "DeploymentId \<Rightarrow> bool \<Rightarrow> DaemonServerState \<Rightarrow>
     (RegistryError + DeploymentJobSnapshot) \<times> DaemonServerState" where
  "reconcile did manifest_present s =
     (case take_sequence s of (n, s) \<Rightarrow>
        (case map_of (jobs s) did of
           None \<Rightarrow> (Inl (DeploymentNotRegistered did), s)
         | Some r \<Rightarrow>
             if \<not> is_reconciliation_required (status r)
             then (Inl (DoesNotRequireReconciliation did), s)
             else if claim r = Reconciled then (Inr (job_snapshot did r), s)
             else if claim r \<noteq> ReconciliationRequired then (Inl (CannotBeReconciled did), s)
             else if \<not> manifest_present
             then
               let r' = r\<lparr>reservation := None, claim := Reconciled,
                          revision := saturating_add (revision r) 1, sequence := n\<rparr> in
               (Inr (job_snapshot did r'), drop_guard (reservation r) (put_job did r' s))
             else (Inr (job_snapshot did r), s)))"

definition cancel_all :: "DaemonServerState \<Rightarrow> DaemonServerState" where
  "cancel_all s = foldl (\<lambda>s c. cancellation_request c s) s (map (cancellation \<circ> snd) (jobs s))"

text \<open>The condition \<open>cancel_all_and_wait\<close> waits for, after \<open>cancel_all\<close>.\<close>

definition any_active :: "DaemonServerState \<Rightarrow> bool" where
  "any_active s \<longleftrightarrow> list_ex (\<lambda>(_, r). \<not> is_finished (status r)) (jobs s)"

end
