(* ===== verification/Deployment_Jobs.thy ===== *)
theory Deployment_Jobs
  imports Deployment_Registry
begin

text \<open>
  Correctness of the daemon's deployment registry. Each method is shown to change at most one job
  or one submission in an allowed way; the histories of the daemon, with its submit tasks,
  executors, stream forwarders and the other users of the operation registry, keep one invariant,
  from which the safety properties follow.
\<close>

declare map_of_eq_Some_iff [simp del]

section \<open>How a job may change\<close>

text \<open>The claim state that goes with each status.\<close>

fun status_claim_ok :: "DeploymentStatus \<Rightarrow> DeploymentClaimState \<Rightarrow> bool" where
  "status_claim_ok (StatusReconciliationRequired _) c \<longleftrightarrow>
     c \<in> {ReconciliationRequired, Reconciled, ReleasedUnresolved}"
| "status_claim_ok StatusRunning c \<longleftrightarrow> c = Held"
| "status_claim_ok RollingBack c \<longleftrightarrow> c = Held"
| "status_claim_ok _ c \<longleftrightarrow> c = Released"

definition retains_claim :: "DeploymentClaimState \<Rightarrow> bool" where
  "retains_claim c \<longleftrightarrow> c = Held \<or> c = ReconciliationRequired"

definition record_ok :: "DeploymentRecord \<Rightarrow> bool" where
  "record_ok r \<longleftrightarrow>
     status_claim_ok (status r) (claim r)
     \<and> (reservation r \<noteq> None \<longleftrightarrow> retains_claim (claim r))
     \<and> (acknowledged r \<longrightarrow> \<not> retains_claim (claim r))"

lemma status_claim_ok_finished:
  "status_claim_ok st c \<Longrightarrow> is_finished st \<longleftrightarrow> c \<noteq> Held"
  by (cases st) auto

lemma record_ok_Held: "record_ok r \<Longrightarrow> claim r = Held \<longleftrightarrow> \<not> is_finished (status r)"
  by (auto simp: record_ok_def status_claim_ok_finished)

lemma evictable_job_finished:
  "record_ok r \<Longrightarrow> evictable_job r \<Longrightarrow> is_finished (status r) \<and> reservation r = None"
  by (auto simp: record_ok_def evictable_job_def status_claim_ok_finished retains_claim_def)

definition evolves :: "DeploymentRecord \<Rightarrow> DeploymentRecord \<Rightarrow> bool" where
  "evolves r r' \<longleftrightarrow>
     request_id r' = request_id r
     \<and> unat (revision r) \<le> unat (revision r')
     \<and> (acknowledged r \<longrightarrow> acknowledged r')
     \<and> (is_finished (status r) \<longrightarrow> status r' = status r)
     \<and> (claim r' = claim r \<or> claim r = Held
        \<or> claim r = ReconciliationRequired \<and> claim r' \<in> {Reconciled, ReleasedUnresolved})"

lemma evolves_refl: "evolves r r"
  by (simp add: evolves_def)

text \<open>A job is replaced, and its reservation is kept or released.\<close>

definition job_update ::
  "DeploymentId \<Rightarrow> DeploymentRecord \<Rightarrow> DeploymentRecord \<Rightarrow> DaemonServerState \<Rightarrow> DaemonServerState \<Rightarrow> bool" where
  "job_update did r r' s s' \<longleftrightarrow>
     map_of (jobs s) did = Some r \<and> jobs s' = AList.update did r' (jobs s)
     \<and> submissions s' = submissions s
     \<and> (record_ok r \<longrightarrow> evolves r r' \<and> record_ok r')
     \<and> (acknowledged r' \<longrightarrow> acknowledged r \<or>
          (\<exists>x. map_of (submissions s) (request_id r) = Some x \<and> sub_acknowledged x))
     \<and> (reservation r' = reservation r \<and> operations s' = operations s
        \<or> reservation r' = None \<and> operations s' = operations (drop_guard (reservation r) s))"

definition quiet :: "DaemonServerState \<Rightarrow> DaemonServerState \<Rightarrow> bool" where
  "quiet s s' \<longleftrightarrow> jobs s' = jobs s \<and> submissions s' = submissions s \<and> operations s' = operations s"

definition same_activity :: "DeploymentRecord \<Rightarrow> DeploymentRecord \<Rightarrow> bool" where
  "same_activity r r' \<longleftrightarrow>
     is_finished (status r') = is_finished (status r) \<and> stream_leases r' = stream_leases r"

lemma drop_guard_operations:
  "operations (drop_guard g (s\<lparr>jobs := js\<rparr>)) = operations (drop_guard g s)"
  "operations (drop_guard g (s\<lparr>next_sequence := n\<rparr>)) = operations (drop_guard g s)"
  by (cases g; simp)+

lemma drop_guard_None_iff: "g = None \<Longrightarrow> drop_guard g s = s"
  by simp

lemmas method_simps = take_sequence_def Let_def job_update_def quiet_def same_activity_def
  evolves_def record_ok_def retains_claim_def saturating_add_ge drop_guard_operations

lemma not_finished_cases: "\<not> is_finished st \<longleftrightarrow> st = StatusRunning \<or> st = RollingBack"
  by (cases st) auto

lemma observe_status_effect:
  "quiet s (snd (observe_status did st s)) \<or>
   (\<exists>r r'. job_update did r r' s (snd (observe_status did st s)) \<and> same_activity r r'
      \<and> fst (observe_status did st s) = Inr (job_snapshot did r'))"
proof (cases "is_finished st \<or> (\<forall>r. map_of (jobs s) did = Some r \<longrightarrow> is_finished (status r))")
  case True
  then show ?thesis by (auto simp: observe_status_def method_simps split: option.splits)
next
  case False
  then obtain r where r: "map_of (jobs s) did = Some r" "\<not> is_finished (status r)" "\<not> is_finished st"
    by auto
  then show ?thesis
    by (auto simp: observe_status_def method_simps not_finished_cases)
qed

lemma cancel_effect:
  "quiet s (snd (cancel did s)) \<or>
   (\<exists>r r'. job_update did r r' s (snd (cancel did s)) \<and> same_activity r r'
      \<and> fst (cancel did s) = Inr (job_snapshot did r'))"
  by (cases "map_of (jobs s) did")
    (auto simp: cancel_def method_simps cancellation_request_def)

lemma acknowledge_effect:
  "quiet s (snd (acknowledge did s)) \<or>
   (\<exists>r r'. job_update did r r' s (snd (acknowledge did s)) \<and> same_activity r r'
      \<and> acknowledged r')"
proof (cases "map_of (jobs s) did")
  case (Some r)
  then show ?thesis
    by (cases "map_of (submissions s) (request_id r)")
      (auto simp: acknowledge_def method_simps status_claim_ok_finished)
qed (simp add: acknowledge_def method_simps)

lemma release_unresolved_effect:
  "quiet s (snd (release_unresolved did confirmed s)) \<or>
   (\<exists>r r'. job_update did r r' s (snd (release_unresolved did confirmed s)) \<and> same_activity r r'
      \<and> fst (release_unresolved did confirmed s) = Inr (job_snapshot did r'))"
proof (cases "map_of (jobs s) did")
  case (Some r)
  have ok: "status_claim_ok (status r) ReleasedUnresolved"
    if "status_claim_ok (status r) ReconciliationRequired"
    using that by (cases "status r") auto
  from Some ok show ?thesis
    by (auto simp: release_unresolved_def method_simps)
qed (auto simp: release_unresolved_def method_simps)

lemma reconcile_effect:
  "quiet s (snd (reconcile did present s)) \<or>
   (\<exists>r r'. job_update did r r' s (snd (reconcile did present s)) \<and> same_activity r r'
      \<and> fst (reconcile did present s) = Inr (job_snapshot did r'))"
proof (cases "map_of (jobs s) did")
  case (Some r)
  have ok: "status_claim_ok (status r) Reconciled"
    if "status_claim_ok (status r) ReconciliationRequired"
    using that by (cases "status r") auto
  from Some ok show ?thesis
    by (auto simp: reconcile_def method_simps)
qed (auto simp: reconcile_def method_simps)

lemma terminal_claim_state_ok:
  "terminal_claim_state st cs = Inr c \<Longrightarrow> status_claim_ok st c \<and> is_finished st \<and> c \<noteq> Held
     \<and> c \<noteq> ReleasedUnresolved"
  by (cases st) (auto simp: terminal_claim_state_def Let_def split: DeploymentClaimStatus.splits if_splits)

lemma finalize_done:
  assumes "map_of (jobs s) did = Some r" and "\<not> is_finished (status r)"
    and "terminal_claim_state st cs = Inr c"
  obtains r' where "job_update did r r' s (snd (finalize did st cs s))"
    and "is_finished st" and "status r' = st" and "claim r' = c" and "stream_leases r' = stream_leases r"
    and "fst (finalize did st cs s) = Inr (job_snapshot did r')"
proof -
  note ok = terminal_claim_state_ok [OF assms(3)]
  let ?r = "r\<lparr>revision := saturating_add (revision r) 1, status := st, claim := c,
    sequence := saturating_add (next_sequence s) 1\<rparr>"
  let ?r' = "if c \<noteq> ReconciliationRequired then ?r\<lparr>reservation := None\<rparr> else ?r"
  have "claim r = Held" if "status_claim_ok (status r) (claim r)"
    using that assms(2) by (simp add: status_claim_ok_finished)
  then have "job_update did r ?r' s (snd (finalize did st cs s))"
    using assms ok by (auto simp: finalize_def method_simps)
  moreover have "fst (finalize did st cs s) = Inr (job_snapshot did ?r')"
    using assms by (auto simp: finalize_def method_simps job_snapshot_def)
  ultimately show thesis using ok by (intro that [of ?r']) auto
qed

section \<open>Claims of the jobs\<close>

text \<open>The reservations of the jobs, seen as a map, and how they relate to the operation registry.\<close>

definition guards_in ::
  "(DeploymentId \<times> DeploymentRecord) list \<Rightarrow> DeploymentId \<Rightarrow> ResourceReservation option" where
  "guards_in js did = (case map_of js did of None \<Rightarrow> None | Some r \<Rightarrow> reservation r)"

abbreviation guards :: "DaemonServerState \<Rightarrow> DeploymentId \<Rightarrow> ResourceReservation option" where
  "guards s \<equiv> guards_in (jobs s)"

definition claims_ok ::
  "OperationRegistry \<Rightarrow> (DeploymentId \<Rightarrow> ResourceReservation option) \<Rightarrow> ResourceReservation set \<Rightarrow> bool" where
  "claims_ok ops g others \<longleftrightarrow>
     (\<exists>live. registry_inv ops live \<and> set live = others \<union> ran g \<and> others \<inter> ran g = {}
        \<and> inj_on g (dom g))"

lemma live_distinct: "registry_inv ops live \<Longrightarrow> distinct live"
  unfolding registry_inv_def by (metis distinct_map)

lemma live_fresh:
  assumes "registry_inv ops live" and "id_available ops" and "reserve_inner esc cs rm ops = Inr (r, ops')"
  shows "r \<notin> set live"
  using registry_inv_fresh(1) [OF assms(1,2)] reserve_inner_Inr(1) [OF assms(3)] by force

lemma claims_drop_guard:
  assumes "claims_ok ops g others" and "g did = Some r"
  shows "claims_ok (drop_reservation r ops) (g(did := None)) others"
proof -
  from assms(1) obtain live where live: "registry_inv ops live" "set live = others \<union> ran g"
    "others \<inter> ran g = {}" "inj_on g (dom g)" unfolding claims_ok_def by blast
  have r: "r \<in> ran g" using assms(2) by (auto simp: ran_def)
  have "r \<notin> ran (g(did := None))"
    using live(4) assms(2) by (auto simp: ran_def inj_on_def dom_def split: if_splits)
  moreover have "ran g = insert r (ran (g(did := None)))"
    using assms(2) by (auto simp: ran_def) (metis option.inject)
  ultimately have ran': "ran (g(did := None)) = ran g - {r}" by auto
  have "inj_on (g(did := None)) (dom (g(did := None)))"
    using live(4) by (auto simp: inj_on_def dom_def)
  moreover have "set (remove1 r live) = others \<union> ran (g(did := None))"
    using live(2,3) r live_distinct [OF live(1)] by (auto simp: ran')
  moreover have "registry_inv (drop_reservation r ops) (remove1 r live)"
    using live(1,2) r by (intro drop_reservation_inv) auto
  ultimately show ?thesis using live(3) unfolding claims_ok_def by (intro exI) (auto simp: ran')
qed

lemma claims_admit_guard:
  assumes "claims_ok ops g others" and "id_available ops" and "g did = None"
    and "reserve esc cs ops = Inr (r, ops')"
  shows "claims_ok ops' (g(did \<mapsto> r)) others"
proof -
  from assms(1) obtain live where live: "registry_inv ops live" "set live = others \<union> ran g"
    "others \<inter> ran g = {}" "inj_on g (dom g)" unfolding claims_ok_def by blast
  note ok = assms(4) [unfolded reserve_def]
  have "r \<notin> others" "r \<notin> ran g" using live_fresh [OF live(1) assms(2) ok] live(2) by auto
  moreover from this have "inj_on (g(did \<mapsto> r)) (dom (g(did \<mapsto> r)))"
    using live(4) assms(3) by (auto simp: inj_on_def ran_def dom_def)
  moreover have "registry_inv ops' (r # live)" using reserve_inner_inv [OF live(1) assms(2) ok] .
  ultimately show ?thesis
    using live assms(3) unfolding claims_ok_def by (intro exI [of _ "r # live"]) auto
qed

lemma claims_admit_other:
  assumes "claims_ok ops g others" and "id_available ops" and "reserve_inner esc cs rm ops = Inr (r, ops')"
  shows "claims_ok ops' g (insert r others)"
proof -
  from assms(1) obtain live where live: "registry_inv ops live" "set live = others \<union> ran g"
    "others \<inter> ran g = {}" "inj_on g (dom g)" unfolding claims_ok_def by blast
  have "r \<notin> others" "r \<notin> ran g" using live_fresh [OF live(1) assms(2,3)] live(2) by auto
  then show ?thesis
    using live reserve_inner_inv [OF live(1) assms(2,3)] unfolding claims_ok_def
    by (intro exI [of _ "r # live"]) auto
qed

lemma claims_drop_other:
  assumes "claims_ok ops g others" and "r \<in> others"
  shows "claims_ok (drop_reservation r ops) g (others - {r})"
proof -
  from assms(1) obtain live where live: "registry_inv ops live" "set live = others \<union> ran g"
    "others \<inter> ran g = {}" "inj_on g (dom g)" unfolding claims_ok_def by blast
  with assms(2) have "registry_inv (drop_reservation r ops) (remove1 r live)"
    by (intro drop_reservation_inv) auto
  then show ?thesis
    using live assms(2) live_distinct [OF live(1)] unfolding claims_ok_def
    by (intro exI [of _ "remove1 r live"]) auto
qed

section \<open>Jobs and submissions belong together\<close>

definition job_linked_in ::
  "(DeploymentRequestId \<times> DeploymentSubmissionRecord) list \<Rightarrow> DeploymentId \<Rightarrow> DeploymentRecord \<Rightarrow> bool" where
  "job_linked_in ss did r \<longleftrightarrow> record_ok r \<and>
     (\<exists>x. map_of ss (request_id r) = Some x \<and> sub_status x = Accepted did
        \<and> (acknowledged r \<longrightarrow> sub_acknowledged x))"

definition linked_in ::
  "(DeploymentId \<times> DeploymentRecord) list \<Rightarrow>
   (DeploymentRequestId \<times> DeploymentSubmissionRecord) list \<Rightarrow> bool" where
  "linked_in js ss \<longleftrightarrow>
     distinct (map fst js) \<and> distinct (map fst ss)
     \<and> length ss \<le> MAX_DEPLOYMENT_RECORDS
     \<and> (\<forall>did r. map_of js did = Some r \<longrightarrow> job_linked_in ss did r)
     \<and> (\<forall>rid x did. map_of ss rid = Some x \<and> sub_status x = Accepted did \<longrightarrow>
          (\<exists>r. map_of js did = Some r \<and> request_id r = rid))"

abbreviation job_linked :: "DaemonServerState \<Rightarrow> DeploymentId \<Rightarrow> DeploymentRecord \<Rightarrow> bool" where
  "job_linked s \<equiv> job_linked_in (submissions s)"

abbreviation linked :: "DaemonServerState \<Rightarrow> bool" where
  "linked s \<equiv> linked_in (jobs s) (submissions s)"

lemma linked_job: "linked s \<Longrightarrow> map_of (jobs s) did = Some r \<Longrightarrow> job_linked s did r"
  by (simp add: linked_in_def)

lemma linked_record_ok: "linked s \<Longrightarrow> map_of (jobs s) did = Some r \<Longrightarrow> record_ok r"
  by (simp add: linked_in_def job_linked_in_def)

lemma linked_accepted:
  "linked s \<Longrightarrow> map_of (submissions s) rid = Some x \<Longrightarrow> sub_status x = Accepted did \<Longrightarrow>
   \<exists>r. map_of (jobs s) did = Some r \<and> request_id r = rid"
  unfolding linked_in_def by blast

lemma linked_quiet: "quiet s s' \<Longrightarrow> linked s \<Longrightarrow> linked s'"
proof -
  assume "quiet s s'"
  then have "jobs s' = jobs s" "submissions s' = submissions s" by (simp_all add: quiet_def)
  then have "linked s' = linked s" by (simp add: linked_in_def job_linked_in_def)
  then show "linked s \<Longrightarrow> linked s'" by simp
qed

lemma linked_job_update:
  assumes "job_update did r r' s s'" and "linked s"
  shows "linked s'"
proof -
  note u = assms(1) [unfolded job_update_def]
  have r: "job_linked s did r" using u assms(2) by (simp add: linked_job)
  then have ok: "record_ok r'" "request_id r' = request_id r"
    using u by (auto simp: job_linked_in_def evolves_def)
  have "job_linked s' did r'"
    using r u ok by (auto simp: job_linked_in_def)
  moreover have "job_linked s' d x" if "map_of (jobs s) d = Some x" for d x
    using linked_job [OF assms(2) that] u by (simp add: job_linked_in_def)
  moreover have "\<exists>z. map_of (jobs s') d = Some z \<and> request_id z = rid"
    if "map_of (submissions s) rid = Some x" "sub_status x = Accepted d" for rid x d
    using linked_accepted [OF assms(2) that] u ok(2) by auto
  ultimately show ?thesis
    using assms(2) u unfolding linked_in_def by (auto simp: alist_distinct_update)
qed

lemma guards_quiet: "quiet s s' \<Longrightarrow> guards s' = guards s"
  by (simp add: quiet_def guards_in_def fun_eq_iff)

lemma claims_job_update:
  assumes "job_update did r r' s s'" and "claims_ok (operations s) (guards s) others"
  shows "claims_ok (operations s') (guards s') others"
proof -
  note u = assms(1) [unfolded job_update_def]
  have g: "guards s' = (guards s)(did := reservation r')"
    using u by (auto simp: guards_in_def fun_eq_iff)
  have d: "guards s did = reservation r" using u by (simp add: guards_in_def)
  from u consider "reservation r' = reservation r" "operations s' = operations s"
    | "reservation r' = None" "operations s' = operations (drop_guard (reservation r) s)" by argo
  then show ?thesis
  proof cases
    case 1
    with g d have "guards s' = guards s" by auto
    with 1 assms(2) show ?thesis by simp
  next
    case 2
    show ?thesis
    proof (cases "reservation r")
      case None
      with g d 2 have "guards s' = guards s" by auto
      with None 2 assms(2) show ?thesis by simp
    next
      case (Some x)
      then show ?thesis using claims_drop_guard [OF assms(2), of did x] g d 2 by simp
    qed
  qed
qed

section \<open>Eviction and submissions\<close>

lemma evict_one_linked:
  assumes "linked s" and "evict_one s = Some s'"
  obtains rid x where "map_of (submissions s) rid = Some x" and "evictable s x"
    and "submissions s' = AList.delete rid (submissions s)"
    and "jobs s' = (case sub_status x of Accepted did \<Rightarrow> AList.delete did (jobs s) | _ \<Rightarrow> jobs s)"
    and "operations s' = operations s"
proof -
  obtain rid x where e: "(rid, x) \<in> set (submissions s)" "evictable s x"
    "submissions s' = AList.delete rid (submissions s)"
    "s' = (let u = s\<lparr>submissions := AList.delete rid (submissions s)\<rparr> in
           case map_of (submissions s) rid of
             None \<Rightarrow> u
           | Some x \<Rightarrow> (case sub_status x of Accepted did \<Rightarrow> remove_job did u | _ \<Rightarrow> u))"
    using assms(2) by (rule evict_one_Some)
  have m: "map_of (submissions s) rid = Some x"
    using assms(1) e(1) by (simp add: linked_in_def map_of_eq_Some_iff)
  have "jobs s' = (case sub_status x of Accepted did \<Rightarrow> AList.delete did (jobs s) | _ \<Rightarrow> jobs s)"
    using e(4) m by (auto simp: Let_def split: DeploymentSubmissionStatus.splits)
  moreover have "operations s' = operations s"
  proof (cases "sub_status x")
    case (Accepted did)
    from linked_accepted [OF assms(1) m Accepted] obtain r where r: "map_of (jobs s) did = Some r"
      by blast
    with e(2) Accepted have "evictable_job r" by (auto simp: evictable_def split: if_splits)
    with evictable_job_finished linked_record_ok [OF assms(1) r] have "reservation r = None" by blast
    then show ?thesis using e(4) m Accepted r by (simp add: Let_def remove_job_def)
  qed (use e(4) m in \<open>simp_all add: Let_def\<close>)
  ultimately show thesis using that m e(2,3) by blast
qed

text \<open>What eviction leaves alone: every job and every submission it may not evict.\<close>

definition survives :: "DaemonServerState \<Rightarrow> DaemonServerState \<Rightarrow> bool" where
  "survives s s' \<longleftrightarrow>
     operations s' = operations s
     \<and> (\<forall>did r. map_of (jobs s') did = Some r \<longrightarrow> map_of (jobs s) did = Some r)
     \<and> (\<forall>rid x. map_of (submissions s') rid = Some x \<longrightarrow> map_of (submissions s) rid = Some x)
     \<and> (\<forall>did r. map_of (jobs s) did = Some r \<and> \<not> evictable_job r \<longrightarrow>
          map_of (jobs s') did = Some r)
     \<and> (\<forall>rid x. map_of (submissions s) rid = Some x \<and> \<not> evictable s x \<longrightarrow>
          map_of (submissions s') rid = Some x)"

lemma survives_refl: "survives s s"
  by (simp add: survives_def)

lemma survives_absent:
  "survives s s' \<Longrightarrow> map_of (submissions s) rid = None \<Longrightarrow> map_of (submissions s') rid = None"
  unfolding survives_def by (metis option.exhaust)

lemma survives_sequence [simp]: "survives s (s'\<lparr>next_sequence := n\<rparr>) = survives s s'"
  by (simp add: survives_def)

lemma evict_one_keeps:
  assumes "linked s" and "evict_one s = Some s'"
  shows "survives s s' \<and> linked s' \<and> length (submissions s') < length (submissions s)"
proof -
  obtain rid x where m: "map_of (submissions s) rid = Some x" and ev: "evictable s x"
    and sub: "submissions s' = AList.delete rid (submissions s)"
    and job: "jobs s' = (case sub_status x of Accepted did \<Rightarrow> AList.delete did (jobs s) | _ \<Rightarrow> jobs s)"
    and ops: "operations s' = operations s"
    using assms by (rule evict_one_linked)
  have keep: "map_of (jobs s') did = Some r"
    if "map_of (jobs s) did = Some r" "request_id r \<noteq> rid" for did r
  proof (cases "sub_status x")
    case (Accepted d)
    with linked_accepted [OF assms(1) m] that have "d \<noteq> did" by auto
    with that Accepted show ?thesis by (simp add: job)
  qed (use that in \<open>simp_all add: job\<close>)
  have gone: "request_id r \<noteq> rid" if r: "map_of (jobs s') did = Some r" for did r
  proof
    assume eq: "request_id r = rid"
    have "map_of (jobs s) did = Some r"
      using r by (auto simp: job split: DeploymentSubmissionStatus.splits if_splits)
    with linked_job [OF assms(1)] eq m have "sub_status x = Accepted did"
      by (force simp: job_linked_in_def)
    with r show False by (simp add: job)
  qed
  have orig: "map_of (jobs s) did = Some r" if "map_of (jobs s') did = Some r" for did r
    using that by (auto simp: job split: DeploymentSubmissionStatus.splits if_splits)
  have prot: "map_of (jobs s') did = Some r"
    if r: "map_of (jobs s) did = Some r" "\<not> evictable_job r" for did r
  proof (rule keep [OF r(1)])
    show "request_id r \<noteq> rid"
      using linked_job [OF assms(1) r(1)] m ev r by (auto simp: job_linked_in_def evictable_def split: if_splits)
  qed
  have kept: "map_of (submissions s') i = Some y"
    if "map_of (submissions s) i = Some y" "\<not> evictable s y" for i y
    using that m ev by (auto simp: sub)
  have "map_of (submissions s) i = Some y" if "map_of (submissions s') i = Some y" for i y
    using that by (auto simp: sub split: if_splits)
  then have sv: "survives s s'"
    using orig prot kept ops unfolding survives_def by blast
  have lj: "job_linked s' did r" if r: "map_of (jobs s') did = Some r" for did r
    using linked_job [OF assms(1) orig [OF r]] gone [OF r] by (auto simp: job_linked_in_def sub)
  have ls: "\<exists>r. map_of (jobs s') did = Some r \<and> request_id r = i"
    if "map_of (submissions s') i = Some y" "sub_status y = Accepted did" for i y did
  proof -
    from that sub have i: "i \<noteq> rid" "map_of (submissions s) i = Some y" by (auto split: if_splits)
    from linked_accepted [OF assms(1) i(2) that(2)] keep i(1) show ?thesis by blast
  qed
  have "length (submissions s') < length (submissions s)"
    using length_delete_member [OF map_of_SomeD [OF m]] by (simp add: sub)
  moreover from this have "length (submissions s') \<le> MAX_DEPLOYMENT_RECORDS"
    using assms(1) by (simp add: linked_in_def)
  moreover have "distinct (map fst (jobs s'))" "distinct (map fst (submissions s'))"
    using assms(1) by (auto simp: linked_in_def job sub alist_distinct_delete
        split: DeploymentSubmissionStatus.splits)
  ultimately show ?thesis using sv lj ls unfolding linked_in_def by blast
qed

lemma make_room_keeps:
  assumes "linked s"
  shows "survives s (snd (make_room s)) \<and> linked (snd (make_room s))
    \<and> (fst (make_room s) \<longrightarrow> length (submissions (snd (make_room s))) < MAX_DEPLOYMENT_RECORDS)
    \<and> (\<not> fst (make_room s) \<longrightarrow> snd (make_room s) = s \<and> evict_one s = None
         \<and> length (submissions s) = MAX_DEPLOYMENT_RECORDS)"
proof (cases "length (submissions s) \<ge> MAX_DEPLOYMENT_RECORDS")
  case True
  with assms have len: "length (submissions s) = MAX_DEPLOYMENT_RECORDS" by (simp add: linked_in_def)
  show ?thesis
  proof (cases "evict_one s")
    case None
    with True len assms show ?thesis by (simp add: make_room.simps [of s] survives_refl)
  next
    case (Some s')
    note k = evict_one_keeps [OF assms Some]
    have "make_room s' = (True, s')" using k len by (simp add: make_room.simps [of s'])
    with Some True k len show ?thesis by (simp add: make_room.simps [of s])
  qed
qed (use assms in \<open>simp add: make_room.simps [of s] survives_refl\<close>)

lemma linked_put_submission:
  assumes "linked s"
    and "map_of (submissions s) rid = None \<Longrightarrow> length (submissions s) < MAX_DEPLOYMENT_RECORDS"
    and "\<And>did. sub_status x' = Accepted did \<Longrightarrow>
      \<exists>x. map_of (submissions s) rid = Some x \<and> sub_status x = Accepted did"
    and "\<And>x did. map_of (submissions s) rid = Some x \<Longrightarrow> sub_status x = Accepted did \<Longrightarrow>
      sub_status x' = Accepted did \<and> (sub_acknowledged x \<longrightarrow> sub_acknowledged x')"
  shows "linked (put_submission rid x' s)"
proof -
  let ?s = "put_submission rid x' s"
  have "length (submissions ?s) \<le> MAX_DEPLOYMENT_RECORDS"
    using assms(1,2) by (cases "map_of (submissions s) rid")
      (auto simp: linked_in_def length_alist_update)
  moreover have "job_linked ?s did r" if "map_of (jobs s) did = Some r" for did r
    using linked_job [OF assms(1) that] assms(4) by (auto simp: job_linked_in_def)
  moreover have "\<exists>r. map_of (jobs s) did = Some r \<and> request_id r = i"
    if "map_of (submissions ?s) i = Some y" "sub_status y = Accepted did" for i y did
  proof (cases "i = rid")
    case True
    with that assms(3) obtain x where "map_of (submissions s) rid = Some x" "sub_status x = Accepted did"
      by auto
    with True linked_accepted [OF assms(1)] show ?thesis by blast
  next
    case False
    with that linked_accepted [OF assms(1)] show ?thesis by simp
  qed
  ultimately show ?thesis
    using assms(1) unfolding linked_in_def by (auto simp: alist_distinct_update)
qed

text \<open>
  \<open>reserve_submission\<close>: an error changes nothing at all, and a success evicts at most records that
  nobody needs and adds exactly one pending submission.
\<close>

lemma reserve_submission_effect:
  assumes "linked s"
  obtains (Refused) e where "fst (reserve_submission rid did fp s) = Inl e"
      "snd (reserve_submission rid did fp s) = s"
    | (Admitted) u x where "fst (reserve_submission rid did fp s) = Inr ()"
      "snd (reserve_submission rid did fp s) = put_submission rid x u"
      "survives s u" "linked u" "map_of (submissions s) rid = None" "map_of (submissions u) rid = None"
      "length (submissions u) < MAX_DEPLOYMENT_RECORDS"
      "sub_status x = Pending" "sub_identity x = \<lparr>deployment_id = did, plan = fp\<rparr>"
      "\<not> sub_acknowledged x"
proof (cases "map_of (submissions s) rid")
  case None
  obtain b u where b: "make_room s = (b, u)" by (cases "make_room s")
  note k = make_room_keeps [OF assms, unfolded b fst_conv snd_conv]
  show thesis
  proof (cases b)
    case True
    let ?u = "u\<lparr>next_sequence := saturating_add (next_sequence u) 1\<rparr>"
    let ?x = "\<lparr>sub_identity = \<lparr>deployment_id = did, plan = fp\<rparr>, sub_status = Pending,
      sub_acknowledged = False, sub_sequence = saturating_add (next_sequence u) 1\<rparr>"
    have u: "survives s u" "linked u" "length (submissions u) < MAX_DEPLOYMENT_RECORDS"
      using k True by blast+
    then have "map_of (submissions u) rid = None" using survives_absent None by blast
    moreover have "survives s ?u" "linked ?u" "length (submissions ?u) < MAX_DEPLOYMENT_RECORDS"
      using u by simp_all
    moreover have "reserve_submission rid did fp s = (Inr (), put_submission rid ?x ?u)"
      using None b True by (simp add: reserve_submission_def take_sequence_def Let_def)
    ultimately show thesis
      using None by (intro Admitted [of ?x ?u]) simp_all
  next
    case False
    with k have "u = s" by blast
    with b False None show thesis by (intro Refused) (simp_all add: reserve_submission_def)
  qed
qed (auto intro: Refused simp: reserve_submission_def)

lemma linked_pending_room:
  assumes "linked s" and "map_of (submissions s) rid = Some x" and "\<forall>did. sub_status x \<noteq> Accepted did"
  shows "length (jobs s) < length (submissions s)"
proof -
  let ?f = "\<lambda>did. request_id (the (map_of (jobs s) did))"
  have inj: "inj_on ?f (dom (map_of (jobs s)))"
  proof (rule inj_onI)
    fix d e
    assume d: "d \<in> dom (map_of (jobs s))" "e \<in> dom (map_of (jobs s))" "?f d = ?f e"
    from d(1) obtain q where q: "map_of (jobs s) d = Some q" by blast
    from d(2) obtain r where r: "map_of (jobs s) e = Some r" by blast
    from d(3) q r have "request_id q = request_id r" by simp
    with linked_job [OF assms(1) q] linked_job [OF assms(1) r] show "d = e"
      unfolding job_linked_in_def by (metis DeploymentSubmissionStatus.inject(1) option.inject)
  qed
  have "?f ` dom (map_of (jobs s)) \<subseteq> dom (map_of (submissions s)) - {rid}"
  proof
    fix i
    assume "i \<in> ?f ` dom (map_of (jobs s))"
    then obtain d r where r: "map_of (jobs s) d = Some r" "i = request_id r" by auto
    with linked_job [OF assms(1)] obtain y where "map_of (submissions s) i = Some y" "sub_status y = Accepted d"
      by (auto simp: job_linked_in_def)
    with assms(2,3) show "i \<in> dom (map_of (submissions s)) - {rid}" by auto
  qed
  then have "card (dom (map_of (jobs s))) \<le> card (dom (map_of (submissions s)) - {rid})"
    using inj by (metis card_image card_mono finite_Diff finite_dom_map_of)
  also have "\<dots> < card (dom (map_of (submissions s)))"
    using assms(2) by (intro psubset_card_mono) (auto simp: finite_dom_map_of)
  finally show ?thesis
    using assms(1) by (simp add: linked_in_def dom_map_of_conv_image_fst distinct_card flip: set_map)
qed

text \<open>
  \<open>register\<close> on a pending submission: it fails without changing anything because the deployment is
  already there or a resource is busy, or it adds exactly one running job that holds its claims.
\<close>

lemma register_effect:
  assumes "linked s" and "map_of (submissions s) rid = Some x" and "sub_status x = Pending"
    and "deployment_id (sub_identity x) = did"
  obtains (Exists) "map_of (jobs s) did \<noteq> None"
      "register esc rid did cs token s = (Inl (DeploymentAlreadyExists did), s)"
    | (Busy) key where "map_of (jobs s) did = None"
      "reserve esc cs (operations s) = Inl (ResourceConflict key)"
      "register esc rid did cs token s = (Inl (ResourceBusy key), s)"
    | (Registered) guard ops n where "map_of (jobs s) did = None"
      "reserve esc cs (operations s) = Inr (guard, ops)"
      "register esc rid did cs token s = (Inr (),
         s\<lparr>operations := ops, next_sequence := n,
           jobs := AList.update did
             \<lparr>request_id = rid, revision = 1, status = StatusRunning, claim = Held,
              cancellation = token, cancellation_requested = False, reservation = Some guard,
              acknowledged = False, stream_leases = 0, sequence = n\<rparr> (jobs s),
           submissions := AList.update rid (x\<lparr>sub_status := Accepted did, sub_sequence := n\<rparr>)
             (submissions s)\<rparr>)"
proof -
  have "length (jobs s) < length (submissions s)"
    using assms(1,2) by (rule linked_pending_room) (simp add: assms(3))
  with assms(1) have room: "length (jobs s) < MAX_DEPLOYMENT_RECORDS" by (simp add: linked_in_def)
  show thesis
  proof (cases "map_of (jobs s) did")
    case None
    show thesis
    proof (cases "reserve esc cs (operations s)")
      case (Inl e)
      obtain key where "e = ResourceConflict key" by (cases e)
      with Inl None room assms(2-4) show thesis by (intro Busy) (simp_all add: register_def)
    next
      case (Inr p)
      obtain guard ops where "p = (guard, ops)" by (cases p)
      with Inr None room assms(2-4) show thesis
        by (intro Registered) (simp_all add: register_def take_sequence_def Let_def)
    qed
  qed (use room assms(2-4) Exists in \<open>simp add: register_def\<close>)
qed

section \<open>Histories of the daemon\<close>

text \<open>
  The server's state with the tasks around it: submit tasks that reserved a submission and have not
  yet registered or rejected it (\<open>flights\<close>), those that registered a job and are about to open its
  stream (\<open>starting\<close>), the executors (\<open>executing\<close>), the stream forwarders with their leases
  (\<open>forwarding\<close>), and the reservations that other requests hold (\<open>others\<close>).
\<close>

record daemon =
  server :: DaemonServerState
  flights :: "(DeploymentRequestId \<times> DeploymentId) set"
  starting :: "DeploymentId set"
  executing :: "DeploymentId set"
  forwarding :: "DeploymentId set"
  others :: "ResourceReservation set"

definition daemon_start :: daemon where
  "daemon_start =
     \<lparr>server = \<lparr>jobs = [], submissions = [], next_sequence = 0, operations = registry_new,
                cancelled = []\<rparr>,
      flights = {}, starting = {}, executing = {}, forwarding = {}, others = {}\<rparr>"

text \<open>
  One step is one critical section: the tasks of \<open>submit\<close> in its order, the RPC handlers of
  \<open>src/daemon/jobs/mod.rs\<close> with any argument, and the rest of the daemon on the operation registry.
\<close>

inductive daemon_step :: "(string \<Rightarrow> string) \<Rightarrow> daemon \<Rightarrow> daemon \<Rightarrow> bool"
  for esc :: "string \<Rightarrow> string" where
  Submit: "reserve_submission rid did fp (server d) = (Inr (), s) \<Longrightarrow>
    daemon_step esc d (d\<lparr>server := s, flights := insert (rid, did) (flights d)\<rparr>)"
| SubmitRefused: "reserve_submission rid did fp (server d) = (Inl e, s) \<Longrightarrow>
    daemon_step esc d (d\<lparr>server := s\<rparr>)"
| Reject: "(rid, did) \<in> flights d \<Longrightarrow>
    daemon_step esc d (d\<lparr>server := reject_submission rid message (server d),
      flights := flights d - {(rid, did)}\<rparr>)"
| Register: "(rid, did) \<in> flights d \<Longrightarrow> id_available (operations (server d)) \<Longrightarrow>
    register esc rid did cs token (server d) = (Inr (), s) \<Longrightarrow>
    daemon_step esc d (d\<lparr>server := s, flights := flights d - {(rid, did)},
      starting := insert did (starting d)\<rparr>)"
| RegisterRefused: "(rid, did) \<in> flights d \<Longrightarrow>
    register esc rid did cs token (server d) = (Inl e, s) \<Longrightarrow>
    daemon_step esc d (d\<lparr>server := s\<rparr>)"
| Stream: "did \<in> starting d \<Longrightarrow> register_stream did (server d) = (Inr (), s) \<Longrightarrow>
    daemon_step esc d (d\<lparr>server := s, starting := starting d - {did},
      executing := insert did (executing d), forwarding := insert did (forwarding d)\<rparr>)"
| StreamRefused: "did \<in> starting d \<Longrightarrow> register_stream did (server d) = (Inl e, s) \<Longrightarrow>
    daemon_step esc d (d\<lparr>server := snd (cancel did s), starting := starting d - {did}\<rparr>)"
| Observe: "did \<in> forwarding d \<Longrightarrow>
    daemon_step esc d (d\<lparr>server := snd (observe_status did st (server d))\<rparr>)"
| StreamEnd: "did \<in> forwarding d \<Longrightarrow>
    daemon_step esc d (d\<lparr>server := release_stream did (server d), forwarding := forwarding d - {did}\<rparr>)"
| Finish: "did \<in> executing d \<Longrightarrow> run_deployment_executor outcome = t \<Longrightarrow>
    daemon_step esc d (d\<lparr>server := snd (finalize did (term_status t) (term_claim_status t) (server d)),
      executing := executing d - {did}\<rparr>)"
| AckSubmission: "daemon_step esc d (d\<lparr>server := snd (acknowledge_submission rid (server d))\<rparr>)"
| Cancel: "daemon_step esc d (d\<lparr>server := snd (cancel did (server d))\<rparr>)"
| Ack: "daemon_step esc d (d\<lparr>server := snd (acknowledge did (server d))\<rparr>)"
| Release: "daemon_step esc d (d\<lparr>server := snd (release_unresolved did confirmed (server d))\<rparr>)"
| Reconcile: "daemon_step esc d (d\<lparr>server := snd (reconcile did present (server d))\<rparr>)"
| CancelAll: "daemon_step esc d (d\<lparr>server := cancel_all (server d)\<rparr>)"
| OtherReserve: "id_available (operations (server d)) \<Longrightarrow>
    reserve_inner esc cs removal (operations (server d)) = Inr (r, ops) \<Longrightarrow>
    daemon_step esc d (d\<lparr>server := (server d)\<lparr>operations := ops\<rparr>, others := insert r (others d)\<rparr>)"
| OtherDrop: "r \<in> others d \<Longrightarrow>
    daemon_step esc d (d\<lparr>server := (server d)\<lparr>operations := drop_reservation r (operations (server d))\<rparr>,
      others := others d - {r}\<rparr>)"

inductive daemon_run :: "(string \<Rightarrow> string) \<Rightarrow> daemon \<Rightarrow> bool" for esc :: "string \<Rightarrow> string" where
  Begin: "daemon_run esc daemon_start"
| Step: "daemon_run esc d \<Longrightarrow> daemon_step esc d d' \<Longrightarrow> daemon_run esc d'"

definition pending_flights_in ::
  "(DeploymentRequestId \<times> DeploymentSubmissionRecord) list \<Rightarrow> (DeploymentRequestId \<times> DeploymentId) set" where
  "pending_flights_in ss = {(rid, did). \<exists>x. map_of ss rid = Some x \<and> sub_status x = Pending
     \<and> deployment_id (sub_identity x) = did}"

abbreviation pending_flights :: "DaemonServerState \<Rightarrow> (DeploymentRequestId \<times> DeploymentId) set" where
  "pending_flights s \<equiv> pending_flights_in (submissions s)"

definition unfinished_jobs_in :: "(DeploymentId \<times> DeploymentRecord) list \<Rightarrow> DeploymentId set" where
  "unfinished_jobs_in js = {did. \<exists>r. map_of js did = Some r \<and> \<not> is_finished (status r)}"

abbreviation unfinished_jobs :: "DaemonServerState \<Rightarrow> DeploymentId set" where
  "unfinished_jobs s \<equiv> unfinished_jobs_in (jobs s)"

definition leased_in :: "(DeploymentId \<times> DeploymentRecord) list \<Rightarrow> DeploymentId \<Rightarrow> u64" where
  "leased_in js did = (case map_of js did of None \<Rightarrow> 0 | Some r \<Rightarrow> stream_leases r)"

abbreviation leased :: "DaemonServerState \<Rightarrow> DeploymentId \<Rightarrow> u64" where
  "leased s \<equiv> leased_in (jobs s)"

definition daemon_inv :: "daemon \<Rightarrow> bool" where
  "daemon_inv d \<longleftrightarrow>
     linked (server d)
     \<and> claims_ok (operations (server d)) (guards (server d)) (others d)
     \<and> flights d = pending_flights (server d)
     \<and> unfinished_jobs (server d) = starting d \<union> executing d
     \<and> starting d \<inter> executing d = {}
     \<and> starting d \<inter> forwarding d = {}
     \<and> (\<forall>did. leased (server d) did = (if did \<in> forwarding d then 1 else 0))"

lemma views_quiet:
  assumes "quiet s s'"
  shows "pending_flights s' = pending_flights s" "unfinished_jobs s' = unfinished_jobs s"
    "leased s' = leased s" "operations s' = operations s"
  using assms by (simp_all add: quiet_def pending_flights_in_def unfinished_jobs_in_def leased_in_def fun_eq_iff)

lemma views_job_update:
  assumes "job_update did r r' s s'"
  shows "pending_flights s' = pending_flights s"
    "unfinished_jobs s' = (if is_finished (status r') then unfinished_jobs s - {did}
      else insert did (unfinished_jobs s))"
    "leased s' = (leased s)(did := stream_leases r')"
    "leased s did = stream_leases r" "did \<in> unfinished_jobs s \<longleftrightarrow> \<not> is_finished (status r)"
  using assms
  by (auto simp: job_update_def pending_flights_in_def unfinished_jobs_in_def leased_in_def fun_eq_iff
      split: option.splits if_splits)

lemma views_same_activity:
  assumes "job_update did r r' s s'" and "same_activity r r'"
  shows "unfinished_jobs s' = unfinished_jobs s" "leased s' = leased s"
  using views_job_update [OF assms(1)] assms(2) by (auto simp: same_activity_def)

lemma inv_quiet: "daemon_inv d \<Longrightarrow> quiet (server d) s \<Longrightarrow> daemon_inv (d\<lparr>server := s\<rparr>)"
  by (simp add: daemon_inv_def views_quiet guards_quiet linked_quiet)

lemma inv_client:
  assumes "daemon_inv d"
    and "quiet (server d) s \<or> (\<exists>r r'. job_update did r r' (server d) s \<and> same_activity r r' \<and> X r')"
  shows "daemon_inv (d\<lparr>server := s\<rparr>)"
  using assms(2)
proof (elim disjE exE conjE)
  fix r r'
  assume u: "job_update did r r' (server d) s" "same_activity r r'"
  with assms(1) show ?thesis
    by (simp add: daemon_inv_def linked_job_update [OF u(1)] claims_job_update [OF u(1)]
        views_job_update(1) [OF u(1)] views_same_activity [OF u])
qed (use assms(1) in \<open>rule inv_quiet\<close>)

lemma executor_terminal_ok:
  "run_deployment_executor outcome = t \<Longrightarrow>
   \<exists>c. terminal_claim_state (term_status t) (term_claim_status t) = Inr c"
  by (cases outcome) (auto simp: terminal_claim_state_def Let_def simp del: and_then_eq_Inr)

lemma inv_finish:
  assumes "daemon_inv d" and "did \<in> executing d" and "run_deployment_executor outcome = t"
  shows "daemon_inv (d\<lparr>server := snd (finalize did (term_status t) (term_claim_status t) (server d)),
    executing := executing d - {did}\<rparr>)"
proof -
  from assms(1,2) have "did \<in> unfinished_jobs (server d)" by (simp add: daemon_inv_def)
  then obtain r where r: "map_of (jobs (server d)) did = Some r" "\<not> is_finished (status r)"
    by (auto simp: unfinished_jobs_in_def)
  from executor_terminal_ok [OF assms(3)] obtain c
    where c: "terminal_claim_state (term_status t) (term_claim_status t) = Inr c" by blast
  obtain r' where u: "job_update did r r' (server d)
      (snd (finalize did (term_status t) (term_claim_status t) (server d)))"
    and st: "is_finished (status r')" "stream_leases r' = stream_leases r"
    using finalize_done [OF r c] by metis
  note v = views_job_update [OF u]
  have "leased (snd (finalize did (term_status t) (term_claim_status t) (server d))) = leased (server d)"
    using v(3,4) st(2) by auto
  moreover have "did \<notin> starting d" using assms(1,2) by (auto simp: daemon_inv_def)
  ultimately show ?thesis
    using assms(1) st(1) v(1,2)
    by (auto simp: daemon_inv_def linked_job_update [OF u] claims_job_update [OF u])
qed

lemma register_stream_update:
  assumes "map_of (jobs s) did = Some r"
  shows "job_update did r (r\<lparr>stream_leases := saturating_add (stream_leases r) 1\<rparr>) s
    (snd (register_stream did s))" and "fst (register_stream did s) = Inr ()"
  using assms by (auto simp: register_stream_def method_simps)

lemma release_stream_update:
  assumes "map_of (jobs s) did = Some r"
  shows "job_update did r (r\<lparr>stream_leases := saturating_sub (stream_leases r) 1\<rparr>) s
    (release_stream did s)"
  using assms by (auto simp: release_stream_def method_simps)

lemma inv_starting:
  assumes "daemon_inv d" and "did \<in> starting d"
  obtains r where "map_of (jobs (server d)) did = Some r" "\<not> is_finished (status r)"
    "stream_leases r = 0" "did \<notin> executing d" "did \<notin> forwarding d"
proof -
  from assms have "did \<in> unfinished_jobs (server d)" by (simp add: daemon_inv_def)
  then obtain r where r: "map_of (jobs (server d)) did = Some r" "\<not> is_finished (status r)"
    by (auto simp: unfinished_jobs_in_def)
  moreover have n: "did \<notin> executing d" "did \<notin> forwarding d"
    using assms by (auto simp: daemon_inv_def)
  moreover have "leased (server d) did = 0" using assms(1) n(2) by (simp add: daemon_inv_def)
  ultimately show thesis using that by (simp add: leased_in_def)
qed

lemma inv_stream:
  assumes "daemon_inv d" and "did \<in> starting d"
  shows "daemon_inv (d\<lparr>server := snd (register_stream did (server d)), starting := starting d - {did},
    executing := insert did (executing d), forwarding := insert did (forwarding d)\<rparr>)"
proof -
  obtain r where r: "map_of (jobs (server d)) did = Some r" "\<not> is_finished (status r)"
    "stream_leases r = 0" "did \<notin> executing d" "did \<notin> forwarding d"
    using assms by (rule inv_starting)
  note u = register_stream_update(1) [OF r(1)]
  have "saturating_add (0 :: u64) 1 = 1" by (simp add: saturating_add_def)
  then show ?thesis
    using assms r views_job_update [OF u]
    by (auto simp: daemon_inv_def linked_job_update [OF u] claims_job_update [OF u])
qed

lemma inv_stream_end:
  assumes "daemon_inv d" and "did \<in> forwarding d"
  shows "daemon_inv (d\<lparr>server := release_stream did (server d), forwarding := forwarding d - {did}\<rparr>)"
proof -
  have l: "leased (server d) did = 1" using assms by (simp add: daemon_inv_def)
  then obtain r where r: "map_of (jobs (server d)) did = Some r" "stream_leases r = 1"
    by (auto simp: leased_in_def split: option.splits)
  note u = release_stream_update [OF r(1)]
  have "unfinished_jobs (release_stream did (server d)) = unfinished_jobs (server d)"
    using views_job_update(2,5) [OF u] by auto
  moreover have "saturating_sub 1 1 = 0" by (simp add: saturating_sub_def)
  ultimately show ?thesis
    using assms r views_job_update(1,3) [OF u]
    by (auto simp: daemon_inv_def linked_job_update [OF u] claims_job_update [OF u])
qed

lemma pending_put_submission:
  "pending_flights_in (AList.update rid x ss) = {p \<in> pending_flights_in ss. fst p \<noteq> rid} \<union>
     (if sub_status x = Pending then {(rid, deployment_id (sub_identity x))} else {})"
  by (auto simp: pending_flights_in_def split: if_splits)

lemma survives_jobs:
  assumes "survives s s'" and "linked s"
  shows "map_of (jobs s') did = map_of (jobs s) did \<or>
    map_of (jobs s') did = None \<and> (\<exists>r. map_of (jobs s) did = Some r \<and> evictable_job r
      \<and> is_finished (status r) \<and> reservation r = None \<and> stream_leases r = 0)"
proof (cases "map_of (jobs s) did")
  case None
  then show ?thesis using assms(1) unfolding survives_def by (metis option.exhaust)
next
  case (Some r)
  show ?thesis
  proof (cases "evictable_job r")
    case True
    with evictable_job_finished linked_record_ok [OF assms(2) Some]
    have "is_finished (status r)" "reservation r = None" by blast+
    moreover have "stream_leases r = 0" using True by (simp add: evictable_job_def)
    moreover have "map_of (jobs s') did = None \<or> map_of (jobs s') did = Some r"
      using assms(1) Some unfolding survives_def by (metis option.exhaust option.inject)
    ultimately show ?thesis using Some True by auto
  next
    case False
    with assms(1) Some have "map_of (jobs s') did = Some r" unfolding survives_def by blast
    with Some show ?thesis by simp
  qed
qed

lemma views_survives:
  assumes "survives s s'" and "linked s"
  shows "guards s' = guards s" "unfinished_jobs s' = unfinished_jobs s" "leased s' = leased s"
    "pending_flights s' = pending_flights s" "operations s' = operations s"
proof -
  note j = survives_jobs [OF assms]
  show "guards s' = guards s"
  proof
    fix did
    show "guards s' did = guards s did" using j [of did] by (auto simp: guards_in_def)
  qed
  show "leased s' = leased s"
  proof
    fix did
    show "leased s' did = leased s did" using j [of did] by (auto simp: leased_in_def)
  qed
  have "did \<in> unfinished_jobs s' \<longleftrightarrow> did \<in> unfinished_jobs s" for did
    using j [of did] by (cases "map_of (jobs s) did") (auto simp: unfinished_jobs_in_def)
  then show "unfinished_jobs s' = unfinished_jobs s" by blast
  have "\<not> evictable s x" if "sub_status x = Pending" for x
    using that by (simp add: evictable_def)
  then show "pending_flights s' = pending_flights s"
    using assms(1) unfolding pending_flights_in_def survives_def by blast
  show "operations s' = operations s" using assms(1) by (simp add: survives_def)
qed

lemma inv_submit:
  assumes "daemon_inv d" and "reserve_submission rid did fp (server d) = (Inr (), s)"
  shows "daemon_inv (d\<lparr>server := s, flights := insert (rid, did) (flights d)\<rparr>)"
proof -
  from assms(1) have l: "linked (server d)" by (simp add: daemon_inv_def)
  then show ?thesis
  proof (cases rule: reserve_submission_effect [where rid = rid and did = did and fp = fp])
    case (Admitted u x)
    note v = views_survives [OF Admitted(3) l]
    have "linked (put_submission rid x u)"
      using Admitted(4,6-8) by (intro linked_put_submission) auto
    moreover have "{p \<in> pending_flights u. fst p \<noteq> rid} = pending_flights u"
      using Admitted(6) by (auto simp: pending_flights_in_def)
    ultimately show ?thesis
      using assms Admitted(2,8,9) v by (simp add: daemon_inv_def pending_put_submission)
  qed (use assms(2) in simp)
qed

lemma inv_flight:
  assumes "daemon_inv d" and "(rid, did) \<in> flights d"
  obtains x where "map_of (submissions (server d)) rid = Some x" "sub_status x = Pending"
    "deployment_id (sub_identity x) = did"
  using assms by (auto simp: daemon_inv_def pending_flights_in_def)

lemma flight_removed:
  assumes "map_of (submissions s) rid = Some x" and "deployment_id (sub_identity x) = did"
  shows "{p \<in> pending_flights s. fst p \<noteq> rid} = pending_flights s - {(rid, did)}"
  using assms by (auto simp: pending_flights_in_def)

lemma inv_reject:
  assumes "daemon_inv d" and "(rid, did) \<in> flights d"
  shows "daemon_inv (d\<lparr>server := reject_submission rid message (server d),
    flights := flights d - {(rid, did)}\<rparr>)"
proof -
  obtain x where x: "map_of (submissions (server d)) rid = Some x" "sub_status x = Pending"
    "deployment_id (sub_identity x) = did" using assms by (rule inv_flight)
  let ?n = "saturating_add (next_sequence (server d)) 1"
  let ?x = "x\<lparr>sub_status := Rejected message, sub_sequence := ?n\<rparr>"
  have eq: "reject_submission rid message (server d) =
    put_submission rid ?x ((server d)\<lparr>next_sequence := ?n\<rparr>)"
    using x(1) by (simp add: reject_submission_def take_sequence_def Let_def)
  have "linked (put_submission rid ?x ((server d)\<lparr>next_sequence := ?n\<rparr>))"
    using assms(1) x by (intro linked_put_submission) (auto simp: daemon_inv_def)
  then show ?thesis
    unfolding eq using assms(1) flight_removed [OF x(1,3)]
    by (simp add: daemon_inv_def pending_put_submission)
qed

lemma linked_register:
  assumes "linked_in js ss" and "map_of ss rid = Some x" and "sub_status x = Pending"
    and "map_of js did = None" and "record_ok r" and "request_id r = rid" and "\<not> acknowledged r"
    and "sub_status x' = Accepted did"
  shows "linked_in (AList.update did r js) (AList.update rid x' ss)"
proof -
  have old: "job_linked_in (AList.update rid x' ss) e q" if "map_of js e = Some q" for e q
  proof -
    have "job_linked_in ss e q" using assms(1) that by (simp add: linked_in_def)
    moreover from this have "request_id q \<noteq> rid" using assms(2,3) by (auto simp: job_linked_in_def)
    ultimately show ?thesis by (simp add: job_linked_in_def)
  qed
  have "job_linked_in (AList.update rid x' ss) did r"
    using assms(5-8) by (simp add: job_linked_in_def)
  moreover have "\<exists>q. map_of (AList.update did r js) e = Some q \<and> request_id q = i"
    if "map_of (AList.update rid x' ss) i = Some y" "sub_status y = Accepted e" for i y e
  proof (cases "i = rid")
    case True
    with that assms(6,8) show ?thesis by simp
  next
    case False
    with that assms(1) obtain q where "map_of js e = Some q" "request_id q = i"
      unfolding linked_in_def by (metis fun_upd_other map_of_alist_update)
    with assms(4) show ?thesis by auto
  qed
  moreover have "length (AList.update rid x' ss) \<le> MAX_DEPLOYMENT_RECORDS"
    using assms(1,2) by (simp add: linked_in_def length_alist_update)
  ultimately show ?thesis
    using assms(1) old unfolding linked_in_def by (auto simp: alist_distinct_update split: if_splits)
qed

lemma inv_register:
  assumes "daemon_inv d" and "(rid, did) \<in> flights d" and "id_available (operations (server d))"
    and "register esc rid did cs token (server d) = (Inr (), s)"
  shows "daemon_inv (d\<lparr>server := s, flights := flights d - {(rid, did)},
    starting := insert did (starting d)\<rparr>)"
proof -
  obtain x where x: "map_of (submissions (server d)) rid = Some x" "sub_status x = Pending"
    "deployment_id (sub_identity x) = did" using assms(1,2) by (rule inv_flight)
  from assms(1) have l: "linked (server d)"
    and c: "claims_ok (operations (server d)) (guards (server d)) (others d)"
    and f: "flights d = pending_flights (server d)"
    by (simp_all add: daemon_inv_def)
  from l x show ?thesis
  proof (cases rule: register_effect [where esc = esc and cs = cs and token = token])
    case (Registered guard ops n)
    let ?r = "\<lparr>request_id = rid, revision = 1, status = StatusRunning, claim = Held,
      cancellation = token, cancellation_requested = False, reservation = Some guard,
      acknowledged = False, stream_leases = 0, sequence = n\<rparr> :: DeploymentRecord"
    let ?x = "x\<lparr>sub_status := Accepted did, sub_sequence := n\<rparr>"
    from Registered(3) assms(4) have s: "jobs s = AList.update did ?r (jobs (server d))"
      "submissions s = AList.update rid ?x (submissions (server d))" "operations s = ops" by auto
    have "linked s"
      unfolding s using l x(1,2) Registered(1)
      by (intro linked_register) (auto simp: record_ok_def retains_claim_def)
    moreover have g: "guards (server d) did = None" "leased (server d) did = 0"
      using Registered(1) by (simp_all add: guards_in_def leased_in_def)
    moreover have "guards s = (guards (server d))(did \<mapsto> guard)"
      by (auto simp: s guards_in_def fun_eq_iff)
    then have "claims_ok (operations s) (guards s) (others d)"
      using claims_admit_guard [OF c assms(3) g(1) Registered(2)] by (simp add: s)
    moreover have "pending_flights s = flights d - {(rid, did)}"
      using flight_removed [OF x(1,3)] by (simp add: f s pending_put_submission)
    moreover have "unfinished_jobs s = insert did (unfinished_jobs (server d))"
      by (auto simp: s unfinished_jobs_in_def)
    moreover have "leased s = leased (server d)"
      using g(2) by (auto simp: s leased_in_def fun_eq_iff)
    moreover have "did \<notin> unfinished_jobs (server d)"
      using Registered(1) by (simp add: unfinished_jobs_in_def)
    moreover have "did \<notin> forwarding d"
      using assms(1) g(2) unfolding daemon_inv_def by (metis zero_neq_one)
    ultimately show ?thesis using assms(1) by (auto simp: daemon_inv_def)
  qed (use assms(4) in simp_all)
qed

lemma inv_ack_submission:
  assumes "daemon_inv d"
  shows "daemon_inv (d\<lparr>server := snd (acknowledge_submission rid (server d))\<rparr>)"
proof (cases "\<exists>x. map_of (submissions (server d)) rid = Some x \<and> sub_status x \<noteq> Pending")
  case True
  then obtain x where x: "map_of (submissions (server d)) rid = Some x" "sub_status x \<noteq> Pending" by blast
  let ?s = "(server d)\<lparr>next_sequence := saturating_add (next_sequence (server d)) 1\<rparr>"
  let ?x = "x\<lparr>sub_acknowledged := True, sub_sequence := saturating_add (next_sequence (server d)) 1\<rparr>"
  have eq: "snd (acknowledge_submission rid (server d)) = put_submission rid ?x ?s"
    using x by (simp add: acknowledge_submission_def take_sequence_def Let_def)
  have "linked (put_submission rid ?x ?s)"
    using assms x by (intro linked_put_submission) (auto simp: daemon_inv_def)
  moreover have "{p \<in> pending_flights (server d). fst p \<noteq> rid} = pending_flights (server d)"
    using x by (auto simp: pending_flights_in_def)
  ultimately show ?thesis
    unfolding eq using assms x(2) by (simp add: daemon_inv_def pending_put_submission)
next
  case False
  then have "quiet (server d) (snd (acknowledge_submission rid (server d)))"
    by (auto simp: acknowledge_submission_def method_simps split: option.splits)
  with assms show ?thesis by (rule inv_quiet)
qed

lemma cancel_all_frame:
  "quiet s (cancel_all s)" "set (cancelled (cancel_all s)) = set (cancelled s) \<union> (cancellation \<circ> snd) ` set (jobs s)"
proof -
  have "quiet s (foldl (\<lambda>s c. cancellation_request c s) s cs)
    \<and> set (cancelled (foldl (\<lambda>s c. cancellation_request c s) s cs)) = set (cancelled s) \<union> set cs" for cs
    by (induction cs arbitrary: s) (auto simp: cancellation_request_def quiet_def)
  from this [of "map (cancellation \<circ> snd) (jobs s)"] show "quiet s (cancel_all s)"
    "set (cancelled (cancel_all s)) = set (cancelled s) \<union> (cancellation \<circ> snd) ` set (jobs s)"
    by (simp_all add: cancel_all_def image_comp)
qed

lemma daemon_inv_start: "daemon_inv daemon_start"
proof -
  have "claims_ok registry_new (\<lambda>_. None) {}"
    unfolding claims_ok_def using registry_inv_new by (intro exI [of _ "[]"]) auto
  moreover have "guards_in [] = (\<lambda>_. None)" by (simp add: guards_in_def fun_eq_iff)
  ultimately show ?thesis
    by (simp add: daemon_inv_def daemon_start_def linked_in_def leased_in_def
        pending_flights_in_def unfinished_jobs_in_def)
qed

lemma register_refused:
  assumes "daemon_inv d" and "(rid, did) \<in> flights d"
    and "register esc rid did cs token (server d) = (Inl e, s)"
  shows "s = server d \<and> (e = DeploymentAlreadyExists did \<or> (\<exists>key. e = ResourceBusy key))"
proof -
  obtain x where x: "map_of (submissions (server d)) rid = Some x" "sub_status x = Pending"
    "deployment_id (sub_identity x) = did" using assms(1,2) by (rule inv_flight)
  from assms(1) have l: "linked (server d)" by (simp add: daemon_inv_def)
  show ?thesis
    by (cases rule: register_effect [OF l x, where esc = esc and cs = cs and token = token])
      (use assms(3) in auto)
qed

lemma stream_not_refused:
  assumes "daemon_inv d" and "did \<in> starting d"
  shows "fst (register_stream did (server d)) = Inr ()"
proof -
  from assms obtain r where "map_of (jobs (server d)) did = Some r" by (rule inv_starting)
  then show ?thesis by (rule register_stream_update(2))
qed

lemma daemon_step_inv:
  assumes "daemon_step esc d d'" and "daemon_inv d"
  shows "daemon_inv d'"
  using assms
proof (induction rule: daemon_step.induct)
  case (SubmitRefused rid did fp d e s)
  from SubmitRefused(2) have l: "linked (server d)" by (simp add: daemon_inv_def)
  have "s = server d"
    by (cases rule: reserve_submission_effect [OF l, where rid = rid and did = did and fp = fp])
      (use SubmitRefused(1) in auto)
  with SubmitRefused(2) show ?case by simp
next
  case (RegisterRefused rid did d cs token e s)
  then have "s = server d" using register_refused by blast
  with RegisterRefused(3) show ?case by simp
next
  case (Stream did d s)
  with inv_stream [of d did] show ?case by simp
next
  case (OtherReserve d cs removal r ops)
  then have "claims_ok ops (guards (server d)) (insert r (others d))"
    by (intro claims_admit_other) (auto simp: daemon_inv_def)
  with OtherReserve(3) show ?case by (simp add: daemon_inv_def)
next
  case (OtherDrop r d)
  then have "claims_ok (drop_reservation r (operations (server d))) (guards (server d)) (others d - {r})"
    by (intro claims_drop_other) (auto simp: daemon_inv_def)
  with OtherDrop(2) show ?case by (simp add: daemon_inv_def)
next
  case (CancelAll d)
  then show ?case by (intro inv_quiet cancel_all_frame)
qed (auto intro: inv_submit inv_reject inv_register inv_stream_end inv_finish inv_ack_submission
    intro!: inv_client [OF _ observe_status_effect] inv_client [OF _ cancel_effect]
      inv_client [OF _ release_unresolved_effect] inv_client [OF _ reconcile_effect]
      inv_client [OF _ acknowledge_effect]
    dest: stream_not_refused)

lemma daemon_run_inv: "daemon_run esc d \<Longrightarrow> daemon_inv d"
  by (induction rule: daemon_run.induct) (auto intro: daemon_inv_start daemon_step_inv)

section \<open>An example history\<close>

definition example_request_id :: DeploymentRequestId where
  "example_request_id = DeploymentRequestId 1"

definition example_deployment :: DeploymentId where
  "example_deployment = DeploymentId 7"

definition example_guard :: ResourceReservation where
  "example_guard = \<lparr>res_id = 1, res_keys = [NspawnKey ''web'']\<rparr>"

definition example_submission :: DeploymentSubmissionRecord where
  "example_submission =
     \<lparr>sub_identity = \<lparr>deployment_id = example_deployment, plan = PlanFingerprint ''ab''\<rparr>,
      sub_status = Pending, sub_acknowledged = False, sub_sequence = 1\<rparr>"

definition example_job :: DeploymentRecord where
  "example_job =
     \<lparr>request_id = example_request_id, revision = 1, status = StatusRunning, claim = Held,
      cancellation = DeploymentCancellation 0, cancellation_requested = False,
      reservation = Some example_guard, acknowledged = False, stream_leases = 0, sequence = 2\<rparr>"

text \<open>The server after the submission, after the registration and after the stream was opened.\<close>

definition example_submitted :: DaemonServerState where
  "example_submitted =
     \<lparr>jobs = [], submissions = [(example_request_id, example_submission)], next_sequence = 1,
      operations = registry_new, cancelled = []\<rparr>"

definition example_registered :: DaemonServerState where
  "example_registered =
     \<lparr>jobs = [(example_deployment, example_job)],
      submissions = [(example_request_id,
        example_submission\<lparr>sub_status := Accepted example_deployment, sub_sequence := 2\<rparr>)],
      next_sequence = 2,
      operations = \<lparr>next_id = 1, reg_claims = [(NspawnKey ''web'', [(Exclusive, 1)])],
        image_removals = []\<rparr>,
      cancelled = []\<rparr>"

definition example_running :: daemon where
  "example_running =
     daemon_start\<lparr>server := put_job example_deployment (example_job\<lparr>stream_leases := 1\<rparr>) example_registered,
       executing := {example_deployment}, forwarding := {example_deployment}\<rparr>"

lemmas example_defs = example_request_id_def example_deployment_def example_guard_def
  example_submission_def example_job_def example_submitted_def example_registered_def

lemma example_reserve:
  "reserve example_esc [claim_exclusive (NspawnKey ''web'')] registry_new =
     Inr (example_guard, operations example_registered)"
  by code_simp

lemma example_run_registered:
  "daemon_run example_esc (daemon_start\<lparr>server := example_registered, starting := {example_deployment}\<rparr>)"
proof -
  let ?d = "daemon_start\<lparr>server := example_submitted,
    flights := {(example_request_id, example_deployment)}\<rparr>"
  have "reserve_submission example_request_id example_deployment (PlanFingerprint ''ab'')
      (server daemon_start) = (Inr (), example_submitted)"
    by (simp add: reserve_submission_def daemon_start_def make_room.simps MAX_DEPLOYMENT_RECORDS_def
        take_sequence_def saturating_add_def example_defs)
  then have "daemon_step example_esc daemon_start ?d"
    using Submit [of example_request_id example_deployment _ daemon_start example_submitted example_esc]
    by (simp add: daemon_start_def)
  then have run: "daemon_run example_esc ?d" using Begin Step by blast
  have o: "operations example_submitted = registry_new" by (simp add: example_submitted_def)
  have "register example_esc example_request_id example_deployment [claim_exclusive (NspawnKey ''web'')]
      (DeploymentCancellation 0) example_submitted = (Inr (), example_registered)"
    using example_reserve
    by (simp add: register_def MAX_DEPLOYMENT_RECORDS_def take_sequence_def saturating_add_def Let_def
        example_defs)
  moreover have "id_available registry_new" by (simp add: id_available_def registry_new_def)
  ultimately have "daemon_step example_esc ?d
    (daemon_start\<lparr>server := example_registered, starting := {example_deployment}\<rparr>)"
    using Register [of example_request_id example_deployment ?d example_esc _ _ example_registered] o
    by (simp add: daemon_start_def)
  with run show ?thesis by (rule Step)
qed

lemma example_running_run: "daemon_run example_esc example_running"
proof -
  let ?d = "daemon_start\<lparr>server := example_registered, starting := {example_deployment}\<rparr>"
  have "register_stream example_deployment (server ?d) = (Inr (), server example_running)"
    by (simp add: register_stream_def saturating_add_def example_running_def example_defs)
  then have "daemon_step example_esc ?d example_running"
    using Stream [of example_deployment ?d "server example_running" example_esc]
    by (simp add: example_running_def daemon_start_def)
  with example_run_registered show ?thesis by (rule Step)
qed

section \<open>Properties of the daemon's deployments\<close>

text \<open>
  C1. In every history the registry keeps at most 64 records, no \<open>expect\<close> of it fails, a submit task
  that reserved its submission is refused only because the deployment exists or a resource is busy,
  a registered job always gets its stream, and whatever way an executor ends, its result is
  accepted and ends the job.
\<close>

theorem deployments_never_stuck:
  assumes "daemon_run esc d"
  shows "length (submissions (server d)) \<le> 64
    \<and> fst (acknowledge did (server d)) \<noteq> Inl (RegistryPanic m)
    \<and> ((rid, did) \<in> flights d \<longrightarrow>
         (case fst (register esc' rid did cs token (server d)) of
            Inr _ \<Rightarrow> True
          | Inl e \<Rightarrow> e = DeploymentAlreadyExists did \<or> (\<exists>key. e = ResourceBusy key)))
    \<and> (did \<in> starting d \<longrightarrow> fst (register_stream did (server d)) = Inr ())
    \<and> (did \<in> executing d \<longrightarrow>
         (let t = run_deployment_executor outcome in
          \<exists>snap. fst (finalize did (term_status t) (term_claim_status t) (server d)) = Inr snap
            \<and> snap_status snap = term_status t \<and> is_finished (snap_status snap)))"
proof -
  note inv = daemon_run_inv [OF assms]
  then have l: "linked (server d)" by (simp add: daemon_inv_def)
  have "fst (acknowledge did (server d)) \<noteq> Inl (RegistryPanic m)"
    using linked_job [OF l, of did]
    by (auto simp: acknowledge_def take_sequence_def Let_def job_linked_in_def split: option.splits)
  moreover have "case fst (register esc' rid did cs token (server d)) of
      Inr _ \<Rightarrow> True | Inl e \<Rightarrow> e = DeploymentAlreadyExists did \<or> (\<exists>key. e = ResourceBusy key)"
    if "(rid, did) \<in> flights d"
    using register_refused [OF inv that, of esc' cs token]
    by (cases "register esc' rid did cs token (server d)") (auto split: sum.splits)
  moreover have "\<exists>snap. fst (finalize did (term_status t) (term_claim_status t) (server d)) = Inr snap
      \<and> snap_status snap = term_status t \<and> is_finished (snap_status snap)"
    if ex: "did \<in> executing d" and t: "t = run_deployment_executor outcome" for t
  proof -
    from inv ex have "did \<in> unfinished_jobs (server d)" by (simp add: daemon_inv_def)
    then obtain r where r: "map_of (jobs (server d)) did = Some r" "\<not> is_finished (status r)"
      by (auto simp: unfinished_jobs_in_def)
    obtain c where "terminal_claim_state (term_status t) (term_claim_status t) = Inr c"
      using executor_terminal_ok t by blast
    with r obtain r' where "is_finished (term_status t)" "status r' = term_status t"
      "fst (finalize did (term_status t) (term_claim_status t) (server d)) = Inr (job_snapshot did r')"
      by (rule finalize_done)
    then show ?thesis by (simp add: job_snapshot_def)
  qed
  moreover have "length (submissions (server d)) \<le> 64"
    using l by (simp add: linked_in_def MAX_DEPLOYMENT_RECORDS_def)
  ultimately show ?thesis using stream_not_refused [OF inv] by (simp add: Let_def)
qed

theorem deployments_never_stuck_witness:
  "\<exists>snap. fst (finalize example_deployment Succeeded ClaimReleased (server example_running)) = Inr snap
     \<and> snap_status snap = Succeeded"
  using deployments_never_stuck [OF example_running_run, where did = example_deployment
      and outcome = ExecOk and m = "[]" and rid = example_request_id and esc' = example_esc and cs = "[]"
      and token = "DeploymentCancellation 0"]
  by (auto simp: Let_def example_running_def)

text \<open>
  C2. While a deployment runs or its outcome is unresolved, its resources stay claimed: it has a
  reservation, every key of it is held, an exclusive request for such a key is refused, and no
  other deployment can be registered with an exclusive claim on it.
\<close>

theorem deployment_keeps_claims:
  assumes "daemon_run esc d" and "map_of (jobs (server d)) did = Some r"
    and "\<not> is_finished (status r) \<or> claim r = ReconciliationRequired"
  shows "\<exists>guard. reservation r = Some guard
    \<and> (\<forall>key \<in> set (res_keys guard). is_held (operations (server d)) key
         \<and> \<not> is_ok (reserve esc' (claim_exclusive key # cs) (operations (server d)))
         \<and> fst (register esc' rid did' (claim_exclusive key # cs) token (server d)) \<noteq> Inr ())"
proof -
  note inv = daemon_run_inv [OF assms(1)]
  then have l: "linked (server d)"
    and c: "claims_ok (operations (server d)) (guards (server d)) (others d)"
    by (simp_all add: daemon_inv_def)
  have ok: "record_ok r" using l assms(2) by (rule linked_record_ok)
  with assms(3) obtain guard where g: "reservation r = Some guard"
    by (auto simp: record_ok_def retains_claim_def status_claim_ok_finished)
  from c obtain live where live: "registry_inv (operations (server d)) live"
    "set live = others d \<union> ran (guards (server d))" unfolding claims_ok_def by blast
  have "guard \<in> set live"
    using g assms(2) live(2) by (auto simp: ran_def guards_in_def intro!: exI [of _ did])
  then have h: "res_id guard \<in> snd ` set (holders_of (operations (server d)) key)"
    if "key \<in> set (res_keys guard)" for key
    using that unfolding registry_inv_holders [OF live(1)] by blast
  have refused: "\<exists>e. reserve esc' (claim_exclusive key # cs) (operations (server d)) = Inl e"
    if key: "key \<in> set (res_keys guard)" for key
  proof -
    have "strongest (claim_exclusive key # cs) key = Some Exclusive"
      by (simp add: strongest_def claim_exclusive_def)
    then show ?thesis using h [OF key] unfolding reserve_def reserve_inner_Inl by force
  qed
  have "fst (register esc' rid did' (claim_exclusive key # cs) token (server d)) \<noteq> Inr ()"
    if "key \<in> set (res_keys guard)" for key
    using refused [OF that]
    by (auto simp: register_def split: option.splits sum.splits ResourceConflict.splits)
  moreover have "\<not> is_ok (reserve esc' (claim_exclusive key # cs) (operations (server d)))"
    if "key \<in> set (res_keys guard)" for key using refused [OF that] by auto
  moreover have "is_held (operations (server d)) key" if "key \<in> set (res_keys guard)" for key
    using h [OF that] by (cases "map_of (reg_claims (operations (server d))) key")
      (simp_all add: is_held_def holders_of_def lookup_holders_def)
  ultimately show ?thesis using g by blast
qed

theorem deployment_keeps_claims_witness:
  "is_held (operations (server example_running)) (NspawnKey ''web'')
   \<and> \<not> is_ok (reserve example_esc [claim_exclusive (NspawnKey ''web'')] (operations (server example_running)))"
proof -
  have r: "map_of (jobs (server example_running)) example_deployment = Some (example_job\<lparr>stream_leases := 1\<rparr>)"
    by (simp add: example_running_def)
  have "\<not> is_finished (status (example_job\<lparr>stream_leases := 1\<rparr>))" by (simp add: example_job_def)
  from deployment_keeps_claims [OF example_running_run r disjI1 [OF this], where esc' = example_esc and cs = "[]"]
  show ?thesis by (simp add: example_job_def example_guard_def)
qed

text \<open>
  C22. Nothing leaks: once every deployment has released its claim, by a result, a reconciliation or
  an explicit release, and no other request is under way, the operation registry is empty.
\<close>

theorem deployments_release_claims:
  assumes "daemon_run esc d" and "others d = {}"
    and "\<And>did r. map_of (jobs (server d)) did = Some r \<Longrightarrow>
      claim r \<in> {Released, Reconciled, ReleasedUnresolved}"
  shows "reg_claims (operations (server d)) = [] \<and> active_image_names (operations (server d)) = {}"
proof -
  note inv = daemon_run_inv [OF assms(1)]
  then have l: "linked (server d)"
    and c: "claims_ok (operations (server d)) (guards (server d)) {}"
    using assms(2) by (simp_all add: daemon_inv_def)
  have "guards (server d) did = None" for did
  proof (cases "map_of (jobs (server d)) did")
    case (Some r)
    with assms(3) [OF Some] linked_record_ok [OF l Some] show ?thesis
      by (auto simp: guards_in_def record_ok_def retains_claim_def)
  qed (simp add: guards_in_def)
  then have "ran (guards (server d)) = {}" by (auto simp: ran_def)
  with c obtain live where "registry_inv (operations (server d)) live" "set live = {}"
    unfolding claims_ok_def by auto
  then show ?thesis using registry_inv_empty by simp
qed

theorem deployments_release_claims_witness:
  "reg_claims (operations (snd (finalize example_deployment Succeeded ClaimReleased (server example_running)))) = []"
proof -
  let ?s = "snd (finalize example_deployment Succeeded ClaimReleased (server example_running))"
  have "daemon_step example_esc example_running
    (example_running\<lparr>server := ?s, executing := executing example_running - {example_deployment}\<rparr>)"
    using Finish [of example_deployment example_running ExecOk _ example_esc]
    by (simp add: example_running_def)
  then have run: "daemon_run example_esc
    (example_running\<lparr>server := ?s, executing := executing example_running - {example_deployment}\<rparr>)"
    using example_running_run Step by blast
  have "terminal_claim_state Succeeded ClaimReleased = Inr Released"
    by (simp add: terminal_claim_state_def del: and_then_eq_Inr)
  then have "claim r = Released" if "map_of (jobs ?s) did = Some r" for did r
    using that by (auto simp: finalize_def Let_def take_sequence_def
        example_running_def example_defs split: if_splits)
  then show ?thesis
    using deployments_release_claims [OF run] by (simp add: example_running_def daemon_start_def)
qed

subsection \<open>What one step may change\<close>

definition job_follows ::
  "DeploymentId \<Rightarrow> DeploymentRecord \<Rightarrow> DaemonServerState \<Rightarrow> bool" where
  "job_follows did r s \<longleftrightarrow>
     (case map_of (jobs s) did of None \<Rightarrow> evictable_job r | Some r' \<Rightarrow> evolves r r')"

lemma job_follows_same: "jobs s' = jobs s \<Longrightarrow> map_of (jobs s) did = Some r \<Longrightarrow> job_follows did r s'"
  by (simp add: job_follows_def evolves_refl)

lemma job_follows_update:
  assumes "job_update i q q' s s'" and "linked s" and "map_of (jobs s) did = Some r"
  shows "job_follows did r s'"
  using assms(1,3) linked_record_ok [OF assms(2), of did]
  by (cases "i = did") (auto simp: job_follows_def job_update_def evolves_refl)

lemma job_follows_client:
  assumes "quiet s s' \<or> (\<exists>q q'. job_update i q q' s s' \<and> same_activity q q' \<and> X q')"
    and "linked s" and "map_of (jobs s) did = Some r"
  shows "job_follows did r s'"
  using assms job_follows_update job_follows_same by (auto simp: quiet_def)

lemma job_follows_reserve:
  assumes "linked s" and "map_of (jobs s) did = Some r"
  shows "job_follows did r (snd (reserve_submission rid i fp s))"
  using assms(1)
proof (cases rule: reserve_submission_effect [where rid = rid and did = i and fp = fp])
  case (Admitted u x)
  then show ?thesis
    using survives_jobs [OF Admitted(3) assms(1), of did] assms(2)
    by (auto simp: job_follows_def evolves_refl)
qed (use assms(2) in \<open>simp add: job_follows_same\<close>)

lemma job_follows_register:
  assumes "linked s" and "map_of (jobs s) did = Some r"
    and "map_of (submissions s) rid = Some x" "sub_status x = Pending" "deployment_id (sub_identity x) = i"
  shows "job_follows did r (snd (register esc rid i cs token s))"
  using assms(1,3-5)
proof (cases rule: register_effect [where esc = esc and cs = cs and token = token])
  case (Registered guard ops n)
  with assms(2) show ?thesis by (auto simp: job_follows_def evolves_refl)
qed (use assms(2) in \<open>simp_all add: job_follows_same\<close>)

lemma step_job_follows:
  assumes "daemon_step esc d d'" and "daemon_inv d" and "map_of (jobs (server d)) did = Some r"
  shows "job_follows did r (server d')"
  using assms
proof (induction rule: daemon_step.induct)
  case (Submit rid i fp d s)
  then show ?case using job_follows_reserve [of "server d" did r rid i fp] by (simp add: daemon_inv_def)
next
  case (SubmitRefused rid i fp d e s)
  then show ?case using job_follows_reserve [of "server d" did r rid i fp] by (simp add: daemon_inv_def)
next
  case (Reject rid i d message)
  then show ?case
    by (intro job_follows_same [of _ "server d"])
      (auto simp: reject_submission_def take_sequence_def Let_def split: option.splits)
next
  case (Register rid i d cs token s)
  obtain x where "map_of (submissions (server d)) rid = Some x" "sub_status x = Pending"
    "deployment_id (sub_identity x) = i" using Register(4,1) by (rule inv_flight)
  with Register show ?case
    using job_follows_register [of "server d" did r rid x i esc cs token] by (simp add: daemon_inv_def)
next
  case (RegisterRefused rid i d cs token e s)
  then show ?case
    using register_refused [OF RegisterRefused(3,1,2)] job_follows_same [of "server d" "server d"] by simp
next
  case (Stream i d s)
  obtain q where "map_of (jobs (server d)) i = Some q" using Stream(3,1) by (rule inv_starting)
  from job_follows_update [OF register_stream_update(1) [OF this] _ Stream(4)] Stream show ?case
    by (simp add: daemon_inv_def)
next
  case (StreamRefused i d e s)
  then show ?case using stream_not_refused by fastforce
next
  case (StreamEnd i d)
  show ?case
  proof (cases "map_of (jobs (server d)) i")
    case None
    then show ?thesis using StreamEnd by (simp add: release_stream_def job_follows_same)
  next
    case (Some q)
    from job_follows_update [OF release_stream_update [OF Some] _ StreamEnd(3)] StreamEnd(2)
    show ?thesis by (simp add: daemon_inv_def)
  qed
next
  case (Finish i d outcome t)
  from Finish(1,3) have "i \<in> unfinished_jobs (server d)" by (simp add: daemon_inv_def)
  then obtain q where q: "map_of (jobs (server d)) i = Some q" "\<not> is_finished (status q)"
    by (auto simp: unfinished_jobs_in_def)
  obtain c where "terminal_claim_state (term_status t) (term_claim_status t) = Inr c"
    using executor_terminal_ok [OF Finish(2)] by blast
  from finalize_done [OF q this] obtain q' where "job_update i q q' (server d)
      (snd (finalize i (term_status t) (term_claim_status t) (server d)))" by metis
  from job_follows_update [OF this _ Finish(4)] Finish(3) show ?case by (simp add: daemon_inv_def)
next
  case (AckSubmission d rid)
  then show ?case
    by (intro job_follows_same [of _ "server d"])
      (auto simp: acknowledge_submission_def take_sequence_def Let_def split: option.splits)
next
  case (CancelAll d)
  then show ?case using cancel_all_frame(1) [of "server d"]
    by (auto simp: quiet_def intro: job_follows_same)
qed (auto simp: daemon_inv_def job_follows_same
    intro!: job_follows_client [OF observe_status_effect] job_follows_client [OF cancel_effect]
      job_follows_client [OF release_unresolved_effect] job_follows_client [OF reconcile_effect]
      job_follows_client [OF acknowledge_effect])

text \<open>
  C23. Results are stable: over one step of any history, a job keeps its request, its revision never
  decreases, a terminal status never changes, a claim only moves from held to a result and from
  unresolved to reconciled or released, an acknowledgement is not withdrawn, and the job disappears
  only when it was acknowledged, no forwarder holds its stream and its claim was released.
\<close>

theorem deployment_results_stable:
  assumes "daemon_run esc d" and "daemon_step esc d d'"
    and "map_of (jobs (server d)) did = Some r"
  shows "case map_of (jobs (server d')) did of
      None \<Rightarrow> acknowledged r \<and> stream_leases r = 0 \<and> is_finished (status r)
        \<and> claim r \<noteq> ReconciliationRequired \<and> did \<notin> forwarding d
    | Some r' \<Rightarrow> request_id r' = request_id r \<and> unat (revision r) \<le> unat (revision r')
        \<and> (is_finished (status r) \<longrightarrow> status r' = status r)
        \<and> (acknowledged r \<longrightarrow> acknowledged r')
        \<and> (claim r' = claim r \<or> claim r = Held
           \<or> claim r = ReconciliationRequired \<and> claim r' \<in> {Reconciled, ReleasedUnresolved})"
proof -
  note inv = daemon_run_inv [OF assms(1)]
  have f: "job_follows did r (server d')" using assms(2) inv assms(3) by (rule step_job_follows)
  have l: "linked (server d)" using inv by (simp add: daemon_inv_def)
  show ?thesis
  proof (cases "map_of (jobs (server d')) did")
    case None
    with f have ev: "evictable_job r" by (simp add: job_follows_def)
    have "is_finished (status r)"
      using evictable_job_finished [OF linked_record_ok [OF l assms(3)] ev] by simp
    moreover have "leased (server d) did = 0"
      using ev assms(3) by (simp add: leased_in_def evictable_job_def)
    then have "did \<notin> forwarding d" using inv unfolding daemon_inv_def by (metis zero_neq_one)
    ultimately show ?thesis using None ev by (auto simp: evictable_job_def)
  next
    case (Some r')
    with f show ?thesis by (simp add: job_follows_def evolves_def)
  qed
qed

theorem deployment_results_stable_witness:
  "\<exists>r'. map_of (jobs (snd (cancel example_deployment (server example_running)))) example_deployment = Some r'
     \<and> request_id r' = example_request_id"
proof -
  let ?d = "example_running\<lparr>server := snd (cancel example_deployment (server example_running))\<rparr>"
  have r: "map_of (jobs (server example_running)) example_deployment = Some (example_job\<lparr>stream_leases := 1\<rparr>)"
    by (simp add: example_running_def)
  show ?thesis
    using deployment_results_stable [OF example_running_run Cancel [where did = example_deployment] r]
    by (auto simp: example_job_def split: option.splits)
qed

text \<open>
  C27. Submissions are idempotent: a request identifier that is already known is refused without any
  change, whatever is resubmitted under it; a new one is refused only when all 64 records are
  needed, again without any change; otherwise it becomes pending, and the only records that may
  disappear are acknowledged submissions that were rejected or whose job is finished, acknowledged,
  released and not being streamed.
\<close>

theorem submission_admission:
  assumes "daemon_run esc d"
  shows "case reserve_submission rid did fp (server d) of
      (Inl e, s) \<Rightarrow> s = server d
        \<and> (e = SubmissionsAtCapacity \<and> length (submissions (server d)) = 64
             \<and> (\<forall>(i, x) \<in> set (submissions (server d)). \<not> evictable (server d) x)
           \<or> e \<in> {SubmissionAlreadyExists rid, SubmissionDifferentIdentity rid}
             \<and> map_of (submissions (server d)) rid \<noteq> None)
    | (Inr _, s) \<Rightarrow> map_of (submissions (server d)) rid = None
        \<and> (\<exists>x. map_of (submissions s) rid = Some x \<and> sub_status x = Pending
             \<and> deployment_id (sub_identity x) = did \<and> plan (sub_identity x) = fp)
        \<and> length (submissions s) \<le> 64
        \<and> (\<forall>i x. i \<noteq> rid \<and> map_of (submissions (server d)) i = Some x \<and> \<not> evictable (server d) x \<longrightarrow>
             map_of (submissions s) i = Some x)
        \<and> (\<forall>i r. map_of (jobs (server d)) i = Some r \<and> \<not> evictable_job r \<longrightarrow>
             map_of (jobs s) i = Some r)"
proof -
  have l: "linked (server d)" using daemon_run_inv [OF assms] by (simp add: daemon_inv_def)
  show ?thesis
  proof (cases "map_of (submissions (server d)) rid")
    case (Some existing)
    then show ?thesis by (simp add: reserve_submission_def)
  next
    case None
    from l show ?thesis
    proof (cases rule: reserve_submission_effect [where rid = rid and did = did and fp = fp])
      case (Refused e)
      obtain b u where b: "make_room (server d) = (b, u)" by (cases "make_room (server d)")
      note k = make_room_keeps [OF l, unfolded b fst_conv snd_conv]
      have nb: "\<not> b" using Refused(1) None b
        by (cases b) (auto simp: reserve_submission_def take_sequence_def Let_def)
      then have eq: "reserve_submission rid did fp (server d) = (Inl SubmissionsAtCapacity, server d)"
        using None b k by (simp add: reserve_submission_def)
      from k nb have "evict_one (server d) = None" "length (submissions (server d)) = 64"
        by (simp_all add: MAX_DEPLOYMENT_RECORDS_def)
      moreover from this(1) have "\<forall>(i, x) \<in> set (submissions (server d)). \<not> evictable (server d) x"
        by (auto simp: evict_one_def Let_def filter_empty_conv split: option.splits prod.splits)
      ultimately show ?thesis using eq by simp
    next
      case (Admitted u x)
      have s: "reserve_submission rid did fp (server d) = (Inr (), put_submission rid x u)"
        using Admitted(1,2) by (metis prod.collapse)
      have "map_of (submissions u) i = Some y"
        if "map_of (submissions (server d)) i = Some y" "\<not> evictable (server d) y" for i y
        using Admitted(3) that unfolding survives_def by blast
      moreover have "map_of (jobs u) i = Some r"
        if "map_of (jobs (server d)) i = Some r" "\<not> evictable_job r" for i r
        using Admitted(3) that unfolding survives_def by blast
      moreover have "length (AList.update rid x (submissions u)) \<le> 64"
        using Admitted(6,7) by (simp add: length_alist_update MAX_DEPLOYMENT_RECORDS_def)
      ultimately show ?thesis using Admitted(8,9) None by (auto simp: s)
    qed
  qed
qed

theorem submission_admission_witness:
  "reserve_submission example_request_id (DeploymentId 9) (PlanFingerprint []) (server example_running) =
     (Inl (SubmissionDifferentIdentity example_request_id), server example_running)"
proof -
  have "fst (reserve_submission example_request_id (DeploymentId 9) (PlanFingerprint []) (server example_running))
      = Inl (SubmissionDifferentIdentity example_request_id)"
    by (simp add: reserve_submission_def example_running_def example_defs)
  then show ?thesis
    using submission_admission [OF example_running_run, of example_request_id "DeploymentId 9" "PlanFingerprint []"]
    by (cases "reserve_submission example_request_id (DeploymentId 9) (PlanFingerprint []) (server example_running)")
      auto
qed

text \<open>
  C28. The claim of an unresolved deployment is protected: releasing it needs the confirmation flag, a
  reconciliation ends it exactly when no crash manifest is present, it cannot be acknowledged away,
  and no new submission evicts it.
\<close>

theorem unresolved_claim_protected:
  assumes "daemon_run esc d" and "map_of (jobs (server d)) did = Some r"
    and "claim r = ReconciliationRequired"
  shows "(confirmed \<longleftrightarrow> (\<exists>snap. fst (release_unresolved did confirmed (server d)) = Inr snap))
    \<and> (\<exists>snap. fst (reconcile did present (server d)) = Inr snap
         \<and> snap_claim snap = (if present then ReconciliationRequired else Reconciled))
    \<and> (\<not> confirmed \<longrightarrow> snd (release_unresolved did confirmed (server d)) = server d)
    \<and> operations (snd (reconcile did True (server d))) = operations (server d)
    \<and> fst (acknowledge did (server d)) = Inl (StillRequiresReconciliation did)
    \<and> map_of (jobs (snd (reserve_submission rid i fp (server d)))) did = Some r"
proof -
  note inv = daemon_run_inv [OF assms(1)]
  then have l: "linked (server d)" by (simp add: daemon_inv_def)
  have ok: "status_claim_ok (status r) ReconciliationRequired"
    using linked_record_ok [OF l assms(2)] assms(3) by (simp add: record_ok_def)
  then have st: "is_reconciliation_required (status r)" "is_finished (status r)"
    by (cases "status r"; simp add: is_reconciliation_required_def)+
  have "map_of (jobs (snd (reserve_submission rid i fp (server d)))) did = Some r"
  proof (cases rule: reserve_submission_effect [OF l, where rid = rid and did = i and fp = fp])
    case 1
    then show ?thesis using assms(2) by simp
  next
    case (2 u x)
    have "\<not> evictable_job r" using assms(3) by (simp add: evictable_job_def)
    then have "map_of (jobs u) did = Some r" using 2(3) assms(2) unfolding survives_def by blast
    then show ?thesis using 2(2) by simp
  qed
  then show ?thesis
    using assms(2,3) st
    by (auto simp: release_unresolved_def reconcile_def acknowledge_def take_sequence_def Let_def
        job_snapshot_def)
qed

definition example_unresolved :: daemon where
  "example_unresolved =
     (let t = run_deployment_executor ExecPanic in
      example_running\<lparr>server := snd (finalize example_deployment (term_status t) (term_claim_status t)
          (server example_running)),
        executing := executing example_running - {example_deployment}\<rparr>)"

lemma example_unresolved_run: "daemon_run example_esc example_unresolved"
proof -
  have "daemon_step example_esc example_running example_unresolved"
    using Finish [of example_deployment example_running ExecPanic _ example_esc]
    by (simp add: example_unresolved_def Let_def example_running_def)
  then show ?thesis using example_running_run Step by blast
qed

theorem unresolved_claim_protected_witness:
  "fst (acknowledge example_deployment (server example_unresolved)) =
     Inl (StillRequiresReconciliation example_deployment)"
proof -
  have "\<exists>r. map_of (jobs (server example_unresolved)) example_deployment = Some r
    \<and> claim r = ReconciliationRequired"
    by (simp add: example_unresolved_def example_running_def example_defs finalize_def take_sequence_def
        Let_def terminal_claim_state_def del: and_then_eq_Inr)
  then show ?thesis using unresolved_claim_protected [OF example_unresolved_run] by blast
qed

text \<open>
  C26. The daemon can always drain: from every reachable state the submit tasks and executors that are
  under way can finish, and then no job is active, so that the wait of the
  shutdown ends; and \<open>cancel_all\<close> has set the cancellation flag of every job.
\<close>

theorem daemon_can_drain:
  assumes "daemon_run esc d"
  shows "(\<exists>d'. (daemon_step esc)\<^sup>*\<^sup>* d d' \<and> \<not> any_active (server d'))
    \<and> (\<forall>did r. map_of (jobs (server d)) did = Some r \<longrightarrow>
         cancellation_is_requested (cancellation r) (cancel_all (server d)))"
proof
  have fin: "finite (unfinished_jobs s)" for s
    by (rule finite_subset [OF _ finite_dom_map_of [of "jobs s"]]) (auto simp: unfinished_jobs_in_def)
  show "\<exists>d'. (daemon_step esc)\<^sup>*\<^sup>* d d' \<and> \<not> any_active (server d')"
    using assms
  proof (induction "2 * card (starting d) + card (executing d)" arbitrary: d rule: less_induct)
    case less
    note inv = daemon_run_inv [OF less.prems]
    then have u: "unfinished_jobs (server d) = starting d \<union> executing d" by (simp add: daemon_inv_def)
    with fin [of "server d"] have f: "finite (starting d)" "finite (executing d)" by auto
    consider did where "did \<in> starting d" | did where "did \<in> executing d"
      | "unfinished_jobs (server d) = {}" using u by blast
    then show ?case
    proof cases
      case (1 did)
      let ?d = "d\<lparr>server := snd (register_stream did (server d)), starting := starting d - {did},
        executing := insert did (executing d), forwarding := insert did (forwarding d)\<rparr>"
      have step: "daemon_step esc d ?d"
        using Stream [OF 1] stream_not_refused [OF inv 1] by (metis prod.collapse)
      have "did \<notin> executing d" using inv 1 by (auto simp: daemon_inv_def)
      moreover have "card (starting d) = Suc (card (starting d - {did}))"
        using f(1) 1 by (metis card.remove)
      ultimately have "2 * card (starting ?d) + card (executing ?d) < 2 * card (starting d) + card (executing d)"
        using f(2) by simp
      from less.hyps [OF this Step [OF less.prems step]] step show ?thesis
        by (meson converse_rtranclp_into_rtranclp)
    next
      case (2 did)
      let ?d = "d\<lparr>server := snd (finalize did Succeeded ClaimReleased (server d)),
        executing := executing d - {did}\<rparr>"
      have step: "daemon_step esc d ?d" using Finish [OF 2 refl, where outcome = ExecOk] by simp
      have "2 * card (starting ?d) + card (executing ?d) < 2 * card (starting d) + card (executing d)"
        using card_Diff1_less [OF f(2) 2] by simp
      from less.hyps [OF this Step [OF less.prems step]] step show ?thesis
        by (meson converse_rtranclp_into_rtranclp)
    next
      case 3
      have "\<not> any_active (server d)"
      proof
        assume "any_active (server d)"
        then obtain did r where "(did, r) \<in> set (jobs (server d))" "\<not> is_finished (status r)"
          by (auto simp: any_active_def list_ex_iff)
        then have "did \<in> unfinished_jobs (server d)"
          using inv by (auto simp: daemon_inv_def linked_in_def unfinished_jobs_in_def map_of_eq_Some_iff)
        with 3 show False by simp
      qed
      then show ?thesis by blast
    qed
  qed
  show "\<forall>did r. map_of (jobs (server d)) did = Some r \<longrightarrow>
      cancellation_is_requested (cancellation r) (cancel_all (server d))"
    using cancel_all_frame(2) [of "server d"]
    by (force simp: cancellation_is_requested_def dest: map_of_SomeD)
qed

theorem daemon_can_drain_witness:
  "cancellation_is_requested (DeploymentCancellation 0) (cancel_all (server example_running))"
proof -
  have "map_of (jobs (server example_running)) example_deployment = Some (example_job\<lparr>stream_leases := 1\<rparr>)"
    by (simp add: example_running_def)
  with daemon_can_drain [OF example_running_run] show ?thesis by (force simp: example_job_def)
qed

end
