(* ===== verification/Trusted_State.thy ===== *)
theory Trusted_State
  imports Rust_Prelude
begin

text \<open>
  Access to Lasper's privileged durable state through a held directory descriptor
  (\<open>src/adapters/trusted_state.rs\<close>): name validation, bounded reads, stable locks, atomic
  replacement and removal, over an explicit directory in which any system call may fail.
\<close>

unbundle bit_operations_syntax

section \<open>Errors\<close>

text \<open>
  An \<open>io::Error\<close>: an error number, or an error the standard library or the program itself makes.
\<close>

datatype Errno = ENOENT | EEXIST | ELOOP | EISDIR | ETIMEDOUT | EOTHER nat | InvalidData string | InvalidUtf8

text \<open>
  The adapter error of \<open>src/adapters/error.rs\<close>. The payloads that come from other packages (D-Bus,
  serde, anyhow) are their texts.
\<close>

datatype NspawnError =
    PermissionDenied
  | CommandFailed string string string
  | Generic string
  | GenericIo Errno
  | Io string Errno
  | ContainerNotFound string
  | ContainerAlreadyRunning string
  | ContainerNotRunning string
  | InvalidConfig string
  | ValidationError string
  | ProtectedImage string
  | ToolNotFound string
  | StorageError string
  | DeployError string
  | DeploymentCancelled
  | DeploymentCancellationRollbackIncomplete string
  | DeploymentProcessStateUnknown string
  | SystemOperationOutcomeUnknown string
  | DeploymentRollbackIncomplete string
  | Dbus string
  | SerdeError string
  | RuntimeError string
  | OtherError string

text \<open>\<open>io_text\<close> stands for the text of an operating-system error.\<close>

fun nspawn_error_text :: "(Errno \<Rightarrow> string) \<Rightarrow> NspawnError \<Rightarrow> string" where
  "nspawn_error_text io_text PermissionDenied = ''Permission denied: root privileges required''"
| "nspawn_error_text io_text (CommandFailed a b c) =
     ''Command Failed ('' @ a @ ''): '' @ b @ ''. Output: '' @ c"
| "nspawn_error_text io_text (Generic s) = s"
| "nspawn_error_text io_text (GenericIo e) = ''IO error: '' @ io_text e"
| "nspawn_error_text io_text (Io p e) = ''IO error in '' @ p @ '': '' @ io_text e"
| "nspawn_error_text io_text (ContainerNotFound s) = ''Container '' @ [char_of (39::nat)] @ s @ [char_of (39::nat)] @ '' not found''"
| "nspawn_error_text io_text (ContainerAlreadyRunning s) =
     ''Container '' @ [char_of (39::nat)] @ s @ [char_of (39::nat)] @ '' is already running''"
| "nspawn_error_text io_text (ContainerNotRunning s) =
     ''Container '' @ [char_of (39::nat)] @ s @ [char_of (39::nat)] @ '' is not running''"
| "nspawn_error_text io_text (InvalidConfig s) = ''Invalid configuration: '' @ s"
| "nspawn_error_text io_text (ValidationError s) = ''Validation error: '' @ s"
| "nspawn_error_text io_text (ProtectedImage s) =
     ''Image '' @ [char_of (39::nat)] @ s @ [char_of (39::nat)] @ '' is protected and cannot be removed''"
| "nspawn_error_text io_text (ToolNotFound s) =
     ''Tool '' @ [char_of (39::nat)] @ s @ [char_of (39::nat)] @ '' not found on PATH''"
| "nspawn_error_text io_text (StorageError s) = ''Storage error: '' @ s"
| "nspawn_error_text io_text (DeployError s) = ''Deployment failed: '' @ s"
| "nspawn_error_text io_text DeploymentCancelled = ''Deployment cancelled''"
| "nspawn_error_text io_text (DeploymentCancellationRollbackIncomplete s) =
     ''Deployment cancelled; rollback incomplete: '' @ s"
| "nspawn_error_text io_text (DeploymentProcessStateUnknown s) =
     ''Deployment process state is unknown: '' @ s"
| "nspawn_error_text io_text (SystemOperationOutcomeUnknown s) =
     ''System operation outcome is unknown: '' @ s"
| "nspawn_error_text io_text (DeploymentRollbackIncomplete s) =
     ''Deployment rollback incomplete: '' @ s"
| "nspawn_error_text io_text (Dbus s) = ''DBus error: '' @ s"
| "nspawn_error_text io_text (SerdeError s) = ''Serialization error: '' @ s"
| "nspawn_error_text io_text (RuntimeError s) = ''Runtime error: '' @ s"
| "nspawn_error_text io_text (OtherError s) = s"

section \<open>The directory\<close>

text \<open>
  The directory behind the descriptor, and what the environment will do: \<open>faults\<close> scripts the next
  system calls (\<open>None\<close> lets one through, \<open>Some n\<close> makes it fail with an error of the environment, an
  exhausted script lets all through), \<open>lock_script\<close> the
  next attempts at a lock, \<open>temp_ids\<close> the identifiers drawn for temporary files.
\<close>

datatype FileKind = RegularFile | DirectoryFile | SymlinkFile | SpecialFile

record Inode =
  i_kind :: FileKind
  i_bytes :: "u8 list"
  i_uid :: u32
  i_mode :: u32

datatype LockAttempt = Granted | Contended | TimedOut | Replaced | LockFailed Errno | CheckFailed Errno

record TrustedDirectory =
  td_path :: string
  td_expected_uid :: u32
  td_process_uid :: u32
  td_entries :: "(string \<times> Inode) list"
  faults :: "nat option list"
  lock_script :: "LockAttempt list"
  temp_ids :: "string list"

type_synonym 'a dir_op = "TrustedDirectory \<Rightarrow> (NspawnError + 'a) \<times> TrustedDirectory"

fun dir_bind :: "(NspawnError + 'a) \<times> TrustedDirectory \<Rightarrow> ('a \<Rightarrow> 'b dir_op) \<Rightarrow>
    (NspawnError + 'b) \<times> TrustedDirectory" where
  "dir_bind (Inl e, d) f = (Inl e, d)"
| "dir_bind (Inr x, d) f = f x d"

definition entry :: "TrustedDirectory \<Rightarrow> string \<Rightarrow> Inode option" where
  "entry d name = map_of (td_entries d) name"

definition set_entry :: "string \<Rightarrow> Inode \<Rightarrow> TrustedDirectory \<Rightarrow> TrustedDirectory" where
  "set_entry name i d = d\<lparr>td_entries := AList.update name i (td_entries d)\<rparr>"

definition delete_entry :: "string \<Rightarrow> TrustedDirectory \<Rightarrow> TrustedDirectory" where
  "delete_entry name d = d\<lparr>td_entries := AList.delete name (td_entries d)\<rparr>"

definition next_fault :: "TrustedDirectory \<Rightarrow> nat option \<times> TrustedDirectory" where
  "next_fault d =
     (case faults d of [] \<Rightarrow> (None, d) | f # fs \<Rightarrow> (f, d\<lparr>faults := fs\<rparr>))"

text \<open>A system call that may fail before it does anything.\<close>

definition syscall :: "(TrustedDirectory \<Rightarrow> (Errno + 'a) \<times> TrustedDirectory) \<Rightarrow> TrustedDirectory \<Rightarrow>
    (Errno + 'a) \<times> TrustedDirectory" where
  "syscall f d = (case next_fault d of (Some n, d') \<Rightarrow> (Inl (EOTHER n), d') | (None, d') \<Rightarrow> f d')"

definition with_path :: "(Errno \<Rightarrow> NspawnError) \<Rightarrow> (Errno + 'a) \<times> TrustedDirectory \<Rightarrow>
    (NspawnError + 'a) \<times> TrustedDirectory" where
  "with_path g r = (map_err g (fst r), snd r)"

definition child_path :: "TrustedDirectory \<Rightarrow> string \<Rightarrow> string" where
  "child_path d name = path_join (td_path d) name"

definition io_at :: "TrustedDirectory \<Rightarrow> string \<Rightarrow> Errno \<Rightarrow> NspawnError" where
  "io_at d name e = Io (child_path d name) e"

section \<open>Names\<close>

definition MAX_NAME_BYTES :: nat where
  "MAX_NAME_BYTES = 240"

definition LOCK_MODE :: u32 where
  "LOCK_MODE = 384"

definition NUL :: char where
  "NUL = char_of (0::nat)"

text \<open>\<open>esc\<close> is the \<open>Debug\<close> escape of a string.\<close>

definition validate_name :: "(string \<Rightarrow> string) \<Rightarrow> string \<Rightarrow> NspawnError + string" where
  "validate_name esc name =
     (if name = [] \<or> length name > MAX_NAME_BYTES \<or> length (components name) \<noteq> 1
         \<or> (case components name of Normal _ # _ \<Rightarrow> False | _ \<Rightarrow> True)
      then Inl (ValidationError (''trusted state filename is invalid: '' @ esc name))
      else if NUL \<in> set name then Inl (ValidationError ''trusted state filename contains NUL'')
      else Inr name)"

section \<open>Operations\<close>

definition map_open_error :: "TrustedDirectory \<Rightarrow> string \<Rightarrow> Errno \<Rightarrow> NspawnError" where
  "map_open_error d name e =
     (if e = ELOOP
      then ValidationError (''trusted state path must not be a symlink: '' @ child_path d name)
      else Io (child_path d name) e)"

text \<open>\<open>openat\<close> without following symbolic links, for reading and with \<open>O_CREAT | O_EXCL\<close>.\<close>

definition open_read :: "string \<Rightarrow> TrustedDirectory \<Rightarrow> (Errno + Inode) \<times> TrustedDirectory" where
  "open_read name = syscall (\<lambda>d.
     (case entry d name of
        None \<Rightarrow> Inl ENOENT
      | Some i \<Rightarrow> if i_kind i = SymlinkFile then Inl ELOOP else Inr i, d))"

definition open_exclusive :: "string \<Rightarrow> u32 \<Rightarrow> TrustedDirectory \<Rightarrow> (Errno + unit) \<times> TrustedDirectory" where
  "open_exclusive name mode = syscall (\<lambda>d.
     (case entry d name of
        Some _ \<Rightarrow> (Inl EEXIST, d)
      | None \<Rightarrow> (Inr (), set_entry name
          \<lparr>i_kind = RegularFile, i_bytes = [], i_uid = td_process_uid d, i_mode = mode\<rparr> d)))"

definition set_permissions :: "string \<Rightarrow> u32 \<Rightarrow> TrustedDirectory \<Rightarrow> (Errno + unit) \<times> TrustedDirectory" where
  "set_permissions name mode = syscall (\<lambda>d.
     (Inr (), case entry d name of None \<Rightarrow> d | Some i \<Rightarrow> set_entry name (i\<lparr>i_mode := mode\<rparr>) d))"

text \<open>A write that fails may have written any part of the bytes before.\<close>

definition write_all :: "string \<Rightarrow> u8 list \<Rightarrow> TrustedDirectory \<Rightarrow> (Errno + unit) \<times> TrustedDirectory" where
  "write_all name bytes d =
     (case next_fault d of (f, d) \<Rightarrow>
        (case entry d name of
           None \<Rightarrow> (case f of None \<Rightarrow> Inr () | Some n \<Rightarrow> Inl (EOTHER n), d)
         | Some i \<Rightarrow>
             (case f of
                None \<Rightarrow> (Inr (), set_entry name (i\<lparr>i_bytes := i_bytes i @ bytes\<rparr>) d)
              | Some n \<Rightarrow>
                  (Inl (EOTHER n), set_entry name
                     (i\<lparr>i_bytes := i_bytes i @ take n bytes\<rparr>) d))))"

text \<open>\<open>fsync\<close>, \<open>fstat\<close> and \<open>read\<close> on an open descriptor: they change nothing and may fail.\<close>

definition descriptor_call :: "TrustedDirectory \<Rightarrow> (Errno + unit) \<times> TrustedDirectory" where
  "descriptor_call = syscall (\<lambda>d. (Inr (), d))"

definition rename_at :: "string \<Rightarrow> string \<Rightarrow> TrustedDirectory \<Rightarrow> (Errno + unit) \<times> TrustedDirectory" where
  "rename_at old new = syscall (\<lambda>d.
     (case entry d old of
        None \<Rightarrow> (Inl ENOENT, d)
      | Some i \<Rightarrow> (Inr (), delete_entry old (set_entry new i d))))"

definition unlink_at :: "string \<Rightarrow> TrustedDirectory \<Rightarrow> (Errno + unit) \<times> TrustedDirectory" where
  "unlink_at name = syscall (\<lambda>d.
     (case entry d name of
        None \<Rightarrow> (Inl ENOENT, d)
      | Some i \<Rightarrow> if i_kind i = DirectoryFile then (Inl EISDIR, d) else (Inr (), delete_entry name d)))"

definition stat_at :: "string \<Rightarrow> TrustedDirectory \<Rightarrow> (Errno + Inode) \<times> TrustedDirectory" where
  "stat_at name = syscall (\<lambda>d. (case entry d name of None \<Rightarrow> Inl ENOENT | Some i \<Rightarrow> Inr i, d))"

definition entry_exists :: "string \<Rightarrow> bool dir_op" where
  "entry_exists name d =
     (case stat_at name d of
        (Inr _, d') \<Rightarrow> (Inr True, d')
      | (Inl e, d') \<Rightarrow> if e = ENOENT then (Inr False, d') else (Inl (io_at d name e), d'))"

definition reject_non_regular_target :: "string \<Rightarrow> unit dir_op" where
  "reject_non_regular_target name d =
     (case stat_at name d of
        (Inr i, d') \<Rightarrow>
          if i_kind i \<noteq> RegularFile
          then (Inl (ValidationError (''trusted state target is not a regular file: '' @ child_path d name)), d')
          else (Inr (), d')
      | (Inl e, d') \<Rightarrow> if e = ENOENT then (Inr (), d') else (Inl (io_at d name e), d'))"

record TrustedFile =
  tf_bytes :: "u8 list"
  tf_uid :: u32
  tf_mode :: u32

text \<open>
  The length is checked before and after the read; here the file does not change while it is open,
  so the second check repeats the first. \<open>fstat\<close> and \<open>read\<close> may fail as well.
\<close>

definition read_bounded :: "(string \<Rightarrow> string) \<Rightarrow> string \<Rightarrow> nat \<Rightarrow> TrustedFile option dir_op" where
  "read_bounded esc name max_bytes d =
     (case validate_name esc name of
        Inl e \<Rightarrow> (Inl e, d)
      | Inr name \<Rightarrow>
          (case open_read name d of
             (Inl e, d') \<Rightarrow>
               if e = ENOENT then (Inr None, d') else (Inl (map_open_error d name e), d')
           | (Inr i, d') \<Rightarrow>
               dir_bind (with_path (io_at d name) (descriptor_call d')) (\<lambda>_ d'.
               if i_kind i \<noteq> RegularFile
               then (Inl (ValidationError (''trusted state entry is not a regular file: '' @ child_path d name)), d')
               else if length (i_bytes i) > max_bytes
               then (Inl (ValidationError (''trusted state entry exceeds '' @ show_nat max_bytes @
                       '' bytes: '' @ child_path d name)), d')
               else dir_bind (with_path (io_at d name) (descriptor_call d')) (\<lambda>_ d'.
                 (Inr (Some \<lparr>tf_bytes = i_bytes i, tf_uid = i_uid i, tf_mode = i_mode i AND 4095\<rparr>), d')))))"

text \<open>\<open>openat\<close> for a lock file, creating it when asked.\<close>

definition open_lock :: "string \<Rightarrow> bool \<Rightarrow> TrustedDirectory \<Rightarrow> (Errno + Inode) \<times> TrustedDirectory" where
  "open_lock name create = syscall (\<lambda>d.
     (case entry d name of
        Some i \<Rightarrow>
          (if i_kind i = SymlinkFile then Inl ELOOP
           else if i_kind i = DirectoryFile then Inl EISDIR else Inr i, d)
      | None \<Rightarrow>
          if create
          then let i = \<lparr>i_kind = RegularFile, i_bytes = [], i_uid = td_process_uid d,
                        i_mode = LOCK_MODE\<rparr> in (Inr i, set_entry name i d)
          else (Inl ENOENT, d)))"

text \<open>
  One attempt opens the lock file, checks its owner and mode, and tries to lock it; the loop repeats
  while another process holds the lock or has replaced the file, until the deadline. The attempts
  are scripted, so the loop ends with the script. \<open>None\<close> when the lock file does not exist and must
  not be created.
\<close>

definition lock_attempt :: "string \<Rightarrow> bool \<Rightarrow> TrustedDirectory \<Rightarrow> (NspawnError + bool) \<times> TrustedDirectory" where
  "lock_attempt name create d =
     (case open_lock name create d of
        (Inl e, d') \<Rightarrow>
          if \<not> create \<and> e = ENOENT then (Inr False, d') else (Inl (map_open_error d name e), d')
      | (Inr i, d') \<Rightarrow>
          dir_bind (with_path (io_at d name) (descriptor_call d')) (\<lambda>_ d'.
          if i_kind i \<noteq> RegularFile \<or> i_uid i \<noteq> td_expected_uid d \<or> i_mode i AND 18 \<noteq> 0
          then (Inl (ValidationError (''trusted state lock has unsafe ownership or mode: '' @ child_path d name)), d')
          else dir_bind (with_path (io_at d name) (set_permissions name LOCK_MODE d')) (\<lambda>_ d'.
            (Inr True, d'))))"

fun acquire_stable_lock :: "LockAttempt list \<Rightarrow> string \<Rightarrow> bool \<Rightarrow> bool dir_op" where
  "acquire_stable_lock [] name create d = lock_attempt name create (d\<lparr>lock_script := []\<rparr>)"
| "acquire_stable_lock (a # as) name create d =
     dir_bind (lock_attempt name create (d\<lparr>lock_script := as\<rparr>)) (\<lambda>opened d'.
       if \<not> opened then (Inr False, d')
       else
         (case a of
            Granted \<Rightarrow> (Inr True, d')
          | TimedOut \<Rightarrow> (Inl (io_at d name ETIMEDOUT), d')
          | LockFailed e \<Rightarrow> (Inl (io_at d name e), d')
          | CheckFailed e \<Rightarrow> (Inl (GenericIo e), d')
          | Contended \<Rightarrow> acquire_stable_lock as name create d'
          | Replaced \<Rightarrow> acquire_stable_lock as name create d'))"

definition lock_name_of :: "string \<Rightarrow> string" where
  "lock_name_of target = ''.'' @ target @ ''.lock''"

definition with_exclusive_lock_inner ::
  "(string \<Rightarrow> string) \<Rightarrow> string \<Rightarrow> bool \<Rightarrow> 'a dir_op \<Rightarrow> 'a dir_op" where
  "with_exclusive_lock_inner esc target cleanup_if_absent operation d =
     (case validate_name esc target of
        Inl e \<Rightarrow> (Inl e, d)
      | Inr target \<Rightarrow>
          let lock_name = lock_name_of target in
          dir_bind (acquire_stable_lock (lock_script d) lock_name True d) (\<lambda>locked d.
          if \<not> locked then (Inl (RuntimeError ''trusted state lock unexpectedly disappeared''), d)
          else
            (case operation d of
               (result, d) \<Rightarrow>
                 if cleanup_if_absent \<and> is_ok result
                 then dir_bind (entry_exists target d) (\<lambda>exists d.
                   if exists then (result, d)
                   else dir_bind (with_path (io_at d lock_name) (unlink_at lock_name d)) (\<lambda>_ d.
                        dir_bind (with_path (Io (td_path d)) (descriptor_call d)) (\<lambda>_ d.
                          (result, d))))
                 else (result, d))))"

definition with_exclusive_lock :: "(string \<Rightarrow> string) \<Rightarrow> string \<Rightarrow> 'a dir_op \<Rightarrow> 'a dir_op" where
  "with_exclusive_lock esc target operation = with_exclusive_lock_inner esc target False operation"

definition with_exclusive_lock_and_cleanup :: "(string \<Rightarrow> string) \<Rightarrow> string \<Rightarrow> 'a dir_op \<Rightarrow> 'a dir_op" where
  "with_exclusive_lock_and_cleanup esc target operation = with_exclusive_lock_inner esc target True operation"

definition lock_exclusive :: "(string \<Rightarrow> string) \<Rightarrow> string \<Rightarrow> unit dir_op" where
  "lock_exclusive esc target d =
     (case validate_name esc target of
        Inl e \<Rightarrow> (Inl e, d)
      | Inr target \<Rightarrow>
          dir_bind (acquire_stable_lock (lock_script d) (lock_name_of target) True d) (\<lambda>locked d.
            if locked then (Inr (), d)
            else (Inl (RuntimeError ''trusted lock unexpectedly disappeared''), d)))"

text \<open>The temporary name of an atomic write; \<open>next_temp\<close> draws its identifier.\<close>

definition next_temp :: "TrustedDirectory \<Rightarrow> string \<times> TrustedDirectory" where
  "next_temp d = (case temp_ids d of [] \<Rightarrow> ([], d) | t # ts \<Rightarrow> (t, d\<lparr>temp_ids := ts\<rparr>))"

definition temporary_name :: "string \<Rightarrow> string \<Rightarrow> string" where
  "temporary_name name uuid = ''.'' @ name @ ''.'' @ uuid @ ''.tmp''"

definition write_temporary :: "string \<Rightarrow> string \<Rightarrow> u8 list \<Rightarrow> u32 \<Rightarrow> unit dir_op" where
  "write_temporary temporary name bytes mode d =
     dir_bind (with_path (io_at d temporary) (set_permissions temporary mode d)) (\<lambda>_ d.
     dir_bind (with_path (io_at d temporary) (write_all temporary bytes d)) (\<lambda>_ d.
     dir_bind (with_path (io_at d temporary) (descriptor_call d)) (\<lambda>_ d.
     dir_bind (with_path (io_at d name) (rename_at temporary name d)) (\<lambda>_ d.
       with_path (Io (td_path d)) (descriptor_call d)))))"

definition write_atomic :: "(string \<Rightarrow> string) \<Rightarrow> string \<Rightarrow> u8 list \<Rightarrow> u32 \<Rightarrow> unit dir_op" where
  "write_atomic esc name bytes mode d =
     (case validate_name esc name of
        Inl e \<Rightarrow> (Inl e, d)
      | Inr name \<Rightarrow>
          dir_bind (reject_non_regular_target name d) (\<lambda>_ d.
          (case next_temp d of (uuid, d) \<Rightarrow>
            let temporary = temporary_name name uuid in
            dir_bind (with_path (map_open_error d temporary) (open_exclusive temporary mode d)) (\<lambda>_ d.
              (case write_temporary temporary name bytes mode d of
                 (Inl e, d) \<Rightarrow> (Inl e, snd (unlink_at temporary d))
               | (Inr _, d) \<Rightarrow> (Inr (), d))))))"

definition remove_unlocked :: "(string \<Rightarrow> string) \<Rightarrow> string \<Rightarrow> unit dir_op" where
  "remove_unlocked esc name d =
     (case validate_name esc name of
        Inl e \<Rightarrow> (Inl e, d)
      | Inr name \<Rightarrow>
          dir_bind (reject_non_regular_target name d) (\<lambda>_ d.
          (case unlink_at name d of
             (Inr _, d) \<Rightarrow> with_path (Io (td_path d)) (descriptor_call d)
           | (Inl e, d') \<Rightarrow> if e = ENOENT then (Inr (), d') else (Inl (io_at d name e), d'))))"

definition remove_with_lock :: "(string \<Rightarrow> string) \<Rightarrow> string \<Rightarrow> unit dir_op" where
  "remove_with_lock esc name = with_exclusive_lock_and_cleanup esc name (remove_unlocked esc name)"

text \<open>The names that are valid UTF-8 (\<open>utf8\<close>), in the order of the directory.\<close>

definition entry_names :: "(string \<Rightarrow> bool) \<Rightarrow> string list dir_op" where
  "entry_names utf8 d =
     dir_bind (with_path (Io (td_path d)) (descriptor_call d)) (\<lambda>_ d.
       (Inr (filter utf8 (map fst (td_entries d))), d))"

section \<open>Opening the state root\<close>

definition validate_directory :: "Inode \<Rightarrow> string \<Rightarrow> u32 \<Rightarrow> NspawnError + unit" where
  "validate_directory i path expected_uid =
     (if i_kind i \<noteq> DirectoryFile \<or> i_uid i \<noteq> expected_uid \<or> i_mode i AND 18 \<noteq> 0
      then Inl (ValidationError (''trusted state directory must be owned by uid '' @
             show_nat (unat expected_uid) @ '' and not group/world writable: '' @ path))
      else Inr ())"

text \<open>The components of the root's path: absolute, and nothing but plain names.\<close>

definition root_components :: "string \<Rightarrow> NspawnError + string list" where
  "root_components path =
     (if \<not> is_absolute path
      then Inl (ValidationError (''trusted state root must be absolute: '' @ path))
      else
        try_map (\<lambda>c. case c of
            Normal name \<Rightarrow> Inr name
          | _ \<Rightarrow> Inl (ValidationError (''trusted state root contains an unsafe component: '' @ path)))
          (filter (\<lambda>c. c \<noteq> RootDir) (components path)))"

section \<open>What the calls do to the entries\<close>

lemma entry_set_entry [simp]: "entry (set_entry n i d) = (entry d)(n \<mapsto> i)"
  by (simp add: entry_def set_entry_def fun_eq_iff)

lemma entry_delete_entry [simp]: "entry (delete_entry n d) = (entry d)(n := None)"
  by (simp add: entry_def delete_entry_def fun_eq_iff)

lemma entry_frame [simp]:
  "entry (d\<lparr>faults := fs\<rparr>) = entry d" "entry (d\<lparr>lock_script := ls\<rparr>) = entry d"
  "entry (d\<lparr>temp_ids := ts\<rparr>) = entry d"
  by (simp_all add: entry_def fun_eq_iff)

text \<open>Owner, place and effective user never change.\<close>

definition same_place :: "TrustedDirectory \<Rightarrow> TrustedDirectory \<Rightarrow> bool" where
  "same_place d d' \<longleftrightarrow> td_path d' = td_path d \<and> td_expected_uid d' = td_expected_uid d
     \<and> td_process_uid d' = td_process_uid d"

lemma same_place_simps [simp]:
  "same_place d d" "same_place d (set_entry n i d')= same_place d d'"
  "same_place d (delete_entry n d') = same_place d d'" "same_place d (d'\<lparr>faults := fs\<rparr>) = same_place d d'"
  "same_place d (d'\<lparr>lock_script := ls\<rparr>) = same_place d d'" "same_place d (d'\<lparr>temp_ids := ts\<rparr>) = same_place d d'"
  by (simp_all add: same_place_def set_entry_def delete_entry_def)

lemma same_place_trans: "same_place a b \<Longrightarrow> same_place b c \<Longrightarrow> same_place a c"
  by (simp add: same_place_def)

lemma same_place_uid: "same_place d d' \<Longrightarrow> td_process_uid d' = td_process_uid d"
  by (simp add: same_place_def)

lemma syscall_cases:
  obtains (Fault) n d' where "syscall f d = (Inl (EOTHER n), d')" "entry d' = entry d" "same_place d d'"
    | (Ran) d' where "syscall f d = f d'" "entry d' = entry d" "same_place d d'"
proof (cases "faults d")
  case Nil
  then show thesis by (intro Ran [of d]) (simp_all add: syscall_def next_fault_def)
next
  case (Cons x fs)
  then show thesis
    by (cases x) (auto intro: Fault [of _ "d\<lparr>faults := fs\<rparr>"] Ran [of "d\<lparr>faults := fs\<rparr>"]
        simp: syscall_def next_fault_def)
qed

lemma descriptor_call_entry:
  "descriptor_call d = (r, d') \<Longrightarrow> entry d' = entry d \<and> same_place d d'"
  unfolding descriptor_call_def by (cases rule: syscall_cases [of "\<lambda>d. (Inr (), d)" d]) auto

lemma set_permissions_entry:
  assumes "set_permissions n m d = (r, d')"
  shows "same_place d d' \<and> (entry d' = entry d \<and> is_ok r = False \<or>
    entry d' = (entry d)(n := map_option (\<lambda>i. i\<lparr>i_mode := m\<rparr>) (entry d n)) \<and> is_ok r)"
proof -
  let ?f = "\<lambda>d. (Inr (), case entry d n of None \<Rightarrow> d | Some i \<Rightarrow> set_entry n (i\<lparr>i_mode := m\<rparr>) d)"
  show ?thesis
    by (cases rule: syscall_cases [of ?f d]; cases "entry d n")
      (use assms in \<open>auto simp: set_permissions_def fun_upd_idem\<close>)
qed

lemma write_all_entry:
  assumes "write_all n bytes d = (r, d')" and "entry d n = Some i"
  shows "same_place d d' \<and> (is_ok r \<and> entry d' = (entry d)(n \<mapsto> i\<lparr>i_bytes := i_bytes i @ bytes\<rparr>) \<or>
    \<not> is_ok r \<and> (\<exists>k. entry d' = (entry d)(n \<mapsto> i\<lparr>i_bytes := i_bytes i @ take k bytes\<rparr>)))"
proof (cases "faults d")
  case Nil
  with assms show ?thesis by (auto simp: write_all_def next_fault_def)
next
  case (Cons x fs)
  with assms show ?thesis by (cases x) (auto simp: write_all_def next_fault_def)
qed

lemma rename_at_entry:
  assumes "rename_at old new d = (r, d')"
  shows "same_place d d' \<and> (\<not> is_ok r \<and> entry d' = entry d \<or>
    is_ok r \<and> (\<exists>i. entry d old = Some i \<and> entry d' = (entry d)(new \<mapsto> i, old := None)))"
proof -
  let ?f = "\<lambda>d. case entry d old of None \<Rightarrow> (Inl ENOENT, d)
    | Some i \<Rightarrow> (Inr (), delete_entry old (set_entry new i d))"
  show ?thesis
    by (cases rule: syscall_cases [of ?f d]; cases "entry d old") (use assms in \<open>auto simp: rename_at_def\<close>)
qed

lemma unlink_at_entry:
  assumes "unlink_at n d = (r, d')"
  shows "same_place d d' \<and> (\<not> is_ok r \<and> entry d' = entry d \<or>
    is_ok r \<and> entry d n \<noteq> None \<and> entry d' = (entry d)(n := None)) \<and> (r = Inl ENOENT \<longrightarrow> entry d n = None)"
proof -
  let ?f = "\<lambda>d. case entry d n of None \<Rightarrow> (Inl ENOENT, d)
    | Some i \<Rightarrow> if i_kind i = DirectoryFile then (Inl EISDIR, d) else (Inr (), delete_entry n d)"
  show ?thesis
    by (cases rule: syscall_cases [of ?f d]; cases "entry d n") (use assms in \<open>auto simp: unlink_at_def split: if_splits\<close>)
qed

lemma open_exclusive_entry:
  assumes "open_exclusive n m d = (r, d')"
  shows "same_place d d' \<and> (\<not> is_ok r \<and> entry d' = entry d \<or>
    is_ok r \<and> entry d n = None \<and> entry d' = (entry d)(n \<mapsto>
      \<lparr>i_kind = RegularFile, i_bytes = [], i_uid = td_process_uid d, i_mode = m\<rparr>))"
proof -
  let ?f = "\<lambda>d. case entry d n of Some _ \<Rightarrow> (Inl EEXIST, d)
    | None \<Rightarrow> (Inr (), set_entry n \<lparr>i_kind = RegularFile, i_bytes = [], i_uid = td_process_uid d, i_mode = m\<rparr> d)"
  show ?thesis
    by (cases rule: syscall_cases [of ?f d]; cases "entry d n")
      (use assms in \<open>auto simp: open_exclusive_def same_place_uid\<close>)
qed

lemma stat_at_entry:
  assumes "stat_at n d = (r, d')"
  shows "same_place d d' \<and> entry d' = entry d \<and> (r = Inl ENOENT \<and> entry d n = None \<or> (\<exists>e. r = Inl (EOTHER e)) \<or> (\<exists>i. r = Inr i \<and> entry d n = Some i))"
proof -
  let ?f = "\<lambda>d. (case entry d n of None \<Rightarrow> Inl ENOENT | Some i \<Rightarrow> Inr i, d)"
  show ?thesis
    by (cases rule: syscall_cases [of ?f d]; cases "entry d n") (use assms in \<open>auto simp: stat_at_def\<close>)
qed

lemma dir_bind_split:
  "dir_bind m f = (r, d') \<longleftrightarrow>
     (\<exists>e d. m = (Inl e, d) \<and> r = Inl e \<and> d' = d) \<or> (\<exists>x d. m = (Inr x, d) \<and> f x d = (r, d'))"
  by (cases m; cases "fst m") auto

lemma with_path_split:
  "with_path g m = (r, d') \<longleftrightarrow> (\<exists>r0. m = (r0, d') \<and> r = map_err g r0)"
  by (cases m) (auto simp: with_path_def)

lemma is_ok_map_err [simp]: "is_ok (map_err g r) = is_ok r"
  by (cases r) auto

lemma map_err_Inl: "map_err g r = Inl e \<longleftrightarrow> (\<exists>e'. r = Inl e' \<and> e = g e')"
  by (cases r) auto

definition new_file :: "TrustedDirectory \<Rightarrow> u8 list \<Rightarrow> u32 \<Rightarrow> Inode" where
  "new_file d bytes mode = \<lparr>i_kind = RegularFile, i_bytes = bytes, i_uid = td_process_uid d, i_mode = mode\<rparr>"

text \<open>A temporary file was left behind.\<close>

definition leaves_temp ::
  "(string \<Rightarrow> Inode option) \<Rightarrow> string \<Rightarrow> (string \<Rightarrow> Inode option) \<Rightarrow> bool" where
  "leaves_temp e temp e' \<longleftrightarrow> (\<exists>j. i_kind j = RegularFile \<and> e' = e(temp \<mapsto> j))"

lemma leaves_temp_new [simp, intro]: "leaves_temp e temp (e(temp \<mapsto> new_file d b m))"
  unfolding leaves_temp_def by (rule exI [of _ "new_file d b m"]) (simp add: new_file_def)

lemma leaves_temp_same: "e temp = Some (new_file d b m) \<Longrightarrow> leaves_temp e temp e"
  using leaves_temp_new [of e temp d b m] by (simp add: fun_upd_idem)

lemma leaves_temp_upd [simp]: "leaves_temp (e(temp \<mapsto> i)) temp e' = leaves_temp e temp e'"
  by (simp add: leaves_temp_def)

lemma leaves_temp_removed: "leaves_temp e temp e' \<Longrightarrow> e temp = None \<Longrightarrow> e'(temp := None) = e"
  by (auto simp: leaves_temp_def fun_upd_idem)

lemma write_temporary_entry:
  assumes "write_temporary temp name bytes mode d = (r, d')" and "temp \<noteq> name"
    and "entry d temp = Some (new_file d [] mode)"
  shows "same_place d d' \<and>
    (entry d' = (entry d)(name \<mapsto> new_file d bytes mode, temp := None)
     \<or> \<not> is_ok r \<and> leaves_temp (entry d) temp (entry d'))"
proof -
  obtain r1 d1 where 1: "set_permissions temp mode d = (r1, d1)" by force
  from set_permissions_entry [OF 1] assms(3)
  have e1: "same_place d d1" "entry d1 = entry d"
    by (auto simp: new_file_def fun_upd_idem split: if_splits)
  show ?thesis
  proof (cases r1)
    case (Inl e)
    with assms 1 e1 show ?thesis
      by (auto simp: write_temporary_def with_path_def leaves_temp_same)
  next
    case r1: (Inr u)
    obtain r2 d2 where 2: "write_all temp bytes d1 = (r2, d2)" by force
    from write_all_entry [OF 2, of "new_file d [] mode"] assms(3) e1
    have e2: "same_place d d2" "is_ok r2 \<and> entry d2 = (entry d)(temp \<mapsto> new_file d bytes mode) \<or>
      \<not> is_ok r2 \<and> (\<exists>k. entry d2 = (entry d)(temp \<mapsto> new_file d (take k bytes) mode))"
      by (auto simp: new_file_def intro: same_place_trans)
    show ?thesis
    proof (cases r2)
      case (Inl e)
      with e2(2) obtain k where "entry d2 = (entry d)(temp \<mapsto> new_file d (take k bytes) mode)" by auto
      moreover have "r = Inl (io_at d1 temp e)" "d' = d2"
        using assms(1) 1 r1 2 Inl by (auto simp: write_temporary_def with_path_def)
      ultimately show ?thesis
        using e2(1) by auto
    next
      case r2: (Inr u)
      with e2 have e2': "entry d2 = (entry d)(temp \<mapsto> new_file d bytes mode)" by auto
      obtain r3 d3 where 3: "descriptor_call d2 = (r3, d3)" by force
      note e3 = descriptor_call_entry [OF 3]
      obtain r4 d4 where 4: "rename_at temp name d3 = (r4, d4)" by force
      note e4 = rename_at_entry [OF 4]
      obtain r5 d5 where 5: "descriptor_call d4 = (r5, d5)" by force
      note e5 = descriptor_call_entry [OF 5]
      have res: "write_temporary temp name bytes mode d =
        (if is_ok r3 then (if is_ok r4 then (map_err (Io (td_path d4)) r5, d5) else (map_err (io_at d3 name) r4, d4) )
         else (map_err (io_at d2 temp) r3, d3))"
        using 1 r1 2 r2 3 4 5
        by (cases r3; cases r4) (auto simp: write_temporary_def with_path_def)
      have "entry d3 = (entry d)(temp \<mapsto> new_file d bytes mode)" "same_place d d3"
        using e2' e3 e2(1) same_place_trans by auto
      moreover have "same_place d d4" "same_place d d5"
        using calculation(2) e4 e5 same_place_trans by blast+
      ultimately show ?thesis
        using assms(1,2) e4 e5 unfolding res
        by (auto simp: fun_upd_twist split: if_splits)
    qed
  qed
qed

lemma temporary_name_neq: "temporary_name name uuid \<noteq> name"
proof
  assume "temporary_name name uuid = name"
  then have "length (temporary_name name uuid) = length name" by simp
  then show False by (simp add: temporary_name_def)
qed

lemma next_temp_frame:
  "next_temp d = (t, d') \<Longrightarrow> entry d' = entry d \<and> same_place d d'"
  by (auto simp: next_temp_def split: list.splits)

lemma reject_non_regular_entry:
  "reject_non_regular_target n d = (r, d') \<Longrightarrow> entry d' = entry d \<and> same_place d d'"
  by (cases "stat_at n d") (auto simp: reject_non_regular_target_def dest!: stat_at_entry split: sum.splits if_splits)

text \<open>The effect of an atomic write on the entries, whatever call fails.\<close>

lemma write_atomic_entry:
  assumes "write_atomic esc name bytes mode d = (r, d')"
  shows "same_place d d' \<and>
    (entry d' = entry d \<and> \<not> is_ok r
     \<or> (\<exists>temp uuid. temp = temporary_name name uuid \<and> entry d temp = None \<and>
         (entry d' = (entry d)(name \<mapsto> new_file d bytes mode)
          \<or> \<not> is_ok r \<and> leaves_temp (entry d) temp (entry d'))))"
proof (cases "validate_name esc name")
  case (Inl e)
  with assms show ?thesis by (auto simp: write_atomic_def)
next
  case (Inr n)
  then have n: "n = name" by (auto simp: validate_name_def split: if_splits)
  obtain r1 d1 where 1: "reject_non_regular_target name d = (r1, d1)" by force
  note e1 = reject_non_regular_entry [OF 1]
  obtain uuid d2 where 2: "next_temp d1 = (uuid, d2)" by force
  note e2 = next_temp_frame [OF 2]
  let ?temp = "temporary_name name uuid"
  obtain r3 d3 where 3: "open_exclusive ?temp mode d2 = (r3, d3)" by force
  note e3 = open_exclusive_entry [OF 3]
  obtain r4 d4 where 4: "write_temporary ?temp name bytes mode d3 = (r4, d4)" by force
  obtain r5 d5 where 5: "unlink_at ?temp d4 = (r5, d5)" by force
  note e5 = unlink_at_entry [OF 5]
  have place: "same_place d d1" "same_place d d2" "same_place d d3"
    using e1 e2 e3 same_place_trans by blast+
  have ent: "entry d2 = entry d" using e1 e2 by simp
  show ?thesis
  proof (cases "is_ok r1 \<and> is_ok r3")
    case False
    with assms 1 2 3 Inr n have "\<not> is_ok r" "d' = d1 \<or> d' = d3 \<and> \<not> is_ok r3"
      by (cases r1; cases r3; auto simp: write_atomic_def with_path_def Let_def)+
    then show ?thesis using e1 ent e3 place by auto
  next
    case True
    then have open3: "entry d ?temp = None" "entry d3 = (entry d)(?temp \<mapsto> new_file d3 [] mode)"
      using e3 ent place by (auto simp: new_file_def same_place_def)
    from write_temporary_entry [OF 4 temporary_name_neq] open3
    have e4: "same_place d3 d4" "entry d4 = (entry d3)(name \<mapsto> new_file d3 bytes mode, ?temp := None)
      \<or> \<not> is_ok r4 \<and> leaves_temp (entry d3) ?temp (entry d4)" by auto
    have nf: "new_file d3 bytes mode = new_file d bytes mode"
      using place(3) by (simp add: new_file_def same_place_def)
    have "(entry d3)(name \<mapsto> x, ?temp := None) = (entry d)(name \<mapsto> x)" for x
      using open3 temporary_name_neq [of name uuid] by (auto simp: fun_eq_iff)
    with e4(2) nf open3(2) have e4':  "entry d4 = (entry d)(name \<mapsto> new_file d bytes mode)
      \<or> \<not> is_ok r4 \<and> leaves_temp (entry d) ?temp (entry d4)" by auto
    have "(r, d') = (if is_ok r4 then (Inr (), d4) else (r4, d5))"
      using assms 1 2 3 4 5 Inr n True
      by (cases r1; cases r3; cases r4) (auto simp: write_atomic_def with_path_def Let_def)
    moreover have "entry d5 = entry d4 \<or> entry d5 = (entry d4)(?temp := None)" using e5 by blast
    moreover have "((entry d)(name \<mapsto> x))(?temp := None) = (entry d)(name \<mapsto> x)"
      for x
      using open3(1) temporary_name_neq [of name uuid] by (auto simp: fun_eq_iff)
    moreover have "same_place d d4" "same_place d d5"
      using place(3) e4(1) e5 same_place_trans by blast+
    ultimately show ?thesis
      using e4' open3(1) temporary_name_neq [of name uuid] leaves_temp_removed [of "entry d" ?temp]
      by (auto split: if_splits)
  qed
qed

lemma remove_unlocked_entry:
  assumes "remove_unlocked esc name d = (r, d')"
  shows "same_place d d' \<and> (entry d' = entry d \<or> entry d' = (entry d)(name := None))
    \<and> (is_ok r \<longrightarrow> entry d' = (entry d)(name := None))"
proof (cases "validate_name esc name")
  case (Inl e)
  with assms show ?thesis by (auto simp: remove_unlocked_def)
next
  case (Inr n)
  then have n: "n = name" by (auto simp: validate_name_def split: if_splits)
  obtain r1 d1 where 1: "reject_non_regular_target name d = (r1, d1)" by force
  note e1 = reject_non_regular_entry [OF 1]
  obtain r2 d2 where 2: "unlink_at name d1 = (r2, d2)" by force
  note e2 = unlink_at_entry [OF 2]
  obtain r3 d3 where 3: "descriptor_call d2 = (r3, d3)" by force
  note e3 = descriptor_call_entry [OF 3]
  have place: "same_place d d1" "same_place d d2" "same_place d d3"
    using e1 e2 e3 same_place_trans by blast+
  have "(r, d') = (if \<not> is_ok r1 then (r1, d1) else if is_ok r2 then (map_err (Io (td_path d2)) r3, d3)
    else if r2 = Inl ENOENT then (Inr (), d2) else (map_err (io_at d1 name) r2, d2))"
    using assms 1 2 3 Inr n by (cases r1; cases r2) (auto simp: remove_unlocked_def with_path_def)
  then show ?thesis
    using e1 e2 e3 place by (cases "entry d name") (auto simp: fun_upd_idem split: if_splits)
qed

subsection \<open>Locks\<close>

lemma open_lock_entry:
  assumes "open_lock n create d = (r, d')"
  shows "same_place d d' \<and> (entry d' = entry d \<or> entry d n = None
    \<and> entry d' = (entry d)(n \<mapsto> new_file d [] LOCK_MODE))
    \<and> (\<forall>i. r = Inr i \<longrightarrow> entry d' n = Some i)"
proof -
  let ?f = "\<lambda>d. case entry d n of
      Some i \<Rightarrow> (if i_kind i = SymlinkFile then Inl ELOOP
           else if i_kind i = DirectoryFile then Inl EISDIR else Inr i, d)
    | None \<Rightarrow> if create
          then let i = \<lparr>i_kind = RegularFile, i_bytes = [], i_uid = td_process_uid d,
                        i_mode = LOCK_MODE\<rparr> in (Inr i, set_entry n i d)
          else (Inl ENOENT, d)"
  show ?thesis
    by (cases rule: syscall_cases [of ?f d]; cases "entry d n")
      (use assms in \<open>auto simp: open_lock_def new_file_def same_place_uid Let_def split: if_splits\<close>)
qed

definition only_changes :: "string \<Rightarrow> TrustedDirectory \<Rightarrow> TrustedDirectory \<Rightarrow> bool" where
  "only_changes n d d' \<longleftrightarrow> same_place d d' \<and> (\<forall>m. m \<noteq> n \<longrightarrow> entry d' m = entry d m)"

lemma only_changes_refl: "only_changes n d d"
  by (simp add: only_changes_def)

lemma only_changes_trans: "only_changes n a b \<Longrightarrow> only_changes n b c \<Longrightarrow> only_changes n a c"
  by (auto simp: only_changes_def intro: same_place_trans)

lemma only_changes_same: "same_place d d' \<Longrightarrow> entry d' = entry d \<Longrightarrow> only_changes n d d'"
  by (simp add: only_changes_def)

lemma lock_attempt_changes:
  assumes "lock_attempt n create d = (r, d')"
  shows "only_changes n d d'"
proof -
  obtain r1 d1 where 1: "open_lock n create d = (r1, d1)" by force
  then have c1: "only_changes n d d1" using open_lock_entry [OF 1] by (auto simp: only_changes_def)
  obtain r2 d2 where 2: "descriptor_call d1 = (r2, d2)" by force
  then have c2: "only_changes n d1 d2" using descriptor_call_entry by (blast intro: only_changes_same)
  obtain r3 d3 where 3: "set_permissions n LOCK_MODE d2 = (r3, d3)" by force
  then have c3: "only_changes n d2 d3" using set_permissions_entry [OF 3] by (auto simp: only_changes_def)
  have "d' \<in> {d1, d2, d3}"
    using assms 1 2 3 by (cases r1; cases r2; cases r3)
      (auto simp: lock_attempt_def with_path_def split: if_splits)
  with c1 c2 c3 show ?thesis using only_changes_trans by blast
qed

lemma acquire_stable_lock_changes:
  "acquire_stable_lock as n create d = (r, d') \<Longrightarrow> only_changes n d d'"
proof (induction as n create d arbitrary: r d' rule: acquire_stable_lock.induct)
  case (1 n create d)
  then have "only_changes n (d\<lparr>lock_script := []\<rparr>) d'" by (intro lock_attempt_changes) simp
  then show ?case by (simp add: only_changes_def same_place_def)
next
  case (2 a as n create d)
  obtain r1 d1 where 1: "lock_attempt n create (d\<lparr>lock_script := as\<rparr>) = (r1, d1)" by force
  from lock_attempt_changes [OF 1] have c: "only_changes n d d1" by (simp add: only_changes_def same_place_def)
  show ?case
  proof (cases "r1 = Inr True \<and> (a = Contended \<or> a = Replaced)")
    case True
    with 2(3) 1 have "acquire_stable_lock as n create d1 = (r, d')" by auto
    with True 2(1,2) have "only_changes n d1 d'" by blast
    with c show ?thesis by (rule only_changes_trans)
  next
    case False
    with 2(3) 1 have "d' = d1"
      by (cases r1; cases a) (auto split: if_splits)
    with c show ?thesis by simp
  qed
qed

text \<open>
  The critical section runs in a directory that differs from the outer one at most in the lock file,
  and the cleanup afterwards touches the lock file only.
\<close>

lemma with_lock_cases:
  assumes "with_exclusive_lock_inner esc target cleanup operation d = (r, d')"
  obtains (Refused) "\<not> is_ok r" "only_changes (lock_name_of target) d d'"
    | (Ran) d1 r2 d2 where "validate_name esc target = Inr target"
      "only_changes (lock_name_of target) d d1" "operation d1 = (r2, d2)"
      "only_changes (lock_name_of target) d2 d'" "r = r2 \<or> cleanup \<and> is_ok r2 \<and> \<not> is_ok r"
proof (cases "validate_name esc target")
  case (Inl e)
  with assms show thesis by (intro Refused) (auto simp: with_exclusive_lock_inner_def only_changes_refl)
next
  case (Inr n)
  then have n: "n = target" by (auto simp: validate_name_def split: if_splits)
  let ?l = "lock_name_of target"
  obtain r1 d1 where 1: "acquire_stable_lock (lock_script d) ?l True d = (r1, d1)" by force
  note c1 = acquire_stable_lock_changes [OF 1]
  show thesis
  proof (cases "r1 = Inr True")
    case False
    with assms 1 Inr n have "\<not> is_ok r" "d' = d1"
      by (cases r1; auto simp: with_exclusive_lock_inner_def Let_def)+
    with c1 show thesis by (intro Refused) auto
  next
    case True
    obtain r2 d2 where 2: "operation d1 = (r2, d2)" by force
    obtain r3 d3 where 3: "stat_at target d2 = (r3, d3)" by force
    note e3 = stat_at_entry [OF 3]
    obtain r4 d4 where 4: "unlink_at ?l d3 = (r4, d4)" by force
    note e4 = unlink_at_entry [OF 4]
    obtain r5 d5 where 5: "descriptor_call d4 = (r5, d5)" by force
    note e5 = descriptor_call_entry [OF 5]
    have c: "only_changes ?l d2 d3" "only_changes ?l d3 d4" "only_changes ?l d4 d5"
      using e3 e4 e5 by (auto simp: only_changes_def)
    have "(r, d') \<in> {(r2, d2), (r2, d3), (r2, d5)} \<or>
      cleanup \<and> is_ok r2 \<and> \<not> is_ok r \<and> d' \<in> {d3, d4, d5}"
      using assms 1 True 2 3 4 5 Inr n
      by (cases r3; cases r4; cases r5)
        (auto simp: with_exclusive_lock_inner_def Let_def entry_exists_def with_path_def split: if_splits)
    moreover have "only_changes ?l d2 d2" by (rule only_changes_refl)
    ultimately have "only_changes ?l d2 d'" "r = r2 \<or> cleanup \<and> is_ok r2 \<and> \<not> is_ok r"
      using c only_changes_trans by blast+
    then show thesis using Ran [OF _ c1 2] Inr n by blast
  qed
qed

subsection \<open>Reads\<close>

lemma open_read_entry:
  assumes "open_read n d = (r, d')"
  shows "same_place d d' \<and> entry d' = entry d \<and> (r = Inl ENOENT \<longrightarrow> entry d n = None)
    \<and> (\<forall>i. r = Inr i \<longrightarrow> entry d n = Some i)"
proof -
  let ?f = "\<lambda>d. (case entry d n of None \<Rightarrow> Inl ENOENT
    | Some i \<Rightarrow> if i_kind i = SymlinkFile then Inl ELOOP else Inr i, d)"
  show ?thesis
    by (cases rule: syscall_cases [of ?f d]; cases "entry d n") (use assms in \<open>auto simp: open_read_def split: if_splits\<close>)
qed

lemma read_bounded_entry:
  assumes "read_bounded esc name max_bytes d = (r, d')"
  shows "same_place d d' \<and> entry d' = entry d
    \<and> (r = Inr None \<longrightarrow> entry d name = None)
    \<and> (\<forall>f. r = Inr (Some f) \<longrightarrow> (\<exists>i. entry d name = Some i \<and> i_kind i = RegularFile
          \<and> length (i_bytes i) \<le> max_bytes
          \<and> f = \<lparr>tf_bytes = i_bytes i, tf_uid = i_uid i, tf_mode = i_mode i AND 4095\<rparr>))"
proof (cases "validate_name esc name")
  case (Inl e)
  with assms show ?thesis by (auto simp: read_bounded_def)
next
  case (Inr n)
  then have n: "n = name" by (auto simp: validate_name_def split: if_splits)
  obtain r1 d1 where 1: "open_read name d = (r1, d1)" by force
  note e1 = open_read_entry [OF 1]
  obtain r2 d2 where 2: "descriptor_call d1 = (r2, d2)" by force
  note e2 = descriptor_call_entry [OF 2]
  obtain r3 d3 where 3: "descriptor_call d2 = (r3, d3)" by force
  note e3 = descriptor_call_entry [OF 3]
  have d': "d' \<in> {d1, d2, d3}"
    using assms 1 2 3 Inr n by (cases r1; cases r2; cases r3)
      (auto simp: read_bounded_def with_path_def split: if_splits)
  have "same_place d d1" "same_place d d2" "same_place d d3"
    using e1 e2 e3 same_place_trans by blast+
  with d' e1 e2 e3 have "same_place d d'" "entry d' = entry d" by auto
  moreover have "r = Inr None \<longrightarrow> r1 = Inl ENOENT"
    using assms 1 2 3 Inr n by (cases r1; cases r2; cases r3)
      (auto simp: read_bounded_def with_path_def split: if_splits)
  moreover have "\<exists>i. r1 = Inr i \<and> i_kind i = RegularFile \<and> length (i_bytes i) \<le> max_bytes
      \<and> f = \<lparr>tf_bytes = i_bytes i, tf_uid = i_uid i, tf_mode = i_mode i AND 4095\<rparr>" if "r = Inr (Some f)" for f
    using that assms 1 2 3 Inr n by (cases r1; cases r2; cases r3)
      (auto simp: read_bounded_def with_path_def split: if_splits)
  ultimately show ?thesis using e1 by fastforce
qed

lemma no_faults_descriptor: "faults d = [] \<Longrightarrow> descriptor_call d = (Inr (), d)"
  by (simp add: descriptor_call_def syscall_def next_fault_def)

lemma no_faults_read:
  assumes "faults d = []" and "validate_name esc name = Inr name" and "entry d name = Some i"
    and "i_kind i = RegularFile" and "length (i_bytes i) \<le> max_bytes"
  shows "read_bounded esc name max_bytes d =
    (Inr (Some \<lparr>tf_bytes = i_bytes i, tf_uid = i_uid i, tf_mode = i_mode i AND 4095\<rparr>), d)"
proof -
  have "open_read name d = (Inr i, d)"
    using assms by (simp add: open_read_def syscall_def next_fault_def)
  then show ?thesis
    using assms no_faults_descriptor [OF assms(1)] by (simp add: read_bounded_def with_path_def)
qed

lemma no_faults_read_absent:
  assumes "faults d = []" and "validate_name esc name = Inr name" and "entry d name = None"
  shows "read_bounded esc name max_bytes d = (Inr None, d)"
  using assms by (simp add: read_bounded_def open_read_def syscall_def next_fault_def)

section \<open>Properties\<close>

text \<open>
  C6. An atomic write is all or nothing, whichever system calls fail and wherever it is interrupted:
  afterwards the target is what it was or the complete new file, never a part of it; on success it
  is the new file; and no other entry changes but for one temporary file that did not exist before.
\<close>

theorem atomic_write_all_or_nothing:
  "case write_atomic esc name bytes mode d of
     (r, d') \<Rightarrow>
       (entry d' name = entry d name \<or> entry d' name = Some (new_file d bytes mode))
       \<and> (is_ok r \<longrightarrow> entry d' = (entry d)(name \<mapsto> new_file d bytes mode))
       \<and> (\<exists>temp. (entry d temp = None \<or> entry d' temp = entry d temp)
            \<and> (\<forall>n. n \<noteq> name \<and> n \<noteq> temp \<longrightarrow> entry d' n = entry d n))"
proof -
  obtain r d' where w: "write_atomic esc name bytes mode d = (r, d')" by force
  have lt: "leaves_temp (entry d) temp (entry d') \<Longrightarrow> n \<noteq> temp \<Longrightarrow> entry d' n = entry d n" for temp n
    by (auto simp: leaves_temp_def)
  from write_atomic_entry [OF w] temporary_name_neq consider "entry d' = entry d" "\<not> is_ok r"
    | temp where "temp \<noteq> name" "entry d temp = None" "entry d' = (entry d)(name \<mapsto> new_file d bytes mode)"
    | temp where "temp \<noteq> name" "entry d temp = None" "\<not> is_ok r" "leaves_temp (entry d) temp (entry d')"
    by blast
  then show ?thesis
  proof cases
    case (3 temp)
    then have "entry d' name = entry d name" using lt by auto
    with 3 lt show ?thesis unfolding w by auto
  qed (auto simp: w)
qed

definition example_dir :: TrustedDirectory where
  "example_dir =
     \<lparr>td_path = ''/var/lib/lasper/deployments'', td_expected_uid = 0, td_process_uid = 0,
      td_entries = [(''a.json'', \<lparr>i_kind = RegularFile, i_bytes = [1], i_uid = 0, i_mode = 384\<rparr>)],
      faults = [None, None, None, Some 1], lock_script = [], temp_ids = [''00'']\<rparr>"

theorem atomic_write_all_or_nothing_witness:
  "entry (snd (write_atomic (\<lambda>s. s) ''a.json'' [2, 3] 384 example_dir)) ''a.json'' =
     Some \<lparr>i_kind = RegularFile, i_bytes = [1], i_uid = 0, i_mode = 384\<rparr>"
proof -
  obtain r d' where w: "write_atomic (\<lambda>s. s) ''a.json'' [2, 3] 384 example_dir = (r, d')" by force
  have "entry (snd (write_atomic (\<lambda>s. s) ''a.json'' [2, 3] 384 example_dir)) ''a.json'' \<noteq>
    Some (new_file example_dir [2, 3] 384)"
    by code_simp
  with atomic_write_all_or_nothing [where esc = "\<lambda>s. s" and name = "''a.json''" and bytes = "[2, 3]"
      and mode = 384 and d = example_dir] w
  have "entry d' ''a.json'' = entry example_dir ''a.json''" by auto
  moreover have "entry example_dir ''a.json'' =
    Some \<lparr>i_kind = RegularFile, i_bytes = [1], i_uid = 0, i_mode = 384\<rparr>"
    by (simp add: entry_def example_dir_def)
  ultimately show ?thesis by (simp add: w)
qed

text \<open>
  What was written is what is read: after a successful atomic write of at most \<open>max_bytes\<close> bytes, a
  read that meets no error returns these bytes, with the writer's user and the mode.
\<close>

lemma trusted_write_read:
  assumes "write_atomic esc name bytes mode d = (Inr (), d')"
    and "length bytes \<le> max_bytes" and "faults d' = []"
  shows "read_bounded esc name max_bytes d' =
    (Inr (Some \<lparr>tf_bytes = bytes, tf_uid = td_process_uid d, tf_mode = mode AND 4095\<rparr>), d')"
proof -
  have "validate_name esc name = Inr name"
    using assms(1) by (auto simp: write_atomic_def validate_name_def split: if_splits)
  moreover have "entry d' name = Some (new_file d bytes mode)"
    using write_atomic_entry [OF assms(1)] by auto
  ultimately show ?thesis
    using no_faults_read [of d' esc name] assms(2,3) by (simp add: new_file_def)
qed

lemma trusted_write_read_witness:
  "fst (read_bounded (\<lambda>s. s) ''a.json'' 2 (snd (write_atomic (\<lambda>s. s) ''a.json'' [2, 3] 384
      (example_dir\<lparr>faults := []\<rparr>)))) =
     Inr (Some \<lparr>tf_bytes = [2, 3], tf_uid = 0, tf_mode = 384\<rparr>)"
proof -
  let ?d = "example_dir\<lparr>faults := []\<rparr>"
  let ?d' = "snd (write_atomic (\<lambda>s. s) ''a.json'' [2, 3] 384 ?d)"
  have "fst (write_atomic (\<lambda>s. s) ''a.json'' [2, 3] 384 ?d) = Inr ()" by code_simp
  then have w: "write_atomic (\<lambda>s. s) ''a.json'' [2, 3] 384 ?d = (Inr (), ?d')"
    by (metis prod.collapse)
  have "faults ?d' = []" by code_simp
  from trusted_write_read [OF w _ this, of 2] show ?thesis by (simp add: example_dir_def)
qed

end
