(* ===== verification/Deployment_Store.thy ===== *)
theory Deployment_Store
  imports Deployment_State Trusted_State
begin

text \<open>
  The durable store of crash manifests (\<open>src/adapters/provisioning/state.rs\<close>): one file per
  deployment in the trusted state directory, written under a lock and compared by revision. The
  store refines a map from deployments to manifests, and the session of \<open>Deployment_State\<close> is
  verified against that contract.
\<close>

declare map_of_eq_Some_iff [simp del]

section \<open>The filesystem store\<close>

text \<open>
  What comes from other packages: \<open>serde_json\<close> on manifests, the text of a UUID, the \<open>Debug\<close> escape,
  the text of a system error and the test for valid UTF-8.
\<close>

record StoreEnv =
  se_to_json :: "DeploymentCrashManifest \<Rightarrow> string + u8 list"
  se_from_json :: "u8 list \<Rightarrow> string + DeploymentCrashManifest"
  se_uuid :: "128 word \<Rightarrow> string"
  se_esc :: "string \<Rightarrow> string"
  se_io_text :: "Errno \<Rightarrow> string"
  se_utf8 :: "string \<Rightarrow> bool"

definition MAX_DEPLOYMENT_MANIFEST_BYTES :: nat where
  "MAX_DEPLOYMENT_MANIFEST_BYTES = 512 * 1024"

fun id_text :: "StoreEnv \<Rightarrow> DeploymentId \<Rightarrow> string" where
  "id_text env (DeploymentId u) = se_uuid env u"

definition manifest_name :: "StoreEnv \<Rightarrow> DeploymentId \<Rightarrow> string" where
  "manifest_name env did = ''deployment-'' @ id_text env did @ ''.json''"

definition state_conflict :: "string \<Rightarrow> NspawnError" where
  "state_conflict message = RuntimeError (''deployment state conflict: '' @ message)"

fun state_error_to_nspawn :: "DeploymentStateError \<Rightarrow> NspawnError" where
  "state_error_to_nspawn (Invalid message) = ValidationError message"
| "state_error_to_nspawn (Conflict message) = state_conflict message"
| "state_error_to_nspawn (StateUnavailable message) = RuntimeError message"

text \<open>\<open>trim_start_matches\<close> removes the prefix as often as it occurs.\<close>

function trim_start_matches :: "string \<Rightarrow> string \<Rightarrow> string" where
  "trim_start_matches p s =
     (if p = [] then s
      else case strip_prefix s p of None \<Rightarrow> s | Some t \<Rightarrow> trim_start_matches p t)"
  by pat_completeness auto

termination
  by (relation "measure (\<lambda>(p, s). length s)") (auto simp: strip_prefix_Some)

declare trim_start_matches.simps [simp del]

definition map_state_error :: "StoreEnv \<Rightarrow> NspawnError \<Rightarrow> DeploymentStateError" where
  "map_state_error env e =
     (case e of
        ValidationError message \<Rightarrow> Invalid message
      | RuntimeError message \<Rightarrow>
          if starts_with message ''deployment state conflict: ''
          then Conflict (trim_start_matches ''deployment state conflict: '' message)
          else StateUnavailable (nspawn_error_text (se_io_text env) e)
      | _ \<Rightarrow> StateUnavailable (nspawn_error_text (se_io_text env) e))"

definition serialize_manifest ::
  "StoreEnv \<Rightarrow> DeploymentCrashManifest \<Rightarrow> DeploymentStateError + u8 list" where
  "serialize_manifest env m =
     and_then (map_err (\<lambda>e. Invalid (''could not serialize deployment manifest: '' @ e)) (se_to_json env m))
       (\<lambda>bytes.
          if length bytes > MAX_DEPLOYMENT_MANIFEST_BYTES
          then Inl (Invalid (''deployment manifest exceeds '' @ show_nat MAX_DEPLOYMENT_MANIFEST_BYTES @ '' bytes''))
          else Inr bytes)"

type_synonym 'a store_op = "TrustedDirectory \<Rightarrow> (DeploymentStateError + 'a) \<times> TrustedDirectory"

definition decode_manifest ::
  "StoreEnv \<Rightarrow> TrustedDirectory \<Rightarrow> string \<Rightarrow> TrustedFile \<Rightarrow> DeploymentStateError + DeploymentCrashManifest" where
  "decode_manifest env d name file =
     (if tf_uid file \<noteq> td_expected_uid d \<or> tf_mode file \<noteq> 384
      then Inl (Invalid (''deployment manifest has unsafe ownership or mode: '' @ name))
      else and_then
        (map_err (\<lambda>e. Invalid (''deployment manifest is not valid typed JSON ('' @ name @ ''): '' @ e))
           (se_from_json env (tf_bytes file)))
        (\<lambda>m. and_then (manifest_validate m) (\<lambda>_. Inr m)))"

definition read_manifest :: "StoreEnv \<Rightarrow> string \<Rightarrow> DeploymentCrashManifest option store_op" where
  "read_manifest env name d =
     (case read_bounded (se_esc env) name MAX_DEPLOYMENT_MANIFEST_BYTES d of
        (Inl e, d') \<Rightarrow> (Inl (map_state_error env e), d')
      | (Inr None, d') \<Rightarrow> (Inr None, d')
      | (Inr (Some file), d') \<Rightarrow> (map_sum id Some (decode_manifest env d name file), d'))"

definition store_error :: "StoreEnv \<Rightarrow> (NspawnError + 'a) \<times> TrustedDirectory \<Rightarrow>
    (DeploymentStateError + 'a) \<times> TrustedDirectory" where
  "store_error env r = (map_err (map_state_error env) (fst r), snd r)"

definition fs_create :: "StoreEnv \<Rightarrow> DeploymentCrashManifest \<Rightarrow> unit store_op" where
  "fs_create env m d =
     (case manifest_validate m of
        Inl e \<Rightarrow> (Inl e, d)
      | Inr _ \<Rightarrow>
          let name = manifest_name env (mf_deployment_id m) in
          (case serialize_manifest env m of
             Inl e \<Rightarrow> (Inl e, d)
           | Inr bytes \<Rightarrow>
               store_error env (with_exclusive_lock (se_esc env) name (\<lambda>d.
                 (case read_manifest env name d of
                    (Inl e, d) \<Rightarrow> (Inl (state_error_to_nspawn e), d)
                  | (Inr (Some _), d) \<Rightarrow>
                      (Inl (state_conflict (''deployment '' @ id_text env (mf_deployment_id m) @
                         '' already has a crash manifest'')), d)
                  | (Inr None, d) \<Rightarrow> write_atomic (se_esc env) name bytes 384 d)) d)))"

text \<open>The check under the lock that \<open>update\<close> and \<open>remove\<close> share.\<close>

definition check_current ::
  "StoreEnv \<Rightarrow> DeploymentId \<Rightarrow> u64 \<Rightarrow> string \<Rightarrow> TrustedDirectory \<Rightarrow> (NspawnError + unit) \<times> TrustedDirectory" where
  "check_current env did expected_revision name d =
     (case read_manifest env name d of
        (Inl e, d) \<Rightarrow> (Inl (state_error_to_nspawn e), d)
      | (Inr None, d) \<Rightarrow>
          (Inl (state_conflict (''deployment '' @ id_text env did @ '' crash manifest is missing'')), d)
      | (Inr (Some current), d) \<Rightarrow>
          if mf_deployment_id current \<noteq> did \<or> mf_revision current \<noteq> expected_revision
          then (Inl (state_conflict (''deployment '' @ id_text env did @
                  '' crash manifest changed from revision '' @ show_nat (unat expected_revision))), d)
          else (Inr (), d))"

definition fs_update :: "StoreEnv \<Rightarrow> u64 \<Rightarrow> DeploymentCrashManifest \<Rightarrow> unit store_op" where
  "fs_update env expected_revision m d =
     (case manifest_validate m of
        Inl e \<Rightarrow> (Inl e, d)
      | Inr _ \<Rightarrow>
          if mf_revision m \<noteq> saturating_add expected_revision 1
          then (Inl (Invalid (''manifest revision '' @ show_nat (unat (mf_revision m)) @
                  '' does not follow expected revision '' @ show_nat (unat expected_revision))), d)
          else
            let name = manifest_name env (mf_deployment_id m) in
            (case serialize_manifest env m of
               Inl e \<Rightarrow> (Inl e, d)
             | Inr bytes \<Rightarrow>
                 store_error env (with_exclusive_lock (se_esc env) name (\<lambda>d.
                   dir_bind (check_current env (mf_deployment_id m) expected_revision name d) (\<lambda>_ d.
                     write_atomic (se_esc env) name bytes 384 d)) d)))"

definition fs_remove :: "StoreEnv \<Rightarrow> DeploymentId \<Rightarrow> u64 \<Rightarrow> unit store_op" where
  "fs_remove env did expected_revision d =
     (let name = manifest_name env did in
      store_error env (with_exclusive_lock_and_cleanup (se_esc env) name (\<lambda>d.
        dir_bind (check_current env did expected_revision name d) (\<lambda>_ d.
          remove_unlocked (se_esc env) name d)) d))"

fun collect_manifests :: "StoreEnv \<Rightarrow> string list \<Rightarrow> DeploymentCrashManifest list store_op" where
  "collect_manifests env [] d = (Inr [], d)"
| "collect_manifests env (name # names) d =
     (if \<not> starts_with name ''deployment-'' \<or> \<not> ends_with name ''.json''
      then collect_manifests env names d
      else
        (case read_manifest env name d of
           (Inl e, d) \<Rightarrow> (Inl e, d)
         | (Inr None, d) \<Rightarrow>
             (Inl (StateUnavailable (''deployment manifest disappeared while listing: '' @ name)), d)
         | (Inr (Some m), d) \<Rightarrow>
             if name \<noteq> manifest_name env (mf_deployment_id m)
             then (Inl (Invalid (''deployment manifest filename does not match its typed id: '' @ name)), d)
             else
               (case collect_manifests env names d of
                  (Inl e, d) \<Rightarrow> (Inl e, d)
                | (Inr ms, d) \<Rightarrow> (Inr (m # ms), d))))"

fun id_word :: "DeploymentId \<Rightarrow> 128 word" where
  "id_word (DeploymentId u) = u"

definition fs_unfinished :: "StoreEnv \<Rightarrow> DeploymentCrashManifest list store_op" where
  "fs_unfinished env d =
     (case entry_names (se_utf8 env) d of
        (Inl e, d) \<Rightarrow> (Inl (map_state_error env e), d)
      | (Inr names, d) \<Rightarrow>
          (case collect_manifests env names d of
             (Inl e, d) \<Rightarrow> (Inl e, d)
           | (Inr ms, d) \<Rightarrow> (Inr (sort_key (\<lambda>m. id_word (mf_deployment_id m)) ms), d)))"

definition fs_port :: "StoreEnv \<Rightarrow> TrustedDirectory StatePort" where
  "fs_port env = \<lparr>port_create = fs_create env, port_update = fs_update env, port_remove = fs_remove env\<rparr>"

section \<open>The store behind the privileged daemon\<close>

text \<open>An unprivileged process reaches the store through an RPC to the daemon, \<open>rpc\<close>.\<close>

datatype DeploymentStateOperation =
    StateCreate DeploymentCrashManifest
  | StateUpdate u64 DeploymentCrashManifest
  | StateRemove DeploymentId u64
  | StateList

record DeploymentStateResult =
  sr_manifests :: "DeploymentCrashManifest list"
  sr_error :: "DeploymentStateError option"

definition state_result_default :: DeploymentStateResult where
  "state_result_default = \<lparr>sr_manifests = [], sr_error = None\<rparr>"

definition state_result_failure :: "DeploymentStateError \<Rightarrow> DeploymentStateResult" where
  "state_result_failure e = \<lparr>sr_manifests = [], sr_error = Some e\<rparr>"

definition into_result :: "DeploymentStateResult \<Rightarrow> DeploymentStateError + DeploymentStateResult" where
  "into_result res = (case sr_error res of Some e \<Rightarrow> Inl e | None \<Rightarrow> Inr res)"

fun execute_deployment_state_operation ::
  "StoreEnv \<Rightarrow> DeploymentStateOperation \<Rightarrow> DeploymentStateResult store_op" where
  "execute_deployment_state_operation env (StateCreate m) d =
     (case fs_create env m d of (r, d') \<Rightarrow> (and_then r (\<lambda>_. Inr state_result_default), d'))"
| "execute_deployment_state_operation env (StateUpdate expected m) d =
     (case fs_update env expected m d of (r, d') \<Rightarrow> (and_then r (\<lambda>_. Inr state_result_default), d'))"
| "execute_deployment_state_operation env (StateRemove did expected) d =
     (case fs_remove env did expected d of (r, d') \<Rightarrow> (and_then r (\<lambda>_. Inr state_result_default), d'))"
| "execute_deployment_state_operation env StateList d =
     (case fs_unfinished env d of
        (r, d') \<Rightarrow> (and_then r (\<lambda>ms. Inr \<lparr>sr_manifests = ms, sr_error = None\<rparr>), d'))"

text \<open>The daemon's handler turns an error into a result that carries it.\<close>

definition serve_state_operation ::
  "StoreEnv \<Rightarrow> DeploymentStateOperation \<Rightarrow> TrustedDirectory \<Rightarrow> DeploymentStateResult \<times> TrustedDirectory" where
  "serve_state_operation env operation d =
     (case execute_deployment_state_operation env operation d of
        (Inl e, d') \<Rightarrow> (state_result_failure e, d')
      | (Inr res, d') \<Rightarrow> (res, d'))"

type_synonym state_rpc =
  "DeploymentStateOperation \<Rightarrow> TrustedDirectory \<Rightarrow> (string + DeploymentStateResult) \<times> TrustedDirectory"

definition elevated_execute ::
  "state_rpc \<Rightarrow> DeploymentStateOperation \<Rightarrow> DeploymentStateResult store_op" where
  "elevated_execute rpc operation d =
     (case rpc operation d of
        (r, d') \<Rightarrow> (and_then (map_err StateUnavailable r) into_result, d'))"

definition discard_result :: "(DeploymentStateError + 'a) \<times> 's \<Rightarrow> (DeploymentStateError + unit) \<times> 's" where
  "discard_result r = (and_then (fst r) (\<lambda>_. Inr ()), snd r)"

definition elevated_port :: "state_rpc \<Rightarrow> TrustedDirectory StatePort" where
  "elevated_port rpc =
     \<lparr>port_create = (\<lambda>m d. discard_result (elevated_execute rpc (StateCreate m) d)),
      port_update = (\<lambda>expected m d. discard_result (elevated_execute rpc (StateUpdate expected m) d)),
      port_remove = (\<lambda>did expected d. discard_result (elevated_execute rpc (StateRemove did expected) d))\<rparr>"

definition elevated_unfinished :: "state_rpc \<Rightarrow> DeploymentCrashManifest list store_op" where
  "elevated_unfinished rpc d =
     (case elevated_execute rpc StateList d of (r, d') \<Rightarrow> (and_then r (\<lambda>res. Inr (sr_manifests res)), d'))"

section \<open>The contract of a state port\<close>

text \<open>
  A compare-and-swap on the stored map: a success has met its condition and replaced the entry; a
  failure has changed nothing, or met the condition and replaced the entry all the same.
\<close>

definition cas_effect ::
  "bool \<Rightarrow> ('k \<Rightarrow> 'v option) \<Rightarrow> 'k \<Rightarrow> 'v option \<Rightarrow> bool \<Rightarrow> ('k \<Rightarrow> 'v option) \<Rightarrow> bool" where
  "cas_effect condition store key new success store' \<longleftrightarrow>
     \<not> success \<and> store' = store \<or> condition \<and> store' = store(key := new)"

definition current_is :: "(DeploymentId \<Rightarrow> DeploymentCrashManifest option) \<Rightarrow> DeploymentId \<Rightarrow> u64 \<Rightarrow> bool" where
  "current_is store did expected \<longleftrightarrow> (\<exists>m. store did = Some m \<and> mf_deployment_id m = did \<and> mf_revision m = expected)"

locale manifest_store =
  fixes stored :: "'s \<Rightarrow> DeploymentId \<Rightarrow> DeploymentCrashManifest option"
    and port :: "'s StatePort"
    and usable :: "'s \<Rightarrow> bool"
  assumes create_law: "usable s \<Longrightarrow> port_create port m s = (r, s') \<Longrightarrow> usable s' \<and>
      cas_effect (stored s (mf_deployment_id m) = None \<and> manifest_validate m = Inr ())
        (stored s) (mf_deployment_id m) (Some m) (is_ok r) (stored s')"
    and update_law: "usable s \<Longrightarrow> port_update port expected m s = (r, s') \<Longrightarrow> usable s' \<and>
      cas_effect (current_is (stored s) (mf_deployment_id m) expected \<and> manifest_validate m = Inr ()
          \<and> mf_revision m = saturating_add expected 1)
        (stored s) (mf_deployment_id m) (Some m) (is_ok r) (stored s')"
    and remove_law: "usable s \<Longrightarrow> port_remove port did expected s = (r, s') \<Longrightarrow> usable s' \<and>
      cas_effect (current_is (stored s) did expected) (stored s) did None (is_ok r) (stored s')"
begin

lemma prepare_stores:
  assumes "usable s" and "session_prepare port current s = (r, s')"
  shows "usable s' \<and> (stored s' = stored s \<and> \<not> is_ok r
    \<or> stored s (mf_deployment_id current) = None \<and> stored s' = (stored s)(mf_deployment_id current \<mapsto> current))"
  using create_law [OF assms(1), of current r s'] assms(2)
  by (auto simp: session_prepare_def cas_effect_def)

lemma transition_stores:
  assumes "usable s" and "session_transition port state ledger current s = (r, current', s')"
  shows "usable s'" and "mf_deployment_id current' = mf_deployment_id current"
    and "is_ok r \<Longrightarrow> current_is (stored s) (mf_deployment_id current) (mf_revision current)
      \<and> stored s' = (stored s)(mf_deployment_id current \<mapsto> current')
      \<and> unat (mf_revision current') = Suc (unat (mf_revision current))
      \<and> mf_state current' = state \<and> committed_ledger current' = ledger \<and> manifest_validate current' = Inr ()"
    and "\<not> is_ok r \<Longrightarrow> current' = current \<and> (stored s' = stored s
      \<or> current_is (stored s) (mf_deployment_id current) (mf_revision current)
        \<and> (\<exists>m. stored s' = (stored s)(mf_deployment_id current \<mapsto> m) \<and> mf_state m = state
             \<and> committed_ledger m = ledger \<and> mf_deployment_id m = mf_deployment_id current))"
proof -
  let ?id = "mf_deployment_id current"
  have "usable s' \<and> mf_deployment_id current' = ?id
    \<and> (is_ok r \<longrightarrow> current_is (stored s) ?id (mf_revision current) \<and> stored s' = (stored s)(?id \<mapsto> current')
      \<and> unat (mf_revision current') = Suc (unat (mf_revision current))
      \<and> mf_state current' = state \<and> committed_ledger current' = ledger \<and> manifest_validate current' = Inr ())
    \<and> (\<not> is_ok r \<longrightarrow> current' = current \<and> (stored s' = stored s
      \<or> current_is (stored s) ?id (mf_revision current)
        \<and> (\<exists>m. stored s' = (stored s)(?id \<mapsto> m) \<and> mf_state m = state
             \<and> committed_ledger m = ledger \<and> mf_deployment_id m = ?id)))"
  proof (cases "checked_add (mf_revision current) 1")
    case None
    with assms show ?thesis by (auto simp: session_transition_def)
  next
    case (Some n)
    let ?next = "current\<lparr>mf_revision := n, mf_state := state, committed_ledger := ledger\<rparr>"
    obtain r1 s1 where 1: "port_update port (mf_revision current) ?next s = (r1, s1)" by force
    have eq: "(r, current', s') = (case r1 of Inl e \<Rightarrow> (Inl e, current, s1) | Inr _ \<Rightarrow> (Inr (), ?next, s1))"
      unfolding assms(2) [symmetric] session_transition_def Some by (simp add: Let_def 1 split: sum.split)
    have res: "r = r1" "s' = s1" "current' = (if is_ok r1 then ?next else current)"
      using eq by (cases r1; simp)+
    have "unat n = Suc (unat (mf_revision current))"
      using checked_add_unat [OF Some] by simp
    note u = update_law [OF assms(1) 1, unfolded cas_effect_def]
    have m: "mf_deployment_id ?next = ?id" "mf_state ?next = state" "committed_ledger ?next = ledger"
      "mf_revision ?next = n" by simp_all
    show ?thesis
    proof (cases "is_ok r1")
      case True
      with u m \<open>unat n = _\<close> show ?thesis unfolding res by auto
    next
      case False
      have "stored s1 = stored s \<or> current_is (stored s) ?id (mf_revision current)
        \<and> stored s1 = (stored s)(?id \<mapsto> ?next)" using u m(1) by metis
      then have "stored s1 = stored s \<or> current_is (stored s) ?id (mf_revision current)
        \<and> (\<exists>m. stored s1 = (stored s)(?id \<mapsto> m) \<and> mf_state m = state
             \<and> committed_ledger m = ledger \<and> mf_deployment_id m = ?id)" using m by blast
      with u False show ?thesis unfolding res by simp
    qed
  qed
  then show "usable s'" "mf_deployment_id current' = mf_deployment_id current"
    and "is_ok r \<Longrightarrow> current_is (stored s) ?id (mf_revision current)
      \<and> stored s' = (stored s)(?id \<mapsto> current') \<and> unat (mf_revision current') = Suc (unat (mf_revision current))
      \<and> mf_state current' = state \<and> committed_ledger current' = ledger \<and> manifest_validate current' = Inr ()"
    and "\<not> is_ok r \<Longrightarrow> current' = current \<and> (stored s' = stored s
      \<or> current_is (stored s) ?id (mf_revision current)
        \<and> (\<exists>m. stored s' = (stored s)(?id \<mapsto> m) \<and> mf_state m = state
             \<and> committed_ledger m = ledger \<and> mf_deployment_id m = ?id))" by blast+
qed

text \<open>A session that is behind the store changes nothing.\<close>

lemma stale_transition:
  assumes "usable s" and "session_transition port state ledger current s = (r, current', s')"
    and "\<not> current_is (stored s) (mf_deployment_id current) (mf_revision current)"
  shows "\<not> is_ok r \<and> stored s' = stored s"
  using transition_stores(3,4) [OF assms(1,2)] assms(3) by blast

lemma finish_removes:
  assumes "usable s" and "session_finish port current s = (r, s')"
  shows "usable s' \<and> (is_ok r \<longrightarrow> stored s' = (stored s)(mf_deployment_id current := None))
    \<and> (stored s' = stored s \<or> stored s' = (stored s)(mf_deployment_id current := None))
    \<and> (\<not> current_is (stored s) (mf_deployment_id current) (mf_revision current) \<longrightarrow>
         \<not> is_ok r \<and> stored s' = stored s)"
  using remove_law [OF assms(1), of "mf_deployment_id current" "mf_revision current" r s'] assms(2)
  by (auto simp: session_finish_def cas_effect_def)

end

section \<open>The filesystem store keeps the contract\<close>

definition stored_at :: "StoreEnv \<Rightarrow> TrustedDirectory \<Rightarrow> string \<Rightarrow> DeploymentCrashManifest option" where
  "stored_at env d name =
     (case entry d name of
        None \<Rightarrow> None
      | Some i \<Rightarrow>
          if i_kind i \<noteq> RegularFile \<or> length (i_bytes i) > MAX_DEPLOYMENT_MANIFEST_BYTES then None
          else (case decode_manifest env d name
                   \<lparr>tf_bytes = i_bytes i, tf_uid = i_uid i, tf_mode = i_mode i AND 4095\<rparr> of
                  Inl _ \<Rightarrow> None | Inr m \<Rightarrow> Some m))"

definition fs_stored :: "StoreEnv \<Rightarrow> TrustedDirectory \<Rightarrow> DeploymentId \<Rightarrow> DeploymentCrashManifest option" where
  "fs_stored env d did = stored_at env d (manifest_name env did)"

text \<open>The process runs as the owner of the state directory.\<close>

definition fs_usable :: "TrustedDirectory \<Rightarrow> bool" where
  "fs_usable d \<longleftrightarrow> td_process_uid d = td_expected_uid d"

locale store_env =
  fixes env :: StoreEnv
  assumes json_roundtrip: "se_to_json env m = Inr bytes \<Longrightarrow> se_from_json env bytes = Inr m"
    and uuid_text_inj: "se_uuid env u = se_uuid env v \<Longrightarrow> u = v"
    and names_are_utf8: "se_utf8 env (manifest_name env did)"

lemma stored_at_place:
  "same_place d d' \<Longrightarrow> entry d' name = entry d name \<Longrightarrow> stored_at env d' name = stored_at env d name"
  by (cases "entry d name") (simp_all add: stored_at_def decode_manifest_def same_place_def)

lemma fs_usable_place: "same_place d d' \<Longrightarrow> fs_usable d' = fs_usable d"
  by (auto simp: fs_usable_def same_place_def)

lemma manifest_name_neq [simp]:
  "manifest_name env did \<noteq> lock_name_of n" "manifest_name env did \<noteq> temporary_name n t"
  by (simp_all add: manifest_name_def lock_name_of_def temporary_name_def)

lemma stored_lock_frame:
  "only_changes (lock_name_of n) d d' \<Longrightarrow> fs_stored env d' = fs_stored env d"
  by (auto simp: fs_stored_def only_changes_def fun_eq_iff intro!: stored_at_place)

lemma stored_temp_frame:
  assumes "same_place d d'" and "leaves_temp (entry d) (temporary_name n t) (entry d')"
  shows "fs_stored env d' = fs_stored env d"
  using assms by (auto simp: fs_stored_def leaves_temp_def fun_eq_iff intro!: stored_at_place)

lemma stored_same: "same_place d d' \<Longrightarrow> entry d' = entry d \<Longrightarrow> fs_stored env d' = fs_stored env d"
  by (auto simp: fs_stored_def fun_eq_iff intro!: stored_at_place)

lemma read_manifest_stored:
  assumes "read_manifest env name d = (r, d')"
  shows "same_place d d' \<and> entry d' = entry d \<and> (r = Inr None \<longrightarrow> entry d name = None)
    \<and> (\<forall>m. r = Inr (Some m) \<longrightarrow> stored_at env d name = Some m)"
proof -
  obtain r1 d1 where 1: "read_bounded (se_esc env) name MAX_DEPLOYMENT_MANIFEST_BYTES d = (r1, d1)" by force
  note e = read_bounded_entry [OF 1]
  show ?thesis
  proof (cases r1)
    case (Inl x)
    with assms 1 e show ?thesis by (auto simp: read_manifest_def)
  next
    case (Inr f)
    show ?thesis
    proof (cases f)
      case None
      with assms 1 e Inr show ?thesis by (auto simp: read_manifest_def)
    next
      case (Some f0)
      have d': "d' = d1" "r = map_sum id Some (decode_manifest env d name f0)"
        using assms 1 Inr Some by (auto simp: read_manifest_def)
      with e Inr Some show ?thesis
        by (cases "decode_manifest env d name f0") (auto simp: stored_at_def)
    qed
  qed
qed

lemma serialize_manifest_ok:
  "serialize_manifest env m = Inr bytes \<longleftrightarrow>
     se_to_json env m = Inr bytes \<and> length bytes \<le> MAX_DEPLOYMENT_MANIFEST_BYTES"
  by (cases "se_to_json env m") (auto simp: serialize_manifest_def simp del: and_then_eq_Inr)

lemma check_current_stored:
  assumes "check_current env did expected (manifest_name env did) d = (r, d')"
  shows "same_place d d' \<and> entry d' = entry d \<and> (is_ok r \<longrightarrow> current_is (fs_stored env d) did expected)"
proof -
  obtain r1 d1 where 1: "read_manifest env (manifest_name env did) d = (r1, d1)" by force
  note e = read_manifest_stored [OF 1]
  show ?thesis
  proof (cases "\<exists>m. r1 = Inr (Some m)")
    case True
    then obtain m where m: "r1 = Inr (Some m)" by blast
    then have "fs_stored env d did = Some m" using e by (simp add: fs_stored_def)
    with assms 1 m e show ?thesis
      by (auto simp: check_current_def current_is_def split: if_splits)
  next
    case False
    with assms 1 e show ?thesis
      by (cases r1) (auto simp: check_current_def split: option.splits)
  qed
qed

context store_env
begin

lemma manifest_name_inj: "manifest_name env a = manifest_name env b \<longleftrightarrow> a = b"
  by (cases a; cases b) (auto simp: manifest_name_def dest: uuid_text_inj)

lemma stored_written:
  assumes "fs_usable d" and "same_place d d'"
    and "entry d' = (entry d)(manifest_name env (mf_deployment_id m) \<mapsto> new_file d bytes 384)"
    and "serialize_manifest env m = Inr bytes" and "manifest_validate m = Inr ()"
  shows "fs_stored env d' = (fs_stored env d)(mf_deployment_id m \<mapsto> m)"
proof
  fix did
  show "fs_stored env d' did = ((fs_stored env d)(mf_deployment_id m \<mapsto> m)) did"
  proof (cases "did = mf_deployment_id m")
    case True
    have "se_from_json env bytes = Inr m"
      using assms(4) json_roundtrip by (simp add: serialize_manifest_ok)
    with assms True show ?thesis
      by (simp add: fs_stored_def stored_at_def new_file_def decode_manifest_def fs_usable_def
          same_place_def serialize_manifest_ok)
  next
    case False
    then have "entry d' (manifest_name env did) = entry d (manifest_name env did)"
      using assms(3) manifest_name_inj by simp
    with False show ?thesis using stored_at_place [OF assms(2)] by (simp add: fs_stored_def)
  qed
qed

lemma write_stores:
  assumes "write_atomic esc (manifest_name env (mf_deployment_id m)) bytes 384 d = (r, d')"
    and "fs_usable d" and "serialize_manifest env m = Inr bytes" and "manifest_validate m = Inr ()"
  shows "same_place d d' \<and> (\<not> is_ok r \<and> fs_stored env d' = fs_stored env d
    \<or> fs_stored env d' = (fs_stored env d)(mf_deployment_id m \<mapsto> m))"
proof -
  note w = write_atomic_entry [OF assms(1)]
  then have p: "same_place d d'" by blast
  from w consider "entry d' = entry d" "\<not> is_ok r"
    | "entry d' = (entry d)(manifest_name env (mf_deployment_id m) \<mapsto> new_file d bytes 384)"
    | t where "\<not> is_ok r"
        "leaves_temp (entry d) (temporary_name (manifest_name env (mf_deployment_id m)) t) (entry d')"
    by blast
  then show ?thesis
    using p stored_same [OF p] stored_written [OF assms(2) p _ assms(3,4)] stored_temp_frame [OF p]
    by cases auto
qed

text \<open>A critical section on the manifest's file, seen from outside the lock.\<close>

lemma locked_effect:
  assumes "fs_usable d"
    and "store_error env (with_exclusive_lock_inner esc (manifest_name env did) cleanup operation d) = (r, d')"
    and "\<And>d1 r2 d2. fs_usable d1 \<Longrightarrow> fs_stored env d1 = fs_stored env d \<Longrightarrow> operation d1 = (r2, d2) \<Longrightarrow>
      fs_usable d2 \<and> cas_effect P (fs_stored env d) did new (is_ok r2) (fs_stored env d2)"
  shows "fs_usable d' \<and> cas_effect P (fs_stored env d) did new (is_ok r) (fs_stored env d')"
proof -
  obtain r0 where r0: "with_exclusive_lock_inner esc (manifest_name env did) cleanup operation d = (r0, d')"
    "is_ok r = is_ok r0"
    using assms(2) by (cases "with_exclusive_lock_inner esc (manifest_name env did) cleanup operation d")
      (auto simp: store_error_def)
  from r0(1) show ?thesis
  proof (cases rule: with_lock_cases)
    case Refused
    then show ?thesis
      using assms(1) r0(2) stored_lock_frame [OF Refused(2)] fs_usable_place
      by (auto simp: cas_effect_def only_changes_def)
  next
    case (Ran d1 r2 d2)
    have "fs_usable d1" "fs_stored env d1 = fs_stored env d"
      using assms(1) Ran(2) stored_lock_frame [OF Ran(2)] fs_usable_place by (auto simp: only_changes_def)
    with Ran(3) assms(3) have "fs_usable d2 \<and> cas_effect P (fs_stored env d) did new (is_ok r2) (fs_stored env d2)"
      by blast
    then show ?thesis
      using Ran(4,5) r0(2) stored_lock_frame [OF Ran(4)] fs_usable_place
      by (auto simp: cas_effect_def only_changes_def)
  qed
qed

lemma fs_create_law:
  assumes "fs_usable d" and "fs_create env m d = (r, d')"
  shows "fs_usable d' \<and> cas_effect (fs_stored env d (mf_deployment_id m) = None \<and> manifest_validate m = Inr ())
    (fs_stored env d) (mf_deployment_id m) (Some m) (is_ok r) (fs_stored env d')"
proof (cases "manifest_validate m = Inr () \<and> (\<exists>bytes. serialize_manifest env m = Inr bytes)")
  case False
  then consider e where "manifest_validate m = Inl e"
    | e where "manifest_validate m = Inr ()" "serialize_manifest env m = Inl e"
    by (metis (full_types) old.unit.exhaust sum.exhaust)
  then have "d' = d \<and> \<not> is_ok r"
    using assms(2) by cases (auto simp: fs_create_def Let_def is_ok_iff)
  with assms(1) show ?thesis by (simp add: cas_effect_def)
next
  case True
  then obtain bytes where b: "manifest_validate m = Inr ()" "serialize_manifest env m = Inr bytes" by blast
  let ?n = "manifest_name env (mf_deployment_id m)"
  let ?op = "\<lambda>d. case read_manifest env ?n d of
      (Inl e, d) \<Rightarrow> (Inl (state_error_to_nspawn e), d)
    | (Inr (Some _), d) \<Rightarrow>
        (Inl (state_conflict (''deployment '' @ id_text env (mf_deployment_id m) @
           '' already has a crash manifest'')), d)
    | (Inr None, d) \<Rightarrow> write_atomic (se_esc env) ?n bytes 384 d"
  have eq: "store_error env (with_exclusive_lock_inner (se_esc env) ?n False ?op d) = (r, d')"
    using assms(2) b by (simp add: fs_create_def with_exclusive_lock_def Let_def)
  show ?thesis
  proof (rule locked_effect [OF assms(1) eq])
    fix d1 r2 d2
    assume d1: "fs_usable d1" "fs_stored env d1 = fs_stored env d" and op: "?op d1 = (r2, d2)"
    obtain r3 d3 where 3: "read_manifest env ?n d1 = (r3, d3)" by force
    note e3 = read_manifest_stored [OF 3]
    then have same: "fs_stored env d3 = fs_stored env d" "fs_usable d3"
      using d1 stored_same fs_usable_place by auto
    show "fs_usable d2 \<and> cas_effect (fs_stored env d (mf_deployment_id m) = None \<and> manifest_validate m = Inr ())
      (fs_stored env d) (mf_deployment_id m) (Some m) (is_ok r2) (fs_stored env d2)"
    proof (cases "r3 = Inr None")
      case True
      with op 3 have w: "write_atomic (se_esc env) ?n bytes 384 d3 = (r2, d2)" by simp
      have "entry d1 ?n = None" using True e3 by blast
      then have "fs_stored env d1 (mf_deployment_id m) = None" by (simp add: fs_stored_def stored_at_def)
      then have "fs_stored env d (mf_deployment_id m) = None" using d1(2) by simp
      with write_stores [OF w same(2) b(2,1)] same b(1) fs_usable_place show ?thesis
        unfolding cas_effect_def by auto
    next
      case False
      with op 3 have "d2 = d3 \<and> \<not> is_ok r2" by (auto split: sum.splits option.splits)
      with same show ?thesis by (simp add: cas_effect_def)
    qed
  qed
qed

lemma fs_update_law:
  assumes "fs_usable d" and "fs_update env expected m d = (r, d')"
  shows "fs_usable d' \<and> cas_effect (current_is (fs_stored env d) (mf_deployment_id m) expected
      \<and> manifest_validate m = Inr () \<and> mf_revision m = saturating_add expected 1)
    (fs_stored env d) (mf_deployment_id m) (Some m) (is_ok r) (fs_stored env d')"
proof (cases "manifest_validate m = Inr () \<and> mf_revision m = saturating_add expected 1
    \<and> (\<exists>bytes. serialize_manifest env m = Inr bytes)")
  case False
  then consider e where "manifest_validate m = Inl e"
    | "manifest_validate m = Inr ()" "mf_revision m \<noteq> saturating_add expected 1"
    | e where "manifest_validate m = Inr ()" "mf_revision m = saturating_add expected 1"
        "serialize_manifest env m = Inl e"
    by (metis (full_types) old.unit.exhaust sum.exhaust)
  then have "d' = d \<and> \<not> is_ok r"
    using assms(2) by cases (auto simp: fs_update_def Let_def is_ok_iff)
  with assms(1) show ?thesis by (simp add: cas_effect_def)
next
  case True
  then obtain bytes where b: "manifest_validate m = Inr ()" "serialize_manifest env m = Inr bytes"
    "mf_revision m = saturating_add expected 1" by blast
  let ?n = "manifest_name env (mf_deployment_id m)"
  let ?op = "\<lambda>d. dir_bind (check_current env (mf_deployment_id m) expected ?n d)
    (\<lambda>_ d. write_atomic (se_esc env) ?n bytes 384 d)"
  have eq: "store_error env (with_exclusive_lock_inner (se_esc env) ?n False ?op d) = (r, d')"
    using assms(2) b by (simp add: fs_update_def with_exclusive_lock_def Let_def)
  show ?thesis
  proof (rule locked_effect [OF assms(1) eq])
    fix d1 r2 d2
    assume d1: "fs_usable d1" "fs_stored env d1 = fs_stored env d" and op: "?op d1 = (r2, d2)"
    obtain r3 d3 where 3: "check_current env (mf_deployment_id m) expected ?n d1 = (r3, d3)" by force
    note e3 = check_current_stored [OF 3]
    then have same: "fs_stored env d3 = fs_stored env d" "fs_usable d3"
      using d1 stored_same fs_usable_place by auto
    show "fs_usable d2 \<and> cas_effect (current_is (fs_stored env d) (mf_deployment_id m) expected
        \<and> manifest_validate m = Inr () \<and> mf_revision m = saturating_add expected 1)
      (fs_stored env d) (mf_deployment_id m) (Some m) (is_ok r2) (fs_stored env d2)"
    proof (cases r3)
      case (Inr u)
      with op 3 have w: "write_atomic (se_esc env) ?n bytes 384 d3 = (r2, d2)" by simp
      have "current_is (fs_stored env d) (mf_deployment_id m) expected" using Inr e3 d1(2) by simp
      with write_stores [OF w same(2) b(2,1)] same b fs_usable_place show ?thesis
        unfolding cas_effect_def by auto
    next
      case (Inl e)
      with op 3 have "d2 = d3 \<and> \<not> is_ok r2" by auto
      with same show ?thesis by (simp add: cas_effect_def)
    qed
  qed
qed

lemma fs_remove_law:
  assumes "fs_usable d" and "fs_remove env did expected d = (r, d')"
  shows "fs_usable d' \<and> cas_effect (current_is (fs_stored env d) did expected)
    (fs_stored env d) did None (is_ok r) (fs_stored env d')"
proof -
  let ?n = "manifest_name env did"
  let ?op = "\<lambda>d. dir_bind (check_current env did expected ?n d) (\<lambda>_ d. remove_unlocked (se_esc env) ?n d)"
  have eq: "store_error env (with_exclusive_lock_inner (se_esc env) ?n True ?op d) = (r, d')"
    using assms(2) by (simp add: fs_remove_def with_exclusive_lock_and_cleanup_def Let_def)
  show ?thesis
  proof (rule locked_effect [OF assms(1) eq])
    fix d1 r2 d2
    assume d1: "fs_usable d1" "fs_stored env d1 = fs_stored env d" and op: "?op d1 = (r2, d2)"
    obtain r3 d3 where 3: "check_current env did expected ?n d1 = (r3, d3)" by force
    note e3 = check_current_stored [OF 3]
    then have same: "fs_stored env d3 = fs_stored env d" "fs_usable d3"
      using d1 stored_same fs_usable_place by auto
    show "fs_usable d2 \<and> cas_effect (current_is (fs_stored env d) did expected)
      (fs_stored env d) did None (is_ok r2) (fs_stored env d2)"
    proof (cases r3)
      case (Inr u)
      with op 3 have w: "remove_unlocked (se_esc env) ?n d3 = (r2, d2)" by simp
      note e = remove_unlocked_entry [OF w]
      have gone: "fs_stored env d2 = (fs_stored env d3)(did := None)" if "entry d2 = (entry d3)(?n := None)"
      proof
        fix x
        show "fs_stored env d2 x = ((fs_stored env d3)(did := None)) x"
          using that e manifest_name_inj [of x did]
          by (cases "x = did") (auto simp: fs_stored_def stored_at_def [of env d2 ?n] intro!: stored_at_place)
      qed
      have "current_is (fs_stored env d) did expected" using Inr e3 d1(2) by simp
      with e gone stored_same [of d3 d2] same fs_usable_place [of d3 d2] show ?thesis
        unfolding cas_effect_def by auto
    next
      case (Inl e)
      with op 3 have "d2 = d3 \<and> \<not> is_ok r2" by auto
      with same show ?thesis by (simp add: cas_effect_def)
    qed
  qed
qed

end

sublocale store_env \<subseteq> fs: manifest_store "fs_stored env" "fs_port env" fs_usable
proof (unfold_locales, goal_cases)
  case (1 s m r s')
  then show ?case by (intro fs_create_law) (simp_all add: fs_port_def)
next
  case (2 s expected m r s')
  then show ?case by (intro fs_update_law) (simp_all add: fs_port_def)
next
  case (3 s did expected r s')
  then show ?case by (intro fs_remove_law) (simp_all add: fs_port_def)
qed

text \<open>
  The RPC is answered by the daemon's handler, or fails before or after the handler has run.
\<close>

locale elevated_env = store_env +
  fixes rpc :: state_rpc
  assumes rpc_served: "rpc operation d = (Inr res, d') \<Longrightarrow> serve_state_operation env operation d = (res, d')"
    and rpc_failed: "rpc operation d = (Inl e, d') \<Longrightarrow>
      d' = d \<or> d' = snd (serve_state_operation env operation d)"
begin

lemma elevated_cases:
  assumes "elevated_execute rpc operation d = (r, d')"
  shows "\<not> is_ok r \<and> (d' = d \<or> d' = snd (execute_deployment_state_operation env operation d))
    \<or> execute_deployment_state_operation env operation d = (r, d')"
proof -
  obtain r1 d1 where 1: "rpc operation d = (r1, d1)" by force
  obtain r2 d2 where 2: "execute_deployment_state_operation env operation d = (r2, d2)" by force
  have ok: "sr_error res = None" if "r2 = Inr res" for res
    using 2 that by (cases operation) (auto simp: state_result_default_def split: prod.splits)
  show ?thesis
  proof (cases r1)
    case (Inl e)
    with rpc_failed 1 2 assms show ?thesis
      by (cases r2) (fastforce simp: elevated_execute_def serve_state_operation_def)+
  next
    case (Inr res)
    with rpc_served 1 have "serve_state_operation env operation d = (res, d1)" by blast
    with 1 2 Inr assms ok show ?thesis
      by (cases r2) (auto simp: elevated_execute_def serve_state_operation_def into_result_def
          state_result_failure_def)
  qed
qed

lemma elevated_cas:
  assumes "discard_result (elevated_execute rpc operation d) = (r, d')" and "fs_usable d"
    and "\<And>r2 d2. execute_deployment_state_operation env operation d = (r2, d2) \<Longrightarrow>
      fs_usable d2 \<and> cas_effect P (fs_stored env d) did new (is_ok r2) (fs_stored env d2)"
  shows "fs_usable d' \<and> cas_effect P (fs_stored env d) did new (is_ok r) (fs_stored env d')"
proof -
  obtain r1 where 1: "elevated_execute rpc operation d = (r1, d')" "is_ok r = is_ok r1"
    using assms(1) by (cases "elevated_execute rpc operation d"; cases "fst (elevated_execute rpc operation d)")
      (auto simp: discard_result_def)
  obtain r2 d2 where 2: "execute_deployment_state_operation env operation d = (r2, d2)" by force
  note law = assms(3) [OF 2]
  from elevated_cases [OF 1(1)] 1(2) 2 law assms(2) show ?thesis
    unfolding cas_effect_def by auto
qed

end

sublocale elevated_env \<subseteq> elevated: manifest_store "fs_stored env" "elevated_port rpc" fs_usable
proof (unfold_locales, goal_cases)
  case (1 s m r s')
  then show ?case
    using fs_create_law [OF 1(1), of m]
    by (intro elevated_cas [where operation = "StateCreate m"])
      (auto simp: elevated_port_def is_ok_iff split: prod.splits)
next
  case (2 s expected m r s')
  then show ?case
    using fs_update_law [OF 2(1), of expected m]
    by (intro elevated_cas [where operation = "StateUpdate expected m"])
      (auto simp: elevated_port_def is_ok_iff split: prod.splits)
next
  case (3 s did expected r s')
  then show ?case
    using fs_remove_law [OF 3(1), of did expected]
    by (intro elevated_cas [where operation = "StateRemove did expected"])
      (auto simp: elevated_port_def is_ok_iff split: prod.splits)
qed

context store_env
begin

lemmas session_transition_stores = fs.transition_stores
lemmas session_stale_transition = fs.stale_transition
lemmas session_finish_removes = fs.finish_removes

end

context elevated_env
begin

lemmas elevated_transition_stores = elevated.transition_stores
lemmas elevated_stale_transition = elevated.stale_transition

end

section \<open>Listing\<close>

definition manifest_like :: "string \<Rightarrow> bool" where
  "manifest_like name \<longleftrightarrow> starts_with name ''deployment-'' \<and> ends_with name ''.json''"

lemma manifest_like_name: "manifest_like (manifest_name env did)"
  unfolding manifest_like_def manifest_name_def starts_with_iff ends_with_iff by auto

lemma collect_manifests_ok:
  "collect_manifests env names d = (Inr ms, d') \<Longrightarrow> same_place d d' \<and> entry d' = entry d
     \<and> map (\<lambda>m. manifest_name env (mf_deployment_id m)) ms = filter manifest_like names
     \<and> (\<forall>m \<in> set ms. fs_stored env d (mf_deployment_id m) = Some m)"
proof (induction names arbitrary: d ms d')
  case (Cons name names)
  show ?case
  proof (cases "manifest_like name")
    case False
    with Cons show ?thesis by (auto simp: manifest_like_def)
  next
    case True
    obtain r1 d1 where 1: "read_manifest env name d = (r1, d1)" by force
    note e1 = read_manifest_stored [OF 1]
    obtain m where m: "r1 = Inr (Some m)" "name = manifest_name env (mf_deployment_id m)"
      using Cons.prems True 1 by (cases r1) (auto simp: manifest_like_def split: option.splits if_splits)
    obtain r2 d2 where 2: "collect_manifests env names d1 = (r2, d2)" by force
    obtain ms' where ms: "r2 = Inr ms'" "ms = m # ms'" "d' = d2"
      using Cons.prems True 1 m 2 by (cases r2) (auto simp: manifest_like_def)
    note IH = Cons.IH [OF 2 [unfolded ms(1)]]
    have s: "fs_stored env d1 = fs_stored env d" using e1 by (intro stored_same) auto
    have "fs_stored env d (mf_deployment_id m) = Some m"
      using e1 m by (simp add: fs_stored_def)
    with IH e1 s ms m(2) True show ?thesis by (auto intro: same_place_trans)
  qed
qed simp

context store_env
begin

lemma unfinished_lists_stored:
  assumes "fs_unfinished env d = (Inr ms, d')" and "distinct (map fst (td_entries d))"
  shows "fs_stored env d' = fs_stored env d \<and> set ms = ran (fs_stored env d)
    \<and> distinct (map mf_deployment_id ms) \<and> sorted (map (\<lambda>m. id_word (mf_deployment_id m)) ms)
    \<and> (\<forall>m \<in> set ms. fs_stored env d (mf_deployment_id m) = Some m)
    \<and> (\<forall>did m. fs_stored env d did = Some m \<longrightarrow> mf_deployment_id m = did)"
proof -
  obtain r1 d1 where 1: "descriptor_call d = (r1, d1)" by force
  note e1 = descriptor_call_entry [OF 1]
  have te: "td_entries d1 = td_entries d" using 1
    by (cases "faults d") (auto simp: descriptor_call_def syscall_def next_fault_def split: option.splits)
  let ?names = "filter (se_utf8 env) (map fst (td_entries d))"
  obtain r2 d2 where 2: "collect_manifests env ?names d1 = (r2, d2)" by force
  obtain ms' where ms': "r2 = Inr ms'" "d' = d2" "ms = sort_key (\<lambda>m. id_word (mf_deployment_id m)) ms'"
    using assms(1) 1 2 te by (cases r1; cases r2)
      (auto simp: fs_unfinished_def entry_names_def with_path_def)
  note c = collect_manifests_ok [OF 2 [unfolded ms'(1)]]
  have s: "fs_stored env d1 = fs_stored env d" using e1 by (intro stored_same) auto
  have "distinct (map (manifest_name env) (map mf_deployment_id ms'))"
    using c assms(2) by (simp add: comp_def)
  then have dist: "distinct (map mf_deployment_id ms')" by (simp only: distinct_map)
  have all: "m \<in> set ms' \<and> mf_deployment_id m = did" if "fs_stored env d did = Some m" for did m
  proof -
    from that obtain i where "entry d (manifest_name env did) = Some i"
      by (auto simp: fs_stored_def stored_at_def split: option.splits)
    then have "manifest_name env did \<in> set (map fst (td_entries d))"
      by (force simp: entry_def dest: map_of_SomeD)
    then have "manifest_name env did \<in> set (filter manifest_like ?names)"
      using names_are_utf8 manifest_like_name by simp
    then obtain m' where "m' \<in> set ms'" "manifest_name env did = manifest_name env (mf_deployment_id m')"
      using c by (metis (no_types, lifting) in_set_conv_nth length_map nth_map nth_mem)
    with c s that manifest_name_inj show ?thesis by force
  qed
  have "distinct (map mf_deployment_id ms)"
    using dist unfolding ms'(3) by (metis mset_map mset_sort mset_eq_imp_distinct_iff)
  moreover have "set ms = ran (fs_stored env d)"
    using all c s unfolding ms'(3) by (auto simp: ran_def)
  moreover have "fs_stored env d' = fs_stored env d"
    using c s stored_same ms'(2) by metis
  ultimately show ?thesis
    using c s all by (auto simp: ms'(3))
qed

end

section \<open>Properties\<close>

text \<open>
  C4. The store refines a map with compare-and-swap, whatever system calls fail: \<open>create\<close> succeeds only
  on an empty entry, \<open>update\<close> and \<open>remove\<close> only on the expected revision of the same deployment, only
  valid manifests are stored, a success has its full effect, a failure has none or the full effect,
  and no other deployment's manifest is ever touched.
\<close>

theorem store_refines_map:
  assumes "store_env env" and "fs_usable d"
  shows "(case fs_create env m d of (r, d') \<Rightarrow> fs_usable d' \<and>
        cas_effect (fs_stored env d (mf_deployment_id m) = None \<and> manifest_validate m = Inr ())
          (fs_stored env d) (mf_deployment_id m) (Some m) (is_ok r) (fs_stored env d'))
    \<and> (case fs_update env expected m d of (r, d') \<Rightarrow> fs_usable d' \<and>
        cas_effect (current_is (fs_stored env d) (mf_deployment_id m) expected
            \<and> manifest_validate m = Inr () \<and> mf_revision m = saturating_add expected 1)
          (fs_stored env d) (mf_deployment_id m) (Some m) (is_ok r) (fs_stored env d'))
    \<and> (case fs_remove env did expected d of (r, d') \<Rightarrow> fs_usable d' \<and>
        cas_effect (current_is (fs_stored env d) did expected)
          (fs_stored env d) did None (is_ok r) (fs_stored env d'))"
  using store_env.fs_create_law [OF assms] store_env.fs_update_law [OF assms]
    store_env.fs_remove_law [OF assms] by (simp split: prod.splits)

definition example_manifest :: DeploymentCrashManifest where
  "example_manifest =
     \<lparr>schema_version = 1, mf_deployment_id = DeploymentId 7, mf_target = MachineName ''web'',
      plan_hash = PlanFingerprint (replicate 64 (CHR ''a'')), mf_revision = 1, mf_state = Prepared,
      committed_ledger = []\<rparr>"

definition example_env :: StoreEnv where
  "example_env =
     \<lparr>se_to_json = (\<lambda>m. if m = example_manifest then Inr [1] else Inl ''unsupported''),
      se_from_json = (\<lambda>b. if b = [1] then Inr example_manifest else Inl ''unsupported''),
      se_uuid = (\<lambda>u. show_nat (unat u)), se_esc = (\<lambda>s. s), se_io_text = (\<lambda>_. ''error''),
      se_utf8 = (\<lambda>_. True)\<rparr>"

definition direct_rpc :: state_rpc where
  "direct_rpc operation d = map_prod Inr (\<lambda>d. d) (serve_state_operation example_env operation d)"

interpretation example: elevated_env example_env direct_rpc
  by unfold_locales
    (auto simp: example_env_def direct_rpc_def map_prod_def intro: unsigned_word_eqI
      split: if_splits prod.splits)

definition example_store :: TrustedDirectory where
  "example_store =
     \<lparr>td_path = ''/var/lib/lasper/deployments'', td_expected_uid = 0, td_process_uid = 0,
      td_entries = [], faults = [], lock_script = [], temp_ids = [''00'']\<rparr>"

lemma example_name: "manifest_name example_env (mf_deployment_id example_manifest) = ''deployment-7.json''"
proof -
  have "show_nat 7 = ''7''" by code_simp
  then show ?thesis by (simp add: manifest_name_def example_env_def example_manifest_def)
qed

lemma example_created:
  "fst (fs_create example_env example_manifest example_store) = Inr ()"
proof -
  have v: "manifest_validate example_manifest = Inr ()" by code_simp
  have ser: "serialize_manifest example_env example_manifest = Inr [1]"
    by (simp add: serialize_manifest_ok example_env_def MAX_DEPLOYMENT_MANIFEST_BYTES_def)
  have n: "validate_name (\<lambda>s. s) ''deployment-7.json'' = Inr ''deployment-7.json''" by code_simp
  have esc: "se_esc example_env = (\<lambda>s. s)" by (simp add: example_env_def)
  let ?l = "''.deployment-7.json.lock''"
  let ?d = "set_entry ?l (new_file example_store [] 384) example_store"
  have "acquire_stable_lock [] ?l True example_store = (Inr True, ?d)" by code_simp
  moreover have "read_manifest example_env ''deployment-7.json'' ?d = (Inr None, ?d)"
    using no_faults_read_absent [of ?d "\<lambda>s. s" "''deployment-7.json''"] n
    by (simp add: read_manifest_def esc set_entry_def example_store_def entry_def)
  moreover have "fst (write_atomic (\<lambda>s. s) ''deployment-7.json'' [1] 384 ?d) = Inr ()" by code_simp
  ultimately show ?thesis
    using v ser n
    by (simp add: fs_create_def example_name esc with_exclusive_lock_def with_exclusive_lock_inner_def
        Let_def lock_name_of_def store_error_def example_store_def)
qed

definition example_after :: TrustedDirectory where
  "example_after = snd (fs_create example_env example_manifest example_store)"

lemma example_store_usable: "fs_usable example_store"
  by (simp add: fs_usable_def example_store_def)

theorem store_refines_map_witness:
  "fs_stored example_env example_after (DeploymentId 7) = Some example_manifest"
proof -
  have i: "mf_deployment_id example_manifest = DeploymentId 7" by (simp add: example_manifest_def)
  have "fs_create example_env example_manifest example_store = (Inr (), example_after)"
    using example_created by (metis example_after_def prod.collapse)
  with store_refines_map [OF example.store_env_axioms example_store_usable, of example_manifest] show ?thesis
    by (simp add: cas_effect_def i)
qed

text \<open>
  C5. The session writes ahead, directly on the store and through the daemon. A transition that succeeds has met the revision the session last
  stored, has stored exactly the session's new manifest with the next revision, the announced state
  and the ledger, and left all other manifests alone. A transition that fails leaves the session as
  it was, and the store unchanged or with the announced state. A session whose revision is not the
  stored one can change nothing.
\<close>

theorem session_writes_ahead:
  assumes "elevated_env env rpc" and "fs_usable d" and "port \<in> {fs_port env, elevated_port rpc}"
    and "session_transition port state ledger current d = (r, current', d')"
  shows "fs_usable d'
    \<and> (is_ok r \<longrightarrow> current_is (fs_stored env d) (mf_deployment_id current) (mf_revision current)
        \<and> fs_stored env d' = (fs_stored env d)(mf_deployment_id current \<mapsto> current')
        \<and> unat (mf_revision current') = Suc (unat (mf_revision current))
        \<and> mf_state current' = state \<and> committed_ledger current' = ledger
        \<and> manifest_validate current' = Inr ())
    \<and> (\<not> is_ok r \<longrightarrow> current' = current \<and> (fs_stored env d' = fs_stored env d
        \<or> (\<exists>m. fs_stored env d' = (fs_stored env d)(mf_deployment_id current \<mapsto> m)
             \<and> mf_state m = state \<and> committed_ledger m = ledger
             \<and> mf_deployment_id m = mf_deployment_id current)))
    \<and> (\<not> current_is (fs_stored env d) (mf_deployment_id current) (mf_revision current) \<longrightarrow>
        \<not> is_ok r \<and> fs_stored env d' = fs_stored env d)"
proof (cases "port = fs_port env")
  case True
  note e = elevated_env.axioms(1) [OF assms(1)]
  from assms(4) True have t: "session_transition (fs_port env) state ledger current d = (r, current', d')"
    by simp
  show ?thesis
    using store_env.session_transition_stores [OF e assms(2) t]
      store_env.session_stale_transition [OF e assms(2) t] by blast
next
  case False
  with assms(3,4) have t: "session_transition (elevated_port rpc) state ledger current d = (r, current', d')"
    by simp
  show ?thesis
    using elevated_env.elevated_transition_stores [OF assms(1,2) t]
      elevated_env.elevated_stale_transition [OF assms(1,2) t] by blast
qed

theorem session_writes_ahead_witness:
  "\<not> is_ok (fst (session_committed (fs_port example_env) StoragePreparation [] example_manifest example_store))"
proof -
  obtain r c d' where t: "session_transition (fs_port example_env) (Committed StoragePreparation) []
      example_manifest example_store = (r, c, d')" by (metis prod.exhaust)
  have "\<not> current_is (fs_stored example_env example_store) (mf_deployment_id example_manifest)
      (mf_revision example_manifest)"
    by (simp add: current_is_def fs_stored_def stored_at_def entry_def example_store_def)
  with session_writes_ahead [OF example.elevated_env_axioms example_store_usable _ t] t show ?thesis
    by (simp add: session_committed_def)
qed

text \<open>
  C33. Listing is exact: when it succeeds, the unfinished deployments are exactly the stored manifests,
  each once, filed under its own identifier, and in the order of the identifiers.
\<close>

theorem unfinished_is_exact:
  assumes "store_env env" and "distinct (map fst (td_entries d))"
    and "fs_unfinished env d = (Inr ms, d')"
  shows "set ms = ran (fs_stored env d) \<and> distinct (map mf_deployment_id ms)
    \<and> sorted (map (\<lambda>m. id_word (mf_deployment_id m)) ms)
    \<and> (\<forall>did. (\<exists>m \<in> set ms. mf_deployment_id m = did) \<longleftrightarrow> fs_stored env d did \<noteq> None)"
proof -
  note u = store_env.unfinished_lists_stored [OF assms(1,3,2)]
  have "(\<exists>m \<in> set ms. mf_deployment_id m = did) \<longleftrightarrow> fs_stored env d did \<noteq> None" for did
  proof
    assume "fs_stored env d did \<noteq> None"
    then obtain m where m: "fs_stored env d did = Some m" by blast
    then have "m \<in> set ms" using u by (auto simp: ran_def)
    with m u show "\<exists>m \<in> set ms. mf_deployment_id m = did" by blast
  qed (use u in auto)
  with u show ?thesis by blast
qed

definition example_listed :: TrustedDirectory where
  "example_listed = example_store\<lparr>td_entries :=
     [(''deployment-7.json'', \<lparr>i_kind = RegularFile, i_bytes = [1], i_uid = 0, i_mode = 384\<rparr>)]\<rparr>"

lemma example_read: "read_manifest example_env ''deployment-7.json'' example_listed = (Inr (Some example_manifest), example_listed)"
proof -
  have v: "manifest_validate example_manifest = Inr ()" by code_simp
  have n: "validate_name (\<lambda>s. s) ''deployment-7.json'' = Inr ''deployment-7.json''" by code_simp
  let ?i = "\<lparr>i_kind = RegularFile, i_bytes = [1 :: u8], i_uid = 0, i_mode = 384\<rparr>"
  have "entry example_listed ''deployment-7.json'' = Some ?i" by (simp add: example_listed_def entry_def)
  then have "read_bounded (\<lambda>s. s) ''deployment-7.json'' MAX_DEPLOYMENT_MANIFEST_BYTES example_listed =
      (Inr (Some \<lparr>tf_bytes = [1], tf_uid = 0, tf_mode = 384\<rparr>), example_listed)"
    using no_faults_read [of example_listed "\<lambda>s. s" "''deployment-7.json''" ?i MAX_DEPLOYMENT_MANIFEST_BYTES] n
    by (simp add: example_listed_def example_store_def MAX_DEPLOYMENT_MANIFEST_BYTES_def)
  then show ?thesis using v by (simp add: read_manifest_def example_env_def decode_manifest_def example_listed_def example_store_def)
qed

theorem unfinished_is_exact_witness:
  "fs_unfinished example_env example_listed = (Inr [example_manifest], example_listed)
   \<and> ran (fs_stored example_env example_listed) = {example_manifest}"
proof -
  have "descriptor_call example_listed = (Inr (), example_listed)"
    by (rule no_faults_descriptor) (simp add: example_listed_def example_store_def)
  then have names: "entry_names (se_utf8 example_env) example_listed = (Inr [''deployment-7.json''], example_listed)"
    by (simp add: entry_names_def with_path_def example_env_def) (simp add: example_listed_def)
  have "ends_with ''deployment-7.json'' ''.json''" by code_simp
  then have l: "fs_unfinished example_env example_listed = (Inr [example_manifest], example_listed)"
    using example_read example_name by (simp add: fs_unfinished_def names)
  have "distinct (map fst (td_entries example_listed))" by (simp add: example_listed_def)
  from unfinished_is_exact [OF example.store_env_axioms this l] l show ?thesis by simp
qed

end
