(* ===== verification/Job_Handlers.thy ===== *)
theory Job_Handlers
  imports Deployment_Jobs Deployment_Store
begin

text \<open>
  The RPC handlers of deployment jobs (\<open>src/daemon/jobs/mod.rs\<close>) over the registry and the crash-state
  store, and the forwarder that streams a job to its client (\<open>forward_job_stream\<close> in
  \<open>src/daemon/jobs/server.rs\<close>). A handler is one step here; in the source other requests may run while it
  awaits the listing of the store or the probe of the host.
\<close>

section \<open>Handlers\<close>

fun request_id_text :: "StoreEnv \<Rightarrow> DeploymentRequestId \<Rightarrow> string" where
  "request_id_text env (DeploymentRequestId u) = se_uuid env u"

text \<open>The messages of the registry's errors.\<close>

fun registry_error_text :: "StoreEnv \<Rightarrow> RegistryError \<Rightarrow> string" where
  "registry_error_text env (SubmissionAlreadyExists r) = ''deployment submission '' @ request_id_text env r @
     '' already exists; resolve it instead of resending secrets''"
| "registry_error_text env (SubmissionDifferentIdentity r) = ''deployment submission '' @ request_id_text env r @
     '' has a different identity''"
| "registry_error_text env SubmissionsAtCapacity = ''daemon deployment submission registry is at capacity''"
| "registry_error_text env (SubmissionNotRegistered r) = ''deployment submission '' @ request_id_text env r @
     '' is not registered''"
| "registry_error_text env (SubmissionNotPending r i) = ''deployment submission '' @ request_id_text env r @
     '' is not pending for '' @ id_text env i"
| "registry_error_text env DeploymentsAtCapacity = ''daemon deployment registry is at capacity''"
| "registry_error_text env (DeploymentAlreadyExists i) = ''deployment '' @ id_text env i @ '' already exists''"
| "registry_error_text env (ResourceBusy k) = ''deployment resource is busy: '' @ key_debug (se_esc env) k"
| "registry_error_text env TerminalStatusObserved = ''terminal deployment status must be finalized by its executor''"
| "registry_error_text env (DeploymentNotRegistered i) = ''deployment '' @ id_text env i @ '' is not registered''"
| "registry_error_text env (DeploymentAlreadyTerminal i) = ''deployment '' @ id_text env i @ '' is already terminal''"
| "registry_error_text env (DifferentTerminalResult i) = ''deployment '' @ id_text env i @
     '' already has a different terminal result''"
| "registry_error_text env (SubmissionStillPending r) = ''deployment submission '' @ request_id_text env r @
     '' is still pending''"
| "registry_error_text env (DeploymentStillRunning i) = ''deployment '' @ id_text env i @ '' is still running''"
| "registry_error_text env (StillRequiresReconciliation i) = ''deployment '' @ id_text env i @
     '' still requires reconciliation''"
| "registry_error_text env (SubmissionNotAcknowledged r) = ''deployment submission '' @ request_id_text env r @
     '' is not acknowledged''"
| "registry_error_text env ConfirmationRequired =
     ''releasing an unresolved deployment requires explicit confirmation''"
| "registry_error_text env (NotEligibleForRelease i) = ''deployment '' @ id_text env i @
     '' is not eligible for unresolved release''"
| "registry_error_text env (DoesNotRequireReconciliation i) = ''deployment '' @ id_text env i @
     '' does not require reconciliation''"
| "registry_error_text env (CannotBeReconciled i) = ''deployment '' @ id_text env i @
     '' cannot be reconciled in its current state''"
| "registry_error_text env InvalidTerminalClaim = ''executor returned an invalid terminal claim state''"
| "registry_error_text env InconsistentTerminalResult =
     ''executor returned an inconsistent terminal status and claim state''"
| "registry_error_text env (RegistryPanic m) = m"

fun state_error_text :: "DeploymentStateError \<Rightarrow> string" where
  "state_error_text (Invalid m) = ''invalid deployment state: '' @ m"
| "state_error_text (Conflict m) = ''deployment state conflict: '' @ m"
| "state_error_text (StateUnavailable m) = ''deployment state unavailable: '' @ m"

text \<open>The decoded requests and the values sent back; \<open>'o\<close> are the observations of a recovery probe.\<close>

datatype JobRequest =
    DeploymentStatusRequest DeploymentId
  | ResolveDeploymentSubmission DeploymentRequestId
  | AcknowledgeDeploymentSubmission DeploymentRequestId
  | CancelDeployment DeploymentId
  | AcknowledgeDeployment DeploymentId
  | ProbeDeploymentRecovery DeploymentId u64
  | ReconcileDeployment DeploymentId
  | ReleaseUnresolvedDeployment DeploymentId bool

datatype 'o JobReply =
    NullReply
  | EmptyReply
  | JobReply DeploymentJobSnapshot
  | SubmissionReply DeploymentSubmissionSnapshot
  | ProbeReply DeploymentId u64 "'o list"

type_synonym ('o) job_result =
  "(string + 'o JobReply) \<times> DaemonServerState \<times> TrustedDirectory"

definition optional_reply :: "StoreEnv \<Rightarrow> ('a \<Rightarrow> 'o JobReply) \<Rightarrow> RegistryError + 'a \<Rightarrow> string + 'o JobReply" where
  "optional_reply env reply r =
     (case r of
        Inr x \<Rightarrow> Inr (reply x)
      | Inl e \<Rightarrow> if error_kind e = Some NotFound then Inr NullReply else Inl (registry_error_text env e))"

definition plain_reply :: "StoreEnv \<Rightarrow> ('a \<Rightarrow> 'o JobReply) \<Rightarrow> RegistryError + 'a \<Rightarrow> string + 'o JobReply" where
  "plain_reply env reply r = (case r of Inr x \<Rightarrow> Inr (reply x) | Inl e \<Rightarrow> Inl (registry_error_text env e))"

text \<open>
  The probe looks at the host while it holds the recovery claim, which it releases when it returns;
  \<open>probe\<close> stands for \<open>probe_manifest_locally\<close>.
\<close>

definition handle_probe ::
  "StoreEnv \<Rightarrow> (DeploymentCrashManifest \<Rightarrow> 'o list) \<Rightarrow> DeploymentId \<Rightarrow> u64 \<Rightarrow>
     DaemonServerState \<Rightarrow> TrustedDirectory \<Rightarrow> 'o job_result" where
  "handle_probe env probe did expected_revision s d =
     (case fs_unfinished env d of
        (Inl e, d) \<Rightarrow> (Inl (state_error_text e), s, d)
      | (Inr manifests, d) \<Rightarrow>
          (case find (\<lambda>m. mf_deployment_id m = did) manifests of
             None \<Rightarrow>
               (Inl (''deployment '' @ id_text env did @ '' crash manifest is missing''), s, d)
           | Some m \<Rightarrow>
               if mf_revision m \<noteq> expected_revision
               then (Inl (''deployment '' @ id_text env did @ '' manifest revision changed from '' @
                       show_nat (unat expected_revision) @ '' to '' @ show_nat (unat (mf_revision m))), s, d)
               else
                 (case reserve (se_esc env) [recovery_claim m] (operations s) of
                    Inl (ResourceConflict key) \<Rightarrow>
                      (Inl (''deployment recovery resource is busy: '' @ key_debug (se_esc env) key), s, d)
                  | Inr (guard, ops) \<Rightarrow>
                      (Inr (ProbeReply (mf_deployment_id m) (mf_revision m) (probe m)),
                       s\<lparr>operations := drop_reservation guard ops\<rparr>, d))))"

definition handle_reconcile ::
  "StoreEnv \<Rightarrow> DeploymentId \<Rightarrow> DaemonServerState \<Rightarrow> TrustedDirectory \<Rightarrow> 'o job_result" where
  "handle_reconcile env did s d =
     (case deployment_snapshot did s of
        Inl e \<Rightarrow> (Inl (registry_error_text env e), s, d)
      | Inr current \<Rightarrow>
          if snap_claim current \<noteq> ReconciliationRequired
          then (Inl (''deployment '' @ id_text env did @ '' does not require reconciliation''), s, d)
          else
            (case fs_unfinished env d of
               (Inl e, d) \<Rightarrow> (Inl (state_error_text e), s, d)
             | (Inr manifests, d) \<Rightarrow>
                 let manifest_present = list_ex (\<lambda>m. mf_deployment_id m = did) manifests in
                 (case reconcile did manifest_present s of
                    (r, s) \<Rightarrow> (plain_reply env JobReply r, s, d))))"

fun handle_job ::
  "StoreEnv \<Rightarrow> (DeploymentCrashManifest \<Rightarrow> 'o list) \<Rightarrow> JobRequest \<Rightarrow>
     DaemonServerState \<Rightarrow> TrustedDirectory \<Rightarrow> 'o job_result" where
  "handle_job env probe (DeploymentStatusRequest did) s d =
     (optional_reply env JobReply (deployment_snapshot did s), s, d)"
| "handle_job env probe (ResolveDeploymentSubmission rid) s d =
     (optional_reply env SubmissionReply (resolve_submission rid s), s, d)"
| "handle_job env probe (AcknowledgeDeploymentSubmission rid) s d =
     (case acknowledge_submission rid s of (r, s) \<Rightarrow> (plain_reply env (\<lambda>_. EmptyReply) r, s, d))"
| "handle_job env probe (CancelDeployment did) s d =
     (case cancel did s of (r, s) \<Rightarrow> (plain_reply env JobReply r, s, d))"
| "handle_job env probe (AcknowledgeDeployment did) s d =
     (case acknowledge did s of (r, s) \<Rightarrow> (plain_reply env (\<lambda>_. EmptyReply) r, s, d))"
| "handle_job env probe (ProbeDeploymentRecovery did expected) s d = handle_probe env probe did expected s d"
| "handle_job env probe (ReconcileDeployment did) s d = handle_reconcile env did s d"
| "handle_job env probe (ReleaseUnresolvedDeployment did confirmed) s d =
     (case release_unresolved did confirmed s of (r, s) \<Rightarrow> (plain_reply env JobReply r, s, d))"

section \<open>The stream forwarder\<close>

text \<open>
  One turn of the loop: the status at its head, the events that are drained when it is terminal, and
  what \<open>select!\<close> picked otherwise. \<open>writes\<close> scripts whether the next frames reach the client.
\<close>

datatype 'e DeploymentStreamFrame = EventFrame 'e | SnapshotFrame DeploymentJobSnapshot

datatype 'e Selected = GotEvent 'e | EventsClosed | Changed DeploymentStatus | StatusClosed

record 'e Turn =
  head_status :: DeploymentStatus
  drained :: "'e list"
  selected :: "'e Selected"

text \<open>\<open>write_frame\<close>: nothing is sent once a write has failed.\<close>

fun send_frames :: "bool \<Rightarrow> bool list \<Rightarrow> 'f list \<Rightarrow> 'f list \<times> bool \<times> bool list" where
  "send_frames stream_open writes [] = ([], stream_open, writes)"
| "send_frames stream_open writes (f # fs) =
     (if stream_open
      then (case writes of
              [] \<Rightarrow> (case send_frames True [] fs of (out, o', w') \<Rightarrow> (f # out, o', w'))
            | w # ws \<Rightarrow>
                (case send_frames w ws fs of (out, o', w') \<Rightarrow> (if w then f # out else out, o', w')))
      else ([], False, writes))"

text \<open>The frames sent, the server, and whether the forwarder has returned.\<close>

fun forward_job_stream ::
  "DeploymentId \<Rightarrow> bool \<Rightarrow> bool list \<Rightarrow> 'e Turn list \<Rightarrow> DaemonServerState \<Rightarrow>
     'e DeploymentStreamFrame list \<times> DaemonServerState \<times> bool" where
  "forward_job_stream did stream_open writes [] s = ([], s, False)"
| "forward_job_stream did stream_open writes (t # ts) s =
     (if is_finished (head_status t)
      then
        (case send_frames stream_open writes (map EventFrame (drained t)) of (out, o', w') \<Rightarrow>
          (case deployment_snapshot did s of
             Inl e \<Rightarrow> (out, s, True)
           | Inr snap \<Rightarrow>
               (case send_frames o' w' [SnapshotFrame snap] of (out', _) \<Rightarrow> (out @ out', s, True))))
      else
        (case selected t of
           GotEvent e \<Rightarrow>
             (case send_frames stream_open writes [EventFrame e] of (out, o', w') \<Rightarrow>
               (case forward_job_stream did o' w' ts s of (out', s', fin) \<Rightarrow> (out @ out', s', fin)))
         | EventsClosed \<Rightarrow> forward_job_stream did stream_open writes ts s
         | StatusClosed \<Rightarrow> ([], s, True)
         | Changed current \<Rightarrow>
             (case observe_status did current s of
                (Inl e, s) \<Rightarrow> ([], s, True)
              | (Inr snap, s) \<Rightarrow>
                  (case (if \<not> is_finished current then send_frames stream_open writes [SnapshotFrame snap]
                         else ([], stream_open, writes)) of (out, o', w') \<Rightarrow>
                    (case forward_job_stream did o' w' ts s of (out', s', fin) \<Rightarrow> (out @ out', s', fin))))))"

section \<open>Properties of the handlers\<close>

lemma deployment_snapshot_Some:
  "map_of (jobs s) did = Some r \<Longrightarrow> deployment_snapshot did s = Inr (job_snapshot did r)"
  by (simp add: deployment_snapshot_def ok_or_def)

lemma collect_manifests_frame:
  "collect_manifests env names d = (r, d') \<Longrightarrow> same_place d d' \<and> entry d' = entry d"
proof (induction names arbitrary: d r d')
  case (Cons name names)
  obtain r1 d1 where 1: "read_manifest env name d = (r1, d1)" by force
  note e1 = read_manifest_stored [OF 1]
  obtain r2 d2 where 2: "collect_manifests env names d1 = (r2, d2)" by force
  note e2 = Cons.IH [OF 2]
  have "collect_manifests env names d = (r, d') \<or> d' = d1 \<or> d' = d2"
    using Cons.prems 1 2
    by (cases r1; cases r2) (auto split: if_splits option.splits)
  with Cons.IH e1 e2 show ?case by (auto intro: same_place_trans)
qed simp

lemma fs_unfinished_frame:
  assumes "fs_unfinished env d = (r, d')"
  shows "fs_stored env d' = fs_stored env d"
proof -
  obtain r1 d1 where 1: "entry_names (se_utf8 env) d = (r1, d1)" by force
  then have e1: "same_place d d1 \<and> entry d1 = entry d"
    by (cases "descriptor_call d"; cases "fst (descriptor_call d)")
      (auto simp: entry_names_def with_path_def dest: descriptor_call_entry)
  show ?thesis
  proof (cases r1)
    case (Inl e)
    with assms 1 e1 show ?thesis by (auto simp: fs_unfinished_def intro!: stored_same)
  next
    case (Inr names)
    obtain r2 d2 where 2: "collect_manifests env names d1 = (r2, d2)" by force
    with assms 1 Inr have "d' = d2" by (cases r2) (auto simp: fs_unfinished_def)
    with collect_manifests_frame [OF 2] e1 show ?thesis by (auto intro!: stored_same intro: same_place_trans)
  qed
qed

lemma daemon_id_update [simp]: "d\<lparr>server := server d\<rparr> = (d :: daemon)"
  by simp

lemma probe_is_steps:
  assumes "daemon_run esc d" and "id_available (operations (server d))"
    and "reserve esc cs (operations (server d)) = Inr (guard, ops)"
  shows "daemon_run esc (d\<lparr>server := (server d)\<lparr>operations := drop_reservation guard ops\<rparr>\<rparr>)"
proof -
  note ok = assms(3) [unfolded reserve_def]
  let ?d = "d\<lparr>server := (server d)\<lparr>operations := ops\<rparr>, others := insert guard (others d)\<rparr>"
  have "daemon_step esc d ?d" using assms(2) ok by (rule OtherReserve)
  then have run: "daemon_run esc ?d" using assms(1) Step by blast
  obtain live where live: "registry_inv (operations (server d)) live"
    "set live = others d \<union> ran (guards (server d))"
    using daemon_run_inv [OF assms(1)] unfolding daemon_inv_def claims_ok_def by blast
  have fresh: "guard \<notin> others d" using live_fresh [OF live(1) assms(2) ok] live(2) by blast
  have "daemon_step esc ?d (?d\<lparr>server := (server ?d)\<lparr>operations := drop_reservation guard (operations (server ?d))\<rparr>,
    others := others ?d - {guard}\<rparr>)"
    by (rule OtherDrop) simp
  then have "daemon_run esc (?d\<lparr>server := (server ?d)\<lparr>operations := drop_reservation guard (operations (server ?d))\<rparr>,
    others := others ?d - {guard}\<rparr>)" using run Step by blast
  then show ?thesis using fresh by simp
qed

lemma handlers_keep_manifests:
  assumes "handle_job env probe request s dir = (r, s', dir')"
  shows "fs_stored env dir' = fs_stored env dir"
proof -
  obtain r1 d1 where 1: "fs_unfinished env dir = (r1, d1)" by force
  have "dir' \<in> {dir, d1}"
    using assms 1
    by (cases request; cases r1)
      (auto simp: handle_probe_def handle_reconcile_def Let_def split: option.splits if_splits sum.splits prod.splits ResourceConflict.splits)
  then show ?thesis using fs_unfinished_frame [OF 1] by auto
qed

text \<open>Whatever a client asks, the server's state after the handler is one that steps of the daemon reach.\<close>

lemma handlers_in_history:
  assumes "daemon_run (se_esc env) d" and "id_available (operations (server d))"
    and "handle_job env probe request (server d) dir = (r, s, dir')"
  shows "daemon_run (se_esc env) (d\<lparr>server := s\<rparr>)"
proof (cases request)
  case (ProbeDeploymentRecovery did expected)
  obtain r1 d1 where 1: "fs_unfinished env dir = (r1, d1)" by force
  have "s = server d \<or> (\<exists>m guard ops. reserve (se_esc env) [recovery_claim m]
      (operations (server d)) = Inr (guard, ops) \<and> s = (server d)\<lparr>operations := drop_reservation guard ops\<rparr>)"
    using assms(3) ProbeDeploymentRecovery 1
    by (cases r1) (auto simp: handle_probe_def split: option.splits if_splits sum.splits prod.splits
        ResourceConflict.splits)
  with assms(1,2) probe_is_steps show ?thesis by auto
next
  case (ReconcileDeployment did)
  obtain r1 d1 where 1: "fs_unfinished env dir = (r1, d1)" by force
  have "s = server d \<or> (\<exists>present x. reconcile did present (server d) = (x, s))"
    using assms(3) ReconcileDeployment 1
    by (cases r1) (auto simp: handle_reconcile_def Let_def split: sum.splits if_splits prod.splits)
  moreover have "daemon_run (se_esc env) (d\<lparr>server := s\<rparr>)" if "reconcile did present (server d) = (x, s)" for present x
    using Step [OF assms(1) Reconcile [of _ d did present]] that by simp
  ultimately show ?thesis using assms(1) by auto
qed (use assms(1,3) in \<open>auto split: prod.splits intro: Step AckSubmission Cancel Ack Release
      simp: prod_eq_iff\<close>)

section \<open>What each request does\<close>

text \<open>
  A specification of the requests over the records alone: what a job and a submission become, up to the
  revision and the sequence number, which cancellation tokens are set and which reservations are released.
\<close>

definition manifest_gone :: "StoreEnv \<Rightarrow> TrustedDirectory \<Rightarrow> DeploymentId \<Rightarrow> bool" where
  "manifest_gone env dir did \<longleftrightarrow> is_ok (fst (fs_unfinished env dir)) \<and> fs_stored env dir did = None"

definition submission_settled :: "DaemonServerState \<Rightarrow> DeploymentRecord \<Rightarrow> bool" where
  "submission_settled s r \<longleftrightarrow> (case map_of (submissions s) (request_id r) of None \<Rightarrow> False | Some u \<Rightarrow> sub_acknowledged u)"

fun job_after :: "(DeploymentId \<Rightarrow> bool) \<Rightarrow> DaemonServerState \<Rightarrow> JobRequest \<Rightarrow> DeploymentId \<Rightarrow> DeploymentRecord \<Rightarrow> DeploymentRecord" where
  "job_after gone s (CancelDeployment i) did r =
     (if did = i \<and> \<not> is_finished (status r) then r\<lparr>cancellation_requested := True\<rparr> else r)"
| "job_after gone s (AcknowledgeDeployment i) did r =
     (if did = i \<and> is_finished (status r) \<and> claim r \<noteq> ReconciliationRequired \<and> submission_settled s r
      then r\<lparr>acknowledged := True\<rparr> else r)"
| "job_after gone s (ReconcileDeployment i) did r =
     (if did = i \<and> claim r = ReconciliationRequired \<and> gone i then r\<lparr>reservation := None, claim := Reconciled\<rparr> else r)"
| "job_after gone s (ReleaseUnresolvedDeployment i confirmed) did r =
     (if did = i \<and> claim r = ReconciliationRequired \<and> confirmed then r\<lparr>reservation := None, claim := ReleasedUnresolved\<rparr> else r)"
| "job_after gone s _ did r = r"

fun submission_after :: "JobRequest \<Rightarrow> DeploymentRequestId \<Rightarrow> DeploymentSubmissionRecord \<Rightarrow> DeploymentSubmissionRecord" where
  "submission_after (AcknowledgeDeploymentSubmission i) rid u =
     (if rid = i \<and> sub_status u \<noteq> Pending then u\<lparr>sub_acknowledged := True\<rparr> else u)"
| "submission_after _ rid u = u"

definition unstamped :: "DeploymentRecord \<Rightarrow> DeploymentRecord" where
  "unstamped r = r\<lparr>revision := 0, sequence := 0\<rparr>"

definition unsequenced :: "DeploymentSubmissionRecord \<Rightarrow> DeploymentSubmissionRecord" where
  "unsequenced u = u\<lparr>sub_sequence := 0\<rparr>"

fun cancelled_by :: "DaemonServerState \<Rightarrow> JobRequest \<Rightarrow> DeploymentCancellation set" where
  "cancelled_by s (CancelDeployment i) =
     (case map_of (jobs s) i of None \<Rightarrow> {} | Some r \<Rightarrow> if is_finished (status r) then {} else {cancellation r})"
| "cancelled_by s _ = {}"

definition released_by :: "(DeploymentId \<Rightarrow> bool) \<Rightarrow> DaemonServerState \<Rightarrow> JobRequest \<Rightarrow> u64 set" where
  "released_by gone s request = {res_id g | did r g. map_of (jobs s) did = Some r \<and> reservation r = Some g \<and>
     reservation (job_after gone s request did r) = None}"

definition request_effect :: "(DeploymentId \<Rightarrow> bool) \<Rightarrow> JobRequest \<Rightarrow> DaemonServerState \<Rightarrow> DaemonServerState \<Rightarrow> bool" where
  "request_effect gone request s s' \<longleftrightarrow>
     (\<forall>did. map_option unstamped (map_of (jobs s') did) =
        map_option (\<lambda>r. unstamped (job_after gone s request did r)) (map_of (jobs s) did))
     \<and> (\<forall>rid. map_option unsequenced (map_of (submissions s') rid) =
        map_option (\<lambda>u. unsequenced (submission_after request rid u)) (map_of (submissions s) rid))
     \<and> set (cancelled s') = set (cancelled s) \<union> cancelled_by s request
     \<and> (\<forall>k. holders_of (operations s') k =
        filter (\<lambda>(_, owner). owner \<notin> released_by gone s request) (holders_of (operations s) k))"

text \<open>When a request succeeds, and what it answers: a snapshot shows the record as it is afterwards.\<close>

definition shows_job :: "string + 'o JobReply \<Rightarrow> DeploymentId \<Rightarrow> DaemonServerState \<Rightarrow> bool" where
  "shows_job reply did s \<longleftrightarrow> reply = Inr (case map_of (jobs s) did of None \<Rightarrow> NullReply | Some r \<Rightarrow> JobReply (job_snapshot did r))"

fun request_answered ::
  "StoreEnv \<Rightarrow> TrustedDirectory \<Rightarrow> JobRequest \<Rightarrow> DaemonServerState \<Rightarrow> DaemonServerState \<Rightarrow> string + 'o JobReply \<Rightarrow> bool" where
  "request_answered env dir (DeploymentStatusRequest did) s s' reply = shows_job reply did s"
| "request_answered env dir (ResolveDeploymentSubmission rid) s s' reply =
     (reply = Inr (case map_of (submissions s) rid of None \<Rightarrow> NullReply | Some u \<Rightarrow>
        SubmissionReply \<lparr>subsnap_request_id = rid, subsnap_status = sub_status u, subsnap_acknowledged = sub_acknowledged u\<rparr>))"
| "request_answered env dir (AcknowledgeDeploymentSubmission rid) s s' reply =
     (is_ok reply \<longleftrightarrow> (\<exists>u. map_of (submissions s) rid = Some u \<and> sub_status u \<noteq> Pending))"
| "request_answered env dir (CancelDeployment did) s s' reply =
     ((is_ok reply \<longleftrightarrow> map_of (jobs s) did \<noteq> None) \<and> (is_ok reply \<longrightarrow> shows_job reply did s'))"
| "request_answered env dir (AcknowledgeDeployment did) s s' reply =
     (is_ok reply \<longleftrightarrow> (\<exists>r. map_of (jobs s) did = Some r \<and> is_finished (status r) \<and> claim r \<noteq> ReconciliationRequired \<and> submission_settled s r))"
| "request_answered env dir (ProbeDeploymentRecovery did expected) s s' reply =
     (is_ok reply \<longrightarrow> (\<exists>m obs. fs_stored env dir did = Some m \<and> mf_revision m = expected \<and> is_ok (reserve (se_esc env) [recovery_claim m] (operations s))
        \<and> reply = Inr (ProbeReply did expected obs)))"
| "request_answered env dir (ReconcileDeployment did) s s' reply =
     ((is_ok reply \<longleftrightarrow> (\<exists>r. map_of (jobs s) did = Some r \<and> claim r = ReconciliationRequired) \<and> is_ok (fst (fs_unfinished env dir)))
      \<and> (is_ok reply \<longrightarrow> shows_job reply did s'))"
| "request_answered env dir (ReleaseUnresolvedDeployment did confirmed) s s' reply =
     ((is_ok reply \<longleftrightarrow> confirmed \<and> (\<exists>r. map_of (jobs s) did = Some r \<and> claim r = ReconciliationRequired))
      \<and> (is_ok reply \<longrightarrow> shows_job reply did s'))"

lemma effect_none:
  assumes "\<And>did r. map_of (jobs s) did = Some r \<Longrightarrow> job_after gone s request did r = r"
    and "\<And>rid u. map_of (submissions s) rid = Some u \<Longrightarrow> submission_after request rid u = u" and "cancelled_by s request = {}"
    and "jobs s' = jobs s" "submissions s' = submissions s" "cancelled s' = cancelled s"
    and "\<And>k. holders_of (operations s') k = holders_of (operations s) k"
  shows "request_effect gone request s s'"
proof -
  have "released_by gone s request = {}" using assms(1) by (auto simp: released_by_def)
  then show ?thesis
    using assms by (auto simp: request_effect_def fun_eq_iff intro!: map_option_cong)
qed

lemma released_one:
  assumes "map_of (jobs s) i = Some r" and "\<And>did x. did \<noteq> i \<Longrightarrow> job_after gone s request did x = x"
  shows "released_by gone s request =
    (if reservation (job_after gone s request i r) = None then res_id ` set_option (reservation r) else {})"
proof -
  have "did = i" if "reservation x = Some g" "reservation (job_after gone s request did x) = None" for did x g
    using that assms(2) [of did x] by (cases "did = i") auto
  then have "released_by gone s request = {res_id g | g. reservation r = Some g \<and> reservation (job_after gone s request i r) = None}"
    unfolding released_by_def using assms(1) by (intro Collect_cong) (metis option.inject)
  then show ?thesis by (cases "reservation r") auto
qed

lemma effect_job:
  assumes "daemon_inv d" and "s = server d" and "map_of (jobs s) i = Some r"
    and "\<And>did x. did \<noteq> i \<Longrightarrow> job_after gone s request did x = x" and "\<And>rid u. submission_after request rid u = u"
    and "jobs s' = AList.update i r' (jobs s)" "unstamped r' = unstamped (job_after gone s request i r)"
    and "submissions s' = submissions s" "set (cancelled s') = set (cancelled s) \<union> cancelled_by s request"
    and "operations s' = operations (drop_guard (if reservation (job_after gone s request i r) = None then reservation r else None) s)"
  shows "request_effect gone request s s'"
proof -
  obtain live where live: "registry_inv (operations s) live" "set live = others d \<union> ran (guards s)"
    using assms(1,2) unfolding daemon_inv_def claims_ok_def by blast
  have held: "g \<in> set live" if "reservation r = Some g" for g
  proof -
    have "guards s i = Some g" using that assms(3) by (simp add: guards_in_def)
    then show ?thesis using live(2) ranI by fast
  qed
  have "holders_of (operations s') k = filter (\<lambda>(_, owner). owner \<notin> released_by gone s request) (holders_of (operations s) k)" for k
  proof (cases "reservation (job_after gone s request i r) = None")
    case True
    then show ?thesis
      using assms(10) released_one [OF assms(3,4)] drop_holders_live [OF live(1) held] by (cases "reservation r") auto
  next
    case False
    then have "released_by gone s request = {}" "operations s' = operations s"
      using assms(10) released_one [OF assms(3,4)] by auto
    then show ?thesis by simp
  qed
  then show ?thesis
    using assms(3-9) by (auto simp: request_effect_def AList.update_conv' fun_eq_iff intro!: map_option_cong)
qed

lemma unresolved_finished:
  assumes "linked s" and "map_of (jobs s) did = Some r" and "claim r = ReconciliationRequired"
  shows "is_finished (status r)" and "is_reconciliation_required (status r)"
proof -
  have "status_claim_ok (status r) ReconciliationRequired"
    using linked_record_ok [OF assms(1,2)] assms(3) by (simp add: record_ok_def)
  then show "is_finished (status r)" "is_reconciliation_required (status r)"
    by (cases "status r"; simp add: is_reconciliation_required_def)+
qed

lemma listing_shows:
  assumes "store_env env" and "distinct (map fst (td_entries dir))" and "fs_unfinished env dir = (Inr ms, dir')"
  shows "find (\<lambda>m. mf_deployment_id m = did) ms = fs_stored env dir did"
    and "list_ex (\<lambda>m. mf_deployment_id m = did) ms \<longleftrightarrow> fs_stored env dir did \<noteq> None"
proof -
  note u = store_env.unfinished_lists_stored [OF assms(1,3,2)]
  have stored: "m \<in> set ms \<and> mf_deployment_id m = did" if "fs_stored env dir did = Some m" for m
    using that u by (auto simp: ran_def)
  show found: "find (\<lambda>m. mf_deployment_id m = did) ms = fs_stored env dir did"
  proof (cases "find (\<lambda>m. mf_deployment_id m = did) ms")
    case None
    then show ?thesis using stored by (cases "fs_stored env dir did") (auto simp: find_None_iff)
  next
    case (Some m)
    then have "m \<in> set ms" "mf_deployment_id m = did" by (auto simp: find_Some_iff)
    then show ?thesis using Some u by auto
  qed
  show "list_ex (\<lambda>m. mf_deployment_id m = did) ms \<longleftrightarrow> fs_stored env dir did \<noteq> None"
    unfolding found [symmetric] by (auto simp: list_ex_iff find_None_iff)
qed

text \<open>What the registry's methods do to a record, one request at a time.\<close>

lemma cancel_exact:
  assumes "daemon_inv d" and "cancel did (server d) = (x, s)"
  shows "request_effect gone (CancelDeployment did) (server d) s
    \<and> request_answered env dir (CancelDeployment did) (server d) s (plain_reply env JobReply x)"
proof (cases "map_of (jobs (server d)) did")
  case None
  then have "request_effect gone (CancelDeployment did) (server d) s"
    using assms(2) by (intro effect_none) (auto simp: cancel_def take_sequence_def Let_def split: prod.splits)
  then show ?thesis using assms(2) None by (auto simp: cancel_def take_sequence_def Let_def plain_reply_def)
next
  case (Some r)
  show ?thesis
  proof (cases "is_finished (status r)")
    case True
    then have "request_effect gone (CancelDeployment did) (server d) s"
      using assms(2) Some by (intro effect_none) (auto simp: cancel_def take_sequence_def Let_def split: prod.splits)
    then show ?thesis using assms(2) Some True
      by (auto simp: cancel_def take_sequence_def Let_def plain_reply_def shows_job_def)
  next
    case False
    define n where "n = saturating_add (next_sequence (server d)) 1"
    define r' where "r' = (if \<not> cancellation_requested r
      then r\<lparr>cancellation_requested := True, revision := saturating_add (revision r) 1, sequence := n\<rparr> else r)"
    have run: "x = Inr (job_snapshot did r')" "s = cancellation_request (cancellation r') (put_job did r' ((server d)\<lparr>next_sequence := n\<rparr>))"
      using assms(2) Some False by (auto simp: cancel_def take_sequence_def Let_def r'_def n_def)
    have "cancellation r' = cancellation r" "unstamped r' = unstamped (r\<lparr>cancellation_requested := True\<rparr>)"
      by (simp_all add: r'_def unstamped_def)
    then have "request_effect gone (CancelDeployment did) (server d) s"
      using Some False by (intro effect_job [OF assms(1) refl Some, where r' = r']) (auto simp: run(2) cancellation_request_def)
    then show ?thesis using Some run by (simp add: plain_reply_def shows_job_def cancellation_request_def AList.update_conv')
  qed
qed

lemma acknowledge_exact:
  assumes "daemon_inv d" and "acknowledge did (server d) = (x, s)"
  shows "request_effect gone (AcknowledgeDeployment did) (server d) s
    \<and> request_answered env dir (AcknowledgeDeployment did) (server d) s (plain_reply env (\<lambda>_. EmptyReply) x)"
proof (cases "\<exists>r. map_of (jobs (server d)) did = Some r \<and> is_finished (status r) \<and> claim r \<noteq> ReconciliationRequired \<and> submission_settled (server d) r")
  case True
  then obtain r where r: "map_of (jobs (server d)) did = Some r" "is_finished (status r)" "claim r \<noteq> ReconciliationRequired"
    "submission_settled (server d) r" by blast
  then obtain n where run: "x = Inr ()" "s = put_job did (r\<lparr>acknowledged := True, sequence := n\<rparr>) ((server d)\<lparr>next_sequence := n\<rparr>)"
    using assms(2) by (auto simp: acknowledge_def take_sequence_def Let_def submission_settled_def split: option.splits)
  have "request_effect gone (AcknowledgeDeployment did) (server d) s"
    using r by (intro effect_job [OF assms(1) refl r(1), where r' = "r\<lparr>acknowledged := True, sequence := n\<rparr>"])
      (auto simp: run(2) unstamped_def)
  then show ?thesis using True by (simp add: run(1) plain_reply_def)
next
  case False
  then have "\<exists>e. x = Inl e" "s = server d"
    using assms(2) by (auto simp: acknowledge_def submission_settled_def split: option.splits if_splits)
  moreover have "request_effect gone (AcknowledgeDeployment did) (server d) (server d)" using False by (intro effect_none) auto
  ultimately show ?thesis using False by (auto simp: plain_reply_def)
qed

lemma release_exact:
  assumes "daemon_inv d" and "release_unresolved did confirmed (server d) = (x, s)"
  shows "request_effect gone (ReleaseUnresolvedDeployment did confirmed) (server d) s
    \<and> request_answered env dir (ReleaseUnresolvedDeployment did confirmed) (server d) s (plain_reply env JobReply x)"
proof (cases "confirmed \<and> (\<exists>r. map_of (jobs (server d)) did = Some r \<and> claim r = ReconciliationRequired)")
  case True
  then obtain r where r: "map_of (jobs (server d)) did = Some r" "claim r = ReconciliationRequired" by blast
  define r' where "r' = r\<lparr>reservation := None, claim := ReleasedUnresolved, revision := saturating_add (revision r) 1,
    sequence := saturating_add (next_sequence (server d)) 1\<rparr>"
  have l: "linked (server d)" using assms(1) by (simp add: daemon_inv_def)
  have run: "x = Inr (job_snapshot did r')"
    "s = drop_guard (reservation r) (put_job did r' ((server d)\<lparr>next_sequence := saturating_add (next_sequence (server d)) 1\<rparr>))"
    using assms(2) True r unresolved_finished(1) [OF l r] by (auto simp: release_unresolved_def take_sequence_def Let_def r'_def)
  have "request_effect gone (ReleaseUnresolvedDeployment did confirmed) (server d) s"
    using True r by (intro effect_job [OF assms(1) refl r(1), where r' = r']) (auto simp: run(2) r'_def unstamped_def drop_guard_operations)
  then show ?thesis using True by (simp add: run plain_reply_def shows_job_def AList.update_conv')
next
  case False
  then have "\<exists>e. x = Inl e" "jobs s = jobs (server d)" "submissions s = submissions (server d)" "cancelled s = cancelled (server d)"
    "operations s = operations (server d)"
    using assms(2) by (auto simp: release_unresolved_def take_sequence_def Let_def split: option.splits if_splits)
  moreover from this have "request_effect gone (ReleaseUnresolvedDeployment did confirmed) (server d) s"
    using False by (intro effect_none) auto
  ultimately show ?thesis using False by (auto simp: plain_reply_def)
qed

lemma reconcile_exact:
  assumes "daemon_inv d" and "store_env env" and "distinct (map fst (td_entries dir))"
    and "handle_reconcile env did (server d) dir = (reply, s, dir')"
  shows "request_effect (manifest_gone env dir) (ReconcileDeployment did) (server d) s
    \<and> request_answered env dir (ReconcileDeployment did) (server d) s reply"
proof (cases "(\<exists>r. map_of (jobs (server d)) did = Some r \<and> claim r = ReconciliationRequired) \<and> is_ok (fst (fs_unfinished env dir))")
  case True
  then obtain r ms d1 where r: "map_of (jobs (server d)) did = Some r" "claim r = ReconciliationRequired"
    and ls: "fs_unfinished env dir = (Inr ms, d1)" by (cases "fs_unfinished env dir"; cases "fst (fs_unfinished env dir)") auto
  note present = listing_shows(2) [OF assms(2,3) ls, of did]
  have l: "linked (server d)" using assms(1) by (simp add: daemon_inv_def)
  note st = unresolved_finished(2) [OF l r]
  let ?n = "saturating_add (next_sequence (server d)) 1"
  define r' where "r' = r\<lparr>reservation := None, claim := Reconciled, revision := saturating_add (revision r) 1, sequence := ?n\<rparr>"
  have run: "reply = Inr (JobReply (job_snapshot did (if manifest_gone env dir did then r' else r)))"
    "s = (if manifest_gone env dir did then drop_guard (reservation r) (put_job did r' ((server d)\<lparr>next_sequence := ?n\<rparr>)) else (server d)\<lparr>next_sequence := ?n\<rparr>)"
    using assms(4) r st ls present
    by (auto simp: handle_reconcile_def deployment_snapshot_Some job_snapshot_def reconcile_def take_sequence_def Let_def
        plain_reply_def manifest_gone_def r'_def)
  have "request_effect (manifest_gone env dir) (ReconcileDeployment did) (server d) s"
  proof (cases "manifest_gone env dir did")
    case True
    then show ?thesis
      using r by (intro effect_job [OF assms(1) refl r(1), where r' = r']) (auto simp: run(2) r'_def unstamped_def drop_guard_operations)
  qed (intro effect_none, auto simp: run(2))
  then show ?thesis using True r(1) by (simp add: run shows_job_def AList.update_conv')
next
  case False
  then have "\<exists>e. reply = Inl e" "s = server d"
    using assms(4) by (auto simp: handle_reconcile_def deployment_snapshot_def ok_or_def job_snapshot_def split: option.splits if_splits sum.splits prod.splits)
  moreover have "request_effect (manifest_gone env dir) (ReconcileDeployment did) (server d) (server d)"
    using False by (intro effect_none) (auto simp: manifest_gone_def)
  ultimately show ?thesis using False by auto
qed

lemma probe_exact:
  assumes "daemon_inv d" and "id_available (operations (server d))" and "store_env env" and "distinct (map fst (td_entries dir))"
    and "handle_probe env probe did expected (server d) dir = (reply, s, dir')"
  shows "request_effect gone (ProbeDeploymentRecovery did expected) (server d) s
    \<and> request_answered env dir (ProbeDeploymentRecovery did expected) (server d) s reply"
proof -
  obtain live where inv: "registry_inv (operations (server d)) live"
    using assms(1) unfolding daemon_inv_def claims_ok_def by blast
  have restored: "holders_of (drop_reservation guard ops) k = holders_of (operations (server d)) k"
    if "reserve (se_esc env) cs (operations (server d)) = Inr (guard, ops)" for cs guard ops k
    using registry.discard_undoes_admit [OF inv assms(2), of "se_esc env" "(cs, None)" guard ops k] that by (simp add: reserve_def)
  have quiet: "request_effect gone (ProbeDeploymentRecovery did expected) (server d) (server d)" by (rule effect_none) auto
  have probed: "request_effect gone (ProbeDeploymentRecovery did expected) (server d) ((server d)\<lparr>operations := drop_reservation guard ops\<rparr>)"
    if "reserve (se_esc env) cs (operations (server d)) = Inr (guard, ops)" for cs guard ops
    using restored [OF that] by (intro effect_none) auto
  obtain r1 d1 where ls: "fs_unfinished env dir = (r1, d1)" by force
  show ?thesis
  proof (cases r1)
    case (Inl e)
    then show ?thesis using assms(5) ls quiet by (auto simp: handle_probe_def)
  next
    case (Inr ms)
    note found = listing_shows(1) [OF assms(3,4) ls [unfolded Inr], of did]
    show ?thesis
    proof (cases "fs_stored env dir did")
      case None
      then show ?thesis using assms(5) ls Inr found quiet by (auto simp: handle_probe_def)
    next
      case (Some m)
      then have "mf_deployment_id m = did" using found by (auto simp: find_Some_iff)
      then show ?thesis
        using assms(5) ls Inr found Some quiet probed
        by (auto simp: handle_probe_def split: if_splits sum.splits ResourceConflict.splits)
    qed
  qed
qed

lemma acknowledge_submission_exact:
  assumes "acknowledge_submission rid s = (x, s')"
  shows "request_effect gone (AcknowledgeDeploymentSubmission rid) s s'
    \<and> request_answered env dir (AcknowledgeDeploymentSubmission rid) s s' (plain_reply env (\<lambda>_. EmptyReply) x)"
proof (cases "\<exists>u. map_of (submissions s) rid = Some u \<and> sub_status u \<noteq> Pending")
  case True
  then obtain u n where u: "map_of (submissions s) rid = Some u" "sub_status u \<noteq> Pending"
    and run: "x = Inr ()" "s' = put_submission rid (u\<lparr>sub_acknowledged := True, sub_sequence := n\<rparr>) (s\<lparr>next_sequence := n\<rparr>)"
    using assms by (auto simp: acknowledge_submission_def take_sequence_def Let_def)
  have "released_by gone s (AcknowledgeDeploymentSubmission rid) = {}" by (auto simp: released_by_def)
  then have "request_effect gone (AcknowledgeDeploymentSubmission rid) s s'"
    using u by (auto simp: request_effect_def run(2) AList.update_conv' unsequenced_def fun_eq_iff intro!: map_option_cong)
  then show ?thesis using True by (simp add: run(1) plain_reply_def)
next
  case False
  then have "\<exists>e. x = Inl e" "s' = s\<lparr>next_sequence := next_sequence s'\<rparr>"
    using assms by (auto simp: acknowledge_submission_def take_sequence_def Let_def split: option.splits if_splits)
  moreover have "request_effect gone (AcknowledgeDeploymentSubmission rid) s (s\<lparr>next_sequence := next_sequence s'\<rparr>)"
    using False by (intro effect_none) auto
  ultimately show ?thesis using False by (auto simp: plain_reply_def)
qed

text \<open>
  C24. Every job request does to the daemon exactly what it is for and nothing else, from every reachable state
  and up to revision and sequence numbers: a cancellation sets the flag and the token of the named job, if it is not
  finished; an acknowledgement marks the named job if it is finished, needs no reconciliation and its submission is
  acknowledged, or the named submission if it is decided; a reconciliation resolves the claim of the named job if the
  store can be listed and holds no crash manifest of it; a release gives up the claim of the named job only if the
  client confirms and the job needs reconciliation; these two release exactly the reservation of that job. Status,
  resolution and recovery probe change no record and leave every resource with its holders. A cancellation succeeds
  for every known job, a reconciliation for every job that needs one while the store can be listed, an
  acknowledgement and a release exactly when they take effect; a snapshot in a reply shows the record as it is
  afterwards, and a probe answers only for a stored manifest of the expected revision whose recovery claim is free. No
  request changes a stored crash manifest. The handler is taken as one step; the counter of reservations must not
  be exhausted, the store's codec must read back what it wrote, identifiers must have distinct texts, and the directory must
  list a name once.
\<close>

theorem job_requests_exact:
  assumes "daemon_run esc d" and "id_available (operations (server d))"
    and "store_env env" and "distinct (map fst (td_entries dir))"
    and "handle_job env probe request (server d) dir = (reply, s, dir')"
  shows "request_effect (manifest_gone env dir) request (server d) s
    \<and> request_answered env dir request (server d) s reply
    \<and> fs_stored env dir' = fs_stored env dir"
proof -
  note inv = daemon_run_inv [OF assms(1)]
  have same: "request_effect gone request (server d) (server d)"
    if "request = DeploymentStatusRequest did \<or> request = ResolveDeploymentSubmission rid" for did rid gone
    using that by (intro effect_none) auto
  have "request_effect (manifest_gone env dir) request (server d) s \<and> request_answered env dir request (server d) s reply"
  proof (cases request)
    case (DeploymentStatusRequest did)
    then show ?thesis using assms(5) same [of did]
      by (cases "map_of (jobs (server d)) did")
        (auto simp: optional_reply_def deployment_snapshot_def ok_or_def shows_job_def)
  next
    case (ResolveDeploymentSubmission rid)
    then show ?thesis using assms(5) same [of _ rid]
      by (cases "map_of (submissions (server d)) rid") (auto simp: optional_reply_def resolve_submission_def ok_or_def)
  next
    case (AcknowledgeDeploymentSubmission rid)
    then show ?thesis using assms(5) acknowledge_submission_exact by (fastforce split: prod.splits)
  next
    case (CancelDeployment did)
    then show ?thesis using assms(5) cancel_exact [OF inv] by (fastforce split: prod.splits)
  next
    case (AcknowledgeDeployment did)
    then show ?thesis using assms(5) acknowledge_exact [OF inv] by (fastforce split: prod.splits)
  next
    case (ProbeDeploymentRecovery did expected)
    then show ?thesis using assms(5) probe_exact [OF inv assms(2-4)] by simp
  next
    case (ReconcileDeployment did)
    then show ?thesis using assms(5) reconcile_exact [OF inv assms(3,4)] by simp
  next
    case (ReleaseUnresolvedDeployment did confirmed)
    then show ?thesis using assms(5) release_exact [OF inv] by (fastforce split: prod.splits)
  qed
  then show ?thesis using handlers_keep_manifests [OF assms(5)] by blast
qed

theorem job_requests_exact_witness:
  "\<exists>r. map_of (jobs (fst (snd (handle_job example_env (\<lambda>_. [] :: nat list) (ReleaseUnresolvedDeployment example_deployment True)
      (server example_unresolved) example_store)))) example_deployment = Some r \<and> claim r = ReleasedUnresolved \<and> reservation r = None"
proof -
  let ?request = "ReleaseUnresolvedDeployment example_deployment True"
  obtain reply s dir where h: "handle_job example_env (\<lambda>_. [] :: nat list) ?request (server example_unresolved) example_store = (reply, s, dir)"
    by (metis prod.exhaust)
  have "\<exists>r. map_of (jobs (server example_unresolved)) example_deployment = Some r \<and> claim r = ReconciliationRequired"
    by (simp add: example_unresolved_def example_running_def example_defs finalize_def take_sequence_def
        Let_def terminal_claim_state_def del: and_then_eq_Inr)
  then obtain r where r: "map_of (jobs (server example_unresolved)) example_deployment = Some r" "claim r = ReconciliationRequired" by blast
  have id: "id_available (operations (server example_unresolved))"
    by (simp add: id_available_def example_unresolved_def example_running_def example_defs finalize_def take_sequence_def
        Let_def terminal_claim_state_def del: and_then_eq_Inr)
  have "distinct (map fst (td_entries example_store))" by (simp add: example_store_def)
  then have "request_effect (manifest_gone example_env example_store) ?request (server example_unresolved) s"
    using job_requests_exact [OF example_unresolved_run id example.store_env_axioms _ h] by blast
  then have "map_option unstamped (map_of (jobs s) example_deployment) =
      map_option (\<lambda>r. unstamped (job_after (manifest_gone example_env example_store) (server example_unresolved) ?request example_deployment r))
        (map_of (jobs (server example_unresolved)) example_deployment)" unfolding request_effect_def by blast
  then have "map_option unstamped (map_of (jobs s) example_deployment) = Some (unstamped (r\<lparr>reservation := None, claim := ReleasedUnresolved\<rparr>))"
    using r by simp
  then obtain r' where r': "map_of (jobs s) example_deployment = Some r'"
    "unstamped r' = unstamped (r\<lparr>reservation := None, claim := ReleasedUnresolved\<rparr>)" by auto
  have "claim r' = ReleasedUnresolved" "reservation r' = None"
    using arg_cong [OF r'(2), of claim] arg_cong [OF r'(2), of reservation] by (simp_all add: unstamped_def)
  then show ?thesis using h r'(1) by simp
qed

text \<open>
  C25. Reconciliation obeys the crash state: while a crash manifest of the deployment is stored, or when
  the store cannot be listed, the handler releases nothing and the claim stays unresolved; when the
  listing shows no manifest, the claim becomes reconciled and its reservation is dropped.
\<close>

theorem reconcile_obeys_store:
  assumes "store_env env" and "distinct (map fst (td_entries dir))"
    and "daemon_run esc d" and "map_of (jobs (server d)) did = Some r0" and "claim r0 = ReconciliationRequired"
  shows "case handle_reconcile env did (server d) dir of
      (reply :: string + 'o JobReply, s, dir') \<Rightarrow>
        (fs_stored env dir did \<noteq> None \<or> \<not> is_ok (fst (fs_unfinished env dir)) \<longrightarrow>
           operations s = operations (server d) \<and> map_of (jobs s) did = Some r0)
        \<and> (fs_stored env dir did = None \<and> is_ok (fst (fs_unfinished env dir)) \<longrightarrow>
           (\<exists>r'. map_of (jobs s) did = Some r' \<and> claim r' = Reconciled \<and> reservation r' = None)
           \<and> operations s = operations (drop_guard (reservation r0) (server d)))"
proof -
  note inv = daemon_run_inv [OF assms(3)]
  then have l: "linked (server d)" by (simp add: daemon_inv_def)
  have "status_claim_ok (status r0) ReconciliationRequired"
    using linked_record_ok [OF l assms(4)] assms(5) by (simp add: record_ok_def)
  then have st: "is_reconciliation_required (status r0)"
    by (cases "status r0") (simp_all add: is_reconciliation_required_def)
  obtain r1 d1 where 1: "fs_unfinished env dir = (r1, d1)" by force
  show ?thesis
  proof (cases r1)
    case (Inl e)
    with 1 assms(4,5) show ?thesis
      by (simp add: handle_reconcile_def deployment_snapshot_Some job_snapshot_def)
  next
    case (Inr ms)
    note u = store_env.unfinished_lists_stored [OF assms(1) 1 [unfolded Inr] assms(2)]
    have "list_ex (\<lambda>m. mf_deployment_id m = did) ms \<longleftrightarrow> fs_stored env dir did \<noteq> None"
    proof
      assume "fs_stored env dir did \<noteq> None"
      then obtain m where m: "fs_stored env dir did = Some m" by blast
      then have "m \<in> set ms" using u by (auto simp: ran_def)
      with m u show "list_ex (\<lambda>m. mf_deployment_id m = did) ms" unfolding list_ex_iff by blast
    qed (use u in \<open>auto simp: list_ex_iff\<close>)
    with 1 Inr assms(4,5) st show ?thesis
      by (auto simp: handle_reconcile_def deployment_snapshot_Some job_snapshot_def reconcile_def
          take_sequence_def Let_def drop_guard_operations)
  qed
qed

theorem reconcile_obeys_store_witness:
  "\<exists>r'. map_of (jobs (fst (snd (handle_reconcile example_env example_deployment (server example_unresolved)
      example_store :: nat job_result)))) example_deployment = Some r' \<and> claim r' = Reconciled"
proof -
  have "\<exists>r. map_of (jobs (server example_unresolved)) example_deployment = Some r
    \<and> claim r = ReconciliationRequired"
    by (simp add: example_unresolved_def example_running_def example_defs finalize_def take_sequence_def
        Let_def terminal_claim_state_def del: and_then_eq_Inr)
  then obtain r where r: "map_of (jobs (server example_unresolved)) example_deployment = Some r"
    "claim r = ReconciliationRequired" by blast
  have d: "distinct (map fst (td_entries example_store))" by (simp add: example_store_def)
  have "is_ok (fst (fs_unfinished example_env example_store))" by code_simp
  moreover have "fs_stored example_env example_store example_deployment = None"
    by (simp add: fs_stored_def stored_at_def entry_def example_store_def)
  ultimately show ?thesis
    using reconcile_obeys_store [OF example.store_env_axioms d example_unresolved_run r, where 'o = nat]
    by (cases "handle_reconcile example_env example_deployment (server example_unresolved)
      example_store :: nat job_result") auto
qed

section \<open>What the forwarder delivers\<close>

lemma send_frames_open: "send_frames True [] fs = (fs, True, [])"
  by (induction fs) auto

text \<open>When the terminal status is seen at the head of the loop, the terminal snapshot is the last frame.\<close>

lemma terminal_at_head_delivered:
  assumes "is_finished (head_status t)" and "map_of (jobs s) did = Some r"
  shows "forward_job_stream did True [] (t # ts) s =
    (map EventFrame (drained t) @ [SnapshotFrame (job_snapshot did r)], s, True)"
  using assms by (simp add: send_frames_open deployment_snapshot_Some)

text \<open>
  When \<open>select!\<close> picks the change to the terminal status, the forwarder returns without any frame and
  without draining the events, although the stream is open and the registry has the result.
\<close>

lemma terminal_change_lost:
  assumes "\<not> is_finished (head_status t)" and "selected t = Changed st" and "is_finished st"
  shows "forward_job_stream did stream_open writes (t # ts) s = ([], s, True)"
  using assms by (simp add: observe_status_def)

end
