(* ===== verification/Tar_Limits.thy ===== *)
theory Tar_Limits
  imports Domain_Values Trusted_State
begin

text \<open>
  The resource budget of an uncompressed tar archive (\<open>src/adapters/provisioning/engine/tar_limits.rs\<close>):
  the scan that walks the headers of an untrusted archive before it is extracted, the size fields and PAX
  records it reads, and a description of tar streams in unbounded arithmetic against which the scan is
  exact.
\<close>

unbundle bit_operations_syntax

section \<open>The archive\<close>

text \<open>
  A positioned read delivers some of the bytes asked for, at least one before the end of the file, or
  fails; \<open>delivered\<close> says how many bytes beyond the first a read at an offset returns at most.
\<close>

record TarSource =
  archive_bytes :: string
  delivered :: "nat \<Rightarrow> nat"
  io_fault :: "nat \<Rightarrow> Errno option"

definition read_at :: "TarSource \<Rightarrow> nat \<Rightarrow> u64 \<Rightarrow> Errno + string" where
  "read_at src n pos =
     (case io_fault src (unat pos) of
        Some e \<Rightarrow> Inl e
      | None \<Rightarrow> Inr (take (min n (Suc (delivered src (unat pos)))) (drop (unat pos) (archive_bytes src))))"

definition MAX_EXPANDED_BYTES :: u64 where
  "MAX_EXPANDED_BYTES = MAX_DISK_IMAGE_SIZE_BYTES"

definition MAX_ENTRIES :: u64 where
  "MAX_ENTRIES = 1000000"

definition MAX_METADATA_BYTES :: u64 where
  "MAX_METADATA_BYTES = 1024 * 1024"

record PaxSizeHints =
  stream_size :: "u64 option"
  logical_size :: "u64 option"

definition no_hints :: PaxSizeHints where
  "no_hints = \<lparr>stream_size = None, logical_size = None\<rparr>"

definition option_or :: "'a option \<Rightarrow> 'a option \<Rightarrow> 'a option" where
  "option_or x y = (case x of None \<Rightarrow> y | Some v \<Rightarrow> Some v)"

definition overlay :: "PaxSizeHints \<Rightarrow> PaxSizeHints \<Rightarrow> PaxSizeHints" where
  "overlay h overrides =
     \<lparr>stream_size = option_or (stream_size overrides) (stream_size h),
      logical_size = option_or (logical_size overrides) (logical_size h)\<rparr>"

section \<open>Offsets and blocks\<close>

definition checked_offset :: "u64 \<Rightarrow> u64 \<Rightarrow> NspawnError + u64" where
  "checked_offset offset addition =
     ok_or (checked_add offset addition) (ValidationError ''Tar archive offset overflowed'')"

definition padded_size :: "u64 \<Rightarrow> NspawnError + u64" where
  "padded_size n =
     ok_or (map_option (\<lambda>v. v div 512 * 512) (checked_add n 511))
       (ValidationError ''Tar archive entry size overflowed'')"

text \<open>\<open>offset = checked_offset(offset, padded_size(size)?)?\<close>\<close>

definition skip_padded :: "u64 \<Rightarrow> u64 \<Rightarrow> NspawnError + u64" where
  "skip_padded offset n = and_then (padded_size n) (checked_offset offset)"

definition add_payload :: "u64 \<Rightarrow> u64 \<Rightarrow> u64 \<Rightarrow> NspawnError + u64" where
  "add_payload sum_bytes n limit =
     and_then (ok_or (checked_add sum_bytes n) (ValidationError ''Tar archive payload size overflowed''))
       (\<lambda>sum_bytes.
          if sum_bytes > limit
          then Inl (ValidationError (''Tar archive declares more than the '' @ show_nat (unat limit) @
                 '' byte extraction limit''))
          else Inr sum_bytes)"

text \<open>\<open>read_block\<close>: the loop that fills the block, with the bytes read so far.\<close>

function fill_block :: "TarSource \<Rightarrow> u64 \<Rightarrow> nat \<Rightarrow> string \<Rightarrow> NspawnError + string" where
  "fill_block src offset len filled =
     (if length filled < len then
        (case checked_offset offset (of_nat (length filled)) of
           Inl e \<Rightarrow> Inl e
         | Inr pos \<Rightarrow>
             (case read_at src (len - length filled) pos of
                Inl e \<Rightarrow> Inl (Io ''tar archive'' e)
              | Inr bytes \<Rightarrow>
                  if bytes = []
                  then Inl (ValidationError ''Tar archive ended before its end-of-archive blocks'')
                  else fill_block src offset len (filled @ bytes)))
      else Inr filled)"
  by pat_completeness auto

termination
  by (relation "measure (\<lambda>(src, offset, len, filled). len - length filled)")
    (auto simp: length_greater_0_conv [symmetric] simp del: length_greater_0_conv)

declare fill_block.simps [simp del]

definition read_block :: "TarSource \<Rightarrow> u64 \<Rightarrow> nat \<Rightarrow> NspawnError + string" where
  "read_block src offset len = fill_block src offset len []"

definition read_bytes :: "TarSource \<Rightarrow> u64 \<Rightarrow> nat \<Rightarrow> NspawnError + string" where
  "read_bytes src offset n = read_block src offset n"

section \<open>Numbers\<close>

text \<open>One step of the checked folds: multiply by the base, add the digit, refuse to overflow.\<close>

definition checked_digit :: "u64 \<Rightarrow> ('a \<Rightarrow> NspawnError + nat) \<Rightarrow> NspawnError \<Rightarrow> u64 \<Rightarrow> 'a \<Rightarrow> NspawnError + u64" where
  "checked_digit base digit overflow acc x =
     and_then (digit x) (\<lambda>d.
       ok_or (Option.bind (checked_mul acc base) (\<lambda>t. checked_add t (of_nat d))) overflow)"

definition parse_decimal_size :: "string \<Rightarrow> NspawnError + u64" where
  "parse_decimal_size v =
     (if v = [] \<or> \<not> list_all is_ascii_digit v
      then Inl (ValidationError ''Tar metadata contains an invalid decimal size'')
      else try_fold (checked_digit 10 (\<lambda>b. Inr (digit_value b)) (ValidationError ''Tar metadata size overflowed'')) 0 v)"

definition blank :: "char \<Rightarrow> bool" where
  "blank b \<longleftrightarrow> byte b = 0 \<or> b = CHR '' ''"

definition octal_digit :: "char \<Rightarrow> NspawnError + nat" where
  "octal_digit b =
     (if 48 \<le> byte b \<and> byte b \<le> 55 then Inr (byte b - 48)
      else Inl (ValidationError ''Tar archive contains an invalid entry size''))"

text \<open>A first byte with its top bit set starts a base-256 number; otherwise the field is octal digits.\<close>

definition parse_tar_size :: "string \<Rightarrow> NspawnError + u64" where
  "parse_tar_size field =
     (if field \<noteq> [] \<and> byte (hd field) AND 0x80 \<noteq> 0
      then if byte (hd field) AND 0x40 \<noteq> 0
        then Inl (ValidationError ''Tar archive contains a negative entry size'')
        else try_fold (checked_digit 256 (\<lambda>(i, b). Inr (if i = 0 then byte b AND 0x7f else byte b))
               (ValidationError ''Tar entry size overflowed'')) 0 (enumerate 0 field)
      else
        (case position (\<lambda>b. \<not> blank b) field of
           None \<Rightarrow> Inr 0
         | Some start \<Rightarrow>
             (case rposition (\<lambda>b. \<not> blank b) field of
                None \<Rightarrow> Inl (RuntimeError ''non-empty tar size field'')
              | Some last_digit \<Rightarrow>
                  try_fold (checked_digit 8 octal_digit (ValidationError ''Tar entry size overflowed'')) 0
                    (take (last_digit + 1 - start) (drop start field)))))"

section \<open>PAX records\<close>

definition set_hint :: "string \<Rightarrow> string \<Rightarrow> PaxSizeHints \<Rightarrow> NspawnError + PaxSizeHints" where
  "set_hint key v hints =
     (if key = ''size''
      then and_then (parse_decimal_size v) (\<lambda>n. Inr (hints\<lparr>stream_size := Some n\<rparr>))
      else if key = ''GNU.sparse.realsize'' \<or> key = ''GNU.sparse.size''
      then and_then (parse_decimal_size v) (\<lambda>n. Inr (hints\<lparr>logical_size := Some n\<rparr>))
      else Inr hints)"

text \<open>
  One record at \<open>offset\<close>: its end and the hints after it. Offsets into the payload are natural numbers:
  an end that overflows \<open>usize\<close> is past the payload, and both are the same error.
\<close>

definition pax_record :: "string \<Rightarrow> nat \<Rightarrow> PaxSizeHints \<Rightarrow> NspawnError + PaxSizeHints \<times> nat" where
  "pax_record payload offset hints =
     (case position (\<lambda>b. b = CHR '' '') (drop offset payload) of
        None \<Rightarrow> Inl (ValidationError ''Tar PAX record has no length'')
      | Some p \<Rightarrow>
          let length_end = offset + p in
          and_then (parse_decimal_size (take (length_end - offset) (drop offset payload))) (\<lambda>len.
            let record_end = offset + unat len in
            if record_end > length payload then Inl (ValidationError ''Tar PAX record is truncated'')
            else if length_end + 1 \<ge> record_end \<or> payload ! (record_end - 1) \<noteq> CHR 0x0A
            then Inl (ValidationError ''Tar PAX record has an invalid length'')
            else
              let rec = take (record_end - 1 - (length_end + 1)) (drop (length_end + 1) payload) in
              (case position (\<lambda>b. b = CHR ''='') rec of
                 None \<Rightarrow> Inl (ValidationError ''Tar PAX record has no value'')
               | Some sep \<Rightarrow>
                   and_then (set_hint (take sep rec) (drop (sep + 1) rec) hints)
                     (\<lambda>hints. Inr (hints, record_end)))))"

lemma pax_record_advances: "pax_record payload offset hints = Inr (h, e) \<Longrightarrow> offset < e \<and> e \<le> length payload"
  by (auto simp: pax_record_def Let_def split: option.splits if_splits)

function pax_records :: "string \<Rightarrow> nat \<Rightarrow> PaxSizeHints \<Rightarrow> NspawnError + PaxSizeHints" where
  "pax_records payload offset hints =
     (if offset < length payload
      then (case pax_record payload offset hints of
              Inl e \<Rightarrow> Inl e
            | Inr (hints, record_end) \<Rightarrow> pax_records payload record_end hints)
      else Inr hints)"
  by pat_completeness auto

termination
  by (relation "measure (\<lambda>(payload, offset, hints). length payload - offset)")
    (auto dest!: pax_record_advances)

declare pax_records.simps [simp del]

definition parse_pax_size_hints :: "string \<Rightarrow> NspawnError + PaxSizeHints" where
  "parse_pax_size_hints payload = pax_records payload 0 no_hints"

section \<open>The scan\<close>

record ScanState =
  scan_offset :: u64
  zero_blocks :: u8
  entries :: u64
  payload_bytes :: u64
  global_pax :: PaxSizeHints
  local_pax :: PaxSizeHints

definition scan_start :: ScanState where
  "scan_start =
     \<lparr>scan_offset = 0, zero_blocks = 0, entries = 0, payload_bytes = 0,
      global_pax = no_hints, local_pax = no_hints\<rparr>"

definition reject_large_metadata :: "u64 \<Rightarrow> string \<Rightarrow> NspawnError + unit" where
  "reject_large_metadata n kind =
     (if n > MAX_METADATA_BYTES
      then Inl (ValidationError (''Tar '' @ kind @ '' metadata exceeds the '' @
             show_nat (unat MAX_METADATA_BYTES) @ '' byte limit''))
      else Inr ())"

definition header_slice :: "string \<Rightarrow> nat \<Rightarrow> nat \<Rightarrow> string" where
  "header_slice header a b = take (b - a) (drop a header)"

text \<open>\<open>skip_oldgnu_sparse_headers\<close>: extension headers follow while the last one says so.\<close>

lemma checked_succ_measure: "checked_add count 1 = Some n \<Longrightarrow> 2 ^ 64 - unat (n :: u64) < 2 ^ 64 - unat count"
proof -
  assume n: "checked_add count 1 = Some n"
  have "unat n < 2 ^ LENGTH(64)" by (rule unsigned_less)
  with checked_add_unat [OF n] show ?thesis by simp
qed

function skip_sparse_headers :: "TarSource \<Rightarrow> u64 \<Rightarrow> bool \<Rightarrow> u64 \<Rightarrow> u64 \<Rightarrow> NspawnError + u64" where
  "skip_sparse_headers src offset extended limit count =
     (if extended then
        (case checked_add count 1 of
           None \<Rightarrow> Inl (ValidationError ''Tar sparse header count overflowed'')
         | Some n \<Rightarrow>
             if n > limit
             then Inl (ValidationError (''Tar archive contains more than '' @ show_nat (unat limit) @
                    '' sparse extension headers''))
             else
               (case read_block src offset 512 of
                  Inl e \<Rightarrow> Inl e
                | Inr header \<Rightarrow>
                    (case checked_offset offset 512 of
                       Inl e \<Rightarrow> Inl e
                     | Inr offset \<Rightarrow> skip_sparse_headers src offset (byte (header ! 504) \<noteq> 0) limit n)))
      else Inr offset)"
  by pat_completeness auto

termination
  by (relation "measure (\<lambda>(src, offset, extended, limit, count). 2 ^ 64 - unat count)")
    (auto dest!: checked_succ_measure)

declare skip_sparse_headers.simps [simp del]

definition skip_oldgnu_sparse_headers :: "TarSource \<Rightarrow> u64 \<Rightarrow> bool \<Rightarrow> u64 \<Rightarrow> NspawnError + u64" where
  "skip_oldgnu_sparse_headers src offset extended limit = skip_sparse_headers src offset extended limit 0"

text \<open>The three kinds of header after the size field is read; \<open>st\<close> stands behind the header block.\<close>

definition scan_pax :: "TarSource \<Rightarrow> char \<Rightarrow> u64 \<Rightarrow> ScanState \<Rightarrow> NspawnError + ScanState" where
  "scan_pax src entry_type header_size st =
     and_then (reject_large_metadata header_size ''PAX'') (\<lambda>_.
     and_then (read_bytes src (scan_offset st) (unat header_size)) (\<lambda>metadata.
     and_then (parse_pax_size_hints metadata) (\<lambda>hints.
     let st = (if entry_type = CHR ''g'' then st\<lparr>global_pax := overlay (global_pax st) hints\<rparr>
               else st\<lparr>local_pax := overlay (local_pax st) hints\<rparr>) in
     and_then (skip_padded (scan_offset st) header_size) (\<lambda>offset.
     Inr (st\<lparr>scan_offset := offset\<rparr>)))))"

definition scan_long_name :: "u64 \<Rightarrow> ScanState \<Rightarrow> NspawnError + ScanState" where
  "scan_long_name header_size st =
     and_then (reject_large_metadata header_size ''long-name'') (\<lambda>_.
     and_then (skip_padded (scan_offset st) header_size) (\<lambda>offset.
     Inr (st\<lparr>scan_offset := offset\<rparr>)))"

definition unwrap_or :: "'a option \<Rightarrow> 'a \<Rightarrow> 'a" where
  "unwrap_or x d = (case x of None \<Rightarrow> d | Some v \<Rightarrow> v)"

definition scan_member ::
  "TarSource \<Rightarrow> u64 \<Rightarrow> u64 \<Rightarrow> string \<Rightarrow> u64 \<Rightarrow> ScanState \<Rightarrow> NspawnError + ScanState" where
  "scan_member src limit max_entries header header_size st =
     (let hints = overlay (global_pax st) (local_pax st);
          st = st\<lparr>local_pax := no_hints\<rparr>;
          stream = unwrap_or (stream_size hints) header_size;
          logical = max (unwrap_or (logical_size hints) stream) stream in
      and_then
        (if header ! 156 = CHR ''S''
         then and_then (parse_tar_size (header_slice header 483 495)) (\<lambda>real.
              and_then (skip_oldgnu_sparse_headers src (scan_offset st) (byte (header ! 482) \<noteq> 0) max_entries)
                (\<lambda>offset. Inr (max logical real, offset)))
         else Inr (logical, scan_offset st)) (\<lambda>(logical, offset).
      and_then (add_payload (payload_bytes st) logical limit) (\<lambda>payload.
      and_then (skip_padded offset stream) (\<lambda>offset.
      Inr (st\<lparr>scan_offset := offset, payload_bytes := payload\<rparr>)))))"

text \<open>One turn of the loop: \<^const>\<open>None\<close> when the second zero block ends the archive.\<close>

definition scan_step ::
  "TarSource \<Rightarrow> u64 \<Rightarrow> u64 \<Rightarrow> ScanState \<Rightarrow> NspawnError + ScanState option" where
  "scan_step src limit max_entries st =
     and_then (read_block src (scan_offset st) 512) (\<lambda>header.
     and_then (checked_offset (scan_offset st) 512) (\<lambda>offset.
     if list_all (\<lambda>b. byte b = 0) header
     then let zeros = zero_blocks st + 1 in
       if zeros = 2 then Inr None
       else Inr (Some (st\<lparr>scan_offset := offset, zero_blocks := zeros\<rparr>))
     else
       and_then (ok_or (checked_add (entries st) 1) (ValidationError ''Tar archive entry count overflowed'')) (\<lambda>n.
       if n > max_entries
       then Inl (ValidationError (''Tar archive contains more than '' @ show_nat (unat max_entries) @ '' entries''))
       else
         and_then (parse_tar_size (header_slice header 124 136)) (\<lambda>header_size.
         let st = st\<lparr>scan_offset := offset, zero_blocks := 0, entries := n\<rparr>; entry_type = header ! 156 in
         and_then
           (if entry_type = CHR ''x'' \<or> entry_type = CHR ''g'' then scan_pax src entry_type header_size st
            else if entry_type = CHR ''L'' \<or> entry_type = CHR ''K'' then scan_long_name header_size st
            else scan_member src limit max_entries header header_size st)
           (\<lambda>st. Inr (Some st))))))"

subsection \<open>Blocks and offsets\<close>

lemma take_extend:
  assumes "filled = take (length filled) xs"
  shows "filled @ take m (drop (length filled) xs) = take (length filled + length (take m (drop (length filled) xs))) xs"
proof -
  have "take (length (take m (drop (length filled) xs))) (drop (length filled) xs) = take m (drop (length filled) xs)"
    by (simp add: min_def)
  with assms show ?thesis by (subst take_add) metis
qed

lemma fill_block_Inr:
  "fill_block src offset n filled = Inr bs \<Longrightarrow>
   filled = take (length filled) (drop (unat offset) (archive_bytes src)) \<Longrightarrow> length filled \<le> n \<Longrightarrow>
   n < 2 ^ 64 \<Longrightarrow> length bs = n \<and> bs = take n (drop (unat offset) (archive_bytes src))"
proof (induction src offset n filled rule: fill_block.induct)
  case (1 src offset n filled)
  show ?case
  proof (cases "length filled < n")
    case False
    with 1 show ?thesis by (simp add: fill_block.simps [of src])
  next
    case True
    with 1(2) obtain pos bytes where pos: "checked_offset offset (of_nat (length filled)) = Inr pos"
      and rd: "read_at src (n - length filled) pos = Inr bytes" and ne: "bytes \<noteq> []"
      and rest: "fill_block src offset n (filled @ bytes) = Inr bs"
      by (subst (asm) fill_block.simps) (auto split: sum.splits if_splits)
    let ?b = "archive_bytes src" and ?k = "length filled"
    have bytes: "bytes = take (min (n - ?k) (Suc (delivered src (unat pos)))) (drop (unat pos) ?b)"
      using rd by (auto simp: read_at_def split: option.splits)
    have "unat (of_nat ?k :: u64) = ?k" using True 1(5) by (simp add: unat_of_nat)
    then have "unat pos = unat offset + ?k"
      using pos by (auto simp: checked_offset_def dest: checked_add_unat)
    then have "drop (unat pos) ?b = drop ?k (drop (unat offset) ?b)" by (simp add: add.commute)
    then have "filled @ bytes = take (?k + length bytes) (drop (unat offset) ?b)"
      unfolding bytes by (simp only: take_extend [OF 1(3), symmetric])
    then have eq: "filled @ bytes = take (length (filled @ bytes)) (drop (unat offset) ?b)"
      unfolding length_append .
    have le: "length (filled @ bytes) \<le> n" using True bytes by simp
    show ?thesis by (rule 1(1) [OF True pos rd ne rest eq le 1(5)])
  qed
qed

lemma read_block_Inr:
  assumes "read_block src offset n = Inr bs" and "n < 2 ^ 64"
  shows "length bs = n" and "bs = take n (drop (unat offset) (archive_bytes src))"
proof -
  have "length bs = n \<and> bs = take n (drop (unat offset) (archive_bytes src))"
    using assms by (intro fill_block_Inr [of src offset n "[]"]) (simp_all add: read_block_def)
  then show "length bs = n" and "bs = take n (drop (unat offset) (archive_bytes src))" by blast+
qed

lemma read_block_extent:
  assumes "read_block src offset n = Inr bs" and "n < 2 ^ 64" and "0 < n"
  shows "unat offset + n \<le> length (archive_bytes src)"
  using arg_cong [OF read_block_Inr(2) [OF assms(1,2)], of length] read_block_Inr(1) [OF assms(1,2)] assms(3)
  by (simp add: min_def split: if_splits)

text \<open>Without faults, and in a file whose offsets fit, a block is read exactly when it is there.\<close>

definition no_io_faults :: "TarSource \<Rightarrow> bool" where
  "no_io_faults src \<longleftrightarrow> io_fault src = (\<lambda>_. None) \<and> length (archive_bytes src) < 2 ^ 64"

lemma fill_block_complete:
  "no_io_faults src \<Longrightarrow> unat offset + n \<le> length (archive_bytes src) \<Longrightarrow> length filled \<le> n \<Longrightarrow>
   filled = take (length filled) (drop (unat offset) (archive_bytes src)) \<Longrightarrow>
   fill_block src offset n filled = Inr (take n (drop (unat offset) (archive_bytes src)))"
proof (induction src offset n filled rule: fill_block.induct)
  case (1 src offset n filled)
  let ?b = "archive_bytes src" and ?k = "length filled"
  show ?case
  proof (cases "?k < n")
    case False
    with 1 show ?thesis by (simp add: fill_block.simps [of src])
  next
    case True
    have small: "length ?b < 2 ^ 64" and ok: "io_fault src = (\<lambda>_. None)"
      using 1(2) by (auto simp: no_io_faults_def)
    have k: "unat (of_nat ?k :: u64) = ?k" using True 1(3) small by (simp add: unat_of_nat)
    obtain pos where pos: "checked_offset offset (of_nat ?k) = Inr pos" and upos: "unat pos = unat offset + ?k"
      using True 1(3) small k
      by (auto simp: checked_offset_def checked_add_def ok_or_def unat_word_ariths)
    let ?d = "take (min (n - ?k) (Suc (delivered src (unat pos)))) (drop (unat pos) ?b)"
    have rd: "read_at src (n - ?k) pos = Inr ?d" using ok by (simp add: read_at_def)
    have ne: "?d \<noteq> []" using True 1(3) upos by auto
    have "drop (unat pos) ?b = drop ?k (drop (unat offset) ?b)" using upos by (simp add: add.commute)
    then have "filled @ ?d = take (?k + length ?d) (drop (unat offset) ?b)"
      by (simp only: take_extend [OF 1(5), symmetric])
    then have eq: "filled @ ?d = take (length (filled @ ?d)) (drop (unat offset) ?b)"
      unfolding length_append .
    have le: "length (filled @ ?d) \<le> n" using True by simp
    have "fill_block src offset n (filled @ ?d) = Inr (take n (drop (unat offset) ?b))"
      by (rule 1(1) [OF True pos rd ne 1(2,3) le eq])
    then show ?thesis using True pos rd ne by (subst fill_block.simps) simp
  qed
qed

lemma read_block_complete:
  "no_io_faults src \<Longrightarrow> unat offset + n \<le> length (archive_bytes src) \<Longrightarrow>
   read_block src offset n = Inr (take n (drop (unat offset) (archive_bytes src)))"
  by (simp add: read_block_def fill_block_complete)

lemma checked_offset_Inr:
  "checked_offset a b = Inr c \<longleftrightarrow> unat c = unat a + unat b"
proof -
  have "unat c < 2 ^ LENGTH(64)" by (rule unsigned_less)
  then show ?thesis
    by (auto simp: checked_offset_def checked_add_Some unat_word_ariths word_unat_eq_iff)
qed

subsection \<open>Numbers\<close>

text \<open>The value of a digit string in a base; a checked fold computes it or overflows.\<close>

definition radix_value :: "nat \<Rightarrow> nat \<Rightarrow> nat list \<Rightarrow> nat" where
  "radix_value base n ds = foldl (\<lambda>n d. base * n + d) n ds"

lemma radix_value_simps [simp]:
  "radix_value base n [] = n"
  "radix_value base n (d # ds) = radix_value base (base * n + d) ds"
  by (simp_all add: radix_value_def)

lemma radix_value_ge: "0 < base \<Longrightarrow> n \<le> radix_value base n ds"
proof (induction ds arbitrary: n)
  case (Cons d ds)
  have "n \<le> base * n + d" using Cons.prems by (cases base) auto
  also have "\<dots> \<le> radix_value base (base * n + d) ds" using Cons by blast
  finally show ?case by simp
qed simp

lemma checked_digit_Inr:
  assumes "digit x = Inr d" and "d < 2 ^ 64"
  shows "checked_digit base digit e t x = Inr w \<longleftrightarrow> unat w = unat base * unat t + d"
proof -
  have w: "unat w < 2 ^ LENGTH(64)" by (rule unsigned_less)
  have d: "unat (of_nat d :: u64) = d" using assms(2) by (simp add: unat_of_nat)
  show ?thesis
    using w d assms(1)
    by (auto simp: checked_digit_def checked_add_def checked_mul_def ok_or_def word_unat_eq_iff unat_word_ariths
        mult.commute split: option.splits bind_splits if_splits)
qed

lemma checked_digits_Inr:
  assumes "\<And>x d. x \<in> set xs \<Longrightarrow> digit x = Inr d \<Longrightarrow> d < 2 ^ 64" and "0 < unat base"
  shows "try_fold (checked_digit base digit e) t xs = Inr w \<longleftrightarrow>
    (\<exists>ds. map digit xs = map Inr ds \<and> unat w = radix_value (unat base) (unat t) ds)"
  using assms(1)
proof (induction xs arbitrary: t)
  case Nil
  then show ?case by (auto simp: word_unat_eq_iff)
next
  case (Cons x xs)
  show ?case
  proof (cases "digit x")
    case (Inl err)
    then show ?thesis by (auto simp: checked_digit_def)
  next
    case (Inr d)
    have step: "checked_digit base digit e t x = Inr t' \<longleftrightarrow> unat t' = unat base * unat t + d" for t'
      using Cons.prems [of x d] Inr by (intro checked_digit_Inr) simp_all
    have IH: "try_fold (checked_digit base digit e) t' xs = Inr w \<longleftrightarrow>
        (\<exists>ds. map digit xs = map Inr ds \<and> unat w = radix_value (unat base) (unat t') ds)" for t'
      using Cons.prems by (intro Cons.IH) auto
    have fits: "\<exists>t' :: u64. unat t' = unat base * unat t + d"
      if "unat w = radix_value (unat base) (unat base * unat t + d) ds" for ds
    proof -
      have "unat base * unat t + d \<le> unat w" using radix_value_ge [OF assms(2)] that by simp
      moreover have "unat w < 2 ^ LENGTH(64)" by (rule unsigned_less)
      ultimately have "unat (of_nat (unat base * unat t + d) :: u64) = unat base * unat t + d"
        by (simp only: unat_of_nat) simp
      then show ?thesis by blast
    qed
    have "try_fold (checked_digit base digit e) t (x # xs) = Inr w \<longleftrightarrow>
      (\<exists>(t' :: u64) ds. unat t' = unat base * unat t + d \<and> map digit xs = map Inr ds \<and>
         unat w = radix_value (unat base) (unat t') ds)"
      unfolding try_fold.simps and_then_eq_Inr step IH by blast
    also have "\<dots> \<longleftrightarrow> (\<exists>ds. map digit (x # xs) = map Inr ds \<and> unat w = radix_value (unat base) (unat t) ds)"
      using fits Inr by (fastforce simp: map_eq_Cons_conv Cons_eq_map_conv)
    finally show ?thesis .
  qed
qed

lemma parse_decimal_size_Inr:
  "parse_decimal_size v = Inr w \<longleftrightarrow> v \<noteq> [] \<and> list_all is_ascii_digit v \<and> unat w = digits_value v"
proof -
  have dv: "radix_value 10 n (map digit_value v) = foldl (\<lambda>n c. 10 * n + digit_value c) n v" for n
    by (induction v arbitrary: n) simp_all
  have "try_fold (checked_digit 10 (\<lambda>b. Inr (digit_value b)) e) 0 v = Inr w \<longleftrightarrow> unat w = digits_value v" for e
  proof (subst checked_digits_Inr)
    show "d < 2 ^ 64" if "Inr (digit_value x) = (Inr d :: NspawnError + nat)" for x d
    proof -
      have "byte x - 48 \<le> byte x" by simp
      also have "byte x < 256" by simp
      also have "(256 :: nat) < 2 ^ 64" by simp
      finally show ?thesis using that by (simp add: digit_value_def)
    qed
    show "(\<exists>ds. map (\<lambda>b. Inr (digit_value b)) v = (map Inr ds :: (NspawnError + nat) list) \<and>
        unat w = radix_value (unat (10 :: u64)) (unat (0 :: u64)) ds) \<longleftrightarrow> unat w = digits_value v"
    proof -
      have "map (\<lambda>b. Inr (digit_value b)) v = (map Inr ds :: (NspawnError + nat) list) \<longleftrightarrow> ds = map digit_value v" for ds
        by (auto simp: list_eq_iff_nth_eq)
      then show ?thesis by (simp add: dv digits_value_def)
    qed
  qed simp
  then show ?thesis by (auto simp: parse_decimal_size_def)
qed

definition octal_char :: "nat \<Rightarrow> char" where
  "octal_char d = char_of (48 + d)"

text \<open>
  What a size field says: a base-256 number under a set top bit, negative when the next bit is set too;
  otherwise octal digits between blanks.
\<close>

definition tar_size :: "string \<Rightarrow> nat \<Rightarrow> bool" where
  "tar_size field n \<longleftrightarrow>
     (if field \<noteq> [] \<and> 128 \<le> byte (hd field)
      then byte (hd field) < 192 \<and> n = radix_value 256 0 ((byte (hd field) - 128) # map byte (tl field))
      else \<exists>a ds b. field = a @ map octal_char ds @ b \<and> list_all blank a \<and> list_all blank b \<and>
             list_all (\<lambda>d. d < 8) ds \<and> n = radix_value 8 0 ds)"

lemma top_bits:
  fixes n :: nat
  assumes "n < 256"
  shows "odd (n div 128) \<longleftrightarrow> 128 \<le> n" and "128 \<le> n \<Longrightarrow> odd (n div 64) \<longleftrightarrow> 192 \<le> n"
proof -
  show "odd (n div 128) \<longleftrightarrow> 128 \<le> n"
  proof (cases "128 \<le> n")
    case True
    then have "n div 128 = 1" using assms by (intro div_nat_eqI) simp_all
    with True show ?thesis by simp
  qed simp
  assume big: "128 \<le> n"
  show "odd (n div 64) \<longleftrightarrow> 192 \<le> n"
  proof (cases "192 \<le> n")
    case True
    then have "n div 64 = 3" using assms by (intro div_nat_eqI) simp_all
    with True show ?thesis by simp
  next
    case False
    then have "n div 64 = 2" using big by (intro div_nat_eqI) simp_all
    with False show ?thesis by simp
  qed
qed

lemma byte_bits:
  fixes c :: char
  shows "byte c AND 0x80 \<noteq> 0 \<longleftrightarrow> 128 \<le> byte c" and "byte c AND 0x7f = byte c mod 128"
    and "128 \<le> byte c \<Longrightarrow> byte c AND 0x40 \<noteq> 0 \<longleftrightarrow> 192 \<le> byte c"
proof -
  have small: "byte c < 256" by simp
  have "byte c AND 2 ^ 7 = 0 \<longleftrightarrow> \<not> bit (byte c) 7" and "byte c AND 2 ^ 6 = 0 \<longleftrightarrow> \<not> bit (byte c) 6"
    by (simp_all only: and_exp_eq_0_iff_not_bit)
  moreover have "bit (byte c) 7 \<longleftrightarrow> odd (byte c div 128)" and "bit (byte c) 6 \<longleftrightarrow> odd (byte c div 64)"
    by (simp_all add: bit_iff_odd)
  moreover note top_bits [OF small]
  ultimately show "byte c AND 0x80 \<noteq> 0 \<longleftrightarrow> 128 \<le> byte c"
    and "128 \<le> byte c \<Longrightarrow> byte c AND 0x40 \<noteq> 0 \<longleftrightarrow> 192 \<le> byte c" by simp_all
  have "byte c AND mask 7 = byte c mod 2 ^ 7" by (simp only: take_bit_eq_mask [symmetric] take_bit_eq_mod)
  then show "byte c AND 0x7f = byte c mod 128" by (simp add: mask_eq_exp_minus_1)
qed

lemma byte_octal_char: "d < 8 \<Longrightarrow> byte (octal_char d) = 48 + d"
  by (simp add: octal_char_def byte_char_of)

lemma octal_char_not_blank:
  assumes "d < 8"
  shows "\<not> blank (octal_char d)"
proof
  assume "blank (octal_char d)"
  then have "byte (octal_char d) \<in> {0, 32}" by (auto simp: blank_def)
  with assms show False by (simp only: byte_octal_char) auto
qed

lemma octal_digit_Inr: "octal_digit b = Inr d \<longleftrightarrow> d < 8 \<and> b = octal_char d"
  using byte_octal_char [of d] by (auto simp: octal_digit_def octal_char_def split: if_splits)

lemma octal_digits_Inr:
  "map octal_digit xs = map Inr ds \<longleftrightarrow> list_all (\<lambda>d. d < 8) ds \<and> xs = map octal_char ds"
  by (induction ds arbitrary: xs) (auto simp: map_eq_Cons_conv octal_digit_Inr)

lemma low_bits: "n < 256 \<Longrightarrow> 128 \<le> n \<Longrightarrow> n mod 128 = n - (128 :: nat)"
  by (simp add: le_mod_geq)

lemma base256_Inr:
  assumes "128 \<le> byte c"
  shows "try_fold (checked_digit 256 (\<lambda>(i, b). Inr (if i = 0 then byte b AND 0x7f else byte b)) e) 0
           (enumerate 0 (c # r)) = Inr w \<longleftrightarrow>
         unat w = radix_value 256 0 ((byte c - 128) # map byte r)"
proof (subst checked_digits_Inr)
  let ?digit = "\<lambda>(i :: nat, b). Inr (if i = 0 then byte b AND 0x7f else byte b) :: NspawnError + nat"
  have small: "byte b < 2 ^ 64" for b
  proof -
    have "byte b < 256" by simp
    also have "(256 :: nat) < 2 ^ 64" by simp
    finally show ?thesis .
  qed
  show "d < 2 ^ 64" if "?digit x = Inr d" for x d
    using that small [of "snd x"] by (auto simp: byte_bits split: prod.splits if_splits intro: le_less_trans [of _ "byte _"])
  have rest: "map ?digit (enumerate (Suc n) r) = map Inr (map byte r)" for n
    by (induction r arbitrary: n) simp_all
  have "byte c < 256" by simp
  then have "byte c mod 128 = byte c - 128" using low_bits assms by blast
  then have "map ?digit (enumerate 0 (c # r)) = map Inr ((byte c - 128) # map byte r)"
    using rest [of 0] by (simp add: byte_bits)
  then have "map ?digit (enumerate 0 (c # r)) = map Inr ds \<longleftrightarrow> ds = (byte c - 128) # map byte r" for ds
    by (simp only: inj_map_eq_map [OF inj_Inr]) blast
  then show "(\<exists>ds. map ?digit (enumerate 0 (c # r)) = map Inr ds \<and>
      unat w = radix_value (unat (256 :: u64)) (unat (0 :: u64)) ds) \<longleftrightarrow>
    unat w = radix_value 256 0 ((byte c - 128) # map byte r)" by simp
qed simp

lemma position_between:
  assumes "list_all blank a" and "list_all blank b" and "m \<noteq> []" and "\<not> blank (hd m)" and "\<not> blank (last m)"
  shows "position (\<lambda>b. \<not> blank b) (a @ m @ b) = Some (length a)"
    and "rposition (\<lambda>b. \<not> blank b) (a @ m @ b) = Some (length a + length m - 1)"
proof -
  from assms(3,4) show "position (\<lambda>b. \<not> blank b) (a @ m @ b) = Some (length a)"
    using assms(1) by (cases m) (auto simp: position_Some nth_append list_all_length)
  from assms(3) have m: "m = butlast m @ [last m]" by simp
  have "rposition (\<lambda>b. \<not> blank b) ((a @ butlast m) @ last m # b) = Some (length (a @ butlast m))"
    using assms(2,5) by (intro rposition_append) (auto simp: list_all_iff)
  moreover have "(a @ butlast m) @ last m # b = a @ m @ b" by (subst (3) m) simp
  moreover have "length (a @ butlast m) = length a + length m - 1" using assms(3) by (cases m) auto
  ultimately show "rposition (\<lambda>b. \<not> blank b) (a @ m @ b) = Some (length a + length m - 1)" by metis
qed

lemma between_split:
  assumes "position (\<lambda>b. \<not> blank b) f = Some i" and "rposition (\<lambda>b. \<not> blank b) f = Some j"
  shows "f = take i f @ take (j + 1 - i) (drop i f) @ drop (Suc j) f"
    and "list_all blank (take i f)" and "list_all blank (drop (Suc j) f)"
proof -
  have i: "i < length f" "\<forall>k < i. blank (f ! k)" and ni: "\<not> blank (f ! i)"
    using assms(1) by (auto simp: position_Some)
  note j = rposition_Some [OF assms(2)]
  show "list_all blank (take i f)" using i by (auto simp: list_all_length)
  show "list_all blank (drop (Suc j) f)" using j(3) by (auto simp: list_all_iff)
  have "i \<le> j"
  proof (rule ccontr)
    assume "\<not> i \<le> j"
    then have "f ! i \<in> set (drop (Suc j) f)"
      using i(1) by (auto simp: in_set_conv_nth intro!: exI [of _ "i - Suc j"])
    with j(3) ni show False by blast
  qed
  then have "drop (j + 1 - i) (drop i f) = drop (Suc j) f" by simp
  then show "f = take i f @ take (j + 1 - i) (drop i f) @ drop (Suc j) f"
    using append_take_drop_id [of i f] append_take_drop_id [of "j + 1 - i" "drop i f"] by simp
qed

lemma octal_fold_Inr:
  "try_fold (checked_digit 8 octal_digit e) 0 xs = Inr w \<longleftrightarrow>
   (\<exists>ds. list_all (\<lambda>d. d < 8) ds \<and> xs = map octal_char ds \<and> unat w = radix_value 8 0 ds)"
proof (subst checked_digits_Inr)
  show "d < 2 ^ 64" if "octal_digit x = Inr d" for x d using that by (auto simp: octal_digit_Inr)
qed (auto simp: octal_digits_Inr)

lemma parse_tar_size_Inr: "parse_tar_size f = Inr w \<longleftrightarrow> tar_size f (unat w)"
proof (cases "f \<noteq> [] \<and> 128 \<le> byte (hd f)")
  case True
  then obtain c r where f: "f = c # r" "128 \<le> byte c" by (cases f) auto
  have "byte c AND 0x80 \<noteq> 0" and "byte c AND 0x40 = 0 \<longleftrightarrow> byte c < 192"
    using f(2) byte_bits(3) [OF f(2)] by (simp_all only: byte_bits(1)) linarith
  then show ?thesis
    unfolding f(1) parse_tar_size_def tar_size_def
    using f(2) by (auto simp: base256_Inr [OF f(2)] simp del: enumerate_simps)
next
  case False
  have octal: "parse_tar_size f = (case position (\<lambda>b. \<not> blank b) f of
           None \<Rightarrow> Inr 0
         | Some start \<Rightarrow>
             (case rposition (\<lambda>b. \<not> blank b) f of
                None \<Rightarrow> Inl (RuntimeError ''non-empty tar size field'')
              | Some last_digit \<Rightarrow>
                  try_fold (checked_digit 8 octal_digit (ValidationError ''Tar entry size overflowed'')) 0
                    (take (last_digit + 1 - start) (drop start f))))"
    and size: "tar_size f n \<longleftrightarrow> (\<exists>a ds b. f = a @ map octal_char ds @ b \<and> list_all blank a \<and> list_all blank b \<and>
             list_all (\<lambda>d. d < 8) ds \<and> n = radix_value 8 0 ds)" for n
    by (simp_all only: parse_tar_size_def tar_size_def byte_bits(1) if_not_P [OF False])
  show ?thesis
  proof
    assume l: "parse_tar_size f = Inr w"
    show "tar_size f (unat w)"
    proof (cases "position (\<lambda>b. \<not> blank b) f")
      case None
      then have "list_all blank f" by (auto simp: position_None list_all_iff)
      with l None show ?thesis unfolding octal size by (intro exI [of _ f] exI [of _ "[]"]) simp
    next
      case (Some i)
      with l obtain j where j: "rposition (\<lambda>b. \<not> blank b) f = Some j"
        and "try_fold (checked_digit 8 octal_digit (ValidationError ''Tar entry size overflowed'')) 0
               (take (j + 1 - i) (drop i f)) = Inr w"
        unfolding octal by (auto split: option.splits)
      then obtain ds where "list_all (\<lambda>d. d < 8) ds" "take (j + 1 - i) (drop i f) = map octal_char ds"
        "unat w = radix_value 8 0 ds" by (auto simp: octal_fold_Inr)
      with between_split [OF Some j] show ?thesis unfolding size by metis
    qed
  next
    assume "tar_size f (unat w)"
    then obtain a ds b where f: "f = a @ map octal_char ds @ b" and bl: "list_all blank a" "list_all blank b"
      and ds: "list_all (\<lambda>d. d < 8) ds" and w: "unat w = radix_value 8 0 ds" unfolding size by blast
    show "parse_tar_size f = Inr w"
    proof (cases "ds = []")
      case True
      then have "position (\<lambda>b. \<not> blank b) f = None" using f bl by (auto simp: position_None list_all_iff)
      with w True show ?thesis unfolding octal by (simp add: unat_eq_0)
    next
      case False
      let ?m = "map octal_char ds"
      have "\<not> blank (hd ?m)" and "\<not> blank (last ?m)"
        using False ds octal_char_not_blank by (auto simp: hd_map last_map list_all_iff)
      from position_between [OF bl _ this] False
      have "position (\<lambda>b. \<not> blank b) f = Some (length a)"
        and "rposition (\<lambda>b. \<not> blank b) f = Some (length a + length ds - 1)" by (simp_all add: f)
      moreover have "take (length a + length ds - 1 + 1 - length a) (drop (length a) f) = ?m"
        using False by (simp add: f)
      ultimately show ?thesis unfolding octal using w ds by (simp add: octal_fold_Inr) blast
    qed
  qed
qed

subsection \<open>PAX records\<close>

text \<open>
  A PAX payload is a sequence of records \<open>length SP key = value NL\<close>, in which \<open>length\<close> counts the whole
  record. The scan takes the sizes from the last record of their key.
\<close>

record PaxRecord =
  pax_digits :: string
  pax_key :: string
  pax_value :: string

definition pax_bytes :: "PaxRecord \<Rightarrow> string" where
  "pax_bytes r = pax_digits r @ '' '' @ pax_key r @ ''='' @ pax_value r @ [CHR 0x0A]"

definition pax_record_ok :: "PaxRecord \<Rightarrow> bool" where
  "pax_record_ok r \<longleftrightarrow>
     pax_digits r \<noteq> [] \<and> list_all is_ascii_digit (pax_digits r) \<and>
     digits_value (pax_digits r) = length (pax_bytes r) \<and> length (pax_bytes r) < 2 ^ 64 \<and>
     CHR ''='' \<notin> set (pax_key r)"

fun pax_hints :: "PaxSizeHints \<Rightarrow> PaxRecord list \<Rightarrow> NspawnError + PaxSizeHints" where
  "pax_hints hints [] = Inr hints"
| "pax_hints hints (r # rs) = and_then (set_hint (pax_key r) (pax_value r) hints) (\<lambda>hints. pax_hints hints rs)"

lemma position_char:
  "c \<notin> set xs \<Longrightarrow> position (\<lambda>b. b = c) (xs @ c # ys) = Some (length xs)"
  by (auto simp: position_Some nth_append)

lemma position_char_split:
  assumes "position (\<lambda>b. b = c) xs = Some i"
  obtains "xs = take i xs @ c # drop (Suc i) xs" and "c \<notin> set (take i xs)"
proof
  have i: "i < length xs" "xs ! i = c" "\<forall>j < i. xs ! j \<noteq> c" using assms by (auto simp: position_Some)
  show "xs = take i xs @ c # drop (Suc i) xs" using id_take_nth_drop [OF i(1)] i(2) by simp
  show "c \<notin> set (take i xs)" using i by (auto simp: in_set_conv_nth)
qed

lemma digits_no_space: "list_all is_ascii_digit ds \<Longrightarrow> CHR '' '' \<notin> set ds"
  by (auto simp: list_all_iff is_ascii_digit_def)

lemma pax_record_accept:
  assumes "pax_record_ok r" and "set_hint (pax_key r) (pax_value r) hints = Inr h"
  shows "pax_record (pre @ pax_bytes r @ post) (length pre) hints = Inr (h, length pre + length (pax_bytes r))"
proof -
  let ?d = "pax_digits r" and ?tail = "pax_key r @ ''='' @ pax_value r" and ?l = "length (pax_bytes r)"
  define p where "p = pre @ pax_bytes r @ post"
  have bytes: "pax_bytes r = ?d @ CHR '' '' # ?tail @ [CHR 0x0A]" by (simp add: pax_bytes_def)
  have ok: "?d \<noteq> []" "list_all is_ascii_digit ?d" "digits_value ?d = ?l" "?l < 2 ^ 64" "CHR ''='' \<notin> set (pax_key r)"
    using assms(1) by (auto simp: pax_record_ok_def)
  have space: "position (\<lambda>b. b = CHR '' '') (drop (length pre) p) = Some (length ?d)"
    using position_char [OF digits_no_space [OF ok(2)]] by (simp add: p_def bytes)
  have equals: "position (\<lambda>b. b = CHR ''='') ?tail = Some (length (pax_key r))"
    using position_char [OF ok(5)] by simp
  obtain len where "parse_decimal_size ?d = Inr len" and ulen: "unat len = ?l"
    using ok(1-4) parse_decimal_size_Inr [of ?d "of_nat ?l"] by (auto simp: unat_of_nat)
  then have len: "parse_decimal_size (take (length pre + length ?d - length pre) (drop (length pre) p)) = Inr len"
    by (simp add: p_def bytes)
  have fits: "\<not> length p < length pre + unat len" by (simp add: ulen p_def)
  have newline: "\<not> (length pre + length ?d + 1 \<ge> length pre + unat len \<or> p ! (length pre + unat len - 1) \<noteq> CHR 0x0A)"
    by (simp add: ulen bytes p_def nth_append)
  have rec: "take (length pre + unat len - 1 - (length pre + length ?d + 1)) (drop (length pre + length ?d + 1) p) = ?tail"
    by (simp add: ulen bytes p_def)
  have kv: "take (length (pax_key r)) ?tail = pax_key r" "drop (length (pax_key r) + 1) ?tail = pax_value r"
    by simp_all
  show ?thesis
    unfolding pax_record_def p_def [symmetric] Let_def
    by (simp only: space option.case len and_then.simps ulen fits [unfolded ulen] newline [unfolded ulen]
        if_False rec [unfolded ulen] equals kv assms(2))
qed

lemma take_record:
  assumes "i + 1 < n" and "n \<le> length q"
  shows "take n q = take i q @ q ! i # take (n - 1 - (i + 1)) (drop (i + 1) q) @ [q ! (n - 1)]"
proof -
  obtain m where n: "n = Suc (Suc i + m)" using assms(1) less_imp_Suc_add [of "i + 1" n] by auto
  have "take n q = take (Suc i + m) q @ [q ! (Suc i + m)]"
    using assms(2) unfolding n by (intro take_Suc_conv_app_nth) simp
  also have "take (Suc i + m) q = take (Suc i) q @ take m (drop (Suc i) q)" by (rule take_add)
  also have "take (Suc i) q = take i q @ [q ! i]"
    using assms by (intro take_Suc_conv_app_nth) simp
  finally show ?thesis by (simp add: n)
qed

lemma pax_record_parses:
  assumes "pax_record p off hints = Inr (h, e)" and "off < length p"
  obtains r where "pax_record_ok r" and "take (e - off) (drop off p) = pax_bytes r"
    and "set_hint (pax_key r) (pax_value r) hints = Inr h"
proof -
  define q where "q = drop off p"
  from assms obtain i len sep where i: "position (\<lambda>b. b = CHR '' '') q = Some i"
    and len: "parse_decimal_size (take i q) = Inr len" and e: "e = off + unat len"
    and fits: "unat len \<le> length q" and short: "i + 1 < unat len" and nl: "q ! (unat len - 1) = CHR 0x0A"
    and sep: "position (\<lambda>b. b = CHR ''='') (take (unat len - 1 - (i + 1)) (drop (i + 1) q)) = Some sep"
    and hint: "set_hint (take sep (take (unat len - 1 - (i + 1)) (drop (i + 1) q)))
      (drop (sep + 1) (take (unat len - 1 - (i + 1)) (drop (i + 1) q))) hints = Inr h"
    by (auto simp: q_def pax_record_def Let_def not_le not_less ac_simps split: option.splits if_splits)
  define body where "body = take (unat len - 1 - (i + 1)) (drop (i + 1) q)"
  define r where "r = \<lparr>pax_digits = take i q, pax_key = take sep body, pax_value = drop (sep + 1) body\<rparr>"
  obtain kv: "body = take sep body @ CHR ''='' # drop (Suc sep) body" and key: "CHR ''='' \<notin> set (take sep body)"
    using sep [folded body_def] by (rule position_char_split)
  have "q ! i = CHR '' ''" using i by (auto simp: position_Some)
  with take_record [OF short fits] nl
  have "take (unat len) q = take i q @ CHR '' '' # body @ [CHR 0x0A]" by (simp add: body_def)
  also have "\<dots> = pax_bytes r" using kv by (simp add: pax_bytes_def r_def)
  finally have bytes: "take (unat len) q = pax_bytes r" .
  then have "length (pax_bytes r) = unat len" using fits by (metis length_take min.absorb2)
  moreover have "unat len < 2 ^ LENGTH(64)" by (rule unsigned_less)
  ultimately have "pax_record_ok r"
    using len key by (simp add: pax_record_ok_def parse_decimal_size_Inr r_def)
  then show thesis
    using bytes hint [folded body_def] by (intro that [of r]) (simp_all add: e q_def r_def)
qed

lemma pax_records_parse:
  "pax_records p off hints = Inr h \<Longrightarrow> off \<le> length p \<Longrightarrow>
   \<exists>rs. list_all pax_record_ok rs \<and> drop off p = concat (map pax_bytes rs) \<and> pax_hints hints rs = Inr h"
proof (induction p off hints rule: pax_records.induct)
  case (1 p off hints)
  show ?case
  proof (cases "off < length p")
    case False
    with 1 show ?thesis by (intro exI [of _ "[]"]) (simp add: pax_records.simps [of p])
  next
    case True
    with 1(2) obtain hints' e where step: "pax_record p off hints = Inr (hints', e)"
      and rest: "pax_records p e hints' = Inr h"
      by (subst (asm) pax_records.simps) (auto split: sum.splits prod.splits)
    obtain r where r: "pax_record_ok r" "take (e - off) (drop off p) = pax_bytes r"
      "set_hint (pax_key r) (pax_value r) hints = Inr hints'"
      using step True by (rule pax_record_parses)
    have adv: "off < e" "e \<le> length p" using pax_record_advances [OF step] by auto
    obtain rs where rs: "list_all pax_record_ok rs" "drop e p = concat (map pax_bytes rs)" "pax_hints hints' rs = Inr h"
      using 1(1) [OF True step refl rest adv(2)] by blast
    have "drop off p = pax_bytes r @ drop e p"
      using append_take_drop_id [of "e - off" "drop off p"] r(2) adv(1) by simp
    with r rs show ?thesis by (intro exI [of _ "r # rs"]) simp
  qed
qed

lemma pax_records_accept:
  "list_all pax_record_ok rs \<Longrightarrow> pax_hints hints rs = Inr h \<Longrightarrow>
   pax_records (pre @ concat (map pax_bytes rs)) (length pre) hints = Inr h"
proof (induction rs arbitrary: pre hints)
  case Nil
  then show ?case by (simp add: pax_records.simps [of pre])
next
  case (Cons r rs)
  then obtain hints' where hint: "set_hint (pax_key r) (pax_value r) hints = Inr hints'"
    and rest: "pax_hints hints' rs = Inr h" by auto
  have "pax_records (pre @ pax_bytes r @ concat (map pax_bytes rs)) (length pre) hints =
    pax_records ((pre @ pax_bytes r) @ concat (map pax_bytes rs)) (length (pre @ pax_bytes r)) hints'"
    using pax_record_accept [OF _ hint, of pre] Cons.prems(1)
    by (subst pax_records.simps) (simp add: pax_bytes_def)
  also have "\<dots> = Inr h" using Cons.prems(1) rest by (intro Cons.IH) simp_all
  finally show ?case by simp
qed

text \<open>A payload is accepted exactly when it is a sequence of well-formed records with readable sizes.\<close>

lemma pax_grammar:
  "parse_pax_size_hints payload = Inr h \<longleftrightarrow>
   (\<exists>rs. list_all pax_record_ok rs \<and> payload = concat (map pax_bytes rs) \<and> pax_hints no_hints rs = Inr h)"
  using pax_records_parse [of payload 0 no_hints h] pax_records_accept [of _ no_hints h "[]"]
  by (auto simp: parse_pax_size_hints_def)

section \<open>Turns of the loop\<close>

lemma checked_offset_ge: "checked_offset a b = Inr c \<Longrightarrow> unat a \<le> unat c"
  by (simp add: checked_offset_Inr)

lemma skip_padded_ge: "skip_padded a n = Inr c \<Longrightarrow> unat a \<le> unat c"
  by (auto simp: skip_padded_def dest: checked_offset_ge)

lemma skip_sparse_ge: "skip_sparse_headers src off ext limit count = Inr off' \<Longrightarrow> unat off \<le> unat off'"
proof (induction src off ext limit count rule: skip_sparse_headers.induct)
  case (1 src off ext limit count)
  from 1(2) show ?case
    unfolding skip_sparse_headers.simps [of src off ext limit count]
    by (auto split: if_splits option.splits sum.splits dest: checked_offset_ge dest!: 1(1) intro: le_trans)
qed

lemma scan_step_advances:
  assumes "scan_step src limit mx st = Inr (Some st')"
  shows "unat (scan_offset st) + 512 \<le> length (archive_bytes src)"
    and "unat (scan_offset st) + 512 \<le> unat (scan_offset st')"
proof -
  obtain header off where hd: "read_block src (scan_offset st) 512 = Inr header"
    and off: "checked_offset (scan_offset st) 512 = Inr off"
    using assms by (auto simp: scan_step_def)
  show "unat (scan_offset st) + 512 \<le> length (archive_bytes src)"
    using read_block_extent [OF hd] by simp
  have "unat off \<le> unat (scan_offset st')"
    using assms hd off
    by (auto simp: scan_step_def Let_def scan_pax_def scan_long_name_def scan_member_def
        skip_oldgnu_sparse_headers_def split: if_splits prod.splits dest!: skip_padded_ge skip_sparse_ge)
  then show "unat (scan_offset st) + 512 \<le> unat (scan_offset st')"
    using off by (simp add: checked_offset_Inr)
qed

function scan_archive :: "TarSource \<Rightarrow> u64 \<Rightarrow> u64 \<Rightarrow> ScanState \<Rightarrow> NspawnError + unit" where
  "scan_archive src limit max_entries st =
     (case scan_step src limit max_entries st of
        Inl e \<Rightarrow> Inl e
      | Inr None \<Rightarrow> Inr ()
      | Inr (Some st) \<Rightarrow> scan_archive src limit max_entries st)"
  by pat_completeness auto

termination
proof (relation "measure (\<lambda>(src, limit, max_entries, st). length (archive_bytes src) - unat (scan_offset st))")
  fix src limit max_entries st r st'
  assume "scan_step src limit max_entries st = Inr r" and "r = Some st'"
  then show "((src, limit, max_entries, st'), src, limit, max_entries, st) \<in>
    measure (\<lambda>(src, limit, max_entries, st). length (archive_bytes src) - unat (scan_offset st))"
    using scan_step_advances [of src limit max_entries st st'] by simp
qed simp

declare scan_archive.simps [simp del]

definition validate_with_limit :: "TarSource \<Rightarrow> u64 \<Rightarrow> u64 \<Rightarrow> NspawnError + unit" where
  "validate_with_limit src limit max_entries = scan_archive src limit max_entries scan_start"

definition validate_archive :: "TarSource \<Rightarrow> NspawnError + unit" where
  "validate_archive src = validate_with_limit src MAX_EXPANDED_BYTES MAX_ENTRIES"

text \<open>The loop with its turns counted: \<^const>\<open>None\<close> when it has not returned after \<open>n\<close> turns.\<close>

fun scan_turns :: "nat \<Rightarrow> TarSource \<Rightarrow> u64 \<Rightarrow> u64 \<Rightarrow> ScanState \<Rightarrow> (NspawnError + unit) option" where
  "scan_turns 0 src limit max_entries st = None"
| "scan_turns (Suc n) src limit max_entries st =
     (case scan_step src limit max_entries st of
        Inl e \<Rightarrow> Some (Inl e)
      | Inr None \<Rightarrow> Some (Inr ())
      | Inr (Some st) \<Rightarrow> scan_turns n src limit max_entries st)"

lemma scan_turns_enough:
  "(length (archive_bytes src) - unat (scan_offset st)) div 512 < n \<Longrightarrow>
   scan_turns n src limit mx st = Some (scan_archive src limit mx st)"
proof (induction n arbitrary: st)
  case (Suc n)
  show ?case
  proof (cases "\<exists>st'. scan_step src limit mx st = Inr (Some st')")
    case True
    then obtain st' where st': "scan_step src limit mx st = Inr (Some st')" by blast
    let ?left = "\<lambda>s. length (archive_bytes src) - unat (scan_offset s)"
    have "?left st' \<le> ?left st - 512" and "512 \<le> ?left st"
      using scan_step_advances [OF st'] by simp_all
    then have "?left st' div 512 \<le> (?left st - 512) div 512" and "512 \<le> ?left st"
      by (simp_all add: div_le_mono)
    then have "?left st' div 512 < n" using Suc.prems by (simp add: le_div_geq)
    then have "scan_turns n src limit mx st' = Some (scan_archive src limit mx st')" by (rule Suc.IH)
    with st' show ?thesis by (simp add: scan_archive.simps [of src limit mx st])
  next
    case False
    then show ?thesis by (auto simp: scan_archive.simps [of src limit mx st] split: sum.splits option.splits)
  qed
qed simp

text \<open>
  C32. The scan of an untrusted archive ends, whatever the bytes and whichever reads are short or fail: after one
  turn for every 512 bytes of the file, and one more, the loop has returned its verdict.
\<close>

theorem tar_scan_terminates:
  "scan_turns (length (archive_bytes src) div 512 + 1) src limit max_entries scan_start =
     Some (validate_with_limit src limit max_entries)"
  unfolding validate_with_limit_def by (rule scan_turns_enough) (simp add: scan_start_def)

section \<open>Tar streams\<close>

text \<open>
  What a tar reader finds in the bytes, in unbounded arithmetic: blocks of 512 bytes, sizes rounded up to
  blocks, PAX hints that apply to the next member, chains of sparse extension headers, and two zero blocks
  at the end.
\<close>

definition block :: "string \<Rightarrow> nat \<Rightarrow> string" where
  "block b off = take 512 (drop off b)"

definition zero_block :: "string \<Rightarrow> bool" where
  "zero_block h \<longleftrightarrow> list_all (\<lambda>b. byte b = 0) h"

definition pad :: "nat \<Rightarrow> nat" where
  "pad n = (n + 511) div 512 * 512"

record TarPos =
  at_offset :: nat
  after_zero :: bool
  for_all :: PaxSizeHints
  for_next :: PaxSizeHints

datatype TarItem = ZeroBlock | Metadata | Member nat

definition hinted :: "u64 option \<Rightarrow> nat \<Rightarrow> nat" where
  "hinted h n = (case h of None \<Rightarrow> n | Some w \<Rightarrow> unat w)"

inductive sparse_chain :: "string \<Rightarrow> nat \<Rightarrow> bool \<Rightarrow> nat \<Rightarrow> nat \<Rightarrow> bool" for b where
  chain_end: "sparse_chain b off False 0 off"
| chain_more: "off + 512 \<le> length b \<Longrightarrow> sparse_chain b (off + 512) (byte (block b off ! 504) \<noteq> 0) k off' \<Longrightarrow>
    sparse_chain b off True (Suc k) off'"

inductive_cases chain_endE: "sparse_chain b off False k off'"
inductive_cases chain_moreE: "sparse_chain b off True k off'"

text \<open>The data behind a header: its logical size and where the data starts.\<close>

definition member_at :: "string \<Rightarrow> nat \<Rightarrow> string \<Rightarrow> nat \<Rightarrow> nat \<Rightarrow> nat \<Rightarrow> nat \<Rightarrow> bool" where
  "member_at b mx h logical off logical' off' \<longleftrightarrow>
     (if h ! 156 = CHR ''S''
      then \<exists>real k. tar_size (header_slice h 483 495) real \<and> real < 2 ^ 64 \<and> k \<le> mx \<and>
             sparse_chain b off (byte (h ! 482) \<noteq> 0) k off' \<and> logical' = max logical real
      else logical' = logical \<and> off' = off)"

inductive tar_item :: "string \<Rightarrow> nat \<Rightarrow> TarPos \<Rightarrow> TarItem \<Rightarrow> TarPos \<Rightarrow> bool" for b mx where
  item_zero:
    "at_offset p + 512 \<le> length b \<Longrightarrow> zero_block (block b (at_offset p)) \<Longrightarrow> \<not> after_zero p \<Longrightarrow>
     tar_item b mx p ZeroBlock (p\<lparr>at_offset := at_offset p + 512, after_zero := True\<rparr>)"
| item_pax:
    "at_offset p + 512 \<le> length b \<Longrightarrow> h = block b (at_offset p) \<Longrightarrow> \<not> zero_block h \<Longrightarrow>
     tar_size (header_slice h 124 136) n \<Longrightarrow> h ! 156 = CHR ''x'' \<Longrightarrow> n \<le> 1048576 \<Longrightarrow>
     at_offset p + 512 + n \<le> length b \<Longrightarrow>
     parse_pax_size_hints (take n (drop (at_offset p + 512) b)) = Inr hints \<Longrightarrow>
     tar_item b mx p Metadata (p\<lparr>at_offset := at_offset p + 512 + pad n, after_zero := False,
       for_next := overlay (for_next p) hints\<rparr>)"
| item_global:
    "at_offset p + 512 \<le> length b \<Longrightarrow> h = block b (at_offset p) \<Longrightarrow> \<not> zero_block h \<Longrightarrow>
     tar_size (header_slice h 124 136) n \<Longrightarrow> h ! 156 = CHR ''g'' \<Longrightarrow> n \<le> 1048576 \<Longrightarrow>
     at_offset p + 512 + n \<le> length b \<Longrightarrow>
     parse_pax_size_hints (take n (drop (at_offset p + 512) b)) = Inr hints \<Longrightarrow>
     tar_item b mx p Metadata (p\<lparr>at_offset := at_offset p + 512 + pad n, after_zero := False,
       for_all := overlay (for_all p) hints\<rparr>)"
| item_long_name:
    "at_offset p + 512 \<le> length b \<Longrightarrow> h = block b (at_offset p) \<Longrightarrow> \<not> zero_block h \<Longrightarrow>
     tar_size (header_slice h 124 136) n \<Longrightarrow> h ! 156 \<in> {CHR ''L'', CHR ''K''} \<Longrightarrow> n \<le> 1048576 \<Longrightarrow>
     tar_item b mx p Metadata (p\<lparr>at_offset := at_offset p + 512 + pad n, after_zero := False\<rparr>)"
| item_member:
    "at_offset p + 512 \<le> length b \<Longrightarrow> h = block b (at_offset p) \<Longrightarrow> \<not> zero_block h \<Longrightarrow>
     tar_size (header_slice h 124 136) n \<Longrightarrow> h ! 156 \<notin> {CHR ''x'', CHR ''g'', CHR ''L'', CHR ''K''} \<Longrightarrow>
     n < 2 ^ 64 \<Longrightarrow>
     hints = overlay (for_all p) (for_next p) \<Longrightarrow> stream = hinted (stream_size hints) n \<Longrightarrow>
     member_at b mx h (max (hinted (logical_size hints) stream) stream) (at_offset p + 512) logical off \<Longrightarrow>
     tar_item b mx p (Member logical) (p\<lparr>at_offset := off + pad stream, after_zero := False, for_next := no_hints\<rparr>)"

inductive tar_stream :: "string \<Rightarrow> nat \<Rightarrow> TarPos \<Rightarrow> TarItem list \<Rightarrow> bool" for b mx where
  stream_end:
    "at_offset p + 512 \<le> length b \<Longrightarrow> zero_block (block b (at_offset p)) \<Longrightarrow> after_zero p \<Longrightarrow> tar_stream b mx p []"
| stream_next: "tar_item b mx p i p' \<Longrightarrow> tar_stream b mx p' items \<Longrightarrow> tar_stream b mx p (i # items)"

definition tar_start :: TarPos where
  "tar_start = \<lparr>at_offset = 0, after_zero = False, for_all = no_hints, for_next = no_hints\<rparr>"

fun header_count :: "TarItem \<Rightarrow> nat" where
  "header_count ZeroBlock = 0"
| "header_count Metadata = 1"
| "header_count (Member n) = 1"

fun item_size :: "TarItem \<Rightarrow> nat" where
  "item_size (Member n) = n"
| "item_size i = 0"

subsection \<open>The machine arithmetic of the scan\<close>

lemma pad_eq: "pad n = 512 * ((n + 511) div 512)"
  by (simp add: pad_def)

lemma padded_size_Inr: "padded_size w = Inr p \<longleftrightarrow> unat p = pad (unat w)"
proof -
  have p: "unat p < 2 ^ LENGTH(64)" by (rule unsigned_less)
  have big: "2 ^ 64 \<le> pad n" if "2 ^ 64 \<le> n + 511" for n
    using div_le_mono [OF that, of 512] by (simp add: pad_def)
  have small: "unat ((w + 511) div 512 * 512) = pad (unat w)" if "unat w + 511 < 2 ^ 64"
  proof -
    have w: "unat (w + 511) = unat w + 511" using that by (simp add: unat_word_ariths)
    have "(unat w + 511) div 512 * 512 \<le> unat w + 511" by simp
    also note that
    finally show ?thesis by (simp add: unat_word_ariths unat_div w pad_def)
  qed
  show ?thesis
  proof (cases "unat w + 511 < 2 ^ 64")
    case True
    then show ?thesis using small by (auto simp: padded_size_def ok_or_def checked_add_def word_unat_eq_iff)
  next
    case False
    then show ?thesis using big [of "unat w"] p by (auto simp: padded_size_def ok_or_def checked_add_def)
  qed
qed

lemma checked_succ: "checked_add n 1 = Some m \<longleftrightarrow> unat (m :: u64) = unat n + 1"
  using checked_offset_Inr [of n 1 m] by (simp add: checked_offset_def)

lemma add_payload_Inr: "add_payload t n limit = Inr t' \<longleftrightarrow> unat t' = unat t + unat n \<and> unat t' \<le> unat limit"
proof -
  have "checked_add t n = Some t' \<longleftrightarrow> unat t' = unat t + unat n" for t' :: u64
    using checked_offset_Inr [of t n t'] by (simp add: checked_offset_def)
  then show ?thesis by (auto simp: add_payload_def word_less_nat_alt not_less)
qed

lemma reject_large_metadata_Inr: "reject_large_metadata n kind = Inr u \<longleftrightarrow> unat n \<le> 1048576"
  by (auto simp: reject_large_metadata_def MAX_METADATA_BYTES_def word_less_nat_alt)

lemma unat_unwrap_or: "unat (unwrap_or h w) = hinted h (unat w)"
  by (simp add: unwrap_or_def hinted_def split: option.splits)

lemma unat_max: "unat (max a b) = max (unat a) (unat (b :: 'a::len word))"
  by (simp add: max_def word_le_nat_alt)

subsection \<open>One turn reads one item\<close>

lemma read_block_iff:
  assumes "no_io_faults src" and "n < 2 ^ 64" and "0 < n \<or> unat off \<le> length (archive_bytes src)"
  shows "read_block src off n = Inr bs \<longleftrightarrow>
    unat off + n \<le> length (archive_bytes src) \<and> bs = take n (drop (unat off) (archive_bytes src))"
  using read_block_extent [of src off n bs] read_block_Inr(2) [of src off n bs]
    read_block_complete [OF assms(1), of off n] assms(2,3) by (cases "n = 0") auto

lemma read_header_iff:
  "no_io_faults src \<Longrightarrow> read_block src off 512 = Inr h \<longleftrightarrow>
   unat off + 512 \<le> length (archive_bytes src) \<and> h = block (archive_bytes src) (unat off)"
  by (simp add: read_block_iff block_def)

lemma offset_exists:
  assumes "n < 2 ^ 64"
  obtains w :: u64 where "unat w = n"
  using assms by (intro that [of "of_nat n"]) (simp add: unat_of_nat)

lemma skip_sparse_sound:
  "skip_sparse_headers src off ext limit count = Inr off' \<Longrightarrow> no_io_faults src \<Longrightarrow> unat count \<le> unat limit \<Longrightarrow>
   \<exists>k. sparse_chain (archive_bytes src) (unat off) ext k (unat off') \<and> unat count + k \<le> unat limit"
proof (induction src off ext limit count rule: skip_sparse_headers.induct)
  case (1 src off ext limit count)
  show ?case
  proof (cases ext)
    case False
    with 1 show ?thesis
      by (intro exI [of _ 0]) (auto simp: skip_sparse_headers.simps [of src off False] intro: chain_end)
  next
    case True
    from 1(2) True obtain n h o2 where n: "checked_add count 1 = Some n" "\<not> limit < n"
      and h: "read_block src off 512 = Inr h" and o2: "checked_offset off 512 = Inr o2"
      and rest: "skip_sparse_headers src o2 (byte (h ! 504) \<noteq> 0) limit n = Inr off'"
      unfolding skip_sparse_headers.simps [of src off ext limit count]
      by (auto split: if_splits option.splits sum.splits)
    have "unat n \<le> unat limit" using n(2) by (simp add: word_less_nat_alt)
    from 1(1) [OF True n(1) n(2) h o2 rest 1(3) this] obtain k where
      k: "sparse_chain (archive_bytes src) (unat o2) (byte (h ! 504) \<noteq> 0) k (unat off')" "unat n + k \<le> unat limit"
      by blast
    have "unat o2 = unat off + 512" and "unat n = unat count + 1"
      using o2 n(1) by (simp_all add: checked_offset_Inr checked_succ)
    with k h True show ?thesis
      by (intro exI [of _ "Suc k"]) (auto simp: read_header_iff [OF 1(3)] intro: chain_more)
  qed
qed

lemma skip_sparse_complete:
  "sparse_chain b off ext k off' \<Longrightarrow> no_io_faults src \<Longrightarrow> b = archive_bytes src \<Longrightarrow> off < 2 ^ 64 \<Longrightarrow>
   unat count + k \<le> unat limit \<Longrightarrow>
   \<exists>w. skip_sparse_headers src (of_nat off) ext limit count = Inr w \<and> unat w = off'"
proof (induction off ext k off' arbitrary: count rule: sparse_chain.induct)
  case (chain_end off)
  then show ?case by (subst skip_sparse_headers.simps) (simp add: unat_of_nat)
next
  case (chain_more off k off')
  let ?b = "archive_bytes src"
  have len: "length ?b < 2 ^ 64" using chain_more by (simp add: no_io_faults_def)
  have small: "off + 512 < 2 ^ 64" using chain_more.hyps(1) len chain_more.prems(2) by simp
  then have uo: "unat (of_nat off :: u64) = off" "unat (of_nat (off + 512) :: u64) = off + 512"
    by (simp_all only: unat_of_nat) simp_all
  have "unat limit < 2 ^ LENGTH(64)" by (rule unsigned_less)
  then have "unat count + 1 < 2 ^ 64" using chain_more.prems(4) by simp
  then obtain n :: u64 where un: "unat n = unat count + 1" by (rule offset_exists)
  then have n: "checked_add count 1 = Some n" "\<not> limit < n"
    using chain_more.prems(4) by (simp_all add: checked_succ word_less_nat_alt)
  have h: "read_block src (of_nat off) 512 = Inr (block ?b off)"
    using chain_more.hyps(1) chain_more.prems(1,2) by (simp add: read_header_iff uo(1))
  have o2: "checked_offset (of_nat off) 512 = Inr (of_nat (off + 512))"
    unfolding checked_offset_Inr uo by simp
  have "unat n + k \<le> unat limit" using chain_more.prems(4) un by simp
  from chain_more.IH [OF chain_more.prems(1,2) small this]
  show ?case using chain_more.prems(2) by (subst skip_sparse_headers.simps) (simp only: n h o2 if_True if_False option.case sum.case)
qed

definition pos_of :: "ScanState \<Rightarrow> TarPos" where
  "pos_of st = \<lparr>at_offset = unat (scan_offset st), after_zero = (zero_blocks st = 1),
     for_all = global_pax st, for_next = local_pax st\<rparr>"

definition zeros_ok :: "ScanState \<Rightarrow> bool" where
  "zeros_ok st \<longleftrightarrow> zero_blocks st = 0 \<or> zero_blocks st = 1"

text \<open>The effect of a turn that goes on, in unbounded arithmetic.\<close>

definition turn :: "TarSource \<Rightarrow> u64 \<Rightarrow> u64 \<Rightarrow> ScanState \<Rightarrow> TarItem \<Rightarrow> ScanState \<Rightarrow> bool" where
  "turn src limit mx st i st' \<longleftrightarrow>
     tar_item (archive_bytes src) (unat mx) (pos_of st) i (pos_of st') \<and> zeros_ok st' \<and>
     unat (entries st') = unat (entries st) + header_count i \<and>
     unat (payload_bytes st') = unat (payload_bytes st) + item_size i \<and>
     (i \<noteq> ZeroBlock \<longrightarrow> unat (entries st') \<le> unat mx) \<and>
     (0 < item_size i \<longrightarrow> unat (payload_bytes st') \<le> unat limit)"

lemma header_length: "unat off + 512 \<le> length b \<Longrightarrow> length (block b (unat off)) = 512"
  by (simp add: block_def)

lemma skip_padded_Inr: "skip_padded off n = Inr v \<longleftrightarrow> unat v = unat off + pad (unat n)"
proof
  assume r: "unat v = unat off + pad (unat n)"
  have "unat v < 2 ^ LENGTH(64)" by (rule unsigned_less)
  then have "pad (unat n) < 2 ^ 64" using r by simp
  then obtain w :: u64 where "unat w = pad (unat n)" by (rule offset_exists)
  with r show "skip_padded off n = Inr v" by (auto simp: skip_padded_def padded_size_Inr checked_offset_Inr)
qed (auto simp: skip_padded_def padded_size_Inr checked_offset_Inr)

lemma scan_pax_Inr:
  assumes "no_io_faults src" and "unat (scan_offset st) \<le> length (archive_bytes src)"
  shows "scan_pax src ty n st = Inr st' \<longleftrightarrow>
    (\<exists>hints off. unat n \<le> 1048576 \<and> unat (scan_offset st) + unat n \<le> length (archive_bytes src) \<and>
       parse_pax_size_hints (take (unat n) (drop (unat (scan_offset st)) (archive_bytes src))) = Inr hints \<and>
       unat off = unat (scan_offset st) + pad (unat n) \<and>
       st' = (if ty = CHR ''g'' then st\<lparr>global_pax := overlay (global_pax st) hints, scan_offset := off\<rparr>
              else st\<lparr>local_pax := overlay (local_pax st) hints, scan_offset := off\<rparr>))"
proof -
  have lt: "unat n < 2 ^ LENGTH(64)" by (rule unsigned_less)
  then have rd: "read_bytes src (scan_offset st) (unat n) = Inr m \<longleftrightarrow>
      unat (scan_offset st) + unat n \<le> length (archive_bytes src) \<and>
      m = take (unat n) (drop (unat (scan_offset st)) (archive_bytes src))" for m
    using assms by (simp add: read_bytes_def read_block_iff)
  show ?thesis
    by (cases "ty = CHR ''g''") (auto simp: scan_pax_def Let_def rd reject_large_metadata_Inr skip_padded_Inr)
qed

lemma scan_long_name_Inr:
  "scan_long_name n st = Inr st' \<longleftrightarrow>
     (\<exists>off. unat n \<le> 1048576 \<and> unat off = unat (scan_offset st) + pad (unat n) \<and> st' = st\<lparr>scan_offset := off\<rparr>)"
  by (auto simp: scan_long_name_def reject_large_metadata_Inr skip_padded_Inr)

text \<open>The sparse part of a member: the larger size and the offset behind the extension headers.\<close>

lemma member_sparse_Inr:
  assumes "no_io_faults src" and "unat off \<le> length (archive_bytes src)"
  shows "(if h ! 156 = CHR ''S''
      then and_then (parse_tar_size (header_slice h 483 495)) (\<lambda>real.
           and_then (skip_oldgnu_sparse_headers src off (byte (h ! 482) \<noteq> 0) mx)
             (\<lambda>offset. Inr (max logical real, offset)))
      else Inr (logical, off)) = Inr (l', off') \<longleftrightarrow>
    member_at (archive_bytes src) (unat mx) h (unat logical) (unat off) (unat l') (unat off')"
    (is "?lhs = _ \<longleftrightarrow> _")
proof (cases "h ! 156 = CHR ''S''")
  case False
  then show ?thesis by (auto simp: member_at_def word_unat_eq_iff)
next
  case True
  have len: "length (archive_bytes src) < 2 ^ 64" using assms(1) by (simp add: no_io_faults_def)
  have off: "of_nat (unat off) = off" by simp
  have chain: "skip_oldgnu_sparse_headers src off e mx = Inr w \<longleftrightarrow>
      (\<exists>k. k \<le> unat mx \<and> sparse_chain (archive_bytes src) (unat off) e k (unat w))" for e w
  proof
    assume "skip_oldgnu_sparse_headers src off e mx = Inr w"
    then show "\<exists>k. k \<le> unat mx \<and> sparse_chain (archive_bytes src) (unat off) e k (unat w)"
      using skip_sparse_sound [of src off e mx 0 w] assms(1) by (auto simp: skip_oldgnu_sparse_headers_def)
  next
    assume "\<exists>k. k \<le> unat mx \<and> sparse_chain (archive_bytes src) (unat off) e k (unat w)"
    then obtain k where "k \<le> unat mx" "sparse_chain (archive_bytes src) (unat off) e k (unat w)" by blast
    then show "skip_oldgnu_sparse_headers src off e mx = Inr w"
      using skip_sparse_complete [OF _ assms(1) refl, of "unat off" e k "unat w" 0 mx] assms(2) len
      by (auto simp: skip_oldgnu_sparse_headers_def word_unat_eq_iff)
  qed
  have real: "(\<exists>x. tar_size f (unat (x :: u64)) \<and> P (unat x)) \<longleftrightarrow> (\<exists>n. tar_size f n \<and> n < 2 ^ 64 \<and> P n)" for f P
  proof
    assume "\<exists>n. tar_size f n \<and> n < 2 ^ 64 \<and> P n"
    then obtain n where n: "tar_size f n" "n < 2 ^ 64" "P n" by blast
    from n(2) obtain x :: u64 where "unat x = n" by (rule offset_exists)
    with n show "\<exists>x. tar_size f (unat (x :: u64)) \<and> P (unat x)" by blast
  next
    assume "\<exists>x. tar_size f (unat (x :: u64)) \<and> P (unat x)"
    then obtain x :: u64 where "tar_size f (unat x)" "P (unat x)" by blast
    moreover have "unat x < 2 ^ LENGTH(64)" by (rule unsigned_less)
    ultimately show "\<exists>n. tar_size f n \<and> n < 2 ^ 64 \<and> P n" by auto
  qed
  let ?P = "\<lambda>n. (\<exists>k. k \<le> unat mx \<and> sparse_chain (archive_bytes src) (unat off) (byte (h ! 482) \<noteq> 0) k (unat off')) \<and>
    unat l' = max (unat logical) n"
  have mx: "max logical x = l' \<longleftrightarrow> unat l' = max (unat logical) (unat x)" for x
    by (auto simp: word_unat_eq_iff unat_max)
  have "?lhs = Inr (l', off') \<longleftrightarrow> (\<exists>x. parse_tar_size (header_slice h 483 495) = Inr x \<and>
      skip_oldgnu_sparse_headers src off (byte (h ! 482) \<noteq> 0) mx = Inr off' \<and> max logical x = l')"
    using True by auto
  also have "\<dots> \<longleftrightarrow> (\<exists>x. tar_size (header_slice h 483 495) (unat (x :: u64)) \<and> ?P (unat x))"
    by (simp only: parse_tar_size_Inr chain mx)
  also have "\<dots> \<longleftrightarrow> (\<exists>n. tar_size (header_slice h 483 495) n \<and> n < 2 ^ 64 \<and> ?P n)" by (rule real)
  also have "\<dots> \<longleftrightarrow> member_at (archive_bytes src) (unat mx) h (unat logical) (unat off) (unat l') (unat off')"
    using True by (auto simp: member_at_def)
  finally show ?thesis .
qed

lemma scan_member_Inr:
  assumes "no_io_faults src" and "unat (scan_offset st) \<le> length (archive_bytes src)"
    and "hints = overlay (global_pax st) (local_pax st)" and "stream = hinted (stream_size hints) (unat n)"
  shows "scan_member src limit mx h n st = Inr st' \<longleftrightarrow>
    (\<exists>l off1 off pl. member_at (archive_bytes src) (unat mx) h (max (hinted (logical_size hints) stream) stream)
         (unat (scan_offset st)) (unat (l :: u64)) (unat (off1 :: u64)) \<and>
       unat pl = unat (payload_bytes st) + unat l \<and> unat pl \<le> unat limit \<and> unat off = unat off1 + pad stream \<and>
       st' = st\<lparr>local_pax := no_hints, scan_offset := off, payload_bytes := pl\<rparr>)"
proof -
  let ?s = "unwrap_or (stream_size hints) n"
  let ?l = "max (unwrap_or (logical_size hints) ?s) ?s"
  have us: "unat ?s = stream" and ul: "unat ?l = max (hinted (logical_size hints) stream) stream"
    by (simp_all add: unat_max unat_unwrap_or assms(4))
  have "scan_member src limit mx h n st = Inr st' \<longleftrightarrow>
    (\<exists>l off1 pl off. (if h ! 156 = CHR ''S''
      then and_then (parse_tar_size (header_slice h 483 495)) (\<lambda>real.
           and_then (skip_oldgnu_sparse_headers src (scan_offset st) (byte (h ! 482) \<noteq> 0) mx)
             (\<lambda>offset. Inr (max ?l real, offset)))
      else Inr (?l, scan_offset st)) = Inr (l, off1) \<and>
      add_payload (payload_bytes st) l limit = Inr pl \<and> skip_padded off1 ?s = Inr off \<and>
      st' = st\<lparr>local_pax := no_hints, scan_offset := off, payload_bytes := pl\<rparr>)"
    unfolding scan_member_def Let_def assms(3) [symmetric] by (subst and_then_eq_Inr) (auto simp del: if_split_asm split: prod.splits)
  also have "\<dots> \<longleftrightarrow> (\<exists>l off1 pl off. member_at (archive_bytes src) (unat mx) h (max (hinted (logical_size hints) stream) stream)
         (unat (scan_offset st)) (unat (l :: u64)) (unat (off1 :: u64)) \<and>
       (unat pl = unat (payload_bytes st) + unat l \<and> unat pl \<le> unat limit) \<and> unat off = unat off1 + pad stream \<and>
       st' = st\<lparr>local_pax := no_hints, scan_offset := off, payload_bytes := pl\<rparr>)"
    unfolding member_sparse_Inr [OF assms(1,2)] add_payload_Inr skip_padded_Inr us ul ..
  finally show ?thesis by blast
qed

lemma scan_step_Inr:
  assumes "no_io_faults src"
  shows "scan_step src limit mx st = Inr r \<longleftrightarrow>
    (let b = archive_bytes src; h = block b (unat (scan_offset st)) in
     unat (scan_offset st) + 512 \<le> length b \<and>
     (if zero_block h
      then r = (if zero_blocks st + 1 = 2 then None
                else Some (st\<lparr>scan_offset := scan_offset st + 512, zero_blocks := zero_blocks st + 1\<rparr>))
      else \<exists>n m st'. unat n = unat (entries st) + 1 \<and> unat n \<le> unat mx \<and> tar_size (header_slice h 124 136) (unat m) \<and>
             (let st1 = st\<lparr>scan_offset := scan_offset st + 512, zero_blocks := 0, entries := n\<rparr> in
              (if h ! 156 = CHR ''x'' \<or> h ! 156 = CHR ''g'' then scan_pax src (h ! 156) m st1
               else if h ! 156 = CHR ''L'' \<or> h ! 156 = CHR ''K'' then scan_long_name m st1
               else scan_member src limit mx h m st1) = Inr st') \<and> r = Some st'))"
proof -
  have len: "length (archive_bytes src) < 2 ^ 64" using assms by (simp add: no_io_faults_def)
  have off: "checked_offset (scan_offset st) 512 = Inr v \<longleftrightarrow> v = scan_offset st + 512"
    if "unat (scan_offset st) + 512 \<le> length (archive_bytes src)" for v
  proof -
    have "unat (scan_offset st) + 512 < 2 ^ 64" using that len by simp
    then have "unat (scan_offset st + 512) = unat (scan_offset st) + 512" by (simp add: unat_word_ariths)
    then show ?thesis by (simp add: checked_offset_Inr word_unat_eq_iff)
  qed
  show ?thesis
  proof (cases "unat (scan_offset st) + 512 \<le> length (archive_bytes src)")
    case False
    then show ?thesis by (simp add: scan_step_def read_header_iff [OF assms] Let_def)
  next
    case True
    show ?thesis
      unfolding scan_step_def Let_def and_then_eq_Inr read_header_iff [OF assms] off [OF True] ok_or_eq_Inr checked_succ
        parse_tar_size_Inr zero_block_def [symmetric]
      using True by (auto simp: checked_succ word_less_nat_alt not_less parse_tar_size_Inr)
  qed
qed

lemma block_offset:
  fixes off :: u64
  shows "no_io_faults src \<Longrightarrow> unat off + 512 \<le> length (archive_bytes src) \<Longrightarrow> unat (off + 512) = unat off + 512"
  by (simp add: no_io_faults_def unat_word_ariths)

text \<open>A header has been read: \<open>n\<close> counts it, \<open>m\<close> is its size field and \<open>st1\<close> stands behind it.\<close>

definition header_read :: "TarSource \<Rightarrow> u64 \<Rightarrow> ScanState \<Rightarrow> string \<Rightarrow> u64 \<Rightarrow> u64 \<Rightarrow> ScanState \<Rightarrow> bool" where
  "header_read src mx st h n m st1 \<longleftrightarrow>
     no_io_faults src \<and> unat (scan_offset st) + 512 \<le> length (archive_bytes src) \<and>
     h = block (archive_bytes src) (unat (scan_offset st)) \<and> \<not> zero_block h \<and>
     unat n = unat (entries st) + 1 \<and> unat n \<le> unat mx \<and> tar_size (header_slice h 124 136) (unat m) \<and>
     st1 = st\<lparr>scan_offset := scan_offset st + 512, zero_blocks := 0, entries := n\<rparr>"

definition read_kind :: "TarSource \<Rightarrow> u64 \<Rightarrow> u64 \<Rightarrow> string \<Rightarrow> u64 \<Rightarrow> ScanState \<Rightarrow> NspawnError + ScanState" where
  "read_kind src limit mx h m st1 =
     (if h ! 156 = CHR ''x'' \<or> h ! 156 = CHR ''g'' then scan_pax src (h ! 156) m st1
      else if h ! 156 = CHR ''L'' \<or> h ! 156 = CHR ''K'' then scan_long_name m st1
      else scan_member src limit mx h m st1)"

lemma header_readD:
  assumes "header_read src mx st h n m st1"
  shows "no_io_faults src" and "at_offset (pos_of st) + 512 \<le> length (archive_bytes src)"
    and "h = block (archive_bytes src) (at_offset (pos_of st))" and "\<not> zero_block h"
    and "tar_size (header_slice h 124 136) (unat m)"
    and "unat (scan_offset st1) = unat (scan_offset st) + 512"
    and "unat (scan_offset st1) \<le> length (archive_bytes src)"
    and "unat (entries st1) = unat (entries st) + 1" and "unat (entries st1) \<le> unat mx"
    and "zero_blocks st1 = 0" and "payload_bytes st1 = payload_bytes st"
    and "global_pax st1 = global_pax st" and "local_pax st1 = local_pax st"
  using assms by (auto simp: header_read_def pos_of_def block_offset)

lemma scan_step_header:
  assumes "no_io_faults src" and "\<not> zero_block (block (archive_bytes src) (unat (scan_offset st)))"
  shows "scan_step src limit mx st = Inr r \<longleftrightarrow>
    (\<exists>h n m st1 st'. header_read src mx st h n m st1 \<and> read_kind src limit mx h m st1 = Inr st' \<and> r = Some st')"
  unfolding scan_step_Inr [OF assms(1)] Let_def read_kind_def [symmetric] header_read_def using assms by auto

lemma pax_turn:
  assumes h: "header_read src mx st h n m st1" and "h ! 156 = CHR ''x'' \<or> h ! 156 = CHR ''g''"
    and s: "scan_pax src (h ! 156) m st1 = Inr st'"
  shows "turn src limit mx st Metadata st'"
proof -
  let ?b = "archive_bytes src"
  note hd = header_readD [OF h]
  obtain hints v where r: "unat m \<le> 1048576" "unat (scan_offset st1) + unat m \<le> length ?b"
    "parse_pax_size_hints (take (unat m) (drop (unat (scan_offset st1)) ?b)) = Inr hints"
    "unat v = unat (scan_offset st1) + pad (unat m)"
    "st' = (if h ! 156 = CHR ''g'' then st1\<lparr>global_pax := overlay (global_pax st1) hints, scan_offset := v\<rparr>
            else st1\<lparr>local_pax := overlay (local_pax st1) hints, scan_offset := v\<rparr>)"
    using s unfolding scan_pax_Inr [OF hd(1,7)] by blast
  have "tar_item ?b (unat mx) (pos_of st) Metadata (pos_of st')"
    using item_pax [OF hd(2-5) _ r(1), of hints "unat mx"] item_global [OF hd(2-5) _ r(1), of hints "unat mx"]
      assms(2) r hd(6,10,12,13) by (auto simp: pos_of_def)
  with r(5) hd(8-11) show ?thesis by (simp add: turn_def zeros_ok_def)
qed

lemma long_name_turn:
  assumes h: "header_read src mx st h n m st1" and ty: "h ! 156 \<in> {CHR ''L'', CHR ''K''}"
    and s: "scan_long_name m st1 = Inr st'"
  shows "turn src limit mx st Metadata st'"
proof -
  note hd = header_readD [OF h]
  obtain v where r: "unat m \<le> 1048576" "unat v = unat (scan_offset st1) + pad (unat m)" "st' = st1\<lparr>scan_offset := v\<rparr>"
    using s by (auto simp: scan_long_name_Inr)
  have "tar_item (archive_bytes src) (unat mx) (pos_of st) Metadata (pos_of st')"
    using item_long_name [OF hd(2-5) ty r(1), of "unat mx"] r hd(6,10,12,13) by (simp add: pos_of_def)
  with r(3) hd(8-11) show ?thesis by (simp add: turn_def zeros_ok_def)
qed

lemma member_turn:
  assumes h: "header_read src mx st h n m st1" and ty: "h ! 156 \<notin> {CHR ''x'', CHR ''g'', CHR ''L'', CHR ''K''}"
    and s: "scan_member src limit mx h m st1 = Inr st'"
  shows "\<exists>l. turn src limit mx st (Member l) st'"
proof -
  let ?b = "archive_bytes src"
  note hd = header_readD [OF h]
  define hints where "hints = overlay (global_pax st1) (local_pax st1)"
  define stream where "stream = hinted (stream_size hints) (unat m)"
  from s obtain l o1 v pl where r:
    "member_at ?b (unat mx) h (max (hinted (logical_size hints) stream) stream) (unat (scan_offset st1))
       (unat (l :: u64)) (unat (o1 :: u64))"
    "unat pl = unat (payload_bytes st1) + unat l" "unat pl \<le> unat limit" "unat v = unat o1 + pad stream"
    "st' = st1\<lparr>local_pax := no_hints, scan_offset := v, payload_bytes := pl\<rparr>"
    unfolding scan_member_Inr [OF hd(1,7) hints_def stream_def] by blast
  have m64: "unat m < 2 ^ 64" using unsigned_less [of m] by simp
  have "tar_item ?b (unat mx) (pos_of st) (Member (unat l)) (pos_of st')"
    using item_member [OF hd(2-5) ty m64, of hints stream "unat mx" "unat l" "unat o1"] r hd(6,10,12,13)
    by (simp add: pos_of_def hints_def stream_def)
  with r hd(8-11) show ?thesis by (intro exI [of _ "unat l"]) (simp add: turn_def zeros_ok_def)
qed

lemma zero_turn:
  assumes ok: "no_io_faults src" and ext: "unat (scan_offset st) + 512 \<le> length (archive_bytes src)"
    and "zero_block (block (archive_bytes src) (unat (scan_offset st)))" and "zero_blocks st = 0"
  shows "turn src limit mx st ZeroBlock (st\<lparr>scan_offset := scan_offset st + 512, zero_blocks := 1\<rparr>)"
  using item_zero [of "pos_of st" "archive_bytes src" "unat mx"] assms block_offset [OF ok ext]
  by (simp add: turn_def zeros_ok_def pos_of_def)

lemma turn_sound:
  assumes ok: "no_io_faults src" and z: "zeros_ok st" and s: "scan_step src limit mx st = Inr (Some st')"
  shows "\<exists>i. turn src limit mx st i st'"
proof (cases "zero_block (block (archive_bytes src) (unat (scan_offset st)))")
  case True
  with s z have "unat (scan_offset st) + 512 \<le> length (archive_bytes src)" "zero_blocks st = 0"
    "st' = st\<lparr>scan_offset := scan_offset st + 512, zero_blocks := 1\<rparr>"
    by (auto simp: scan_step_Inr [OF ok] Let_def zeros_ok_def split: if_splits)
  with zero_turn [OF ok _ True] show ?thesis by blast
next
  case False
  with s obtain h n m st1 where h: "header_read src mx st h n m st1" and k: "read_kind src limit mx h m st1 = Inr st'"
    by (auto simp: scan_step_header [OF ok])
  then show ?thesis
    using pax_turn [OF h] long_name_turn [OF h] member_turn [OF h] by (fastforce simp: read_kind_def split: if_splits)
qed

text \<open>The other direction: an item of the stream that fits the budgets is read by one turn.\<close>

definition lands :: "TarSource \<Rightarrow> u64 \<Rightarrow> u64 \<Rightarrow> ScanState \<Rightarrow> TarItem \<Rightarrow> TarPos \<Rightarrow> bool" where
  "lands src limit mx st i p' \<longleftrightarrow>
     (\<exists>st'. scan_step src limit mx st = Inr (Some st') \<and> pos_of st' = p' \<and> zeros_ok st' \<and>
        unat (entries st') = unat (entries st) + header_count i \<and>
        unat (payload_bytes st') = unat (payload_bytes st) + item_size i)"

lemma header_exists:
  assumes "no_io_faults src" and "at_offset (pos_of st) + 512 \<le> length (archive_bytes src)"
    and "h = block (archive_bytes src) (at_offset (pos_of st))" and "\<not> zero_block h"
    and "tar_size (header_slice h 124 136) n" and "n < 2 ^ 64" and "unat (entries st) + 1 \<le> unat mx"
  obtains k m st1 where "header_read src mx st h k m st1" and "unat m = n"
proof -
  obtain m :: u64 where m: "unat m = n" using assms(6) by (rule offset_exists)
  have "unat mx < 2 ^ LENGTH(64)" by (rule unsigned_less)
  then have "unat (entries st) + 1 < 2 ^ 64" using assms(7) by simp
  then obtain k :: u64 where "unat k = unat (entries st) + 1" by (rule offset_exists)
  with assms m show thesis by (intro that [of k m]) (auto simp: header_read_def pos_of_def)
qed

lemma lands_header:
  assumes "header_read src mx st h k m st1" and "read_kind src limit mx h m st1 = Inr st'" and "pos_of st' = p'"
    and "zero_blocks st' = 0" and "entries st' = entries st1" and "unat (payload_bytes st') = unat (payload_bytes st) + item_size i"
    and "i \<noteq> ZeroBlock"
  shows "lands src limit mx st i p'"
proof -
  note hd = header_readD [OF assms(1)]
  have "\<not> zero_block (block (archive_bytes src) (unat (scan_offset st)))" using hd(3,4) by (simp add: pos_of_def)
  then have "scan_step src limit mx st = Inr (Some st')"
    using assms(1,2) by (auto simp: scan_step_header [OF hd(1)])
  moreover have "header_count i = 1" using assms(7) by (cases i) auto
  ultimately show ?thesis using assms hd(8) by (auto simp: lands_def zeros_ok_def)
qed

lemma lands_pax:
  assumes "header_read src mx st h k m st1" and "h ! 156 = CHR ''x'' \<or> h ! 156 = CHR ''g''" and "unat m \<le> 1048576"
    and "at_offset (pos_of st) + 512 + unat m \<le> length (archive_bytes src)"
    and "parse_pax_size_hints (take (unat m) (drop (at_offset (pos_of st) + 512) (archive_bytes src))) = Inr hints"
    and "at_offset (pos_of st) + 512 + pad (unat m) < 2 ^ 64"
  shows "lands src limit mx st Metadata ((pos_of st)\<lparr>at_offset := at_offset (pos_of st) + 512 + pad (unat m), after_zero := False,
    for_all := (if h ! 156 = CHR ''g'' then overlay (for_all (pos_of st)) hints else for_all (pos_of st)),
    for_next := (if h ! 156 = CHR ''g'' then for_next (pos_of st) else overlay (for_next (pos_of st)) hints)\<rparr>)"
proof -
  note hd = header_readD [OF assms(1)]
  obtain v :: u64 where v: "unat v = at_offset (pos_of st) + 512 + pad (unat m)" using assms(6) by (rule offset_exists)
  let ?st' = "if h ! 156 = CHR ''g'' then st1\<lparr>global_pax := overlay (global_pax st1) hints, scan_offset := v\<rparr>
              else st1\<lparr>local_pax := overlay (local_pax st1) hints, scan_offset := v\<rparr>"
  have "scan_pax src (h ! 156) m st1 = Inr ?st'"
    unfolding scan_pax_Inr [OF hd(1,7)] using assms(3-5) v hd(6) by (intro exI [of _ hints] exI [of _ v]) (simp add: pos_of_def)
  then have "read_kind src limit mx h m st1 = Inr ?st'" using assms(2) by (simp add: read_kind_def)
  from lands_header [OF assms(1) this, of _ Metadata] v hd(8-13) show ?thesis by (auto simp: pos_of_def)
qed

lemma lands_long_name:
  assumes "header_read src mx st h k m st1" and "h ! 156 \<in> {CHR ''L'', CHR ''K''}" and "unat m \<le> 1048576"
    and "at_offset (pos_of st) + 512 + pad (unat m) < 2 ^ 64"
  shows "lands src limit mx st Metadata
    ((pos_of st)\<lparr>at_offset := at_offset (pos_of st) + 512 + pad (unat m), after_zero := False\<rparr>)"
proof -
  note hd = header_readD [OF assms(1)]
  obtain v :: u64 where v: "unat v = at_offset (pos_of st) + 512 + pad (unat m)" using assms(4) by (rule offset_exists)
  have "read_kind src limit mx h m st1 = Inr (st1\<lparr>scan_offset := v\<rparr>)"
    using assms(2,3) v hd(6) by (auto simp: read_kind_def scan_long_name_Inr pos_of_def)
  from lands_header [OF assms(1) this, of _ Metadata] v hd(8-13) show ?thesis by (auto simp: pos_of_def)
qed

lemma lands_member:
  assumes "header_read src mx st h k m st1" and "h ! 156 \<notin> {CHR ''x'', CHR ''g'', CHR ''L'', CHR ''K''}"
    and "hints = overlay (for_all (pos_of st)) (for_next (pos_of st))" and "stream = hinted (stream_size hints) (unat m)"
    and "member_at (archive_bytes src) (unat mx) h (max (hinted (logical_size hints) stream) stream)
           (at_offset (pos_of st) + 512) logical off"
    and "off + pad stream < 2 ^ 64" and "unat (payload_bytes st) + logical \<le> unat limit"
  shows "lands src limit mx st (Member logical)
    ((pos_of st)\<lparr>at_offset := off + pad stream, after_zero := False, for_next := no_hints\<rparr>)"
proof -
  note hd = header_readD [OF assms(1)]
  have "unat limit < 2 ^ LENGTH(64)" by (rule unsigned_less)
  then have small: "logical < 2 ^ 64" "unat (payload_bytes st) + logical < 2 ^ 64" "off < 2 ^ 64"
    using assms(6,7) by simp_all
  obtain l o1 v pl :: u64 where w: "unat l = logical" "unat o1 = off" "unat v = off + pad stream"
    "unat pl = unat (payload_bytes st) + logical"
    using small assms(6) offset_exists by metis
  have hints: "hints = overlay (global_pax st1) (local_pax st1)" using assms(3) hd(12,13) by (simp add: pos_of_def)
  have "scan_member src limit mx h m st1 = Inr (st1\<lparr>local_pax := no_hints, scan_offset := v, payload_bytes := pl\<rparr>)"
    unfolding scan_member_Inr [OF hd(1,7) hints assms(4)]
    using assms(5,7) w hd(6,11) by (intro exI [of _ l] exI [of _ o1] exI [of _ v] exI [of _ pl]) (simp add: pos_of_def)
  then have "read_kind src limit mx h m st1 = Inr (st1\<lparr>local_pax := no_hints, scan_offset := v, payload_bytes := pl\<rparr>)"
    using assms(2) by (simp add: read_kind_def)
  from lands_header [OF assms(1) this, of _ "Member logical"] w hd(8-13) show ?thesis by (auto simp: pos_of_def)
qed

lemma turn_complete:
  assumes i: "tar_item (archive_bytes src) (unat mx) (pos_of st) i p'" and ok: "no_io_faults src" and z: "zeros_ok st"
    and fits: "at_offset p' < 2 ^ 64" and e: "unat (entries st) + header_count i \<le> unat mx"
    and pl: "unat (payload_bytes st) + item_size i \<le> unat limit"
  shows "lands src limit mx st i p'"
  using i
proof cases
  case item_zero
  then have zb: "zero_blocks st = 0" using z by (auto simp: zeros_ok_def pos_of_def)
  then show ?thesis
    using item_zero ok block_offset [OF ok, of "scan_offset st"]
    by (auto simp: lands_def zeros_ok_def scan_step_Inr Let_def pos_of_def intro!: exI)
next
  case (item_pax h n hints)
  then obtain k m st1 where "header_read src mx st h k m st1" "unat m = n"
    using header_exists [OF ok item_pax(3-6), of mx] e by auto
  with lands_pax [of src mx st h k m st1 hints limit] item_pax fits show ?thesis by simp
next
  case (item_global h n hints)
  then obtain k m st1 where "header_read src mx st h k m st1" "unat m = n"
    using header_exists [OF ok item_global(3-6), of mx] e by auto
  with lands_pax [of src mx st h k m st1 hints limit] item_global fits show ?thesis by simp
next
  case (item_long_name h n)
  then obtain k m st1 where "header_read src mx st h k m st1" "unat m = n"
    using header_exists [OF ok item_long_name(3-6), of mx] e by auto
  with lands_long_name [of src mx st h k m st1 limit] item_long_name fits show ?thesis by simp
next
  case (item_member h n hints stream logical off)
  then obtain k m st1 where "header_read src mx st h k m st1" "unat m = n"
    using header_exists [OF ok item_member(3-6), of mx] e by auto
  with lands_member [of src mx st h k m st1 hints stream logical off limit] item_member fits pl show ?thesis by simp
qed

subsection \<open>The scan accepts exactly the streams within budget\<close>

definition header_total :: "TarItem list \<Rightarrow> nat" where
  "header_total items = sum_list (map header_count items)"

definition size_total :: "TarItem list \<Rightarrow> nat" where
  "size_total items = sum_list (map item_size items)"

lemma scan_step_end:
  "no_io_faults src \<Longrightarrow> zeros_ok st \<Longrightarrow> scan_step src limit mx st = Inr None \<longleftrightarrow>
   unat (scan_offset st) + 512 \<le> length (archive_bytes src) \<and>
   zero_block (block (archive_bytes src) (unat (scan_offset st))) \<and> zero_blocks st = 1"
  by (auto simp: scan_step_Inr Let_def zeros_ok_def split: if_splits)

lemma scan_sound:
  "scan_archive src limit mx st = Inr () \<Longrightarrow> no_io_faults src \<Longrightarrow> zeros_ok st \<Longrightarrow>
   unat (entries st) \<le> unat mx \<Longrightarrow> unat (payload_bytes st) \<le> unat limit \<Longrightarrow>
   \<exists>items. tar_stream (archive_bytes src) (unat mx) (pos_of st) items \<and>
     unat (entries st) + header_total items \<le> unat mx \<and> unat (payload_bytes st) + size_total items \<le> unat limit"
proof (induction src limit mx st rule: scan_archive.induct)
  case (1 src limit mx st)
  from 1(2) consider "scan_step src limit mx st = Inr None"
    | st' where "scan_step src limit mx st = Inr (Some st')" "scan_archive src limit mx st' = Inr ()"
    unfolding scan_archive.simps [of src limit mx st] by (auto split: sum.splits option.splits)
  then show ?case
  proof cases
    case 1
    with \<open>no_io_faults src\<close> \<open>zeros_ok st\<close> show ?thesis
      using \<open>unat (entries st) \<le> unat mx\<close> \<open>unat (payload_bytes st) \<le> unat limit\<close>
      by (intro exI [of _ "[]"])
        (auto simp: header_total_def size_total_def scan_step_end pos_of_def intro!: stream_end)
  next
    case (2 st')
    obtain i where t: "turn src limit mx st i st'" using turn_sound [OF 1(3,4) 2(1)] by blast
    then have "unat (entries st') \<le> unat mx" and "unat (payload_bytes st') \<le> unat limit" and "zeros_ok st'"
      using 1(5,6) by (cases i; simp add: turn_def; fastforce)+
    with 1(1) [OF 2(1) refl 2(2) 1(3)] obtain items where
      "tar_stream (archive_bytes src) (unat mx) (pos_of st') items"
      "unat (entries st') + header_total items \<le> unat mx" "unat (payload_bytes st') + size_total items \<le> unat limit"
      by blast
    with t show ?thesis
      by (intro exI [of _ "i # items"]) (auto simp: turn_def header_total_def size_total_def intro: stream_next)
  qed
qed

lemma tar_stream_extent: "tar_stream b mx p items \<Longrightarrow> at_offset p + 512 \<le> length b"
  by (induction rule: tar_stream.induct) (auto elim: tar_item.cases)

lemma scan_complete:
  "tar_stream b k p items \<Longrightarrow> b = archive_bytes src \<Longrightarrow> k = unat mx \<Longrightarrow> p = pos_of st \<Longrightarrow> no_io_faults src \<Longrightarrow> zeros_ok st \<Longrightarrow>
   unat (entries st) + header_total items \<le> unat mx \<Longrightarrow> unat (payload_bytes st) + size_total items \<le> unat limit \<Longrightarrow>
   scan_archive src limit mx st = Inr ()"
proof (induction arbitrary: st rule: tar_stream.induct)
  case (stream_end p)
  then have "scan_step src limit mx st = Inr None" by (simp add: scan_step_end pos_of_def)
  then show ?case by (simp add: scan_archive.simps [of src limit mx st])
next
  case (stream_next p i p' items)
  have "at_offset p' < 2 ^ 64"
    using tar_stream_extent [OF stream_next.hyps(2)] stream_next.prems(1,4) by (simp add: no_io_faults_def)
  then have "lands src limit mx st i p'"
    using stream_next by (intro turn_complete) (auto simp: header_total_def size_total_def)
  then obtain st' where st': "scan_step src limit mx st = Inr (Some st')" "pos_of st' = p'" "zeros_ok st'"
    "unat (entries st') = unat (entries st) + header_count i"
    "unat (payload_bytes st') = unat (payload_bytes st) + item_size i" by (auto simp: lands_def)
  then have "scan_archive src limit mx st' = Inr ()"
    using stream_next.prems by (intro stream_next.IH) (auto simp: header_total_def size_total_def)
  with st'(1) show ?case by (simp add: scan_archive.simps [of src limit mx st])
qed

text \<open>
  C7. The scan accepts an archive exactly when its bytes are a tar stream that ends in two zero blocks, has at
  most \<open>max_entries\<close> headers, no longer chain of sparse extension headers, and whose members declare at most
  \<open>limit\<close> bytes in all, counted in unbounded arithmetic with PAX and sparse sizes: no wrap-around, short read
  or padding can hide a byte from the budget, and no archive within the budget is refused.
\<close>

theorem tar_scan_exact:
  assumes "no_io_faults src"
  shows "validate_with_limit src limit max_entries = Inr () \<longleftrightarrow>
    (\<exists>items. tar_stream (archive_bytes src) (unat max_entries) tar_start items \<and>
       header_total items \<le> unat max_entries \<and> size_total items \<le> unat limit)"
proof -
  have start: "pos_of scan_start = tar_start" "zeros_ok scan_start" "unat (entries scan_start) = 0"
    "unat (payload_bytes scan_start) = 0"
    by (simp_all add: pos_of_def scan_start_def tar_start_def zeros_ok_def)
  show ?thesis
    using scan_sound [of src limit max_entries scan_start] scan_complete [of _ _ tar_start _ src max_entries scan_start limit]
      assms start by (auto simp: validate_with_limit_def)
qed

text \<open>An archive with one member of five bytes.\<close>

definition example_header :: string where
  "example_header = ''x'' @ replicate 123 (CHR 0x00) @ ''00000000005'' @ replicate 21 (CHR 0x00) @ ''0'' @
     replicate 355 (CHR 0x00)"

definition example_archive :: TarSource where
  "example_archive =
     \<lparr>archive_bytes = example_header @ ''12345'' @ replicate 507 (CHR 0x00) @ replicate 1024 (CHR 0x00),
      delivered = (\<lambda>_. 3), io_fault = (\<lambda>_. None)\<rparr>"

lemma example_blocks:
  "length example_header = 512" "block (archive_bytes example_archive) 0 = example_header"
  "zero_block (block (archive_bytes example_archive) 1024)" "zero_block (block (archive_bytes example_archive) 1536)"
  "length (archive_bytes example_archive) = 2048"
  by (simp_all add: example_header_def example_archive_def block_def zero_block_def take_Cons' drop_Cons' list_all_iff)

lemma example_digits: "octal_char 0 = CHR ''0''" "octal_char 5 = CHR ''5''"
  by code_simp+

lemma example_size: "tar_size (header_slice example_header 124 136) 5"
proof -
  have "header_slice example_header 124 136 = [] @ map octal_char [0, 0, 0, 0, 0, 0, 0, 0, 0, 0, 5] @ [CHR 0x00]"
    by (simp add: header_slice_def example_header_def example_digits)
  moreover have "\<not> (header_slice example_header 124 136 \<noteq> [] \<and> 128 \<le> byte (hd (header_slice example_header 124 136)))"
    by (simp add: calculation octal_char_def)
  ultimately show ?thesis
    unfolding tar_size_def
    by (simp only: if_False, intro exI [of _ "[]"] exI [of _ "[0, 0, 0, 0, 0, 0, 0, 0, 0, 0, 5]"] exI [of _ "[CHR 0x00]"])
      (simp add: blank_def)
qed

lemma example_stream:
  "tar_stream (archive_bytes example_archive) 1 tar_start [Member 5, ZeroBlock]"
proof -
  let ?b = "archive_bytes example_archive"
  have h: "example_header ! 156 = CHR ''0''" "\<not> zero_block example_header"
    by (simp_all add: example_header_def nth_append zero_block_def)
  have "tar_item ?b 1 tar_start (Member 5) (tar_start\<lparr>at_offset := 512 + pad 5, after_zero := False, for_next := no_hints\<rparr>)"
    using example_size h
    by (intro item_member [where h = example_header and n = 5 and hints = no_hints])
      (auto simp: tar_start_def example_blocks no_hints_def overlay_def option_or_def hinted_def member_at_def)
  moreover have "tar_item ?b 1 (tar_start\<lparr>at_offset := 1024\<rparr>) ZeroBlock (tar_start\<lparr>at_offset := 1536, after_zero := True\<rparr>)"
    using item_zero [of "tar_start\<lparr>at_offset := 1024\<rparr>" ?b 1] by (simp add: tar_start_def example_blocks)
  moreover have "tar_stream ?b 1 (tar_start\<lparr>at_offset := 1536, after_zero := True\<rparr>) []"
    by (rule stream_end) (simp_all add: tar_start_def example_blocks)
  ultimately show ?thesis by (auto simp: tar_start_def pad_def intro!: stream_next)
qed

theorem tar_scan_exact_witness: "validate_with_limit example_archive 5 1 = Inr ()"
proof -
  have "no_io_faults example_archive"
    unfolding no_io_faults_def example_blocks by (simp add: example_archive_def)
  then show ?thesis
    using tar_scan_exact [of example_archive 5 1] example_stream
    by (auto simp: header_total_def size_total_def intro!: exI [of _ "[Member 5, ZeroBlock]"])
qed

end
