(* ===== verification/Nspawn_Spec.thy ===== *)
theory Nspawn_Spec
  imports Deployment_Contract Trusted_State
begin

text \<open>
  What a deployment may write into a \<open>.nspawn\<close> file: the typed specification and its validation
  (\<open>src/adapters/config/nspawn_spec.rs\<close>), the codec of bind values, and the directives generated from a
  specification (\<open>src/adapters/config/nspawn_file.rs\<close>). The INI writer that prints the directives is another
  package; the model ends at the sequence of calls made to it.
\<close>

section \<open>The specification\<close>

definition MAX_CONFIG_ITEMS :: nat where
  "MAX_CONFIG_ITEMS = 4096"

definition ALL_DRM_DEVICES_PATH :: string where
  "ALL_DRM_DEVICES_PATH = ''/dev/dri''"

datatype ResolvConfMode = ResolvOff | ResolvBindHost

definition resolv_for_network :: "NetworkMode option \<Rightarrow> ResolvConfMode option" where
  "resolv_for_network network =
     (case network of
        Some NetHost \<Rightarrow> Some ResolvBindHost
      | Some _ \<Rightarrow> Some ResolvOff
      | None \<Rightarrow> None)"

fun resolv_as_str :: "ResolvConfMode \<Rightarrow> string" where
  "resolv_as_str ResolvOff = ''off''"
| "resolv_as_str ResolvBindHost = ''bind-host''"

datatype TransportProtocol = Tcp | Udp

fun transport_as_str :: "TransportProtocol \<Rightarrow> string" where
  "transport_as_str Tcp = ''tcp''"
| "transport_as_str Udp = ''udp''"

record NspawnPortForward =
  np_host :: u16
  np_container :: u16
  np_protocol :: TransportProtocol

definition port_forward_validate :: "NspawnPortForward \<Rightarrow> NspawnError + unit" where
  "port_forward_validate f =
     (if np_host f = 0 \<or> np_container f = 0
      then Inl (ValidationError ''Port-forward ports must be in the range 1..=65535'')
      else Inr ())"

text \<open>\<open>dbg\<close> stands for the \<open>Debug\<close> rendering of a string.\<close>

definition port_forward_try_from :: "(string \<Rightarrow> string) \<Rightarrow> PortForward \<Rightarrow> NspawnError + NspawnPortForward" where
  "port_forward_try_from dbg v =
     and_then
       (if to_ascii_lowercase (pf_proto v) = ''tcp'' then Inr Tcp
        else if to_ascii_lowercase (pf_proto v) = ''udp'' then Inr Udp
        else Inl (ValidationError (''Unsupported port-forward protocol: '' @ dbg (to_ascii_lowercase (pf_proto v)))))
       (\<lambda>protocol.
          let forward = \<lparr>np_host = pf_host v, np_container = pf_container v, np_protocol = protocol\<rparr> in
          and_then (port_forward_validate forward) (\<lambda>_. Inr forward))"

definition validate_text :: "(string \<Rightarrow> string) \<Rightarrow> string \<Rightarrow> string \<Rightarrow> bool \<Rightarrow> NspawnError + unit" where
  "validate_text dbg label v allow_empty =
     (if (\<not> allow_empty \<and> v = []) \<or> length v > 255 \<or> has_control v
      then Inl (ValidationError (''Invalid '' @ label @ '': '' @ dbg v))
      else Inr ())"

definition validate_absolute_path :: "(string \<Rightarrow> string) \<Rightarrow> string \<Rightarrow> string \<Rightarrow> NspawnError + unit" where
  "validate_absolute_path dbg label v =
     and_then (validate_text dbg label v False) (\<lambda>_.
       if \<not> is_absolute v then Inl (ValidationError (label @ '' must be absolute: '' @ dbg v)) else Inr ())"

record NspawnConfigSpec =
  sp_machine :: MachineName
  sp_guest_hostname :: GuestHostname
  sp_network :: "NetworkMode option"
  sp_resolv_conf :: "ResolvConfMode option"
  sp_port_forwards :: "NspawnPortForward list"
  sp_bind_mounts :: "BindMount list"
  sp_x11_binds :: "X11BindIntent list"
  sp_device_binds :: "string list"
  sp_readonly_binds :: "string list"
  sp_privileged :: bool
  sp_private_users :: "PrivateUsersMode option"
  sp_graphics_acceleration :: bool
  sp_gpu_passthrough_all :: bool
  sp_nvidia_gpu :: bool
  sp_boot :: bool

definition validate_network :: "NetworkMode option \<Rightarrow> NspawnError + unit" where
  "validate_network network =
     (let check = (\<lambda>name. map_err (\<lambda>_. ValidationError (''Invalid network interface name'')) (validate_network_interface_name name)) in
      case network of
        Some (Bridge name) \<Rightarrow> check name
      | Some (MacVlan name) \<Rightarrow> check name
      | Some (IpVlan name) \<Rightarrow> check name
      | Some (Interface name) \<Rightarrow> check name
      | _ \<Rightarrow> Inr ())"

text \<open>
  The loop over the X11 binds, with the set of targets taken so far: paths are equal when their components
  are.
\<close>

fun check_x11_targets :: "(string \<Rightarrow> string) \<Rightarrow> X11BindIntent list \<Rightarrow> component list set \<Rightarrow> NspawnError + unit" where
  "check_x11_targets dbg [] targets = Inr ()"
| "check_x11_targets dbg (b # bs) targets =
     and_then (validate_absolute_path dbg ''X11 bind source'' (bind_source_path (xb_source b))) (\<lambda>_.
     and_then (validate_absolute_path dbg ''X11 bind target'' (xb_target b)) (\<lambda>_.
     if components (xb_target b) \<in> targets
     then Inl (ValidationError (''X11 bind target conflicts with another bind: '' @ xb_target b))
     else check_x11_targets dbg bs (insert (components (xb_target b)) targets)))"

definition spec_targets :: "NspawnConfigSpec \<Rightarrow> string list" where
  "spec_targets s = map bm_target (sp_bind_mounts s) @ sp_device_binds s @ sp_readonly_binds s"

definition spec_validate :: "(string \<Rightarrow> string) \<Rightarrow> NspawnConfigSpec \<Rightarrow> NspawnError + unit" where
  "spec_validate dbg s =
     (if sp_x11_binds s \<noteq> [] \<and> (sp_private_users s = Some UsersManaged \<or> sp_private_users s = Some UsersIdentity)
      then Inl (ValidationError ''Host X11 projections are not supported with PrivateUsers=managed or identity'')
      else if sp_resolv_conf s \<noteq> resolv_for_network (sp_network s)
      then Inl (ValidationError ''Resolver policy does not match network mode'')
      else if sp_private_users s = Some UsersManaged \<and> \<not> (case sp_network s of Some n \<Rightarrow> is_private n | None \<Rightarrow> False)
      then Inl (ValidationError ''PrivateUsers=managed requires an explicit private network mode'')
      else if \<not> (case sp_network s of Some n \<Rightarrow> supports_port_forwarding n | None \<Rightarrow> False) \<and> sp_port_forwards s \<noteq> []
      then Inl (ValidationError ''Port forwarding requires Veth or Bridge network mode'')
      else if length (sp_port_forwards s) > MAX_CONFIG_ITEMS \<or> length (sp_bind_mounts s) > MAX_CONFIG_ITEMS
        \<or> length (sp_x11_binds s) > MAX_CONFIG_ITEMS \<or> length (sp_device_binds s) > MAX_CONFIG_ITEMS
        \<or> length (sp_readonly_binds s) > MAX_CONFIG_ITEMS
      then Inl (ValidationError ''Too many entries in .nspawn configuration'')
      else
        and_then (try_each port_forward_validate (sp_port_forwards s)) (\<lambda>_.
        and_then (validate_network (sp_network s)) (\<lambda>_.
        and_then (try_each (\<lambda>b.
            and_then (validate_absolute_path dbg ''bind source'' (bm_source b)) (\<lambda>_.
              validate_absolute_path dbg ''bind target'' (bm_target b))) (sp_bind_mounts s)) (\<lambda>_.
        and_then (check_x11_targets dbg (sp_x11_binds s) (components ` set (spec_targets s))) (\<lambda>_.
        if list_ex (\<lambda>b. is_directory_source (xb_source b)) (sp_x11_binds s)
           \<and> list_ex (\<lambda>b. \<not> is_directory_source (xb_source b)) (sp_x11_binds s)
        then Inl (ValidationError ''X11 directory and individual socket projections cannot be combined'')
        else
          and_then (try_each (validate_absolute_path dbg ''device bind'') (sp_device_binds s)) (\<lambda>_.
            try_each (validate_absolute_path dbg ''read-only bind'') (sp_readonly_binds s)))))))"

definition spec_try_from :: "(string \<Rightarrow> string) \<Rightarrow> MachineProvisioningConfig \<Rightarrow> NspawnError + NspawnConfigSpec" where
  "spec_try_from dbg c =
     and_then (map_err (\<lambda>_. ValidationError ''Invalid machine name'') (machine_name_new (mc_name c))) (\<lambda>machine.
     and_then (map_err (\<lambda>_. ValidationError ''Invalid guest hostname'') (guest_hostname_resolve (mc_guest_hostname c) machine)) (\<lambda>guest.
     and_then (try_map (port_forward_try_from dbg) (mc_port_forwards c)) (\<lambda>forwards.
     let spec = \<lparr>sp_machine = machine, sp_guest_hostname = guest, sp_network = mc_network c,
           sp_resolv_conf = resolv_for_network (mc_network c), sp_port_forwards = forwards,
           sp_bind_mounts = mc_bind_mounts c, sp_x11_binds = mc_x11_binds c, sp_device_binds = mc_device_binds c,
           sp_readonly_binds = mc_readonly_binds c, sp_privileged = mc_privileged c,
           sp_private_users = mc_private_users c, sp_graphics_acceleration = mc_graphics_acceleration c,
           sp_gpu_passthrough_all = mc_gpu_passthrough_all c, sp_nvidia_gpu = mc_nvidia_gpu c, sp_boot = mc_boot c\<rparr> in
     and_then (spec_validate dbg spec) (\<lambda>_. Inr spec))))"

section \<open>Bind values\<close>

text \<open>\<open>path.replace('\\', "\\\\").replace(':', "\\:")\<close>\<close>

definition escape_char :: "char \<Rightarrow> string" where
  "escape_char c = (if c = CHR 0x5C then [CHR 0x5C, CHR 0x5C] else if c = CHR '':'' then [CHR 0x5C, CHR '':''] else [c])"

definition escape_nspawn_bind_path :: "string \<Rightarrow> string" where
  "escape_nspawn_bind_path path = concat (map escape_char path)"

definition nspawn_bind_key :: "bool \<Rightarrow> string" where
  "nspawn_bind_key readonly = (if readonly then ''BindReadOnly'' else ''Bind'')"

definition encode_nspawn_bind_value :: "string \<Rightarrow> string option \<Rightarrow> string option \<Rightarrow> string" where
  "encode_nspawn_bind_value source target options =
     escape_nspawn_bind_path source @
     (case target of None \<Rightarrow> [] | Some t \<Rightarrow> '':'' @ escape_nspawn_bind_path t) @
     (case options of Some o' \<Rightarrow> if o' = [] then [] else '':'' @ o' | None \<Rightarrow> [])"

text \<open>\<open>parse_nspawn_bind_fields\<close>: \<open>acc\<close> is the last field, the others are already complete.\<close>

fun bind_fields :: "string \<Rightarrow> string \<Rightarrow> string list" where
  "bind_fields acc [] = [acc]"
| "bind_fields acc (c # s) =
     (if c = CHR 0x5C then
        (case s of
           d # s' \<Rightarrow> if d = CHR 0x5C \<or> d = CHR '':'' then bind_fields (acc @ [d]) s' else bind_fields (acc @ [CHR 0x5C]) s
         | [] \<Rightarrow> bind_fields (acc @ [CHR 0x5C]) s)
      else if c = CHR '':'' then acc # bind_fields [] s
      else bind_fields (acc @ [c]) s)"

definition parse_nspawn_bind_fields :: "string \<Rightarrow> string list option" where
  "parse_nspawn_bind_fields v = Some (bind_fields [] v)"

record NspawnBindSemantics =
  nb_source :: string
  nb_destination :: string
  nb_readonly :: bool
  nb_options :: "string list"

definition parse_nspawn_bind_value :: "string \<Rightarrow> bool \<Rightarrow> NspawnBindSemantics option" where
  "parse_nspawn_bind_value v readonly =
     (case parse_nspawn_bind_fields (trim v) of
        None \<Rightarrow> None
      | Some parts \<Rightarrow>
          if parts = [] \<or> length parts > 3 then None
          else
            let source = trim (parts ! 0) in
            if source = [] then None
            else Some
              \<lparr>nb_source = source,
               nb_destination = (if 1 < length parts \<and> trim (parts ! 1) \<noteq> [] then trim (parts ! 1) else source),
               nb_readonly = readonly,
               nb_options = (if 2 < length parts
                 then filter (\<lambda>o'. o' \<noteq> []) (map trim (split_on CHR '','' (parts ! 2))) else [])\<rparr>)"

definition parse_nspawn_bind_line :: "string \<Rightarrow> NspawnBindSemantics option" where
  "parse_nspawn_bind_line line =
     (case split_once CHR ''='' (trim line) of
        None \<Rightarrow> None
      | Some (key, v) \<Rightarrow>
          if trim key = ''Bind'' then parse_nspawn_bind_value v False
          else if trim key = ''BindReadOnly'' then parse_nspawn_bind_value v True
          else None)"

section \<open>Generated directives\<close>

record WaylandBind =
  wb_source :: string
  wb_target :: string
  wb_policy :: WaylandBindPolicy

text \<open>\<open>normalized_absolute_path\<close>, as the components below the root.\<close>

fun normalize_step :: "component \<Rightarrow> component list \<Rightarrow> component list" where
  "normalize_step (Normal w) ps = ps @ [Normal w]"
| "normalize_step ParentDir ps = butlast ps"
| "normalize_step _ ps = ps"

definition normalized_absolute_path :: "string \<Rightarrow> component list option" where
  "normalized_absolute_path path =
     (if \<not> is_absolute path then None else Some (fold normalize_step (components path) []))"

definition path_prefix :: "component list \<Rightarrow> component list \<Rightarrow> bool" where
  "path_prefix p q \<longleftrightarrow> take (length p) q = p"

definition validate_wayland_endpoint_available :: "NspawnConfigSpec \<Rightarrow> NspawnError + unit" where
  "validate_wayland_endpoint_available s =
     (case normalized_absolute_path CONTAINER_WAYLAND_ROOT of
        None \<Rightarrow> Inl (RuntimeError ''the adapter-owned Wayland endpoint is an absolute normalized path'')
      | Some endpoint \<Rightarrow>
          if list_ex (\<lambda>target. case normalized_absolute_path target of
               None \<Rightarrow> False
             | Some t \<Rightarrow> path_prefix endpoint t \<or> path_prefix t endpoint) (spec_targets s)
          then Inl (ValidationError (''Bind target '' @ CONTAINER_WAYLAND_ROOT @ '' is reserved for the Wayland grant''))
          else Inr ())"

definition validated_nspawn_path :: "string \<Rightarrow> string \<Rightarrow> NspawnError + string" where
  "validated_nspawn_path label path =
     (if has_control path then Inl (ValidationError (label @ '' contains control characters'')) else Inr path)"

type_synonym directive = "string \<times> string \<times> string"

definition exec_directives :: "NspawnConfigSpec \<Rightarrow> directive list" where
  "exec_directives s =
     [(''Exec'', ''Boot'', if sp_boot s then ''yes'' else ''no'')] @
     (case sp_private_users s of Some m \<Rightarrow> [(''Exec'', ''PrivateUsers'', private_users_as_str m)] | None \<Rightarrow> []) @
     (case sp_resolv_conf s of Some m \<Rightarrow> [(''Exec'', ''ResolvConf'', resolv_as_str m)] | None \<Rightarrow> []) @
     (if sp_privileged s then [(''Exec'', ''Capability'', ''all'')] else []) @
     (if guest_as_str (sp_guest_hostname s) \<noteq> machine_as_str (sp_machine s)
      then [(''Exec'', ''Hostname'', guest_as_str (sp_guest_hostname s))] else [])"

definition port_directive :: "NspawnPortForward \<Rightarrow> directive" where
  "port_directive p = (''Network'', ''Port'',
     transport_as_str (np_protocol p) @ '':'' @ show_nat (unat (np_host p)) @ '':'' @ show_nat (unat (np_container p)))"

definition network_directives :: "NspawnConfigSpec \<Rightarrow> directive list" where
  "network_directives s =
     (case sp_network s of
        None \<Rightarrow> []
      | Some NetHost \<Rightarrow> [(''Network'', ''VirtualEthernet'', ''no'')]
      | Some NetNone \<Rightarrow> [(''Network'', ''Private'', ''yes'')]
      | Some NetVeth \<Rightarrow> (''Network'', ''VirtualEthernet'', ''yes'') # map port_directive (sp_port_forwards s)
      | Some (Bridge name) \<Rightarrow>
          [(''Network'', ''VirtualEthernet'', ''yes''), (''Network'', ''Bridge'', name)] @ map port_directive (sp_port_forwards s)
      | Some (MacVlan iface) \<Rightarrow>
          [(''Network'', ''Private'', ''yes''), (''Network'', ''VirtualEthernet'', ''no''), (''Network'', ''MACVLAN'', iface)]
      | Some (IpVlan iface) \<Rightarrow>
          [(''Network'', ''Private'', ''yes''), (''Network'', ''VirtualEthernet'', ''no''), (''Network'', ''IPVLAN'', iface)]
      | Some (Interface iface) \<Rightarrow>
          [(''Network'', ''Private'', ''yes''), (''Network'', ''VirtualEthernet'', ''no''), (''Network'', ''Interface'', iface)])"

definition wayland_directive :: "WaylandBind \<Rightarrow> NspawnError + directive" where
  "wayland_directive b =
     and_then (validated_nspawn_path ''Wayland socket path'' (wb_source b)) (\<lambda>source.
     and_then (validated_nspawn_path ''Wayland container path'' (wb_target b)) (\<lambda>target.
     Inr (''Files'', nspawn_bind_key False, encode_nspawn_bind_value source (Some target)
       (Some (case wb_policy b of BindIdmap \<Rightarrow> ''idmap'' | BindNoIdmap \<Rightarrow> ''noidmap'')))))"

definition x11_directive :: "PrivateUsersMode option \<Rightarrow> X11BindIntent \<Rightarrow> NspawnError + directive" where
  "x11_directive users b =
     and_then (validated_nspawn_path ''X11 source path'' (bind_source_path (xb_source b))) (\<lambda>source.
     and_then (validated_nspawn_path ''X11 container path'' (xb_target b)) (\<lambda>target.
     Inr (''Files'', nspawn_bind_key True, encode_nspawn_bind_value source (Some target)
       (Some (case users of Some UsersNo \<Rightarrow> ''noidmap'' | _ \<Rightarrow> ''idmap'')))))"

definition passthrough_all_drm :: "NspawnConfigSpec \<Rightarrow> bool" where
  "passthrough_all_drm s \<longleftrightarrow> sp_gpu_passthrough_all s \<or> ALL_DRM_DEVICES_PATH \<in> set (sp_device_binds s)"

definition plain_file_directives :: "NspawnConfigSpec \<Rightarrow> directive list" where
  "plain_file_directives s =
     (if sp_nvidia_gpu s then [(''Files'', ''X-Lasper-Nvidia-Enabled'', ''true'')] else []) @
     (if passthrough_all_drm s then [(''Files'', ''Bind'', ALL_DRM_DEVICES_PATH)] else []) @
     map (\<lambda>d. (''Files'', ''Bind'', escape_nspawn_bind_path d)) (filter (\<lambda>d. d \<noteq> ALL_DRM_DEVICES_PATH) (sp_device_binds s)) @
     map (\<lambda>r. (''Files'', ''BindReadOnly'', escape_nspawn_bind_path r)) (sp_readonly_binds s) @
     map (\<lambda>b. (''Files'', if bm_readonly b then ''BindReadOnly'' else ''Bind'',
       escape_nspawn_bind_path (bm_source b) @ '':'' @ escape_nspawn_bind_path (bm_target b) @ suffix_display (bm_suffix b)))
       (sp_bind_mounts s)"

text \<open>\<open>nspawn_config_content_from_spec_with_wayland_binds\<close>: the entries handed to the INI writer, in order.\<close>

definition nspawn_directives ::
  "(string \<Rightarrow> string) \<Rightarrow> NspawnConfigSpec \<Rightarrow> WaylandBind list \<Rightarrow> NspawnError + directive list" where
  "nspawn_directives dbg s wayland_binds =
     and_then (spec_validate dbg s) (\<lambda>_.
     and_then (if wayland_binds \<noteq> [] then validate_wayland_endpoint_available s else Inr ()) (\<lambda>_.
     and_then (try_map wayland_directive wayland_binds) (\<lambda>wayland.
     and_then (try_map (x11_directive (sp_private_users s)) (sp_x11_binds s)) (\<lambda>x11.
     Inr (exec_directives s @ network_directives s @ plain_file_directives s @ wayland @ x11)))))"

section \<open>Values survive the file\<close>

lemma bind_fields_escape: "bind_fields acc (escape_nspawn_bind_path p @ rest) = bind_fields (acc @ p) rest"
  by (induction p arbitrary: acc) (auto simp: escape_nspawn_bind_path_def escape_char_def)

lemma bind_fields_plain:
  "CHR 0x5C \<notin> set p \<Longrightarrow> CHR '':'' \<notin> set p \<Longrightarrow> bind_fields acc p = [acc @ p]"
  by (induction p arbitrary: acc) auto

lemma bind_fields_separator: "bind_fields acc (CHR '':'' # rest) = acc # bind_fields [] rest"
  by simp

lemma bind_fields_escaped_end: "bind_fields acc (escape_nspawn_bind_path p) = [acc @ p]"
  using bind_fields_escape [of acc p "[]"] by simp

definition option_fields :: "string option \<Rightarrow> string list" where
  "option_fields x = (case x of None \<Rightarrow> [] | Some v \<Rightarrow> [v])"

lemma bind_value_fields:
  assumes "case options of None \<Rightarrow> True | Some v \<Rightarrow> v \<noteq> [] \<and> CHR 0x5C \<notin> set v \<and> CHR '':'' \<notin> set v"
  shows "parse_nspawn_bind_fields (encode_nspawn_bind_value source target options) =
    Some (source # option_fields target @ option_fields options)"
  using assms
  by (cases target; cases options)
    (auto simp: parse_nspawn_bind_fields_def encode_nspawn_bind_value_def option_fields_def bind_fields_escape
      bind_fields_escaped_end bind_fields_plain)

lemma escape_append: "escape_nspawn_bind_path (p @ q) = escape_nspawn_bind_path p @ escape_nspawn_bind_path q"
  by (simp add: escape_nspawn_bind_path_def)

text \<open>A line stays one line: no value holds a byte below 32 or a DEL.\<close>

definition printable :: "string \<Rightarrow> bool" where
  "printable s \<longleftrightarrow> list_all (\<lambda>c. \<not> ctrl1 c) s"

lemma printable_append [simp]: "printable (a @ b) \<longleftrightarrow> printable a \<and> printable b"
  by (simp add: printable_def)

lemma printable_colon [simp]: "printable (CHR '':'' # s) \<longleftrightarrow> printable s"
  by (simp add: printable_def ctrl1_def)

lemma printable_no_control: "\<not> has_control s \<Longrightarrow> printable s"
  using not_has_control_bytes by (auto simp: printable_def list_all_iff)

lemma printable_escape [simp]: "printable (escape_nspawn_bind_path p) \<longleftrightarrow> printable p"
  by (induction p) (auto simp: escape_nspawn_bind_path_def escape_char_def printable_def ctrl1_def)

lemma printable_digits: "list_all is_ascii_digit s \<Longrightarrow> printable s"
  by (auto simp: printable_def list_all_iff is_ascii_digit_def ctrl1_def)

lemma printable_show_nat [simp]: "printable (show_nat n)"
  using show_nat_digits [of n] printable_digits by blast

lemma printable_constants [simp]:
  "printable []" "printable '':''" "printable (resolv_as_str m)" "printable (transport_as_str t)"
  "printable (private_users_as_str u)" "printable (suffix_display x)"
  by (simp add: printable_def ctrl1_def | cases m; simp add: printable_def ctrl1_def |
      cases t; simp add: printable_def ctrl1_def | cases u; simp add: printable_def ctrl1_def |
      cases x; simp add: printable_def ctrl1_def)+

lemma printable_hostname: "is_valid_nspawn_hostname s \<Longrightarrow> printable s"
  using hostname_byte_safe(2,3) hostname_bytes by (fastforce simp: printable_def list_all_iff ctrl1_def)

lemma validate_absolute_path_ok:
  "validate_absolute_path dbg label v = Inr u \<longleftrightarrow> v \<noteq> [] \<and> length v \<le> 255 \<and> \<not> has_control v \<and> is_absolute v"
  by (auto simp: validate_absolute_path_def validate_text_def not_less)

lemma check_x11_targets_ok:
  "check_x11_targets dbg bs taken = Inr () \<longleftrightarrow>
   (\<forall>b \<in> set bs. validate_absolute_path dbg ''X11 bind source'' (bind_source_path (xb_source b)) = Inr () \<and>
      validate_absolute_path dbg ''X11 bind target'' (xb_target b) = Inr ()) \<and>
   distinct (map (components \<circ> xb_target) bs) \<and> (components \<circ> xb_target) ` set bs \<inter> taken = {}"
  by (induction bs arbitrary: taken) auto

section \<open>What a deployment exposes\<close>

text \<open>The host paths a specification asks to expose, as read-only flag and fields of the bind.\<close>

definition suffix_fields :: "IdmapSuffix \<Rightarrow> string list" where
  "suffix_fields x = (if x = SuffixNone then [] else [drop 1 (suffix_display x)])"

definition declared_binds :: "NspawnConfigSpec \<Rightarrow> WaylandBind list \<Rightarrow> (bool \<times> string list) list" where
  "declared_binds s ws =
     (if passthrough_all_drm s then [(False, [ALL_DRM_DEVICES_PATH])] else []) @
     map (\<lambda>d. (False, [d])) (filter (\<lambda>d. d \<noteq> ALL_DRM_DEVICES_PATH) (sp_device_binds s)) @
     map (\<lambda>r. (True, [r])) (sp_readonly_binds s) @
     map (\<lambda>b. (bm_readonly b, [bm_source b, bm_target b] @ suffix_fields (bm_suffix b))) (sp_bind_mounts s) @
     map (\<lambda>w. (False, [wb_source w, wb_target w, case wb_policy w of BindIdmap \<Rightarrow> ''idmap'' | BindNoIdmap \<Rightarrow> ''noidmap''])) ws @
     map (\<lambda>x. (True, [bind_source_path (xb_source x), xb_target x,
       case sp_private_users s of Some UsersNo \<Rightarrow> ''noidmap'' | _ \<Rightarrow> ''idmap''])) (sp_x11_binds s)"

text \<open>The binds that a list of directives makes, read back with the codec.\<close>

definition is_bind :: "directive \<Rightarrow> bool" where
  "is_bind d \<longleftrightarrow> fst d = ''Files'' \<and> (fst (snd d) = ''Bind'' \<or> fst (snd d) = ''BindReadOnly'')"

definition read_bind :: "directive \<Rightarrow> bool \<times> string list" where
  "read_bind d = (fst (snd d) = ''BindReadOnly'', bind_fields [] (snd (snd d)))"

definition written_binds :: "directive list \<Rightarrow> (bool \<times> string list) list" where
  "written_binds ds = map read_bind (filter is_bind ds)"

lemma written_binds_append [simp]: "written_binds (a @ b) = written_binds a @ written_binds b"
  by (simp add: written_binds_def)

lemma written_binds_map:
  "(\<And>x. x \<in> set xs \<Longrightarrow> is_bind (f x) \<and> read_bind (f x) = g x) \<Longrightarrow> written_binds (map f xs) = map g xs"
  by (induction xs) (auto simp: written_binds_def)

lemma written_binds_other: "list_all (\<lambda>d. fst d \<noteq> ''Files'') ds \<Longrightarrow> written_binds ds = []"
  by (auto simp: written_binds_def is_bind_def list_all_iff filter_empty_conv)

lemma exec_directives_section: "list_all (\<lambda>d. fst d = ''Exec'') (exec_directives s)"
  by (auto simp: exec_directives_def split: option.splits)

lemma network_directives_section: "list_all (\<lambda>d. fst d = ''Network'') (network_directives s)"
proof (cases "sp_network s")
  case (Some n)
  then show ?thesis by (cases n) (auto simp: network_directives_def port_directive_def list_all_iff)
qed (simp add: network_directives_def)

lemma bind_fields_drm: "bind_fields [] ALL_DRM_DEVICES_PATH = [ALL_DRM_DEVICES_PATH]"
  by (simp add: ALL_DRM_DEVICES_PATH_def)

lemma bind_fields_suffix: "bind_fields acc (suffix_display x) = acc # suffix_fields x"
  by (cases x) (simp_all add: suffix_fields_def)

lemma plain_binds_written:
  "written_binds (plain_file_directives s) =
     (if passthrough_all_drm s then [(False, [ALL_DRM_DEVICES_PATH])] else []) @
     map (\<lambda>d. (False, [d])) (filter (\<lambda>d. d \<noteq> ALL_DRM_DEVICES_PATH) (sp_device_binds s)) @
     map (\<lambda>r. (True, [r])) (sp_readonly_binds s) @
     map (\<lambda>b. (bm_readonly b, [bm_source b, bm_target b] @ suffix_fields (bm_suffix b))) (sp_bind_mounts s)"
proof -
  have "written_binds (if sp_nvidia_gpu s then [(''Files'', ''X-Lasper-Nvidia-Enabled'', ''true'')] else []) = []"
    by (simp add: written_binds_def is_bind_def)
  moreover have "written_binds (if passthrough_all_drm s then [(''Files'', ''Bind'', ALL_DRM_DEVICES_PATH)] else []) =
      (if passthrough_all_drm s then [(False, [ALL_DRM_DEVICES_PATH])] else [])"
    by (simp add: written_binds_def is_bind_def read_bind_def bind_fields_drm)
  moreover have "written_binds (map (\<lambda>d. (''Files'', ''Bind'', escape_nspawn_bind_path d)) ds) = map (\<lambda>d. (False, [d])) ds" for ds
    by (rule written_binds_map) (simp add: is_bind_def read_bind_def bind_fields_escaped_end)
  moreover have "written_binds (map (\<lambda>d. (''Files'', ''BindReadOnly'', escape_nspawn_bind_path d)) ds) = map (\<lambda>d. (True, [d])) ds" for ds
    by (rule written_binds_map) (simp add: is_bind_def read_bind_def bind_fields_escaped_end)
  moreover have "written_binds (map (\<lambda>b. (''Files'', if bm_readonly b then ''BindReadOnly'' else ''Bind'',
       escape_nspawn_bind_path (bm_source b) @ '':'' @ escape_nspawn_bind_path (bm_target b) @ suffix_display (bm_suffix b))) bs) =
      map (\<lambda>b. (bm_readonly b, [bm_source b, bm_target b] @ suffix_fields (bm_suffix b))) bs" for bs :: "BindMount list"
    by (rule written_binds_map) (simp add: is_bind_def read_bind_def bind_fields_escape bind_fields_suffix)
  ultimately show ?thesis by (simp only: plain_file_directives_def written_binds_append append.left_neutral)
qed

lemma encode_bind_fields:
  "v \<noteq> [] \<Longrightarrow> CHR 0x5C \<notin> set v \<Longrightarrow> CHR '':'' \<notin> set v \<Longrightarrow>
   bind_fields [] (encode_nspawn_bind_value source (Some target) (Some v)) = [source, target, v]"
  using bind_value_fields [of "Some v" source "Some target"]
  by (simp add: parse_nspawn_bind_fields_def option_fields_def)

lemma printable_encode:
  "printable source \<Longrightarrow> printable target \<Longrightarrow> printable v \<Longrightarrow>
   printable (encode_nspawn_bind_value source (Some target) (Some v))"
  by (auto simp: encode_nspawn_bind_value_def)

lemma printable_idmap: "printable ''idmap''" "printable ''noidmap''"
  by (simp_all add: printable_def ctrl1_def)

lemma wayland_directive_ok:
  "wayland_directive w = Inr d \<Longrightarrow> is_bind d \<and> fst d = ''Files'' \<and> printable (snd (snd d)) \<and>
     read_bind d = (False, [wb_source w, wb_target w, case wb_policy w of BindIdmap \<Rightarrow> ''idmap'' | BindNoIdmap \<Rightarrow> ''noidmap''])"
  by (cases "wb_policy w")
    (auto simp: wayland_directive_def validated_nspawn_path_def is_bind_def read_bind_def nspawn_bind_key_def
      encode_bind_fields printable_encode printable_idmap printable_no_control split: if_splits)

lemma x11_directive_ok:
  "x11_directive users x = Inr d \<Longrightarrow> is_bind d \<and> fst d = ''Files'' \<and> printable (snd (snd d)) \<and>
     read_bind d = (True, [bind_source_path (xb_source x), xb_target x, case users of Some UsersNo \<Rightarrow> ''noidmap'' | _ \<Rightarrow> ''idmap''])"
  by (auto simp: x11_directive_def validated_nspawn_path_def is_bind_def read_bind_def nspawn_bind_key_def
      encode_bind_fields printable_encode printable_idmap printable_no_control
      split: if_splits option.splits PrivateUsersMode.splits)

lemma try_map_written:
  assumes "try_map f xs = Inr ds" and "\<And>x d. f x = Inr d \<Longrightarrow> is_bind d \<and> read_bind d = g x"
  shows "written_binds ds = map g xs"
proof -
  have "list_all2 (\<lambda>x d. f x = Inr d) xs ds" using assms(1) by (simp add: try_map_ok)
  then show ?thesis
    by (induction rule: list_all2_induct) (auto simp: written_binds_def dest: assms(2))
qed

lemma try_map_all:
  assumes "try_map f xs = Inr ds" and "\<And>x d. f x = Inr d \<Longrightarrow> P d"
  shows "list_all P ds"
proof -
  have "list_all2 (\<lambda>x d. f x = Inr d) xs ds" using assms(1) by (simp add: try_map_ok)
  then show ?thesis by (induction rule: list_all2_induct) (auto dest: assms(2))
qed

lemma printable_section: "printable ''yes''" "printable ''no''" "printable ''all''" "printable ''true''"
  "printable ALL_DRM_DEVICES_PATH"
  by (simp_all add: printable_def ctrl1_def ALL_DRM_DEVICES_PATH_def)

lemma exec_printable: "is_valid_nspawn_hostname (guest_as_str (sp_guest_hostname s)) \<Longrightarrow>
   list_all (\<lambda>d. printable (snd (snd d))) (exec_directives s)"
  by (auto simp: exec_directives_def printable_section printable_hostname split: option.splits)

lemma interface_printable:
  assumes "validate_network_interface_name n = Inr u"
  shows "printable n"
proof -
  have "list_all (\<lambda>b. 33 \<le> byte b \<and> byte b \<le> 126 \<and> b \<notin> set '':/%'') n"
    using assms by (simp add: validate_network_interface_name_def split: if_splits)
  then show ?thesis unfolding printable_def by (rule list.pred_mono_strong) (simp add: ctrl1_def)
qed

lemma network_printable:
  assumes "validate_network (sp_network s) = Inr ()"
  shows "list_all (\<lambda>d. printable (snd (snd d))) (network_directives s)"
proof (cases "sp_network s")
  case (Some n)
  have ports: "list_all (\<lambda>d. printable (snd (snd d))) (map port_directive ps)" for ps
    by (auto simp: list_all_iff port_directive_def)
  from Some assms show ?thesis
    using ports interface_printable
    by (cases n) (auto simp: network_directives_def validate_network_def printable_section)
qed (simp add: network_directives_def)

lemma spec_validate_parts:
  assumes "spec_validate dbg s = Inr u"
  shows "validate_network (sp_network s) = Inr ()"
    and "\<And>b. b \<in> set (sp_bind_mounts s) \<Longrightarrow> validate_absolute_path dbg ''bind source'' (bm_source b) = Inr () \<and>
      validate_absolute_path dbg ''bind target'' (bm_target b) = Inr ()"
    and "check_x11_targets dbg (sp_x11_binds s) (components ` set (spec_targets s)) = Inr ()"
    and "\<And>d. d \<in> set (sp_device_binds s) \<Longrightarrow> validate_absolute_path dbg ''device bind'' d = Inr ()"
    and "\<And>d. d \<in> set (sp_readonly_binds s) \<Longrightarrow> validate_absolute_path dbg ''read-only bind'' d = Inr ()"
    and "sp_resolv_conf s = resolv_for_network (sp_network s)"
    and "\<And>p. p \<in> set (sp_port_forwards s) \<Longrightarrow> port_forward_validate p = Inr ()"
  using assms unfolding spec_validate_def by (simp_all split: if_splits)

lemma plain_printable:
  assumes "spec_validate dbg s = Inr u"
  shows "list_all (\<lambda>d. printable (snd (snd d))) (plain_file_directives s)"
proof -
  note parts = spec_validate_parts [OF assms, unfolded validate_absolute_path_ok]
  have "printable d" if "d \<in> set (sp_device_binds s) \<union> set (sp_readonly_binds s)" for d
    using that parts(4,5) printable_no_control by blast
  moreover have "printable (bm_source b) \<and> printable (bm_target b)" if "b \<in> set (sp_bind_mounts s)" for b
    using parts(2) [OF that] printable_no_control by blast
  ultimately show ?thesis
    by (auto simp: plain_file_directives_def list_all_iff printable_section)
qed

text \<open>Whether a bind target and the directory of the Wayland grant contain each other.\<close>

definition overlaps_wayland_root :: "string \<Rightarrow> bool" where
  "overlaps_wayland_root target \<longleftrightarrow>
     (case (normalized_absolute_path CONTAINER_WAYLAND_ROOT, normalized_absolute_path target) of
        (Some endpoint, Some t) \<Rightarrow> path_prefix endpoint t \<or> path_prefix t endpoint
      | _ \<Rightarrow> False)"

lemma wayland_endpoint_ok:
  "validate_wayland_endpoint_available s = Inr u \<Longrightarrow> list_all (\<lambda>t. \<not> overlaps_wayland_root t) (spec_targets s)"
  by (auto simp: validate_wayland_endpoint_available_def overlaps_wayland_root_def list_all_iff list_ex_iff
      split: option.splits if_splits)

lemma nspawn_directives_parts:
  assumes "nspawn_directives dbg s ws = Inr ds"
  obtains wl xl where "spec_validate dbg s = Inr ()" and "try_map wayland_directive ws = Inr wl"
    and "try_map (x11_directive (sp_private_users s)) (sp_x11_binds s) = Inr xl"
    and "ds = exec_directives s @ network_directives s @ plain_file_directives s @ wl @ xl"
    and "ws \<noteq> [] \<Longrightarrow> validate_wayland_endpoint_available s = Inr ()"
  using assms by (auto simp: nspawn_directives_def split: if_splits)

lemma directives_sections:
  assumes "nspawn_directives dbg s ws = Inr ds" and "is_valid_nspawn_hostname (guest_as_str (sp_guest_hostname s))"
  shows "list_all (\<lambda>d. fst d \<in> {''Exec'', ''Network'', ''Files''} \<and> printable (snd (snd d))) ds"
proof -
  obtain wl xl where v: "spec_validate dbg s = Inr ()" and w: "try_map wayland_directive ws = Inr wl"
    and x: "try_map (x11_directive (sp_private_users s)) (sp_x11_binds s) = Inr xl"
    and ds: "ds = exec_directives s @ network_directives s @ plain_file_directives s @ wl @ xl"
    using assms(1) by (rule nspawn_directives_parts)
  have "list_all (\<lambda>d. fst d = ''Files'' \<and> printable (snd (snd d))) (wl @ xl)"
    using try_map_all [OF w] try_map_all [OF x] wayland_directive_ok x11_directive_ok by simp
  moreover have "list_all (\<lambda>d. fst d = ''Files'') (plain_file_directives s)"
    by (auto simp: plain_file_directives_def list_all_iff)
  ultimately show ?thesis
    using exec_directives_section [of s] exec_printable [OF assms(2)] network_directives_section [of s]
      network_printable [OF spec_validate_parts(1) [OF v]] plain_printable [OF v]
    unfolding ds by (auto simp: list_all_iff)
qed

text \<open>
  C8. What a deployment writes into the machine's \<open>.nspawn\<close> file: read back with the bind codec, the file binds
  exactly the host paths the validated specification declares, with their targets and modes, whatever colons and
  backslashes the paths hold; every entry stays within the sections \<open>Exec\<close>, \<open>Network\<close> and \<open>Files\<close> and on its
  line. No two X11 sockets share a target, and none shares the target of a declared mount, device or read-only
  bind; and when Wayland sockets are bound, no target of a declared mount, device or read-only bind lies in,
  at or above the directory of the Wayland grants. As in the code, the targets of X11 sockets are not compared
  with that directory.
\<close>

theorem nspawn_exposes_declared:
  assumes "spec_try_from dbg c = Inr s" and "nspawn_directives dbg s ws = Inr ds"
  shows "written_binds ds = declared_binds s ws
    \<and> list_all (\<lambda>d. fst d \<in> {''Exec'', ''Network'', ''Files''} \<and> printable (snd (snd d))) ds
    \<and> distinct (map (components \<circ> xb_target) (sp_x11_binds s))
    \<and> list_all (\<lambda>b. components (xb_target b) \<notin> components ` set (spec_targets s)) (sp_x11_binds s)
    \<and> (ws = [] \<or> list_all (\<lambda>t. \<not> overlaps_wayland_root t) (spec_targets s))"
proof -
  obtain wl xl where v: "spec_validate dbg s = Inr ()" and w: "try_map wayland_directive ws = Inr wl"
    and x: "try_map (x11_directive (sp_private_users s)) (sp_x11_binds s) = Inr xl"
    and ds: "ds = exec_directives s @ network_directives s @ plain_file_directives s @ wl @ xl"
    and root: "ws \<noteq> [] \<Longrightarrow> validate_wayland_endpoint_available s = Inr ()"
    using assms(2) by (rule nspawn_directives_parts) blast
  have "written_binds (exec_directives s) = []" and "written_binds (network_directives s) = []"
    using exec_directives_section [of s] network_directives_section [of s]
    by (auto intro!: written_binds_other simp: list_all_iff)
  moreover have "written_binds wl = map (\<lambda>w. (False, [wb_source w, wb_target w,
      case wb_policy w of BindIdmap \<Rightarrow> ''idmap'' | BindNoIdmap \<Rightarrow> ''noidmap''])) ws"
    using w by (rule try_map_written) (simp add: wayland_directive_ok)
  moreover have "written_binds xl = map (\<lambda>x. (True, [bind_source_path (xb_source x), xb_target x,
      case sp_private_users s of Some UsersNo \<Rightarrow> ''noidmap'' | _ \<Rightarrow> ''idmap''])) (sp_x11_binds s)"
    using x by (rule try_map_written) (simp add: x11_directive_ok)
  ultimately have "written_binds ds = declared_binds s ws"
    unfolding ds written_binds_append plain_binds_written declared_binds_def by simp
  moreover have "is_valid_nspawn_hostname (guest_as_str (sp_guest_hostname s))"
    using assms(1) by (auto simp: spec_try_from_def Let_def guest_hostname_resolve_def guest_hostname.new_eq_Inr split: if_splits)
  moreover note spec_validate_parts(3) [OF v, unfolded check_x11_targets_ok]
  ultimately show ?thesis
    using directives_sections [OF assms(2)] wayland_endpoint_ok root by (auto simp: list_all_iff)
qed

definition example_config :: MachineProvisioningConfig where
  "example_config = machine_config_default
     \<lparr>mc_name := ''web'', mc_network := Some NetVeth,
      mc_port_forwards := [\<lparr>pf_host = 8080, pf_container = 80, pf_proto = ''TCP''\<rparr>],
      mc_bind_mounts := [\<lparr>bm_source = ''/srv/a:b'', bm_target = ''/data'', bm_readonly = True, bm_suffix = Idmap\<rparr>],
      mc_device_binds := [''/dev/kvm'']\<rparr>"

definition example_spec :: NspawnConfigSpec where
  "example_spec =
     \<lparr>sp_machine = MachineName ''web'', sp_guest_hostname = GuestHostname ''web'', sp_network = Some NetVeth,
      sp_resolv_conf = Some ResolvOff, sp_port_forwards = [\<lparr>np_host = 8080, np_container = 80, np_protocol = Tcp\<rparr>],
      sp_bind_mounts = [\<lparr>bm_source = ''/srv/a:b'', bm_target = ''/data'', bm_readonly = True, bm_suffix = Idmap\<rparr>],
      sp_x11_binds = [], sp_device_binds = [''/dev/kvm''], sp_readonly_binds = [], sp_privileged = False,
      sp_private_users = None, sp_graphics_acceleration = False, sp_gpu_passthrough_all = False, sp_nvidia_gpu = False,
      sp_boot = True\<rparr>"

lemma example_validates: "spec_validate (\<lambda>s. s) example_spec = Inr ()"
  unfolding spec_validate_def example_spec_def MAX_CONFIG_ITEMS_def
  by (simp add: resolv_for_network_def port_forward_validate_def validate_network_def validate_absolute_path_ok is_absolute_def
      ctrl1_def ctrl2_def)

lemma example_spec_built: "spec_try_from (\<lambda>s. s) example_config = Inr example_spec"
proof -
  have "machine_name_new ''web'' = Inr (MachineName ''web'')" by code_simp
  moreover have "guest_hostname_resolve [] (MachineName ''web'') = Inr (GuestHostname ''web'')" by code_simp
  moreover have "port_forward_try_from (\<lambda>s. s) \<lparr>pf_host = 8080, pf_container = 80, pf_proto = ''TCP''\<rparr> =
      Inr \<lparr>np_host = 8080, np_container = 80, np_protocol = Tcp\<rparr>" by code_simp
  ultimately show ?thesis
    using example_validates
    by (simp add: spec_try_from_def example_config_def machine_config_default_def resolv_for_network_def Let_def
        example_spec_def del: and_then_eq_Inr)
qed

theorem nspawn_exposes_declared_witness:
  "\<exists>ds. nspawn_directives (\<lambda>s. s) example_spec [] = Inr ds \<and>
     written_binds ds = [(False, [''/dev/kvm'']), (True, [''/srv/a:b'', ''/data'', ''idmap''])]"
proof -
  obtain ds where ds: "nspawn_directives (\<lambda>s. s) example_spec [] = Inr ds"
    using example_validates by (simp add: nspawn_directives_def example_spec_def)
  moreover have "declared_binds example_spec [] = [(False, [''/dev/kvm'']), (True, [''/srv/a:b'', ''/data'', ''idmap''])]"
    by code_simp
  ultimately show ?thesis using nspawn_exposes_declared [OF example_spec_built ds] by simp
qed

end
