(* ===== verification/Nspawn_Document.thy ===== *)
theory Nspawn_Document
  imports Nspawn_Spec "HOL-Library.List_Lexorder" "HOL-Library.Char_ord"
begin

text \<open>
  Editing an existing \<open>.nspawn\<close> file in place (\<open>src/adapters/config/nspawn_file.rs\<close>): finding and removing the
  block of NVIDIA binds that Lasper manages, and writing a new one, without touching what the administrator
  wrote.
\<close>

section \<open>Lines\<close>

definition NVIDIA_BLOCK_BEGIN :: string where
  "NVIDIA_BLOCK_BEGIN = ''X-Lasper-Nvidia-Begin=managed-by-lasper''"

definition NVIDIA_BLOCK_END :: string where
  "NVIDIA_BLOCK_END = ''X-Lasper-Nvidia-End=true''"

definition strip_suffix_or :: "string \<Rightarrow> string \<Rightarrow> string" where
  "strip_suffix_or s p = (case strip_suffix s p of Some t \<Rightarrow> t | None \<Rightarrow> s)"

definition line_body :: "string \<Rightarrow> string" where
  "line_body line = strip_suffix_or (strip_suffix_or line [CHR 0x0A]) [CHR 0x0D]"

definition is_files_section :: "string \<Rightarrow> bool" where
  "is_files_section line \<longleftrightarrow> eq_ignore_ascii_case (trim line) ''[files]''"

definition is_section_header :: "string \<Rightarrow> bool" where
  "is_section_header line \<longleftrightarrow> starts_with (trim line) ''['' \<and> ends_with (trim line) '']''"

definition is_nvidia_begin_marker :: "string \<Rightarrow> bool" where
  "is_nvidia_begin_marker line \<longleftrightarrow> trim line = NVIDIA_BLOCK_BEGIN"

definition is_nvidia_end_marker :: "string \<Rightarrow> bool" where
  "is_nvidia_end_marker line \<longleftrightarrow> trim line = NVIDIA_BLOCK_END"

section \<open>Removing the managed block\<close>

record PurgeState =
  pg_in_files :: bool
  pg_start :: "nat option"
  pg_end :: "nat option"
  pg_deaths :: "string list"
  pg_offset :: nat

definition purge_start :: PurgeState where
  "purge_start = \<lparr>pg_in_files = False, pg_start = None, pg_end = None, pg_deaths = [], pg_offset = 0\<rparr>"

text \<open>The value of a bind line inside the block.\<close>

definition death_of :: "string \<Rightarrow> string list" where
  "death_of body =
     (case split_once CHR ''='' (trim body) of
        Some (key, v) \<Rightarrow> if trim key = ''Bind'' \<or> trim key = ''BindReadOnly'' then [v] else []
      | None \<Rightarrow> [])"

definition purge_line :: "PurgeState \<Rightarrow> string \<Rightarrow> NspawnError + PurgeState" where
  "purge_line st line =
     (let body = line_body line; next_offset = pg_offset st + length line in
      if is_section_header body
      then if pg_start st \<noteq> None \<and> pg_end st = None
        then Inl (RuntimeError ''Incomplete NVIDIA markers cross a section boundary'')
        else Inr (st\<lparr>pg_in_files := is_files_section body, pg_offset := next_offset\<rparr>)
      else if pg_in_files st \<and> is_nvidia_begin_marker body
      then if pg_start st \<noteq> None
        then Inl (RuntimeError ''Duplicate X-Lasper-Nvidia-Begin marker'')
        else Inr (st\<lparr>pg_start := Some (pg_offset st), pg_offset := next_offset\<rparr>)
      else if pg_in_files st \<and> is_nvidia_end_marker body
      then if pg_start st = None \<or> pg_end st \<noteq> None
        then Inl (RuntimeError ''X-Lasper-Nvidia-End marker has no matching begin marker'')
        else Inr (st\<lparr>pg_end := Some (pg_offset st + length line), pg_offset := next_offset\<rparr>)
      else if pg_start st \<noteq> None \<and> pg_end st = None
      then Inr (st\<lparr>pg_deaths := pg_deaths st @ death_of body, pg_offset := next_offset\<rparr>)
      else Inr (st\<lparr>pg_offset := next_offset\<rparr>))"

definition purge_nvidia_block :: "string \<Rightarrow> NspawnError + string \<times> string list" where
  "purge_nvidia_block content =
     and_then (try_fold purge_line purge_start (split_inclusive (CHR 0x0A) content)) (\<lambda>st.
       case (pg_start st, pg_end st) of
         (Some s, Some e) \<Rightarrow> Inr (take s content @ drop e content, pg_deaths st)
       | (None, None) \<Rightarrow> Inr (content, [])
       | _ \<Rightarrow> Inl (RuntimeError ''Incomplete markers found: one is missing''))"

section \<open>Writing a new block\<close>

record PassthroughBind =
  host_path :: string
  container_path :: string
  pt_readonly :: bool

definition from_passthrough :: "PassthroughBind \<Rightarrow> NspawnBindSemantics" where
  "from_passthrough b = \<lparr>nb_source = host_path b, nb_destination = container_path b, nb_readonly = pt_readonly b, nb_options = []\<rparr>"

record EditState =
  ed_result :: string
  ed_in_files :: bool
  ed_first_seen :: bool
  ed_first_open :: bool
  ed_insert_at :: "nat option"
  ed_conflicts :: "string set"

definition edit_start :: EditState where
  "edit_start = \<lparr>ed_result = [], ed_in_files = False, ed_first_seen = False, ed_first_open = False,
     ed_insert_at = None, ed_conflicts = {}\<rparr>"

text \<open>The sets of the new and of the removed binds, given as lists.\<close>

definition edit_line ::
  "NspawnBindSemantics list \<Rightarrow> NspawnBindSemantics list \<Rightarrow> string \<Rightarrow> EditState \<Rightarrow> EditState" where
  "edit_line new_binds removed_binds line st =
     (let body = line_body line in
      if is_section_header body
      then
        let st = (if ed_first_open st then st\<lparr>ed_insert_at := Some (length (ed_result st)), ed_first_open := False\<rparr> else st);
            st = st\<lparr>ed_in_files := is_files_section body\<rparr>;
            st = (if ed_in_files st \<and> \<not> ed_first_seen st then st\<lparr>ed_first_seen := True, ed_first_open := True\<rparr> else st) in
        st\<lparr>ed_result := ed_result st @ line\<rparr>
      else
        (case (if ed_in_files st then parse_nspawn_bind_line body else None) of
           None \<Rightarrow> st\<lparr>ed_result := ed_result st @ line\<rparr>
         | Some b \<Rightarrow>
             if b \<in> set new_binds \<or> b \<in> set removed_binds then st
             else
               let st = (if nb_destination b \<in> nb_destination ` set new_binds
                         then st\<lparr>ed_conflicts := insert (nb_destination b) (ed_conflicts st)\<rparr> else st) in
               st\<lparr>ed_result := ed_result st @ line\<rparr>))"

definition block_line :: "PassthroughBind \<Rightarrow> string" where
  "block_line b =
     (if pt_readonly b then ''BindReadOnly='' else ''Bind='') @
     (if host_path b = container_path b then escape_nspawn_bind_path (host_path b)
      else escape_nspawn_bind_path (host_path b) @ '':'' @ escape_nspawn_bind_path (container_path b))"

definition insert_block :: "string \<Rightarrow> nat \<Rightarrow> string list \<Rightarrow> string \<Rightarrow> bool \<Rightarrow> string" where
  "insert_block content offset blk line_ending preserve_final_newline =
     (let prefix = take offset content; suffix = drop offset content in
      prefix @
      (if prefix \<noteq> [] \<and> \<not> ends_with prefix [CHR 0x0A] then line_ending else []) @
      join line_ending blk @
      (if suffix \<noteq> [] \<or> preserve_final_newline then line_ending else []) @
      suffix)"

definition append_files_block :: "string \<Rightarrow> string list \<Rightarrow> string \<Rightarrow> bool \<Rightarrow> string" where
  "append_files_block content blk line_ending preserve_final_newline =
     (let content = (if content \<noteq> [] \<and> \<not> ends_with content [CHR 0x0A] then content @ line_ending else content);
          content = (if content \<noteq> [] \<and> \<not> ends_with content (line_ending @ line_ending) then content @ line_ending else content) in
      content @ ''[Files]'' @ line_ending @ join line_ending blk @ (if preserve_final_newline then line_ending else []))"

definition apply_gpu_passthrough_to_content ::
  "string \<Rightarrow> PassthroughBind list \<Rightarrow> PassthroughBind list \<Rightarrow> NspawnError + string" where
  "apply_gpu_passthrough_to_content content binds removed_binds =
     and_then (purge_nvidia_block content) (\<lambda>(clean, _).
       let st = fold (edit_line (map from_passthrough binds) (map from_passthrough removed_binds))
                  (split_inclusive (CHR 0x0A) clean) edit_start;
           insert_at = (if ed_first_open st then Some (length (ed_result st)) else ed_insert_at st) in
       if ed_conflicts st \<noteq> {}
       then Inl (InvalidConfig (''NVIDIA bind conflicts with administrator-owned entries at container path(s): '' @
              join '', '' (sorted_list_of_set (ed_conflicts st))))
       else if binds = [] then Inr (ed_result st)
       else
         let blk = [NVIDIA_BLOCK_BEGIN] @ map block_line binds @ [NVIDIA_BLOCK_END];
             line_ending = (if contains_str clean [CHR 0x0D, CHR 0x0A] then [CHR 0x0D, CHR 0x0A] else [CHR 0x0A]);
             preserve = ends_with clean [CHR 0x0A] in
         Inr (case insert_at of
                Some offset \<Rightarrow> insert_block (ed_result st) offset blk line_ending preserve
              | None \<Rightarrow> append_files_block (ed_result st) blk line_ending preserve))"

section \<open>Lines of a text\<close>

abbreviation nl :: char where "nl \<equiv> CHR 0x0A"

definition terminated :: "string \<Rightarrow> bool" where
  "terminated l \<longleftrightarrow> (\<exists>b. l = b @ [nl] \<and> nl \<notin> set b)"

definition is_lines :: "string list \<Rightarrow> bool" where
  "is_lines ls \<longleftrightarrow> (\<forall>l \<in> set (butlast ls). terminated l) \<and>
     (ls = [] \<or> terminated (last ls) \<or> (last ls \<noteq> [] \<and> nl \<notin> set (last ls)))"

lemma split_terminated: "nl \<notin> set b \<Longrightarrow> split_inclusive nl (b @ nl # s) = (b @ [nl]) # split_inclusive nl s"
  by (induction b) auto

lemma split_unterminated: "l \<noteq> [] \<Longrightarrow> nl \<notin> set l \<Longrightarrow> split_inclusive nl l = [l]"
proof (induction l)
  case (Cons c l)
  then show ?case by (cases "l = []") auto
qed simp

lemma split_lines_append: "list_all terminated ls \<Longrightarrow> split_inclusive nl (concat ls @ s) = ls @ split_inclusive nl s"
  by (induction ls) (auto simp: terminated_def split_terminated)

lemma is_lines_Cons: "is_lines (l # ls) \<longleftrightarrow>
   (if ls = [] then terminated l \<or> (l \<noteq> [] \<and> nl \<notin> set l) else terminated l \<and> is_lines ls)"
  by (auto simp: is_lines_def)

lemma is_lines_append: "is_lines (a @ b) \<longleftrightarrow> (if b = [] then is_lines a else list_all terminated a \<and> is_lines b)"
  by (induction a) (auto simp: is_lines_Cons)

lemma is_lines_terminated: "list_all terminated a \<Longrightarrow> is_lines a"
  by (induction a) (auto simp: is_lines_Cons is_lines_def)

lemma is_lines_remove:
  assumes "is_lines (a @ m @ b)"
  shows "is_lines (a @ b)"
proof (cases "b = []")
  case True
  then show ?thesis using assms is_lines_terminated by (cases "m = []") (auto simp: is_lines_append [of a m])
next
  case False
  then show ?thesis using assms by (auto simp: is_lines_append)
qed

lemma split_is_lines: "is_lines ls \<Longrightarrow> split_inclusive nl (concat ls) = ls"
proof (induction ls)
  case (Cons l ls)
  then show ?case
    by (cases "ls = []") (auto simp: is_lines_Cons terminated_def split_terminated split_unterminated)
qed simp

lemma terminated_Cons: "c \<noteq> nl \<Longrightarrow> terminated w \<Longrightarrow> terminated (c # w)"
  unfolding terminated_def by (metis append_Cons set_ConsD)

lemma is_lines_push:
  assumes "c \<noteq> nl" and "is_lines (w # ws)"
  shows "is_lines ((c # w) # ws)"
proof (cases "ws = []")
  case True
  have "terminated w \<or> nl \<notin> set w" using assms(2) True by (simp add: is_lines_Cons) blast
  then have "terminated (c # w) \<or> nl \<notin> set (c # w)" using assms(1) terminated_Cons by auto
  then show ?thesis using True by (simp add: is_lines_Cons)
next
  case False
  then show ?thesis using assms terminated_Cons by (simp add: is_lines_Cons)
qed

lemma is_lines_split: "is_lines (split_inclusive nl s)"
proof (induction s)
  case (Cons c s)
  have one: "terminated [nl]" unfolding terminated_def by (rule exI [of _ "[]"]) simp
  show ?case
  proof (cases "split_inclusive nl s")
    case Nil
    then show ?thesis using one by (simp add: is_lines_Cons)
  next
    case (Cons w ws)
    with \<open>is_lines (split_inclusive nl s)\<close> have "is_lines (w # ws)" by simp
    then show ?thesis using Cons one is_lines_push [of c w ws] by (simp add: is_lines_Cons [of "[nl]"])
  qed
qed (simp add: is_lines_def)

lemma line_body_terminated: "nl \<notin> set b \<Longrightarrow> line_body (b @ [nl]) = strip_suffix_or b [CHR 0x0D]"
  using strip_suffix_Some [of "b @ [nl]" "[nl]" b] by (simp add: line_body_def strip_suffix_or_def)

lemma strip_cr: "strip_suffix_or (b @ [CHR 0x0D]) [CHR 0x0D] = b"
  using strip_suffix_Some [of "b @ [CHR 0x0D]" "[CHR 0x0D]" b] by (simp add: strip_suffix_or_def)

lemma strip_no_suffix: "c \<notin> set b \<Longrightarrow> strip_suffix_or b [c] = b"
proof (cases "strip_suffix b [c]")
  case (Some t)
  then have "b = t @ [c]" by (simp only: strip_suffix_Some)
  then show "c \<notin> set b \<Longrightarrow> ?thesis" by simp
qed (simp add: strip_suffix_or_def)

text \<open>A line without control characters under either line ending.\<close>

definition line_ending_ok :: "string \<Rightarrow> bool" where
  "line_ending_ok le \<longleftrightarrow> le = [nl] \<or> le = [CHR 0x0D, nl]"

lemma body_with_ending:
  assumes "line_ending_ok le" and "printable b"
  shows "line_body (b @ le) = b" and "line_body b = b" and "terminated (b @ le)"
proof -
  have n: "nl \<notin> set b" "CHR 0x0D \<notin> set b" using assms(2) by (auto simp: printable_def list_all_iff ctrl1_def)
  then have r: "nl \<notin> set (b @ [CHR 0x0D])" by simp
  from n r assms(1) show "line_body (b @ le) = b"
    using line_body_terminated [OF n(1)] line_body_terminated [OF r]
    by (auto simp: line_ending_ok_def strip_no_suffix strip_cr)
  from n show "line_body b = b" by (simp add: line_body_def strip_no_suffix)
  have "b @ le = b @ [nl] \<or> b @ le = (b @ [CHR 0x0D]) @ [nl]" using assms(1) by (auto simp: line_ending_ok_def)
  then show "terminated (b @ le)" unfolding terminated_def using n r by blast
qed

section \<open>Sections and markers\<close>

definition header_line :: "string \<Rightarrow> bool" where
  "header_line l \<longleftrightarrow> is_section_header (line_body l)"

definition files_line :: "string \<Rightarrow> bool" where
  "files_line l \<longleftrightarrow> is_files_section (line_body l)"

fun in_files_after :: "bool \<Rightarrow> string list \<Rightarrow> bool" where
  "in_files_after f [] = f"
| "in_files_after f (l # ls) = in_files_after (if header_line l then files_line l else f) ls"

fun no_markers :: "bool \<Rightarrow> string list \<Rightarrow> bool" where
  "no_markers f [] = True"
| "no_markers f (l # ls) =
     (if header_line l then no_markers (files_line l) ls
      else \<not> (f \<and> (is_nvidia_begin_marker (line_body l) \<or> is_nvidia_end_marker (line_body l))) \<and> no_markers f ls)"

lemma in_files_after_append [simp]: "in_files_after f (a @ b) = in_files_after (in_files_after f a) b"
  by (induction a arbitrary: f) auto

lemma no_markers_append [simp]: "no_markers f (a @ b) \<longleftrightarrow> no_markers f a \<and> no_markers (in_files_after f a) b"
  by (induction a arbitrary: f) auto

lemma in_files_after_plain: "list_all (\<lambda>l. \<not> header_line l) ls \<Longrightarrow> in_files_after f ls = f"
  by (induction ls) auto

text \<open>Outside a block, lines without markers only move the offset and the section.\<close>

lemma purge_quiet:
  assumes "no_markers (pg_in_files st) ls" and "pg_start st = None \<longleftrightarrow> pg_end st = None"
  shows "try_fold purge_line st ls =
    Inr (st\<lparr>pg_in_files := in_files_after (pg_in_files st) ls, pg_offset := pg_offset st + length (concat ls)\<rparr>)"
  using assms
proof (induction ls arbitrary: st)
  case (Cons l ls)
  have "purge_line st l = Inr (st\<lparr>pg_in_files := (if header_line l then files_line l else pg_in_files st),
      pg_offset := pg_offset st + length l\<rparr>)"
    using Cons.prems by (auto simp: purge_line_def Let_def header_line_def files_line_def split: if_splits)
  then show ?case using Cons.prems by (simp add: Cons.IH split: if_splits)
qed simp

lemma purge_body:
  assumes "list_all (\<lambda>l. \<not> header_line l \<and> \<not> is_nvidia_begin_marker (line_body l) \<and> \<not> is_nvidia_end_marker (line_body l)) ls"
    and "pg_start st \<noteq> None" and "pg_end st = None"
  shows "try_fold purge_line st ls =
    Inr (st\<lparr>pg_deaths := pg_deaths st @ concat (map (death_of \<circ> line_body) ls), pg_offset := pg_offset st + length (concat ls)\<rparr>)"
  using assms
proof (induction ls arbitrary: st)
  case (Cons l ls)
  have "purge_line st l = Inr (st\<lparr>pg_deaths := pg_deaths st @ death_of (line_body l), pg_offset := pg_offset st + length l\<rparr>)"
    using Cons.prems by (auto simp: purge_line_def Let_def header_line_def)
  then show ?case using Cons by simp
qed simp

text \<open>The text of a file falls into the three phases of the purge.\<close>

lemma purge_before:
  assumes "try_fold purge_line st ls = Inr st'" and "pg_start st = None" and "pg_end st = None"
  shows "(pg_start st' = None \<and> pg_end st' = None \<and> no_markers (pg_in_files st) ls) \<or>
    (\<exists>pre b rest. ls = pre @ b # rest \<and> no_markers (pg_in_files st) pre \<and> in_files_after (pg_in_files st) pre \<and>
       \<not> header_line b \<and> is_nvidia_begin_marker (line_body b) \<and>
       try_fold purge_line (st\<lparr>pg_in_files := True, pg_start := Some (pg_offset st + length (concat pre)),
         pg_offset := pg_offset st + length (concat pre) + length b\<rparr>) rest = Inr st')"
  using assms
proof (induction ls arbitrary: st)
  case (Cons l ls)
  let ?next = "st\<lparr>pg_in_files := (if header_line l then files_line l else pg_in_files st), pg_offset := pg_offset st + length l\<rparr>"
  consider (opens) "\<not> header_line l" "pg_in_files st" "is_nvidia_begin_marker (line_body l)"
    | (other) "no_markers (pg_in_files st) [l]" "purge_line st l = Inr ?next"
    using Cons.prems
    by (auto simp: purge_line_def Let_def header_line_def files_line_def split: if_splits)
  then show ?case
  proof cases
    case opens
    then have step: "purge_line st l = Inr (st\<lparr>pg_start := Some (pg_offset st), pg_offset := pg_offset st + length l\<rparr>)"
      using Cons.prems by (simp add: purge_line_def Let_def header_line_def)
    have eq: "st\<lparr>pg_in_files := True, pg_start := Some (pg_offset st), pg_offset := pg_offset st + length l\<rparr> =
        st\<lparr>pg_start := Some (pg_offset st), pg_offset := pg_offset st + length l\<rparr>" using opens(2) by (cases st) simp
    have "try_fold purge_line (st\<lparr>pg_in_files := True, pg_start := Some (pg_offset st), pg_offset := pg_offset st + length l\<rparr>) ls
      = Inr st'" unfolding eq using step Cons.prems(1) by simp
    then show ?thesis
      using opens by (intro disjI2, rule_tac exI [of _ "[]"], rule_tac exI [of _ l], rule_tac exI [of _ ls]) simp
  next
    case other
    then have "try_fold purge_line ?next ls = Inr st'" using Cons.prems by simp
    from Cons.IH [OF this] Cons.prems have "(pg_start st' = None \<and> pg_end st' = None \<and> no_markers (pg_in_files ?next) ls) \<or>
      (\<exists>pre b rest. ls = pre @ b # rest \<and> no_markers (pg_in_files ?next) pre \<and> in_files_after (pg_in_files ?next) pre \<and>
         \<not> header_line b \<and> is_nvidia_begin_marker (line_body b) \<and>
         try_fold purge_line (st\<lparr>pg_in_files := True, pg_start := Some (pg_offset st + length (concat (l # pre))),
           pg_offset := pg_offset st + length (concat (l # pre)) + length b\<rparr>) rest = Inr st')"
      by (simp add: ac_simps)
    then show ?thesis
    proof (elim disjE exE conjE)
      fix pre b rest
      assume "ls = pre @ b # rest" "no_markers (pg_in_files ?next) pre" "in_files_after (pg_in_files ?next) pre"
        "\<not> header_line b" "is_nvidia_begin_marker (line_body b)"
        "try_fold purge_line (st\<lparr>pg_in_files := True, pg_start := Some (pg_offset st + length (concat (l # pre))),
          pg_offset := pg_offset st + length (concat (l # pre)) + length b\<rparr>) rest = Inr st'"
      then show ?thesis
        using other(1)
        by (intro disjI2 exI [of _ "l # pre"] exI [of _ b] exI [of _ rest]) (auto split: if_splits)
    qed (use other(1) in \<open>auto split: if_splits\<close>)
  qed
qed simp

lemma purge_after:
  assumes "try_fold purge_line st ls = Inr st'" and "pg_start st \<noteq> None" and "pg_end st \<noteq> None"
  shows "pg_start st' = pg_start st \<and> pg_end st' = pg_end st \<and> no_markers (pg_in_files st) ls"
  using assms
proof (induction ls arbitrary: st)
  case (Cons l ls)
  let ?next = "st\<lparr>pg_in_files := (if header_line l then files_line l else pg_in_files st), pg_offset := pg_offset st + length l\<rparr>"
  have "no_markers (pg_in_files st) [l]" "purge_line st l = Inr ?next"
    using Cons.prems by (auto simp: purge_line_def Let_def header_line_def files_line_def split: if_splits)
  moreover from this(2) have "try_fold purge_line ?next ls = Inr st'" using Cons.prems by simp
  ultimately show ?case using Cons.IH [of ?next] Cons.prems by (auto split: if_splits)
qed simp

lemma purge_inside:
  assumes "try_fold purge_line st ls = Inr st'" and "pg_start st \<noteq> None" and "pg_end st = None" and "pg_in_files st"
  shows "pg_start st' = pg_start st \<and> pg_end st' = None \<or>
    (\<exists>mid e post. ls = mid @ e # post \<and> list_all (\<lambda>l. \<not> header_line l) (mid @ [e]) \<and>
       pg_start st' = pg_start st \<and> pg_end st' = Some (pg_offset st + length (concat (mid @ [e]))) \<and> no_markers True post)"
  using assms
proof (induction ls arbitrary: st)
  case (Cons l ls)
  have h: "\<not> header_line l" using Cons.prems by (auto simp: purge_line_def Let_def header_line_def)
  show ?case
  proof (cases "is_nvidia_end_marker (line_body l)")
    case True
    let ?next = "st\<lparr>pg_end := Some (pg_offset st + length l), pg_offset := pg_offset st + length l\<rparr>"
    have "purge_line st l = Inr ?next"
      using Cons.prems h True by (auto simp: purge_line_def Let_def header_line_def is_nvidia_begin_marker_def
          is_nvidia_end_marker_def NVIDIA_BLOCK_BEGIN_def NVIDIA_BLOCK_END_def)
    then have "try_fold purge_line ?next ls = Inr st'" using Cons.prems by simp
    from purge_after [OF this] Cons.prems h show ?thesis
      by (intro disjI2 exI [of _ "[]"] exI [of _ l] exI [of _ ls]) simp
  next
    case False
    then obtain ds where n: "purge_line st l = Inr (st\<lparr>pg_deaths := ds, pg_offset := pg_offset st + length l\<rparr>)"
      using Cons.prems h by (auto simp: purge_line_def Let_def header_line_def split: if_splits)
    then have "try_fold purge_line (st\<lparr>pg_deaths := ds, pg_offset := pg_offset st + length l\<rparr>) ls = Inr st'"
      using Cons.prems by simp
    from Cons.IH [OF this] Cons.prems have "pg_start st' = pg_start st \<and> pg_end st' = None \<or>
      (\<exists>mid e post. ls = mid @ e # post \<and> list_all (\<lambda>l. \<not> header_line l) (mid @ [e]) \<and>
         pg_start st' = pg_start st \<and> pg_end st' = Some (pg_offset st + length (concat (l # mid @ [e]))) \<and> no_markers True post)"
      by (simp add: ac_simps)
    then show ?thesis
    proof (elim disjE exE conjE)
      fix mid e post
      assume "ls = mid @ e # post" "list_all (\<lambda>l. \<not> header_line l) (mid @ [e])" "pg_start st' = pg_start st"
        "pg_end st' = Some (pg_offset st + length (concat (l # mid @ [e])))" "no_markers True post"
      with h show ?thesis by (intro disjI2 exI [of _ "l # mid"] exI [of _ e] exI [of _ post]) simp
    qed simp_all
  qed
qed simp

lemma purge_result:
  assumes "purge_nvidia_block c = Inr (clean, deaths)"
  shows "no_markers False (split_inclusive nl clean)"
    and "clean = c \<or> (\<exists>pre b mid e post. split_inclusive nl c = pre @ b # mid @ e # post \<and> clean = concat (pre @ post) \<and>
      in_files_after False pre \<and> is_nvidia_begin_marker (line_body b) \<and> list_all (\<lambda>l. \<not> header_line l) (b # mid @ [e]))"
proof -
  let ?ls = "split_inclusive nl c"
  obtain st where fold: "try_fold purge_line purge_start ?ls = Inr st"
    and r: "(case (pg_start st, pg_end st) of (Some s, Some e) \<Rightarrow> Inr (take s c @ drop e c, pg_deaths st)
       | (None, None) \<Rightarrow> Inr (c, []) | _ \<Rightarrow> Inl (RuntimeError ''Incomplete markers found: one is missing'')) = Inr (clean, deaths)"
    using assms by (auto simp: purge_nvidia_block_def)
  have start: "pg_start purge_start = None" "pg_end purge_start = None" "pg_in_files purge_start = False" "pg_offset purge_start = 0"
    by (simp_all add: purge_start_def)
  from purge_before [OF fold start(1,2)] have "no_markers False (split_inclusive nl clean) \<and>
    (clean = c \<or> (\<exists>pre b mid e post. ?ls = pre @ b # mid @ e # post \<and> clean = concat (pre @ post) \<and>
      in_files_after False pre \<and> is_nvidia_begin_marker (line_body b) \<and> list_all (\<lambda>l. \<not> header_line l) (b # mid @ [e])))"
  proof (elim disjE exE conjE)
    assume "pg_start st = None" "pg_end st = None" "no_markers (pg_in_files purge_start) ?ls"
    then show ?thesis using r start by simp
  next
    fix pre b rest
    assume ls: "?ls = pre @ b # rest" and pre: "no_markers (pg_in_files purge_start) pre" "in_files_after (pg_in_files purge_start) pre"
      and b: "\<not> header_line b" "is_nvidia_begin_marker (line_body b)"
      and rest: "try_fold purge_line (purge_start\<lparr>pg_in_files := True, pg_start := Some (pg_offset purge_start + length (concat pre)),
         pg_offset := pg_offset purge_start + length (concat pre) + length b\<rparr>) rest = Inr st"
    from purge_inside [OF rest] start obtain mid e post where mid: "rest = mid @ e # post"
      "list_all (\<lambda>l. \<not> header_line l) (mid @ [e])" "no_markers True post"
      and ends: "pg_start st = Some (length (concat pre))" "pg_end st = Some (length (concat pre) + length b + length (concat (mid @ [e])))"
      using r by (auto split: option.splits)
    have c: "c = concat pre @ (b @ concat (mid @ [e])) @ concat post"
      using concat_split_inclusive [of nl c] unfolding ls mid(1) by simp
    have "take (length (concat pre)) c = concat pre" unfolding c by simp
    moreover have "drop (length (concat pre) + length b + length (concat (mid @ [e]))) c = concat post"
      unfolding c by simp
    ultimately have clean: "clean = concat (pre @ post)" using r ends by simp
    have "is_lines (pre @ b # mid @ e # post)" using is_lines_split [of c] unfolding ls mid(1) by simp
    then have "is_lines (pre @ post)" using is_lines_remove [of pre "b # mid @ [e]" post] by simp
    then have "split_inclusive nl clean = pre @ post" unfolding clean by (rule split_is_lines)
    then have "no_markers False (split_inclusive nl clean)" using pre mid(3) start(3) by simp
    moreover have "?ls = pre @ b # mid @ e # post" "list_all (\<lambda>l. \<not> header_line l) (b # mid @ [e])"
      using ls mid b(1) by simp_all
    moreover have "in_files_after False pre" using pre(2) start(3) by simp
    ultimately show ?thesis using clean b(2) by blast
  qed
  then show "no_markers False (split_inclusive nl clean)"
    and "clean = c \<or> (\<exists>pre b mid e post. ?ls = pre @ b # mid @ e # post \<and> clean = concat (pre @ post) \<and>
      in_files_after False pre \<and> is_nvidia_begin_marker (line_body b) \<and> list_all (\<lambda>l. \<not> header_line l) (b # mid @ [e]))"
    by blast+
qed

section \<open>What the edit keeps\<close>

text \<open>A line of a files section that repeats a new or a removed bind; every other line is the administrator's.\<close>

definition duplicate_line :: "NspawnBindSemantics list \<Rightarrow> NspawnBindSemantics list \<Rightarrow> string \<Rightarrow> bool" where
  "duplicate_line new_binds removed_binds l \<longleftrightarrow>
     (case parse_nspawn_bind_line (line_body l) of None \<Rightarrow> False | Some b \<Rightarrow> b \<in> set new_binds \<or> b \<in> set removed_binds)"

fun kept_lines :: "NspawnBindSemantics list \<Rightarrow> NspawnBindSemantics list \<Rightarrow> bool \<Rightarrow> string list \<Rightarrow> string list" where
  "kept_lines new_binds removed_binds f [] = []"
| "kept_lines new_binds removed_binds f (l # ls) =
     (if header_line l then l # kept_lines new_binds removed_binds (files_line l) ls
      else if f \<and> duplicate_line new_binds removed_binds l then kept_lines new_binds removed_binds f ls
      else l # kept_lines new_binds removed_binds f ls)"

lemma in_files_kept: "in_files_after f (kept_lines new rm f ls) = in_files_after f ls"
  by (induction ls arbitrary: f) auto

lemma no_markers_kept: "no_markers f ls \<Longrightarrow> no_markers f (kept_lines new rm f ls)"
  by (induction ls arbitrary: f) (auto split: if_splits)

lemma kept_snoc:
  "kept_lines new rm f (ls @ [l]) = kept_lines new rm f ls @
     (if \<not> header_line l \<and> in_files_after f ls \<and> duplicate_line new rm l then [] else [l])"
  by (induction ls arbitrary: f) auto

lemma kept_subset: "set (kept_lines new rm f ls) \<subseteq> set ls"
  by (induction ls arbitrary: f) auto

text \<open>Files sections of the text hold no bind to a destination of the new binds.\<close>

fun no_conflicts :: "string set \<Rightarrow> bool \<Rightarrow> string list \<Rightarrow> bool" where
  "no_conflicts ds f [] = True"
| "no_conflicts ds f (l # ls) =
     (if header_line l then no_conflicts ds (files_line l) ls
      else (f \<longrightarrow> (case parse_nspawn_bind_line (line_body l) of None \<Rightarrow> True | Some b \<Rightarrow> nb_destination b \<notin> ds)) \<and>
        no_conflicts ds f ls)"

lemma no_conflicts_append [simp]:
  "no_conflicts ds f (a @ b) \<longleftrightarrow> no_conflicts ds f a \<and> no_conflicts ds (in_files_after f a) b"
  by (induction a arbitrary: f) auto

text \<open>Where the block goes: behind the first files section.\<close>

definition insertion_point :: "string list \<Rightarrow> nat option \<Rightarrow> bool" where
  "insertion_point K at \<longleftrightarrow>
     (case at of
        None \<Rightarrow> list_all (\<lambda>l. \<not> (header_line l \<and> files_line l)) K
      | Some n \<Rightarrow> \<exists>K1 K2. K = K1 @ K2 \<and> n = length (concat K1) \<and> K1 \<noteq> [] \<and> in_files_after False K1 \<and> (K2 = [] \<or> header_line (hd K2)))"

definition closed_point :: "string list \<Rightarrow> nat \<Rightarrow> bool" where
  "closed_point K n \<longleftrightarrow> (\<exists>K1 K2. K = K1 @ K2 \<and> n = length (concat K1) \<and> K1 \<noteq> [] \<and> in_files_after False K1 \<and>
     K2 \<noteq> [] \<and> header_line (hd K2))"

lemma insertion_pointI:
  "K = K1 @ K2 \<Longrightarrow> n = length (concat K1) \<Longrightarrow> K1 \<noteq> [] \<Longrightarrow> in_files_after False K1 \<Longrightarrow> K2 = [] \<or> header_line (hd K2) \<Longrightarrow>
   insertion_point K (Some n)"
  unfolding insertion_point_def by auto

lemma closed_pointI:
  "in_files_after False K1 \<Longrightarrow> K1 \<noteq> [] \<Longrightarrow> header_line h \<Longrightarrow> closed_point (K1 @ h # K2) (length (concat K1))"
  unfolding closed_point_def by (rule exI [of _ K1], rule exI [of _ "h # K2"]) simp

lemma closed_point_append:
  assumes "closed_point K n"
  shows "closed_point (K @ ls) n"
proof -
  obtain K1 K2 where "K = K1 @ K2" "n = length (concat K1)" "K1 \<noteq> []" "in_files_after False K1" "K2 \<noteq> []" "header_line (hd K2)"
    using assms by (auto simp: closed_point_def)
  then show ?thesis using closed_pointI [of K1 "hd K2" "tl K2 @ ls"] by (cases K2) simp_all
qed

definition edit_inv :: "NspawnBindSemantics list \<Rightarrow> string list \<Rightarrow> EditState \<Rightarrow> bool" where
  "edit_inv new K st \<longleftrightarrow>
     ed_result st = concat K \<and> ed_in_files st = in_files_after False K \<and>
     (ed_conflicts st = {} \<longrightarrow> no_conflicts (nb_destination ` set new) False K) \<and>
     (ed_first_open st \<longrightarrow> ed_first_seen st \<and> ed_in_files st \<and> K \<noteq> []) \<and>
     (\<not> ed_first_seen st \<longrightarrow> ed_insert_at st = None \<and> list_all (\<lambda>l. \<not> (header_line l \<and> files_line l)) K) \<and>
     (ed_first_seen st \<and> \<not> ed_first_open st \<longrightarrow> (\<exists>n. ed_insert_at st = Some n \<and> closed_point K n))"

lemma no_files_header: "list_all (\<lambda>l. \<not> (header_line l \<and> files_line l)) K \<Longrightarrow> \<not> in_files_after False K"
  by (induction K) auto

lemma edit_header_inv:
  assumes "edit_inv new K st" and "header_line l"
  shows "edit_inv new (K @ [l]) (edit_line new rm l st)"
proof -
  note i = assms(1) [unfolded edit_inv_def]
  have h: "is_section_header (line_body l)" "files_line l = is_files_section (line_body l)"
    using assms(2) by (simp_all add: header_line_def files_line_def)
  consider "ed_first_open st" | "\<not> ed_first_open st" "ed_first_seen st" | "\<not> ed_first_open st" "\<not> ed_first_seen st" by blast
  then show ?thesis
  proof cases
    case 1
    then have "closed_point (K @ [l]) (length (concat K))"
      using i assms(2) by (intro closed_pointI) auto
    then show ?thesis using 1 i h assms(2) by (simp add: edit_line_def Let_def edit_inv_def)
  next
    case 2
    then show ?thesis
      using i h assms(2) closed_point_append by (auto simp: edit_line_def Let_def edit_inv_def)
  next
    case 3
    then show ?thesis using i h assms(2) by (simp add: edit_line_def Let_def edit_inv_def)
  qed
qed

lemma edit_line_inv:
  assumes "edit_inv new K st" and "\<not> header_line l"
  shows "edit_inv new (K @ (if ed_in_files st \<and> duplicate_line new rm l then [] else [l])) (edit_line new rm l st)"
proof -
  note i = assms(1) [unfolded edit_inv_def]
  have h: "\<not> is_section_header (line_body l)" using assms(2) by (simp add: header_line_def)
  show ?thesis
  proof (cases "ed_in_files st \<and> duplicate_line new rm l")
    case True
    then have "edit_line new rm l st = st"
      using h by (auto simp: edit_line_def Let_def duplicate_line_def split: option.splits)
    with True assms(1) show ?thesis by simp
  next
    case False
    let ?bind = "if ed_in_files st then parse_nspawn_bind_line (line_body l) else None"
    define cs where "cs = (case ?bind of None \<Rightarrow> ed_conflicts st | Some b \<Rightarrow>
      if nb_destination b \<in> nb_destination ` set new then insert (nb_destination b) (ed_conflicts st) else ed_conflicts st)"
    have e: "edit_line new rm l st = st\<lparr>ed_result := ed_result st @ l, ed_conflicts := cs\<rparr>"
    proof (cases ?bind)
      case None
      then show ?thesis using h by (simp add: edit_line_def cs_def)
    next
      case (Some b)
      then have "\<not> (b \<in> set new \<or> b \<in> set rm)" using False by (auto simp: duplicate_line_def split: if_splits)
      with Some show ?thesis using h by (simp add: edit_line_def cs_def Let_def)
    qed
    have cs: "cs = {} \<Longrightarrow> ed_conflicts st = {} \<and> no_conflicts (nb_destination ` set new) (ed_in_files st) [l]"
      using assms(2) by (auto simp: cs_def split: option.splits if_splits)
    show ?thesis
      using False i assms(2) cs closed_point_append [of K _ "[l]"] unfolding e edit_inv_def
      by (simp add: assms(2)) blast
  qed
qed

lemma edit_fold_inv: "edit_inv new (kept_lines new rm False ls) (fold (edit_line new rm) ls edit_start)"
proof (induction ls rule: rev_induct)
  case Nil
  then show ?case by (simp add: edit_inv_def edit_start_def)
next
  case (snoc l ls)
  let ?st = "fold (edit_line new rm) ls edit_start" and ?K = "kept_lines new rm False ls"
  have f: "ed_in_files ?st = in_files_after False ls" using snoc by (simp add: edit_inv_def in_files_kept)
  show ?case
    using edit_header_inv [OF snoc, of l rm] edit_line_inv [OF snoc, of l rm]
    by (cases "header_line l") (simp_all add: kept_snoc f)
qed

lemma edit_insertion:
  assumes "edit_inv new K st"
  shows "insertion_point K (if ed_first_open st then Some (length (ed_result st)) else ed_insert_at st)"
proof (cases "ed_first_open st")
  case True
  then show ?thesis
    using assms by (auto simp: edit_inv_def intro!: insertion_pointI [of K K "[]"])
next
  case False
  then show ?thesis
    using assms insertion_pointI by (auto simp: edit_inv_def closed_point_def insertion_point_def)
qed

section \<open>Lines up to surrounding whitespace\<close>

lemma trim_start_snoc: "ws1 w \<Longrightarrow> trim_start (s @ [w]) = (if trim_start s = [] then [] else trim_start s @ [w])"
  by (induction s rule: trim_start.induct) (auto simp: ws1_def ws2_def ws3_def)

lemma trim_rev_ws: "ws1 w \<Longrightarrow> trim_rev (w # s) = trim_rev s"
  by (cases s rule: trim_rev.cases) auto

lemma trim_snoc: "ws1 w \<Longrightarrow> trim (s @ [w]) = trim s"
  by (simp add: trim_def trim_end_def trim_start_snoc trim_rev_ws)

lemma ws1_newline: "ws1 nl" "ws1 (CHR 0x0D)"
  by (simp_all add: ws1_def)

lemma trim_strip: "ws1 w \<Longrightarrow> trim (strip_suffix_or s [w]) = trim s"
proof (cases "strip_suffix s [w]")
  case (Some t)
  then have "s = t @ [w]" by (simp only: strip_suffix_Some)
  with Some show "ws1 w \<Longrightarrow> ?thesis" by (simp add: strip_suffix_or_def trim_snoc)
qed (simp add: strip_suffix_or_def)

lemma trim_line_body: "trim (line_body l) = trim l"
  by (simp add: line_body_def trim_strip ws1_newline)

lemma trim_with_ending: "line_ending_ok le \<Longrightarrow> trim (s @ le) = trim s"
  using trim_snoc [OF ws1_newline(1), of s] trim_snoc [OF ws1_newline(1), of "s @ [CHR 0x0D]"] trim_snoc [OF ws1_newline(2), of s]
  by (auto simp: line_ending_ok_def)

text \<open>Every test on a line looks at the trimmed text only.\<close>

lemma line_tests:
  "header_line l \<longleftrightarrow> starts_with (trim l) ''['' \<and> ends_with (trim l) '']''"
  "files_line l \<longleftrightarrow> eq_ignore_ascii_case (trim l) ''[files]''"
  "is_nvidia_begin_marker (line_body l) \<longleftrightarrow> trim l = NVIDIA_BLOCK_BEGIN"
  "is_nvidia_end_marker (line_body l) \<longleftrightarrow> trim l = NVIDIA_BLOCK_END"
  by (simp_all add: header_line_def files_line_def is_section_header_def is_files_section_def
      is_nvidia_begin_marker_def is_nvidia_end_marker_def trim_line_body)

lemma parse_line_trim: "parse_nspawn_bind_line (line_body l) = parse_nspawn_bind_line l"
  by (simp add: parse_nspawn_bind_line_def trim_line_body)

lemma parse_line_cong: "trim l = trim l' \<Longrightarrow> parse_nspawn_bind_line l = parse_nspawn_bind_line l'"
  by (simp add: parse_nspawn_bind_line_def)

lemma same_trimmed:
  assumes "map trim a = map trim b"
  shows "in_files_after f a = in_files_after f b" and "no_markers f a = no_markers f b" and "no_conflicts ds f a = no_conflicts ds f b"
proof -
  have "list_all2 (\<lambda>x y. trim x = trim y) a b"
    using assms by (simp add: list_all2_conv_all_nth list_eq_iff_nth_eq)
  then have "in_files_after f a = in_files_after f b \<and> no_markers f a = no_markers f b \<and> no_conflicts ds f a = no_conflicts ds f b"
  proof (induction arbitrary: f rule: list_all2_induct)
    case (Cons x xs y ys)
    then show ?case using parse_line_cong [of x y] by (simp add: line_tests parse_line_trim)
  qed simp
  then show "in_files_after f a = in_files_after f b" and "no_markers f a = no_markers f b"
    and "no_conflicts ds f a = no_conflicts ds f b" by simp_all
qed

lemma terminated_with_ending:
  assumes "line_ending_ok le" and "nl \<notin> set l"
  shows "terminated (l @ le)"
  using assms(1) unfolding line_ending_ok_def
proof
  assume "le = [nl]"
  then show ?thesis unfolding terminated_def using assms(2) by (intro exI [of _ l]) simp
next
  assume "le = [CHR 0x0D, nl]"
  then show ?thesis unfolding terminated_def using assms(2) by (intro exI [of _ "l @ [CHR 0x0D]"]) simp
qed

lemma complete_lines:
  assumes "is_lines K" and le: "line_ending_ok le"
  obtains K' where "concat K' = concat K @ (if concat K \<noteq> [] \<and> \<not> ends_with (concat K) [nl] then le else [])"
    and "list_all terminated K'" and "map trim K' = map trim K"
proof (cases K rule: rev_cases)
  case Nil
  then show ?thesis by (intro that [of "[]"]) simp_all
next
  case (snoc Ks l)
  have Ks: "list_all terminated Ks" and l: "terminated l \<or> (l \<noteq> [] \<and> nl \<notin> set l)"
    using assms(1) unfolding snoc by (simp_all add: is_lines_append is_lines_Cons)
  show ?thesis
  proof (cases "terminated l")
    case True
    then have "ends_with (concat K) [nl]" unfolding snoc by (auto simp: terminated_def ends_with_iff)
    with True Ks snoc show ?thesis by (intro that [of K]) simp_all
  next
    case False
    with l have n: "l \<noteq> []" "nl \<notin> set l" by simp_all
    then have no: "\<not> ends_with (concat K) [nl]"
      unfolding snoc ends_with_iff by (auto simp: append_eq_append_conv2 append_eq_Cons_conv)
    have "terminated (l @ le)" using le n(2) by (rule terminated_with_ending)
    with Ks n no snoc show ?thesis
      by (intro that [of "Ks @ [l @ le]"]) (simp_all add: trim_with_ending [OF le])
  qed
qed

lemma is_lines_extend: "terminated l \<Longrightarrow> is_lines K \<Longrightarrow> is_lines (l # K)"
  by (simp add: is_lines_Cons)

lemma is_lines_kept: "is_lines ls \<Longrightarrow> is_lines (kept_lines new rm f ls)"
proof (induction ls arbitrary: f)
  case (Cons l ls)
  show ?case
  proof (cases "ls = []")
    case True
    with Cons.prems show ?thesis by (simp add: is_lines_def [of "[]"])
  next
    case False
    then have "terminated l" "is_lines ls" using Cons.prems by (simp_all add: is_lines_Cons)
    then show ?thesis using Cons.IH is_lines_extend by simp
  qed
qed simp

section \<open>The managed block\<close>

text \<open>
  The binds a state may hold, and the part of them that comes back from the file unchanged: reading a
  line trims it, so whitespace at the end of the last path of a bind is lost.
\<close>

definition valid_path :: "string \<Rightarrow> bool" where
  "valid_path p \<longleftrightarrow> is_absolute p \<and> printable p"

definition valid_bind :: "PassthroughBind \<Rightarrow> bool" where
  "valid_bind b \<longleftrightarrow> valid_path (host_path b) \<and> valid_path (container_path b)"

definition plain_path :: "string \<Rightarrow> bool" where
  "plain_path p \<longleftrightarrow> valid_path p \<and> trim p = p"

definition plain_bind :: "PassthroughBind \<Rightarrow> bool" where
  "plain_bind b \<longleftrightarrow> plain_path (host_path b) \<and> plain_path (container_path b)"

definition bind_text :: "PassthroughBind \<Rightarrow> string" where
  "bind_text b =
     (if host_path b = container_path b then escape_nspawn_bind_path (host_path b)
      else escape_nspawn_bind_path (host_path b) @ '':'' @ escape_nspawn_bind_path (container_path b))"

lemma block_line_eq: "block_line b = nspawn_bind_key (pt_readonly b) @ ''='' @ bind_text b"
  by (simp add: block_line_def bind_text_def nspawn_bind_key_def)

lemma valid_path_nonempty: "valid_path p \<Longrightarrow> p \<noteq> []"
  by (auto simp: valid_path_def is_absolute_def starts_with_def)

lemma plain_path_nonempty: "plain_path p \<Longrightarrow> p \<noteq> []"
  by (simp add: plain_path_def valid_path_nonempty)

lemma plain_valid: "plain_bind b \<Longrightarrow> valid_bind b"
  by (simp add: plain_bind_def plain_path_def valid_bind_def)

lemma trim_plain: "plain_path p \<Longrightarrow> trim p = p"
  by (simp add: plain_path_def)

text \<open>Trimming stops at a visible character, and escaping a path does not change what it ends in.\<close>

lemma trim_rev_stop: "visible v \<Longrightarrow> trim_rev (s @ v # r) = trim_rev (s @ [v]) @ r"
proof (induction s rule: trim_rev.induct)
  case 1
  then show ?case by (cases r rule: trim_rev.cases) (auto simp: visible_def ws1_def ws2_def ws3_def)
next
  case (2 c)
  then show ?case by (cases r) (auto simp: visible_def ws1_def ws2_def ws3_def trim_rev_visible)
next
  case (3 c b)
  then show ?case by (auto simp: visible_def ws1_def ws2_def ws3_def trim_rev_visible)
qed auto

lemma trim_end_keeps: "visible v \<Longrightarrow> trim_end (k @ v # t) = k @ trim_end (v # t)"
  using trim_rev_stop [of v "rev t" "rev k"] by (simp add: trim_end_def)

definition ends_in_ws :: "string \<Rightarrow> bool" where
  "ends_in_ws r \<longleftrightarrow> (case r of [] \<Rightarrow> False | c # s \<Rightarrow> ws1 c \<or>
     (case s of [] \<Rightarrow> False | b # u \<Rightarrow> ws2 b c \<or> (case u of [] \<Rightarrow> False | a # _ \<Rightarrow> ws3 a b c)))"

lemma trim_rev_fixed: "trim_rev r = r \<longleftrightarrow> \<not> ends_in_ws r"
proof (cases r rule: trim_rev.cases)
  case (4 c b a s)
  then show ?thesis
    using trim_rev_length [of "b # a # s"] trim_rev_length [of "a # s"] trim_rev_length [of s] by (auto simp: ends_in_ws_def)
qed (auto simp: ends_in_ws_def)

definition escape_rev :: "string \<Rightarrow> string" where
  "escape_rev r = concat (map (\<lambda>c. rev (escape_char c)) r)"

lemma rev_escape: "rev (escape_nspawn_bind_path p) = escape_rev (rev p)"
  by (simp add: escape_nspawn_bind_path_def escape_rev_def rev_concat rev_map comp_def)

lemma escape_rev_Cons:
  "escape_rev (c # r) = (if c = CHR 0x5C \<or> c = CHR '':'' then c # CHR 0x5C # escape_rev r else c # escape_rev r)" "escape_rev [] = []"
  by (simp_all add: escape_rev_def escape_char_def)

lemma ends_in_ws_escape: "\<not> ends_in_ws r \<Longrightarrow> \<not> ends_in_ws (escape_rev r @ x)" if "r \<noteq> []" "x = [] \<or> visible (hd x)"
proof (cases r rule: trim_rev.cases)
  case (2 c)
  then show "\<not> ends_in_ws r \<Longrightarrow> ?thesis" using that(2)
    by (cases x) (auto simp: ends_in_ws_def escape_rev_Cons visible_def ws1_def ws2_def ws3_def split: list.splits)
next
  case (3 c b)
  then show "\<not> ends_in_ws r \<Longrightarrow> ?thesis" using that(2)
    by (cases x) (auto simp: ends_in_ws_def escape_rev_Cons visible_def ws1_def ws2_def ws3_def split: list.splits)
next
  case (4 c b a s)
  then show "\<not> ends_in_ws r \<Longrightarrow> ?thesis"
    by (auto simp: ends_in_ws_def escape_rev_Cons ws1_def ws2_def ws3_def)
qed (use that in auto)

lemma trim_absolute: "is_absolute t \<Longrightarrow> trim t = trim_end t"
proof -
  assume "is_absolute t"
  then have "t = [] \<or> visible (hd t)" by (cases t) (auto simp: is_absolute_def starts_with_def visible_def)
  then show ?thesis by (simp add: trim_def trim_start_visible)
qed

lemma bind_text_absolute:
  assumes "valid_bind b"
  shows "is_absolute (bind_text b)" and "printable (bind_text b)"
proof -
  obtain r where "host_path b = CHR ''/'' # r"
    using assms by (cases "host_path b") (auto simp: valid_bind_def valid_path_def is_absolute_def)
  then have "escape_nspawn_bind_path (host_path b) = CHR ''/'' # escape_nspawn_bind_path r"
    by (simp add: escape_nspawn_bind_path_def escape_char_def)
  then show "is_absolute (bind_text b)" by (cases "host_path b = container_path b") (simp_all add: bind_text_def is_absolute_def starts_with_def)
  show "printable (bind_text b)" using assms by (auto simp: bind_text_def valid_bind_def valid_path_def)
qed

lemma trim_bind_text:
  assumes "plain_bind b"
  shows "trim (bind_text b) = bind_text b"
proof -
  have fixed: "trim_end (x @ escape_nspawn_bind_path p) = x @ escape_nspawn_bind_path p" if "plain_path p" "x = [] \<or> visible (last x)" for p x
  proof -
    have "trim_end p = p" using that(1) trim_absolute [of p] by (simp add: plain_path_def valid_path_def)
    then have "\<not> ends_in_ws (rev p)" by (metis trim_end_def trim_rev_fixed rev_rev_ident)
    then show ?thesis
      using ends_in_ws_escape [of "rev p" "rev x"] that plain_path_nonempty [OF that(1)]
      by (simp add: trim_end_def trim_rev_fixed [THEN iffD2] rev_escape hd_rev) (metis rev_escape rev_rev_ident)
  qed
  have "visible CHR '':''" by code_simp
  then have "trim_end (bind_text b) = bind_text b"
    using assms fixed [of "host_path b" "[]"] fixed [of "container_path b" "escape_nspawn_bind_path (host_path b) @ '':''"]
    by (auto simp: bind_text_def plain_bind_def)
  then show ?thesis using bind_text_absolute(1) [OF plain_valid [OF assms]] trim_absolute by simp
qed

lemma key_visible: "visible (CHR ''B'')" "printable ''Bind''" "printable ''BindReadOnly''" "printable ''=''"
  "trim ''Bind'' = ''Bind''" "trim ''BindReadOnly'' = ''BindReadOnly''"
  "CHR ''='' \<notin> set ''Bind''" "CHR ''='' \<notin> set ''BindReadOnly''"
  by code_simp+

lemma split_once_first: "c \<notin> set k \<Longrightarrow> split_once c (k @ c # v) = Some (k, v)"
  by (induction k) auto

lemma block_line_props:
  assumes "valid_bind b"
  shows "printable (block_line b)" and "trim (block_line b) = nspawn_bind_key (pt_readonly b) @ ''='' @ trim (bind_text b)"
    and "\<exists>t. trim (block_line b) = CHR ''B'' # t"
    and "split_once CHR ''='' (trim (block_line b)) = Some (nspawn_bind_key (pt_readonly b), trim (bind_text b))"
proof -
  note t = bind_text_absolute [OF assms]
  have "printable (''='' @ bind_text b)" using t(2) key_visible(4) by (simp only: printable_append)
  then show "printable (block_line b)"
    unfolding block_line_eq nspawn_bind_key_def printable_append using key_visible(2,3) by simp
  obtain u where u: "bind_text b = CHR ''/'' # u" using t(1) by (cases "bind_text b") (auto simp: is_absolute_def)
  have "\<exists>t. block_line b = CHR ''B'' # t" by (simp add: block_line_eq nspawn_bind_key_def)
  then have "trim (block_line b) = trim_end (block_line b)"
    using trim_start_visible [of "block_line b"] key_visible(1) by (auto simp: trim_def)
  also have "\<dots> = (nspawn_bind_key (pt_readonly b) @ ''='') @ trim_end (bind_text b)"
    using trim_end_keeps [of "CHR ''/''" "nspawn_bind_key (pt_readonly b) @ ''=''" u] by (simp add: block_line_eq u visible_def)
  finally show lt: "trim (block_line b) = nspawn_bind_key (pt_readonly b) @ ''='' @ trim (bind_text b)"
    using trim_absolute [OF t(1)] by simp
  then show "\<exists>t. trim (block_line b) = CHR ''B'' # t" by (simp add: nspawn_bind_key_def)
  show "split_once CHR ''='' (trim (block_line b)) = Some (nspawn_bind_key (pt_readonly b), trim (bind_text b))"
    using split_once_first [of "CHR ''=''" "nspawn_bind_key (pt_readonly b)" "trim (bind_text b)"] key_visible(7,8)
    by (simp add: lt nspawn_bind_key_def split: if_splits)
qed

lemma trim_block_line: "plain_bind b \<Longrightarrow> trim (block_line b) = block_line b"
  using block_line_props(2) [OF plain_valid] trim_bind_text by (simp add: block_line_eq)

text \<open>A plain bind written into the block is the bind read back.\<close>

lemma block_line_parses:
  assumes "plain_bind b"
  shows "parse_nspawn_bind_line (block_line b) = Some (from_passthrough b)"
proof -
  have paths: "trim (host_path b) = host_path b" "trim (container_path b) = container_path b" "host_path b \<noteq> []" "container_path b \<noteq> []"
    using assms trim_plain plain_path_nonempty by (auto simp: plain_bind_def)
  then have "parse_nspawn_bind_value (bind_text b) ro = Some (from_passthrough b\<lparr>nb_readonly := ro\<rparr>)" for ro
    using trim_bind_text [OF assms]
    by (auto simp: parse_nspawn_bind_value_def parse_nspawn_bind_fields_def bind_text_def bind_fields_escape
        bind_fields_escaped_end from_passthrough_def Let_def)
  then show ?thesis
    using block_line_props(4) [OF plain_valid [OF assms]] trim_block_line [OF assms] trim_bind_text [OF assms] key_visible(5,6)
    by (auto simp: parse_nspawn_bind_line_def nspawn_bind_key_def from_passthrough_def)
qed

lemma block_line_inert:
  assumes "valid_bind b" and "trim l = trim (block_line b)"
  shows "\<not> header_line l" and "\<not> is_nvidia_begin_marker (line_body l)" and "\<not> is_nvidia_end_marker (line_body l)"
    and "death_of (line_body l) = [trim (bind_text b)]"
proof -
  obtain t where t: "trim (block_line b) = CHR ''B'' # t" using block_line_props(3) [OF assms(1)] by blast
  show "\<not> header_line l" and "\<not> is_nvidia_begin_marker (line_body l)" and "\<not> is_nvidia_end_marker (line_body l)"
    using assms(2) t by (simp_all add: line_tests NVIDIA_BLOCK_BEGIN_def NVIDIA_BLOCK_END_def)
  show "death_of (line_body l) = [trim (bind_text b)]"
    using block_line_props(4) [OF assms(1)] assms(2) key_visible(5,6)
    by (auto simp: death_of_def trim_line_body nspawn_bind_key_def)
qed

lemma marker_text: "trim NVIDIA_BLOCK_BEGIN = NVIDIA_BLOCK_BEGIN" "trim NVIDIA_BLOCK_END = NVIDIA_BLOCK_END"
  "printable NVIDIA_BLOCK_BEGIN" "printable NVIDIA_BLOCK_END"
  by code_simp+

lemma marker_lines:
  "trim l = NVIDIA_BLOCK_BEGIN \<Longrightarrow> \<not> header_line l \<and> is_nvidia_begin_marker (line_body l)"
  "trim l = NVIDIA_BLOCK_END \<Longrightarrow> \<not> header_line l \<and> is_nvidia_end_marker (line_body l) \<and> \<not> is_nvidia_begin_marker (line_body l)"
  by (simp_all add: line_tests NVIDIA_BLOCK_BEGIN_def NVIDIA_BLOCK_END_def)

lemma try_fold_append: "try_fold g s (a @ b) = and_then (try_fold g s a) (\<lambda>s. try_fold g s b)"
proof (induction a arbitrary: s)
  case (Cons x a)
  then show ?case by (cases "g s x") simp_all
qed simp

lemma purge_managed:
  assumes "no_markers False L1" and "in_files_after False L1" and "no_markers True L2" and "list_all valid_bind binds"
    and "trim bl = NVIDIA_BLOCK_BEGIN" and "map trim body = map (trim \<circ> block_line) binds" and "trim el = NVIDIA_BLOCK_END"
    and "is_lines (L1 @ bl # body @ el # L2)"
  shows "purge_nvidia_block (concat (L1 @ bl # body @ el # L2)) = Inr (concat L1 @ concat L2, map (trim \<circ> bind_text) binds)"
proof -
  let ?o = "length (concat L1)"
  define st1 where "st1 = purge_start\<lparr>pg_in_files := True, pg_offset := ?o\<rparr>"
  define st2 where "st2 = st1\<lparr>pg_start := Some ?o, pg_offset := ?o + length bl\<rparr>"
  define st3 where "st3 = st2\<lparr>pg_deaths := map (trim \<circ> bind_text) binds, pg_offset := ?o + length bl + length (concat body)\<rparr>"
  define st4 where "st4 = st3\<lparr>pg_end := Some (?o + length bl + length (concat body) + length el),
    pg_offset := ?o + length bl + length (concat body) + length el\<rparr>"
  have s1: "try_fold purge_line purge_start L1 = Inr st1"
    using purge_quiet [of purge_start L1] assms(1,2) by (simp add: purge_start_def st1_def)
  have s2: "purge_line st1 bl = Inr st2"
    using marker_lines(1) [OF assms(5)] by (simp add: purge_line_def Let_def header_line_def st1_def st2_def purge_start_def)
  have inert: "list_all2 (\<lambda>l b. trim l = trim (block_line b) \<and> valid_bind b) body binds"
    using assms(4,6) by (auto simp: list_all2_conv_all_nth list_eq_iff_nth_eq list_all_length)
  then have bodies: "list_all (\<lambda>l. \<not> header_line l \<and> \<not> is_nvidia_begin_marker (line_body l) \<and> \<not> is_nvidia_end_marker (line_body l)) body \<and>
      concat (map (death_of \<circ> line_body) body) = map (trim \<circ> bind_text) binds"
    by (induction rule: list_all2_induct) (auto dest: block_line_inert)
  have s3: "try_fold purge_line st2 body = Inr st3"
    using purge_body [of body st2] bodies by (simp add: st3_def st2_def st1_def purge_start_def)
  have s4: "purge_line st3 el = Inr st4"
    using marker_lines(2) [OF assms(7)]
    by (simp add: purge_line_def Let_def header_line_def st4_def st3_def st2_def st1_def purge_start_def)
  have s5: "try_fold purge_line st4 L2 = Inr (st4\<lparr>pg_in_files := in_files_after True L2, pg_offset := pg_offset st4 + length (concat L2)\<rparr>)"
    using purge_quiet [of st4 L2] assms(3) by (simp add: st4_def st3_def st2_def st1_def purge_start_def)
  have "try_fold purge_line purge_start (L1 @ bl # body @ el # L2) =
      Inr (st4\<lparr>pg_in_files := in_files_after True L2, pg_offset := pg_offset st4 + length (concat L2)\<rparr>)"
    by (simp add: try_fold_append s1 s2 s3 s4 s5 del: and_then_eq_Inr)
  then show ?thesis
    unfolding purge_nvidia_block_def split_is_lines [OF assms(8)]
    by (simp add: st4_def st3_def st2_def st1_def del: and_then_eq_Inr)
qed

text \<open>The text around the block, written with the file's line ending.\<close>

lemma join_block: "join le (a # xs @ [z]) = concat (map (\<lambda>x. x @ le) (a # xs)) @ z"
proof (induction xs arbitrary: a)
  case (Cons x xs)
  then show ?case by simp
qed simp

text \<open>The block stands once in a files section, with the lines of the binds in it and nothing else.\<close>

definition block_written :: "string \<Rightarrow> PassthroughBind list \<Rightarrow> bool" where
  "block_written r binds \<longleftrightarrow> (\<exists>pre b body e post. split_inclusive nl r = pre @ b # body @ e # post \<and>
     in_files_after False pre \<and> no_markers False pre \<and> no_markers True post \<and>
     trim b = NVIDIA_BLOCK_BEGIN \<and> map trim body = map (trim \<circ> block_line) binds \<and> trim e = NVIDIA_BLOCK_END)"

lemma managed_text:
  assumes "line_ending_ok le" and "list_all valid_bind binds" and "list_all terminated L1" and "is_lines K2"
    and "in_files_after False L1" and "no_markers False L1" and "no_markers True K2" and "K2 = [] \<or> t = le" and "t \<in> {le, []}"
  shows "purge_nvidia_block (concat L1 @ join le ([NVIDIA_BLOCK_BEGIN] @ map block_line binds @ [NVIDIA_BLOCK_END]) @ t @ concat K2)
    = Inr (concat (L1 @ K2), map (trim \<circ> bind_text) binds)
    \<and> block_written (concat L1 @ join le ([NVIDIA_BLOCK_BEGIN] @ map block_line binds @ [NVIDIA_BLOCK_END]) @ t @ concat K2) binds"
proof -
  define bl where "bl = NVIDIA_BLOCK_BEGIN @ le"
  define body where "body = map (\<lambda>b. block_line b @ le) binds"
  define el where "el = NVIDIA_BLOCK_END @ t"
  have written: "concat L1 @ join le ([NVIDIA_BLOCK_BEGIN] @ map block_line binds @ [NVIDIA_BLOCK_END]) @ t @ concat K2
      = concat (L1 @ bl # body @ el # K2)"
    using join_block [of le NVIDIA_BLOCK_BEGIN "map block_line binds" NVIDIA_BLOCK_END]
    by (simp add: bl_def body_def el_def comp_def)
  have trims: "trim bl = NVIDIA_BLOCK_BEGIN" "trim el = NVIDIA_BLOCK_END" "map trim body = map (trim \<circ> block_line) binds"
    using assms(1,2,9) by (auto simp: bl_def body_def el_def trim_with_ending marker_text list_all_iff block_line_props)
  have ends: "terminated bl" "list_all terminated body" "terminated (NVIDIA_BLOCK_END @ le)"
    using assms(1,2) body_with_ending(3) by (auto simp: bl_def body_def list_all_iff marker_text block_line_props)
  have "NVIDIA_BLOCK_END \<noteq> []" "nl \<notin> set NVIDIA_BLOCK_END" by code_simp+
  then have "is_lines (el # K2)"
    using ends(3) assms(4,8,9) by (auto simp: is_lines_Cons el_def)
  then have "is_lines (L1 @ bl # body @ el # K2)"
    using ends(1,2) assms(3) by (simp add: is_lines_append is_lines_Cons [of bl])
  moreover from this have "block_written (concat (L1 @ bl # body @ el # K2)) binds"
    unfolding block_written_def using assms(5-7) trims split_is_lines by blast
  ultimately show ?thesis
    unfolding written using purge_managed [OF assms(6,5,7,2) trims(1,3,2)] by simp
qed

lemma kept_headers: "filter header_line (kept_lines new rm f ls) = filter header_line ls"
  by (induction ls arbitrary: f) auto

definition has_files_section :: "string list \<Rightarrow> bool" where
  "has_files_section ls \<longleftrightarrow> list_ex files_line (filter header_line ls)"

lemma no_files_section: "\<not> has_files_section ls \<longleftrightarrow> list_all (\<lambda>l. \<not> (header_line l \<and> files_line l)) ls"
  by (auto simp: has_files_section_def list_ex_iff list_all_iff)

lemma has_files_kept: "has_files_section (kept_lines new rm f ls) = has_files_section ls"
  by (simp add: has_files_section_def kept_headers)

lemma is_lines_nonempty: "is_lines K \<Longrightarrow> concat K = [] \<longleftrightarrow> K = []"
  by (cases K) (auto simp: is_lines_Cons terminated_def split: if_splits)

text \<open>The lines of a text that are not blank, without surrounding whitespace.\<close>

definition text_lines :: "string \<Rightarrow> string list" where
  "text_lines s = filter (\<lambda>l. l \<noteq> []) (map trim (split_inclusive nl s))"

definition managed_result ::
  "string \<Rightarrow> PassthroughBind list \<Rightarrow> string list \<Rightarrow> string set \<Rightarrow> string \<Rightarrow> bool" where
  "managed_result r binds K ds extra \<longleftrightarrow> (\<exists>rest. purge_nvidia_block r = Inr (rest, map (trim \<circ> bind_text) binds) \<and>
     text_lines rest = filter (\<lambda>l. l \<noteq> []) (map trim K) @ (if extra = [] then [] else [extra]) \<and>
     no_conflicts ds False (split_inclusive nl rest)) \<and> (binds \<noteq> [] \<longrightarrow> block_written r binds)"

lemma insert_block_managed:
  assumes "insertion_point K (Some n)" and "line_ending_ok le" and "list_all valid_bind binds" and "is_lines K"
    and "no_markers False K" and "no_conflicts ds False K"
  shows "managed_result (insert_block (concat K) n ([NVIDIA_BLOCK_BEGIN] @ map block_line binds @ [NVIDIA_BLOCK_END]) le pres)
    binds K ds []"
proof -
  obtain K1 K2 where K: "K = K1 @ K2" "n = length (concat K1)" "K1 \<noteq> []" "in_files_after False K1"
    using assms(1) by (auto simp: insertion_point_def)
  have lines: "is_lines K1" "is_lines K2"
    using assms(4) is_lines_terminated K(1) by (auto simp: is_lines_append is_lines_def [of "[]"] split: if_splits)
  obtain L1 where L1: "concat L1 = concat K1 @ (if concat K1 \<noteq> [] \<and> \<not> ends_with (concat K1) [nl] then le else [])"
    "list_all terminated L1" "map trim L1 = map trim K1"
    using complete_lines [OF lines(1) assms(2)] by blast
  let ?t = "if concat K2 \<noteq> [] \<or> pres then le else []"
  have parts: "no_markers False K1" "no_markers True K2" using assms(5) K(1,4) by simp_all
  have "purge_nvidia_block (concat L1 @ join le ([NVIDIA_BLOCK_BEGIN] @ map block_line binds @ [NVIDIA_BLOCK_END]) @ ?t @ concat K2)
      = Inr (concat (L1 @ K2), map (trim \<circ> bind_text) binds)
    \<and> block_written (concat L1 @ join le ([NVIDIA_BLOCK_BEGIN] @ map block_line binds @ [NVIDIA_BLOCK_END]) @ ?t @ concat K2) binds"
    using K(4) parts L1(2,3) same_trimmed(1,2) [OF L1(3), of False] is_lines_nonempty [OF lines(2)]
    by (intro managed_text [OF assms(2,3) L1(2) lines(2)]) simp_all
  moreover have "insert_block (concat K) n ([NVIDIA_BLOCK_BEGIN] @ map block_line binds @ [NVIDIA_BLOCK_END]) le pres
      = concat L1 @ join le ([NVIDIA_BLOCK_BEGIN] @ map block_line binds @ [NVIDIA_BLOCK_END]) @ ?t @ concat K2"
    using K(1,2) L1(1) by (simp add: insert_block_def Let_def del: join.simps)
  moreover have "split_inclusive nl (concat (L1 @ K2)) = L1 @ K2"
    using L1(2) lines(2) is_lines_terminated by (intro split_is_lines) (simp add: is_lines_append)
  moreover have "no_conflicts ds False (L1 @ K2)"
    using assms(6) same_trimmed(3) [of "L1 @ K2" K ds False] L1(3) K(1) by simp
  ultimately show ?thesis
    unfolding managed_result_def text_lines_def using L1(3) K(1)
    by (intro conjI impI exI [of _ "concat (L1 @ K2)"]) (simp_all del: join.simps)
qed

lemma files_header: "line_ending_ok le \<Longrightarrow> header_line (''[Files]'' @ le)" "line_ending_ok le \<Longrightarrow> files_line (''[Files]'' @ le)"
  "line_ending_ok le \<Longrightarrow> terminated (''[Files]'' @ le)" "trim ''[Files]'' = ''[Files]''"
proof -
  have t: "trim ''[Files]'' = ''[Files]''" by code_simp
  have p: "starts_with ''[Files]'' ''[''" "ends_with ''[Files]'' '']''" "eq_ignore_ascii_case ''[Files]'' ''[files]''"
    "nl \<notin> set ''[Files]''" by code_simp+
  show "trim ''[Files]'' = ''[Files]''" by (rule t)
  show "header_line (''[Files]'' @ le)" "files_line (''[Files]'' @ le)" "terminated (''[Files]'' @ le)" if "line_ending_ok le"
    using trim_with_ending [OF that, of "''[Files]''"] t p terminated_with_ending [OF that, of "''[Files]''"]
    by (simp_all only: line_tests simp_thms)
qed

lemma blank_line:
  assumes "trim l = []"
  shows "\<not> header_line l" and "no_markers f [l]" and "no_conflicts ds f [l]"
proof -
  have "parse_nspawn_bind_line [] = None" by code_simp
  moreover have "trim [] = []" by code_simp
  ultimately have "parse_nspawn_bind_line (line_body l) = None" using assms parse_line_cong [of l "[]"] by (simp add: parse_line_trim)
  moreover show "\<not> header_line l" using assms by (simp add: line_tests starts_with_def)
  ultimately show "no_markers f [l]" and "no_conflicts ds f [l]"
    using assms by (simp_all add: line_tests NVIDIA_BLOCK_BEGIN_def NVIDIA_BLOCK_END_def)
qed

lemma append_block_managed:
  assumes "\<not> has_files_section K" and le: "line_ending_ok le" and "list_all valid_bind binds" and "is_lines K"
    and "no_markers False K" and "no_conflicts ds False K"
  shows "managed_result (append_files_block (concat K) ([NVIDIA_BLOCK_BEGIN] @ map block_line binds @ [NVIDIA_BLOCK_END]) le pres)
    binds K ds ''[Files]''"
proof -
  obtain K' where K': "concat K' = concat K @ (if concat K \<noteq> [] \<and> \<not> ends_with (concat K) [nl] then le else [])"
    "list_all terminated K'" "map trim K' = map trim K"
    using complete_lines [OF assms(4) le] by blast
  have completed: "(if concat K \<noteq> [] \<and> \<not> ends_with (concat K) [nl] then concat K @ le else concat K) = concat K'"
    unfolding K'(1) by simp
  define sep where "sep = (if concat K' \<noteq> [] \<and> \<not> ends_with (concat K') (le @ le) then [le] else [])"
  define L where "L = K' @ sep @ [''[Files]'' @ le]"
  have blank: "trim le = []" using trim_with_ending [OF le, of "[]"] by (simp add: trim_def trim_end_def)
  have L: "list_all terminated L" "in_files_after False L" "no_markers False L" "no_conflicts ds False L"
    using K'(2) files_header(1-3) [OF le] blank_line [OF blank] terminated_with_ending [OF le, of "[]"]
      same_trimmed(1,2) [OF K'(3), of False] same_trimmed(3) [OF K'(3), of ds False] assms(5,6)
    by (simp_all add: L_def sep_def)
  have "purge_nvidia_block (concat L @ join le ([NVIDIA_BLOCK_BEGIN] @ map block_line binds @ [NVIDIA_BLOCK_END]) @
      (if pres then le else []) @ concat []) = Inr (concat (L @ []), map (trim \<circ> bind_text) binds)
    \<and> block_written (concat L @ join le ([NVIDIA_BLOCK_BEGIN] @ map block_line binds @ [NVIDIA_BLOCK_END]) @
      (if pres then le else []) @ concat []) binds"
    using L by (intro managed_text [OF le assms(3)]) (simp_all add: is_lines_def)
  moreover have "append_files_block (concat K) ([NVIDIA_BLOCK_BEGIN] @ map block_line binds @ [NVIDIA_BLOCK_END]) le pres
      = concat L @ join le ([NVIDIA_BLOCK_BEGIN] @ map block_line binds @ [NVIDIA_BLOCK_END]) @ (if pres then le else [])"
    unfolding append_files_block_def Let_def completed L_def sep_def by (simp del: join.simps)
  moreover have "split_inclusive nl (concat L) = L" using L(1) by (intro split_is_lines is_lines_terminated)
  moreover have "filter (\<lambda>l. l \<noteq> []) (map trim L) = filter (\<lambda>l. l \<noteq> []) (map trim K) @ [''[Files]'']"
    using K'(3) blank files_header(4) trim_with_ending [OF le, of "''[Files]''"] by (simp add: L_def sep_def)
  ultimately show ?thesis
    unfolding managed_result_def text_lines_def using L(4) by (intro conjI impI exI [of _ "concat L"]) (simp_all del: join.simps)
qed

lemma untouched_managed:
  assumes "is_lines K" and "no_markers False K" and "no_conflicts ds False K"
  shows "managed_result (concat K) [] K ds []"
proof -
  note split_eq = split_is_lines [OF assms(1)]
  have "purge_nvidia_block (concat K) = Inr (concat K, [])"
    using purge_quiet [of purge_start K] assms(2) unfolding purge_nvidia_block_def split_eq
    by (simp add: purge_start_def del: and_then_eq_Inr)
  then show ?thesis
    unfolding managed_result_def text_lines_def using assms(3) split_eq by (intro conjI exI [of _ "concat K"]) simp_all
qed

lemma written_managed:
  assumes "insertion_point K at" and "line_ending_ok le" and "list_all valid_bind binds" and "is_lines K"
    and "no_markers False K" and "no_conflicts ds False K"
  shows "managed_result
     (if binds = [] then concat K else
      case at of
        Some offset \<Rightarrow> insert_block (concat K) offset ([NVIDIA_BLOCK_BEGIN] @ map block_line binds @ [NVIDIA_BLOCK_END]) le pres
      | None \<Rightarrow> append_files_block (concat K) ([NVIDIA_BLOCK_BEGIN] @ map block_line binds @ [NVIDIA_BLOCK_END]) le pres)
     binds K ds (if binds \<noteq> [] \<and> \<not> has_files_section K then ''[Files]'' else [])"
proof (cases "binds = []")
  case True
  then show ?thesis using untouched_managed [OF assms(4-6)] by simp
next
  case binds: False
  show ?thesis
  proof (cases at)
    case None
    then have "\<not> has_files_section K" using assms(1) by (simp add: insertion_point_def no_files_section)
    then show ?thesis using append_block_managed [OF _ assms(2-6)] binds None by (simp del: join.simps)
  next
    case (Some n)
    then have "has_files_section K"
      using assms(1) no_files_header no_files_section by (fastforce simp: insertion_point_def)
    then show ?thesis using insert_block_managed [OF _ assms(2-6)] assms(1) binds Some by (simp del: join.simps)
  qed
qed

text \<open>What the purge leaves: the text itself, or the text without one block between the markers.\<close>

definition block_removed :: "string \<Rightarrow> string \<Rightarrow> bool" where
  "block_removed c clean \<longleftrightarrow> clean = c \<or>
     (\<exists>pre b mid e post. split_inclusive nl c = pre @ b # mid @ e # post \<and> clean = concat (pre @ post) \<and>
       in_files_after False pre \<and> is_nvidia_begin_marker (line_body b) \<and> list_all (\<lambda>l. \<not> header_line l) (b # mid @ [e]))"

lemma destinations: "nb_destination ` set (map from_passthrough binds) = container_path ` set binds"
  by (simp add: image_image from_passthrough_def)

lemma applied_managed:
  assumes "apply_gpu_passthrough_to_content c binds removed = Inr r" and "list_all valid_bind binds"
    and p: "purge_nvidia_block c = Inr (clean, deaths)"
    and K_def: "K = kept_lines (map from_passthrough binds) (map from_passthrough removed) False (split_inclusive nl clean)"
  shows "managed_result r binds K (container_path ` set binds)
    (if binds \<noteq> [] \<and> \<not> has_files_section K then ''[Files]'' else [])"
proof -
  let ?new = "map from_passthrough binds" and ?rm = "map from_passthrough removed"
  define st where "st = fold (edit_line ?new ?rm) (split_inclusive nl clean) edit_start"
  define at where "at = (if ed_first_open st then Some (length (ed_result st)) else ed_insert_at st)"
  define le where "le = (if contains_str clean [CHR 0x0D, nl] then [CHR 0x0D, nl] else [nl])"
  let ?blk = "[NVIDIA_BLOCK_BEGIN] @ map block_line binds @ [NVIDIA_BLOCK_END]"
  have inv: "edit_inv ?new K st" unfolding K_def st_def by (rule edit_fold_inv)
  have le: "line_ending_ok le" by (simp add: le_def line_ending_ok_def)
  have r: "ed_conflicts st = {}" "Inr r = (if binds = [] then Inr (ed_result st) else Inr (case at of
        Some offset \<Rightarrow> insert_block (ed_result st) offset ?blk le (ends_with clean [nl])
      | None \<Rightarrow> append_files_block (ed_result st) ?blk le (ends_with clean [nl])) :: NspawnError + string)"
    using assms(1) unfolding apply_gpu_passthrough_to_content_def p and_then.simps prod.case Let_def
      st_def [symmetric] at_def [symmetric] le_def [symmetric] by (simp_all split: if_splits del: join.simps)
  have K: "ed_result st = concat K" "insertion_point K at" "is_lines K" "no_markers False K" "no_conflicts (container_path ` set binds) False K"
    using inv r(1) edit_insertion [OF inv] purge_result(1) [OF p] no_markers_kept is_lines_kept is_lines_split
    unfolding edit_inv_def destinations at_def by (auto simp: K_def)
  show "managed_result r binds K (container_path ` set binds)
      (if binds \<noteq> [] \<and> \<not> has_files_section K then ''[Files]'' else [])"
    using written_managed [OF K(2) le assms(2) K(3-5), of "ends_with clean [nl]"] r(2) unfolding K(1) [symmetric]
    by (cases "binds = []") (simp_all del: join.simps)
qed

lemma applied_block:
  assumes "apply_gpu_passthrough_to_content c binds removed = Inr r" and "list_all valid_bind binds" and "binds \<noteq> []"
  shows "block_written r binds"
proof -
  obtain clean deaths where "purge_nvidia_block c = Inr (clean, deaths)"
    using assms(1) by (auto simp: apply_gpu_passthrough_to_content_def)
  from applied_managed [OF assms(1,2) this refl] assms(3) show ?thesis by (simp add: managed_result_def)
qed

text \<open>
  C9. GPU passthrough edits leave the administrator's file alone. The new binds are assumed to have absolute
  paths without control bytes, as the validation of a stored state demands. When an update succeeds, purging
  the new file yields the binds of the new state, in their order and as written, except that whitespace at
  the very end of a bind is trimmed (nothing is trimmed when no path of the state begins or ends in whitespace); what
  surrounds the block is, up to blank lines and surrounding whitespace, the old file without its managed
  block and without the lines of files sections that state exactly a new or a removed bind, in the old order,
  plus a \<open>[Files]\<close> header if the file had none; and no line outside the block binds a destination of the new
  state.
\<close>

theorem gpu_block_managed:
  assumes "apply_gpu_passthrough_to_content c binds removed = Inr r" and "list_all valid_bind binds"
  shows "\<exists>clean deaths rest. purge_nvidia_block c = Inr (clean, deaths) \<and> block_removed c clean \<and>
    purge_nvidia_block r = Inr (rest, map (trim \<circ> bind_text) binds) \<and>
    text_lines rest = filter (\<lambda>l. l \<noteq> []) (map trim (kept_lines (map from_passthrough binds) (map from_passthrough removed) False
        (split_inclusive (CHR 0x0A) clean))) @
      (if binds \<noteq> [] \<and> \<not> has_files_section (split_inclusive (CHR 0x0A) clean) then [''[Files]''] else []) \<and>
    no_conflicts (container_path ` set binds) False (split_inclusive (CHR 0x0A) rest) \<and>
    (list_all plain_bind binds \<longrightarrow> map (trim \<circ> bind_text) binds = map bind_text binds)"
proof -
  obtain clean deaths where p: "purge_nvidia_block c = Inr (clean, deaths)"
    using assms(1) by (auto simp: apply_gpu_passthrough_to_content_def)
  have plain: "list_all plain_bind binds \<longrightarrow> map (trim \<circ> bind_text) binds = map bind_text binds"
    using trim_bind_text by (simp add: list_all_iff)
  from applied_managed [OF assms p refl] show ?thesis
    using p purge_result(2) [OF p] plain unfolding managed_result_def block_removed_def has_files_kept
    by (auto split: if_splits)
qed

definition example_document :: string where
  "example_document = ''[Exec]'' @ [nl] @ ''Boot=yes'' @ [nl] @ ''[Files]'' @ [nl] @ NVIDIA_BLOCK_BEGIN @ [nl] @
     ''Bind=/dev/old'' @ [nl] @ NVIDIA_BLOCK_END @ [nl] @ ''Bind=/srv'' @ [nl]"

definition example_gpu :: "PassthroughBind list" where
  "example_gpu = [\<lparr>host_path = ''/dev/nvidia0'', container_path = ''/dev/nvidia0'', pt_readonly = False\<rparr>]"

definition example_updated :: string where
  "example_updated = ''[Exec]'' @ [nl] @ ''Boot=yes'' @ [nl] @ ''[Files]'' @ [nl] @ ''Bind=/srv'' @ [nl] @
     NVIDIA_BLOCK_BEGIN @ [nl] @ ''Bind=/dev/nvidia0'' @ [nl] @ NVIDIA_BLOCK_END @ [nl]"

theorem gpu_block_managed_witness:
  "apply_gpu_passthrough_to_content example_document example_gpu [] = Inr example_updated \<and>
   (\<exists>rest. purge_nvidia_block example_updated = Inr (rest, [''/dev/nvidia0'']) \<and>
      no_conflicts {''/dev/nvidia0''} False (split_inclusive (CHR 0x0A) rest))"
proof -
  have e: "apply_gpu_passthrough_to_content example_document example_gpu [] = Inr example_updated" by code_simp
  have p: "list_all valid_bind example_gpu" by code_simp
  have t: "map (trim \<circ> bind_text) example_gpu = [''/dev/nvidia0'']" by code_simp
  have d: "container_path ` set example_gpu = {''/dev/nvidia0''}" by (simp add: example_gpu_def)
  show ?thesis using gpu_block_managed [OF e p] e unfolding t d by blast
qed

end
