(* ===== verification/Host_Files.thy ===== *)
theory Host_Files
  imports Trusted_State
begin

text \<open>
  Locked and atomic updates of configuration files on the host (\<open>src/adapters/filesystem.rs\<close>), over an explicit
  tree of files in which any system call may fail. Other processes take part as far as locks go; between the
  calls of one operation the tree changes by that operation only.
\<close>

section \<open>The tree\<close>

text \<open>
  A path is its list of components. Paths lead through real directories: a symbolic link is followed when it
  is the last component. Numbers of \<open>EOTHER\<close> are those of Linux.
\<close>

type_synonym path = "component list"

record HostFile =
  hf_uid :: u32
  hf_mode :: u32
  hf_text :: string

datatype HostNode = FileNode HostFile | DirectoryNode | LinkNode path | SpecialNode

text \<open>
  \<open>h_faults\<close>, \<open>h_locks\<close> and \<open>h_temps\<close> script the environment: the failure of the next calls, the next attempts
  at a lock and the next names drawn for temporary files.
\<close>

record Host =
  h_nodes :: "(path \<times> HostNode) list"
  h_uid :: u32
  h_umask :: u32
  h_faults :: "nat option list"
  h_locks :: "LockAttempt list"
  h_temps :: "string list"

type_synonym 'a call = "Host \<Rightarrow> (Errno + 'a) \<times> Host"
type_synonym 'a hop = "Host \<Rightarrow> (NspawnError + 'a) \<times> Host"

definition hreturn :: "'a \<Rightarrow> 'a hop" where
  "hreturn x h = (Inr x, h)"

definition hfail :: "NspawnError \<Rightarrow> 'a hop" where
  "hfail e h = (Inl e, h)"

definition hbind :: "'a hop \<Rightarrow> ('a \<Rightarrow> 'b hop) \<Rightarrow> 'b hop" where
  "hbind m f h = (case m h of (Inl e, h') \<Rightarrow> (Inl e, h') | (Inr x, h') \<Rightarrow> f x h')"

definition hlift :: "NspawnError + 'a \<Rightarrow> 'a hop" where
  "hlift r h = (r, h)"

text \<open>The result of a call, whatever it is, decides how to go on (a \<open>match\<close> on it).\<close>

definition hmatch :: "'a call \<Rightarrow> (Errno + 'a \<Rightarrow> 'b hop) \<Rightarrow> 'b hop" where
  "hmatch m f h = (case m h of (r, h') \<Rightarrow> f r h')"

text \<open>\<open>map_err(|e| NspawnError::Io(path, e))?\<close>.\<close>

fun path_text :: "path \<Rightarrow> string" where
  "path_text (RootDir # cs) = CHR ''/'' # path_text cs"
| "path_text [] = []"
| "path_text [Normal s] = s"
| "path_text [CurDir] = ''.''"
| "path_text [ParentDir] = ''..''"
| "path_text (c # cs) = path_text [c] @ CHR ''/'' # path_text cs"

definition io :: "path \<Rightarrow> 'a call \<Rightarrow> 'a hop" where
  "io p m = hmatch m (\<lambda>r. case r of Inl e \<Rightarrow> hfail (Io (path_text p) e) | Inr x \<Rightarrow> hreturn x)"

definition node :: "Host \<Rightarrow> path \<Rightarrow> HostNode option" where
  "node h p = map_of (h_nodes h) p"

definition put_node :: "path \<Rightarrow> HostNode \<Rightarrow> Host \<Rightarrow> Host" where
  "put_node p n h = h\<lparr>h_nodes := AList.update p n (h_nodes h)\<rparr>"

definition delete_node :: "path \<Rightarrow> Host \<Rightarrow> Host" where
  "delete_node p h = h\<lparr>h_nodes := AList.delete p (h_nodes h)\<rparr>"

definition dir_exists :: "Host \<Rightarrow> path \<Rightarrow> bool" where
  "dir_exists h p \<longleftrightarrow> p = [RootDir] \<or> node h p = Some DirectoryNode"

definition parent :: "path \<Rightarrow> path option" where
  "parent p = (if p = [] \<or> last p = RootDir then None else Some (butlast p))"

section \<open>System calls\<close>

definition host_call :: "'a call \<Rightarrow> 'a call" where
  "host_call f h =
     (case h_faults h of
        Some n # fs \<Rightarrow> (Inl (EOTHER n), h\<lparr>h_faults := fs\<rparr>)
      | None # fs \<Rightarrow> f (h\<lparr>h_faults := fs\<rparr>)
      | [] \<Rightarrow> f h)"

text \<open>A path that is not there: a component before the last is no directory, or is missing.\<close>

definition lookup_error :: "Host \<Rightarrow> path \<Rightarrow> Errno" where
  "lookup_error h p =
     (if list_ex (\<lambda>k. case node h (take k p) of Some (FileNode _) \<Rightarrow> True | Some SpecialNode \<Rightarrow> True | _ \<Rightarrow> False) [1..<length p]
      then EOTHER 20 else ENOENT)"

fun resolve :: "nat \<Rightarrow> Host \<Rightarrow> path \<Rightarrow> Errno + path" where
  "resolve 0 h p = Inl ELOOP"
| "resolve (Suc k) h p = (case node h p of Some (LinkNode t) \<Rightarrow> resolve k h t | _ \<Rightarrow> Inr p)"

definition MAXSYMLINKS :: nat where
  "MAXSYMLINKS = 40"

definition found :: "Host \<Rightarrow> path \<Rightarrow> Errno + HostNode" where
  "found h p =
     (case node h p of
        Some n \<Rightarrow> Inr n
      | None \<Rightarrow> if p = [RootDir] then Inr DirectoryNode else Inl (lookup_error h p))"

definition symlink_metadata :: "path \<Rightarrow> HostNode call" where
  "symlink_metadata p = host_call (\<lambda>h. (found h p, h))"

text \<open>\<open>stat\<close>, and \<open>open\<close> for reading: both follow links.\<close>

definition follow :: "path \<Rightarrow> HostNode call" where
  "follow p = host_call (\<lambda>h. (and_then (resolve MAXSYMLINKS h p) (found h), h))"

text \<open>A call on an open descriptor that changes nothing (\<open>fstat\<close>, \<open>fsync\<close>).\<close>

definition descriptor :: "unit call" where
  "descriptor = host_call (\<lambda>h. (Inr (), h))"

text \<open>\<open>String::from_utf8\<close>.\<close>

definition byte_in :: "nat \<Rightarrow> nat \<Rightarrow> char \<Rightarrow> bool" where
  "byte_in lo hi c \<longleftrightarrow> lo \<le> byte c \<and> byte c \<le> hi"

abbreviation continuation :: "char \<Rightarrow> bool" where
  "continuation \<equiv> byte_in 128 191"

fun utf8_ok :: "string \<Rightarrow> bool" where
  "utf8_ok [] = True"
| "utf8_ok (a # s) =
     (if byte_in 0 127 a then utf8_ok s
      else case s of
        [] \<Rightarrow> False
      | b # t \<Rightarrow>
          if byte_in 194 223 a then continuation b \<and> utf8_ok t
          else case t of
            [] \<Rightarrow> False
          | c # u \<Rightarrow>
              if byte_in 224 239 a
              then byte_in (if byte a = 224 then 160 else 128) (if byte a = 237 then 159 else 191) b \<and> continuation c \<and> utf8_ok u
              else case u of
                [] \<Rightarrow> False
              | d # v \<Rightarrow>
                  byte_in 240 244 a \<and> byte_in (if byte a = 240 then 144 else 128) (if byte a = 244 then 143 else 191) b
                  \<and> continuation c \<and> continuation d \<and> utf8_ok v)"

definition from_utf8 :: "string \<Rightarrow> Errno + string" where
  "from_utf8 s = (if utf8_ok s then Inr s else Inl InvalidUtf8)"

definition read_all :: "HostNode \<Rightarrow> string call" where
  "read_all n = host_call (\<lambda>h.
     (case n of FileNode f \<Rightarrow> Inr (hf_text f) | DirectoryNode \<Rightarrow> Inl EISDIR | _ \<Rightarrow> Inl (EOTHER 6), h))"

definition mkdir :: "path \<Rightarrow> unit call" where
  "mkdir p = host_call (\<lambda>h.
     if p = [RootDir] \<or> node h p \<noteq> None then (Inl EEXIST, h)
     else if dir_exists h (butlast p) then (Inr (), put_node p DirectoryNode h)
     else (Inl (lookup_error h p), h))"

definition unlink :: "path \<Rightarrow> unit call" where
  "unlink p = host_call (\<lambda>h.
     case node h p of
       None \<Rightarrow> (Inl (lookup_error h p), h)
     | Some DirectoryNode \<Rightarrow> (Inl EISDIR, h)
     | Some _ \<Rightarrow> (Inr (), delete_node p h))"

definition below :: "path \<Rightarrow> path \<Rightarrow> bool" where
  "below p q \<longleftrightarrow> length p < length q \<and> take (length p) q = p"

definition rmdir :: "path \<Rightarrow> unit call" where
  "rmdir p = host_call (\<lambda>h.
     case node h p of
       None \<Rightarrow> (Inl (lookup_error h p), h)
     | Some DirectoryNode \<Rightarrow>
         if list_ex (below p) (map fst (h_nodes h)) then (Inl (EOTHER 39), h) else (Inr (), delete_node p h)
     | Some _ \<Rightarrow> (Inl (EOTHER 20), h))"

definition rename :: "path \<Rightarrow> path \<Rightarrow> unit call" where
  "rename old new = host_call (\<lambda>h.
     case node h old of
       None \<Rightarrow> (Inl (lookup_error h old), h)
     | Some n \<Rightarrow> if node h new = Some DirectoryNode then (Inl EISDIR, h) else (Inr (), delete_node old (put_node new n h)))"

definition set_mode :: "path \<Rightarrow> u32 \<Rightarrow> unit call" where
  "set_mode p mode = host_call (\<lambda>h.
     (Inr (), case node h p of Some (FileNode f) \<Rightarrow> put_node p (FileNode (f\<lparr>hf_mode := mode\<rparr>)) h | _ \<Rightarrow> h))"

text \<open>A write that fails may have written any part of the text before.\<close>

definition write_text :: "path \<Rightarrow> string \<Rightarrow> unit call" where
  "write_text p content h =
     (let (failed, h) = (case h_faults h of [] \<Rightarrow> (None, h) | f # fs \<Rightarrow> (f, h\<lparr>h_faults := fs\<rparr>));
          written = (case failed of None \<Rightarrow> content | Some n \<Rightarrow> take n content) in
      (case failed of None \<Rightarrow> Inr () | Some n \<Rightarrow> Inl (EOTHER n),
       case node h p of Some (FileNode f) \<Rightarrow> put_node p (FileNode (f\<lparr>hf_text := hf_text f @ written\<rparr>)) h | _ \<Rightarrow> h))"

text \<open>\<open>open\<close> with and without \<open>O_CREAT\<close>, following links; the answer is whether it is there.\<close>

definition open_lock_file :: "path \<Rightarrow> bool \<Rightarrow> unit call" where
  "open_lock_file p create = host_call (\<lambda>h.
     case resolve MAXSYMLINKS h p of
       Inl e \<Rightarrow> (Inl e, h)
     | Inr q \<Rightarrow>
         (case node h q of
            Some DirectoryNode \<Rightarrow> (Inl EISDIR, h)
          | Some _ \<Rightarrow> (Inr (), h)
          | None \<Rightarrow>
              if create \<and> dir_exists h (butlast q)
              then (Inr (), put_node q (FileNode \<lparr>hf_uid = h_uid h, hf_mode = 438 AND NOT (h_umask h), hf_text = []\<rparr>) h)
              else (Inl (lookup_error h q), h)))"

text \<open>
  \<open>tempfile_in\<close>: a new file for the owner alone; names already taken are skipped.
\<close>

definition tempfile_in :: "path \<Rightarrow> string \<Rightarrow> path call" where
  "tempfile_in dir prefix = host_call (\<lambda>h.
     if \<not> dir_exists h dir then (Inl (lookup_error h (dir @ [Normal prefix])), h)
     else
       (case dropWhile (\<lambda>t. node h (dir @ [Normal (prefix @ t @ ''.tmp'')]) \<noteq> None) (h_temps h) of
          [] \<Rightarrow> (Inl EEXIST, h)
        | t # ts \<Rightarrow>
            let p = dir @ [Normal (prefix @ t @ ''.tmp'')] in
            (Inr p, put_node p (FileNode \<lparr>hf_uid = h_uid h, hf_mode = 384, hf_text = []\<rparr>) (h\<lparr>h_temps := ts\<rparr>))))"

text \<open>\<open>create_dir_all\<close> of the standard library.\<close>

definition is_dir :: "path \<Rightarrow> Host \<Rightarrow> bool \<times> Host" where
  "is_dir p h = (case follow p h of (Inr DirectoryNode, h') \<Rightarrow> (True, h') | (_, h') \<Rightarrow> (False, h'))"

definition mkdir_or_dir :: "path \<Rightarrow> unit call" where
  "mkdir_or_dir p h =
     (case mkdir p h of
        (Inr _, h) \<Rightarrow> (Inr (), h)
      | (Inl e, h) \<Rightarrow> (case is_dir p h of (True, h) \<Rightarrow> (Inr (), h) | (False, h) \<Rightarrow> (Inl e, h)))"

fun create_dirs :: "component list \<Rightarrow> unit call" where
  "create_dirs [] h = (Inr (), h)"
| "create_dirs (c # cs) h =
     (case mkdir (rev (c # cs)) h of
        (Inr _, h) \<Rightarrow> (Inr (), h)
      | (Inl e, h) \<Rightarrow>
          if e = ENOENT
          then
            if c = RootDir then (Inl (EOTHER 0), h)
            else
              (case create_dirs cs h of
                 (Inl e, h) \<Rightarrow> (Inl e, h)
               | (Inr _, h) \<Rightarrow> mkdir_or_dir (rev (c # cs)) h)
          else (case is_dir (rev (c # cs)) h of (True, h) \<Rightarrow> (Inr (), h) | (False, h) \<Rightarrow> (Inl e, h)))"

definition create_dir_all :: "path \<Rightarrow> unit call" where
  "create_dir_all p = create_dirs (rev p)"

section \<open>The writer\<close>

definition lock_path_for :: "path \<Rightarrow> path" where
  "lock_path_for p =
     (if p = [] then p else case last p of Normal n \<Rightarrow> butlast p @ [Normal (''.'' @ n @ ''.lock'')] | _ \<Rightarrow> p)"

definition create_parent :: "path \<Rightarrow> unit hop" where
  "create_parent p = (case parent p of None \<Rightarrow> hreturn () | Some d \<Rightarrow> io d (create_dir_all d))"

definition locked_inode_is_current :: "path \<Rightarrow> unit hop" where
  "locked_inode_is_current lock_path =
     hbind (io lock_path descriptor) (\<lambda>_.
     hbind (io lock_path (symlink_metadata lock_path)) (\<lambda>n.
       case n of
         FileNode _ \<Rightarrow> hreturn ()
       | _ \<Rightarrow> hfail (ValidationError (''Lock path '' @ path_text lock_path @ '' is not a regular file''))))"

text \<open>
  The attempts at the lock are scripted, so the loop ends with the script: a contended attempt is repeated on
  the open file, a replaced file is opened again, the deadline may pass at either. The lock file is there once
  it was opened, for nobody else removes it while the script lets this process through.
\<close>

fun acquire_stable_lock_with_policy :: "LockAttempt list \<Rightarrow> bool \<Rightarrow> path \<Rightarrow> bool \<Rightarrow> bool hop" where
  "acquire_stable_lock_with_policy [] opened lock_path create =
     hmatch (if opened then (\<lambda>h. (Inr (), h)) else open_lock_file lock_path create) (\<lambda>r.
       case r of
         Inl e \<Rightarrow> if \<not> create \<and> e = ENOENT then hreturn False else hfail (Io (path_text lock_path) e)
       | Inr _ \<Rightarrow> hbind (locked_inode_is_current lock_path) (\<lambda>_. hreturn True))"
| "acquire_stable_lock_with_policy (a # as) opened lock_path create =
     (\<lambda>h. hmatch (if opened then (\<lambda>h. (Inr (), h)) else open_lock_file lock_path create) (\<lambda>r.
       case r of
         Inl e \<Rightarrow> if \<not> create \<and> e = ENOENT then hreturn False else hfail (Io (path_text lock_path) e)
       | Inr _ \<Rightarrow>
           (case a of
              Granted \<Rightarrow> hbind (locked_inode_is_current lock_path) (\<lambda>_. hreturn True)
            | TimedOut \<Rightarrow> hfail (Io (path_text lock_path) ETIMEDOUT)
            | LockFailed e \<Rightarrow> hfail (Io (path_text lock_path) e)
            | CheckFailed e \<Rightarrow> hfail (Io (path_text lock_path) e)
            | Contended \<Rightarrow> acquire_stable_lock_with_policy as True lock_path create
            | Replaced \<Rightarrow> acquire_stable_lock_with_policy as False lock_path create)) (h\<lparr>h_locks := as\<rparr>))"

definition acquire_lock :: "path \<Rightarrow> bool \<Rightarrow> bool hop" where
  "acquire_lock lock_path create h = acquire_stable_lock_with_policy (h_locks h) False lock_path create h"

definition existing_mode :: "path \<Rightarrow> u32 option hop" where
  "existing_mode p =
     hmatch (symlink_metadata p) (\<lambda>r.
       case r of
         Inr (FileNode f) \<Rightarrow> hreturn (Some (hf_mode f AND 4095))
       | Inr _ \<Rightarrow> hfail (ValidationError (''Atomic write target '' @ path_text p @ '' is not a regular file''))
       | Inl e \<Rightarrow> if e = ENOENT then hreturn None else hfail (Io (path_text p) e))"

text \<open>Opening and syncing a directory, both on a best effort.\<close>

definition sync_directory :: "path \<Rightarrow> unit hop" where
  "sync_directory p =
     hmatch (follow p) (\<lambda>r. case r of Inl _ \<Rightarrow> hreturn () | Inr _ \<Rightarrow> hmatch descriptor (\<lambda>_. hreturn ()))"

definition temp_prefix :: "path \<Rightarrow> string" where
  "temp_prefix p = (case last p of Normal n \<Rightarrow> ''.'' @ n @ ''.lasper-'' | _ \<Rightarrow> ''.lasper-'')"

definition fill_temporary :: "path \<Rightarrow> path \<Rightarrow> string \<Rightarrow> u32 \<Rightarrow> unit hop" where
  "fill_temporary temp p content mode =
     hbind (io temp (set_mode temp mode)) (\<lambda>_.
     hbind (io temp (write_text temp content)) (\<lambda>_.
     hbind (io temp descriptor) (\<lambda>_.
       io p (rename temp p))))"

text \<open>A temporary file that is dropped is removed, on a best effort.\<close>

definition drop_on_error :: "path \<Rightarrow> unit hop \<Rightarrow> unit hop" where
  "drop_on_error temp m h =
     (case m h of (Inl e, h) \<Rightarrow> (Inl e, snd (unlink temp h)) | (Inr _, h) \<Rightarrow> (Inr (), h))"

definition persist_atomic :: "path \<Rightarrow> string \<Rightarrow> u32 \<Rightarrow> unit hop" where
  "persist_atomic p content mode =
     (let dir = (case parent p of Some d \<Rightarrow> d | None \<Rightarrow> [CurDir]) in
      hbind (io dir (tempfile_in dir (temp_prefix p))) (\<lambda>temp.
      hbind (drop_on_error temp (fill_temporary temp p content mode)) (\<lambda>_.
        sync_directory dir)))"

definition write_atomic_with_mode :: "path \<Rightarrow> string \<Rightarrow> u32 option \<Rightarrow> unit hop" where
  "write_atomic_with_mode p content mode =
     hbind (create_parent p) (\<lambda>_.
     hbind (existing_mode p) (\<lambda>existing.
       persist_atomic p content (case mode of Some m \<Rightarrow> m | None \<Rightarrow> (case existing of Some m \<Rightarrow> m | None \<Rightarrow> 384))))"

text \<open>\<open>fs::read_to_string\<close>.\<close>

definition read_to_string :: "path \<Rightarrow> string call" where
  "read_to_string p h =
     (case follow p h of
        (Inl e, h) \<Rightarrow> (Inl e, h)
      | (Inr n, h) \<Rightarrow> (case read_all n h of (r, h) \<Rightarrow> (and_then r from_utf8, h)))"

text \<open>The part of \<open>apply_locked_inner\<close> that runs under the lock.\<close>

definition apply_under_lock ::
  "path \<Rightarrow> u32 option \<Rightarrow> (string option \<Rightarrow> NspawnError + string option \<times> 'a) \<Rightarrow> 'a hop" where
  "apply_under_lock p mode content_generator =
     hbind (hmatch (read_to_string p) (\<lambda>r.
       case r of
         Inr c \<Rightarrow> hreturn (Some c)
       | Inl e \<Rightarrow> if e = ENOENT then hreturn None else hfail (Io (path_text p) e))) (\<lambda>existing_content.
     hbind (hlift (content_generator existing_content)) (\<lambda>(new_content, result).
       case new_content of
         None \<Rightarrow> hreturn result
       | Some content \<Rightarrow>
           hbind (existing_mode p) (\<lambda>existing.
           hbind (persist_atomic p content (case mode of Some m \<Rightarrow> m | None \<Rightarrow> (case existing of Some m \<Rightarrow> m | None \<Rightarrow> 384))) (\<lambda>_.
           hbind (case parent p of Some d \<Rightarrow> sync_directory d | None \<Rightarrow> hreturn ()) (\<lambda>_.
             hreturn result)))))"

definition apply_locked_inner ::
  "path \<Rightarrow> u32 option \<Rightarrow> (string option \<Rightarrow> NspawnError + string option \<times> 'a) \<Rightarrow> 'a hop" where
  "apply_locked_inner p mode content_generator =
     hbind (create_parent p) (\<lambda>_.
     hbind (acquire_lock (lock_path_for p) True) (\<lambda>locked.
     if \<not> locked
     then hfail (RuntimeError (''lock path '' @ path_text (lock_path_for p) @ '' disappeared while preparing a write''))
     else apply_under_lock p mode content_generator))"

definition write_locked :: "path \<Rightarrow> (string option \<Rightarrow> NspawnError + string) \<Rightarrow> unit hop" where
  "write_locked p content_generator =
     apply_locked_inner p None (\<lambda>existing. and_then (content_generator existing) (\<lambda>content. Inr (Some content, ())))"

definition remove_lock_if_target_absent :: "path \<Rightarrow> path \<Rightarrow> bool hop" where
  "remove_lock_if_target_absent target lock_path =
     hbind (acquire_lock lock_path False) (\<lambda>locked.
     if \<not> locked then hreturn False
     else
       hmatch (symlink_metadata target) (\<lambda>r.
         case r of
           Inr _ \<Rightarrow> hreturn False
         | Inl e \<Rightarrow>
             if e = ENOENT then hbind (io lock_path (unlink lock_path)) (\<lambda>_. hreturn True)
             else hfail (Io (path_text target) e)))"

text \<open>The removal of a file that may be missing, and of a directory if it is empty.\<close>

definition remove_optional_file :: "path \<Rightarrow> unit hop" where
  "remove_optional_file p =
     hmatch (unlink p) (\<lambda>r.
       case r of
         Inr _ \<Rightarrow> hreturn ()
       | Inl e \<Rightarrow> if e = ENOENT then hreturn () else hfail (Io (path_text p) e))"

definition remove_empty_dir :: "path \<Rightarrow> unit hop" where
  "remove_empty_dir p =
     hmatch (rmdir p) (\<lambda>r.
       case r of
         Inr _ \<Rightarrow> hreturn ()
       | Inl e \<Rightarrow> if e = ENOENT \<or> e = EOTHER 39 then hreturn () else hfail (Io (path_text p) e))"

section \<open>Relations kept by an operation\<close>

text \<open>
  A relation between the tree before and after that every call respects is respected by every operation
  composed of them. The locale states what the relation has to satisfy; the rules follow the way operations are
  written.
\<close>

definition preserves :: "(Host \<Rightarrow> Host \<Rightarrow> bool) \<Rightarrow> (Host \<Rightarrow> 'a \<times> Host) \<Rightarrow> bool" where
  "preserves R m \<longleftrightarrow> (\<forall>h. R h (snd (m h)))"

lemma preservesD: "preserves R m \<Longrightarrow> m h = (r, h') \<Longrightarrow> R h h'"
  unfolding preserves_def by (metis snd_conv)

lemma node_put_node [simp]: "node (put_node p n h) = (node h)(p \<mapsto> n)"
  by (simp add: node_def put_node_def fun_eq_iff)

lemma node_delete_node [simp]: "node (delete_node p h) = (node h)(p := None)"
  by (simp add: node_def delete_node_def fun_eq_iff)

lemma node_frame [simp]:
  "node (h\<lparr>h_faults := fs\<rparr>) = node h" "node (h\<lparr>h_locks := ls\<rparr>) = node h" "node (h\<lparr>h_temps := ts\<rparr>) = node h"
  by (simp_all add: node_def fun_eq_iff)

locale host_reading =
  fixes R :: "Host \<Rightarrow> Host \<Rightarrow> bool"
  assumes reflexive: "R h h"
    and transitive: "R h h' \<Longrightarrow> R h' h'' \<Longrightarrow> R h h''"
    and script_faults: "R h (h\<lparr>h_faults := fs\<rparr>)"
    and script_locks: "R h (h\<lparr>h_locks := ls\<rparr>)"
    and script_temps: "R h (h\<lparr>h_temps := ts\<rparr>)"
begin

lemma keeps_hreturn: "preserves R (hreturn x)"
  by (simp add: preserves_def hreturn_def reflexive)

lemma keeps_hfail: "preserves R (hfail e)"
  by (simp add: preserves_def hfail_def reflexive)

lemma keeps_hlift: "preserves R (hlift r)"
  by (simp add: preserves_def hlift_def reflexive)

lemma keeps_pure: "preserves R (\<lambda>h. (r, h))"
  by (simp add: preserves_def reflexive)

lemma keeps_hbind: "preserves R m \<Longrightarrow> (\<And>x. preserves R (f x)) \<Longrightarrow> preserves R (hbind m f)"
  unfolding preserves_def hbind_def
  by (auto split: prod.splits sum.splits) (metis snd_conv, metis snd_conv transitive)

lemma keeps_hmatch: "preserves R m \<Longrightarrow> (\<And>x. preserves R (f x)) \<Longrightarrow> preserves R (hmatch m f)"
  unfolding preserves_def hmatch_def by (auto split: prod.splits) (metis snd_conv transitive)

lemma keeps_if: "(b \<Longrightarrow> preserves R m) \<Longrightarrow> (\<not> b \<Longrightarrow> preserves R m') \<Longrightarrow> preserves R (if b then m else m')"
  by simp

lemma keeps_option: "preserves R m \<Longrightarrow> (\<And>x. preserves R (f x)) \<Longrightarrow> preserves R (case y of None \<Rightarrow> m | Some x \<Rightarrow> f x)"
  by (cases y) simp_all

lemma keeps_sum: "(\<And>e. preserves R (g e)) \<Longrightarrow> (\<And>x. preserves R (f x)) \<Longrightarrow> preserves R (case y of Inl e \<Rightarrow> g e | Inr x \<Rightarrow> f x)"
  by (cases y) simp_all

lemma keeps_prod: "(\<And>a b. preserves R (f a b)) \<Longrightarrow> preserves R (case y of (a, b) \<Rightarrow> f a b)"
  by (cases y) simp_all

lemma keeps_node: "(\<And>f. preserves R (a f)) \<Longrightarrow> preserves R b \<Longrightarrow> (\<And>t. preserves R (c t)) \<Longrightarrow> preserves R d \<Longrightarrow>
    preserves R (case n of FileNode f \<Rightarrow> a f | DirectoryNode \<Rightarrow> b | LinkNode t \<Rightarrow> c t | SpecialNode \<Rightarrow> d)"
  by (cases n) simp_all

lemma keeps_io: "preserves R m \<Longrightarrow> preserves R (io p m)"
  unfolding io_def by (intro keeps_hmatch keeps_sum keeps_hfail keeps_hreturn)

lemma keeps_host_call: "preserves R f \<Longrightarrow> preserves R (host_call f)"
  unfolding preserves_def host_call_def
  by (auto split: list.splits option.splits intro: script_faults transitive [OF script_faults])

lemmas keeps_rules = keeps_hreturn keeps_hfail keeps_hlift keeps_pure keeps_hbind keeps_hmatch keeps_if keeps_option
  keeps_sum keeps_prod keeps_node keeps_io

text \<open>Calls that only look.\<close>

lemma keeps_looking: "preserves R (symlink_metadata p)" "preserves R (follow p)" "preserves R descriptor" "preserves R (read_all n)"
  unfolding symlink_metadata_def follow_def descriptor_def read_all_def
  by (intro keeps_host_call; simp add: preserves_def reflexive)+

lemma keeps_read_to_string: "preserves R (read_to_string p)"
proof -
  have "read_to_string p = (\<lambda>h. case follow p h of (Inl e, h) \<Rightarrow> (Inl e, h)
      | (Inr n, h) \<Rightarrow> (case read_all n h of (r, h) \<Rightarrow> (and_then r from_utf8, h)))"
    by (simp add: read_to_string_def fun_eq_iff)
  then show ?thesis
    using keeps_looking(2,4) transitive unfolding preserves_def
    by (auto split: prod.splits sum.splits) (metis snd_conv)+
qed

lemma keeps_is_dir: "preserves R (is_dir p)"
  using keeps_looking(2) unfolding preserves_def is_dir_def
  by (auto split: prod.splits sum.splits HostNode.splits) (metis snd_conv)+

lemma keeps_locked_inode: "preserves R (locked_inode_is_current p)"
  unfolding locked_inode_is_current_def by (intro keeps_rules keeps_looking)

lemma keeps_existing_mode: "preserves R (existing_mode p)"
  unfolding existing_mode_def by (intro keeps_rules keeps_looking)

lemma keeps_sync_directory: "preserves R (sync_directory p)"
  unfolding sync_directory_def by (intro keeps_rules keeps_looking)

text \<open>Calls that remove or replace: as far as the relation allows it.\<close>

lemma keeps_remove_optional_file: "preserves R (unlink p) \<Longrightarrow> preserves R (remove_optional_file p)"
  unfolding remove_optional_file_def by (intro keeps_rules)

lemma keeps_remove_empty_dir: "preserves R (rmdir p) \<Longrightarrow> preserves R (remove_empty_dir p)"
  unfolding remove_empty_dir_def by (intro keeps_rules)

lemma keeps_drop_on_error: "preserves R (unlink temp) \<Longrightarrow> preserves R m \<Longrightarrow> preserves R (drop_on_error temp m)"
  unfolding preserves_def drop_on_error_def by (auto split: prod.splits sum.splits) (metis snd_conv transitive)+

lemma keeps_fill:
  "preserves R (set_mode temp mode) \<Longrightarrow> preserves R (write_text temp content) \<Longrightarrow> preserves R (rename temp p) \<Longrightarrow>
   preserves R (fill_temporary temp p content mode)"
  unfolding fill_temporary_def by (intro keeps_rules keeps_looking)

text \<open>A lock that is not created changes nothing.\<close>

lemma keeps_open_existing: "preserves R (open_lock_file p False)"
  unfolding open_lock_file_def
  by (intro keeps_host_call) (auto simp: preserves_def reflexive split: sum.splits option.splits HostNode.splits)

lemma keeps_acquire:
  assumes "preserves R (open_lock_file p create)"
  shows "preserves R (acquire_stable_lock_with_policy script opened p create)"
proof (induction script arbitrary: opened)
  case Nil
  show ?case
    unfolding acquire_stable_lock_with_policy.simps by (intro keeps_rules assms keeps_locked_inode)
next
  case (Cons a as)
  let ?next = "hmatch (if opened then (\<lambda>h. (Inr (), h)) else open_lock_file p create) (\<lambda>r.
       case r of
         Inl e \<Rightarrow> if \<not> create \<and> e = ENOENT then hreturn False else hfail (Io (path_text p) e)
       | Inr _ \<Rightarrow>
           (case a of
              Granted \<Rightarrow> hbind (locked_inode_is_current p) (\<lambda>_. hreturn True)
            | TimedOut \<Rightarrow> hfail (Io (path_text p) ETIMEDOUT)
            | LockFailed e \<Rightarrow> hfail (Io (path_text p) e)
            | CheckFailed e \<Rightarrow> hfail (Io (path_text p) e)
            | Contended \<Rightarrow> acquire_stable_lock_with_policy as True p create
            | Replaced \<Rightarrow> acquire_stable_lock_with_policy as False p create))"
  have "preserves R ?next"
    by (cases a; simp only: LockAttempt.case; intro keeps_rules assms keeps_locked_inode Cons.IH)
  then show ?case
    unfolding preserves_def acquire_stable_lock_with_policy.simps using script_locks transitive by blast
qed

lemma keeps_remove_lock: "preserves R (unlink lock) \<Longrightarrow> preserves R (remove_lock_if_target_absent target lock)"
proof -
  assume "preserves R (unlink lock)"
  moreover have "preserves R (acquire_lock lock False)"
    using keeps_acquire [OF keeps_open_existing] by (simp add: preserves_def acquire_lock_def)
  ultimately show ?thesis
    unfolding remove_lock_if_target_absent_def by (intro keeps_rules keeps_looking)
qed

end

text \<open>Where the relation also admits what was not there before, directories, locks and temporary files may be made.\<close>

locale host_relation = host_reading +
  assumes new_node: "node h p = None \<Longrightarrow> R h (put_node p n h)"
begin

lemma keeps_mkdir: "preserves R (mkdir p)"
  unfolding mkdir_def by (intro keeps_host_call) (auto simp: preserves_def reflexive intro: new_node)

lemma keeps_mkdir_or_dir: "preserves R (mkdir_or_dir p)"
  using keeps_mkdir [of p] keeps_is_dir [of p] unfolding preserves_def mkdir_or_dir_def
  by (auto split: prod.splits sum.splits bool.splits) (metis snd_conv transitive)+

lemma keeps_create_dirs: "R h (snd (create_dirs cs h))"
proof (induction cs arbitrary: h)
  case (Cons c cs)
  obtain r h1 where m: "mkdir (rev (c # cs)) h = (r, h1)" by fastforce
  have step: "R h h1" using preservesD [OF keeps_mkdir m] .
  have dir: "R h1 (snd (is_dir (rev (c # cs)) h1))" and again: "R h2 (snd (mkdir_or_dir (rev (c # cs)) h2))" for h2
    using keeps_is_dir keeps_mkdir_or_dir by (simp_all add: preserves_def)
  obtain r2 h2 where rec: "create_dirs cs h1 = (r2, h2)" by fastforce
  have "R h h2" using transitive [OF step Cons.IH [of h1]] rec by simp
  then show ?case
    using m step rec transitive [OF step dir] transitive [OF _ again [of h2], of h]
    by (auto split: sum.splits prod.splits bool.splits)
qed (simp add: reflexive)

lemma keeps_create_dir_all: "preserves R (create_dir_all p)"
  by (simp add: preserves_def create_dir_all_def keeps_create_dirs)

lemma keeps_create_parent: "preserves R (create_parent p)"
  unfolding create_parent_def by (intro keeps_rules keeps_create_dir_all)

lemma keeps_open_lock_file: "preserves R (open_lock_file p create)"
  unfolding open_lock_file_def
  by (intro keeps_host_call) (auto simp: preserves_def reflexive split: sum.splits option.splits HostNode.splits intro: new_node)

lemma keeps_acquire_lock: "preserves R (acquire_lock p create)"
  using keeps_acquire [OF keeps_open_lock_file] by (simp add: preserves_def acquire_lock_def)

lemma keeps_tempfile_in: "preserves R (tempfile_in dir prefix)"
  unfolding tempfile_in_def
proof (intro keeps_host_call)
  have "R h (put_node p n (h\<lparr>h_temps := ts\<rparr>))" if "node h p = None" for h p n ts
    using that transitive [OF script_temps [of h ts] new_node [of "h\<lparr>h_temps := ts\<rparr>" p n]] by simp
  then show "preserves R (\<lambda>h. if \<not> dir_exists h dir then (Inl (lookup_error h (dir @ [Normal prefix])), h)
     else case dropWhile (\<lambda>t. node h (dir @ [Normal (prefix @ t @ ''.tmp'')]) \<noteq> None) (h_temps h) of
          [] \<Rightarrow> (Inl EEXIST, h)
        | t # ts \<Rightarrow>
            let p = dir @ [Normal (prefix @ t @ ''.tmp'')] in
            (Inr p, put_node p (FileNode \<lparr>hf_uid = h_uid h, hf_mode = 384, hf_text = []\<rparr>) (h\<lparr>h_temps := ts\<rparr>)))"
    by (auto simp: preserves_def reflexive Let_def dropWhile_eq_Cons_conv split: list.splits)
qed

lemma keeps_write_atomic: "(\<And>m. preserves R (persist_atomic p content m)) \<Longrightarrow> preserves R (write_atomic_with_mode p content mode)"
  unfolding write_atomic_with_mode_def by (intro keeps_rules keeps_create_parent keeps_existing_mode)

lemma keeps_apply_under_lock:
  "(\<And>content m. preserves R (persist_atomic p content m)) \<Longrightarrow> preserves R (apply_under_lock p mode generator)"
  unfolding apply_under_lock_def
  by (intro keeps_rules keeps_read_to_string keeps_existing_mode keeps_sync_directory)

lemma keeps_apply_locked:
  "(\<And>content m. preserves R (persist_atomic p content m)) \<Longrightarrow> preserves R (apply_locked_inner p mode generator)"
  unfolding apply_locked_inner_def
  by (intro keeps_rules keeps_create_parent keeps_acquire_lock keeps_apply_under_lock)

end

section \<open>What stays where it is\<close>

text \<open>What is at a path stays there, and the process keeps its identity.\<close>

definition stays :: "path \<Rightarrow> Host \<Rightarrow> Host \<Rightarrow> bool" where
  "stays p h h' \<longleftrightarrow> (\<forall>n. node h p = Some n \<longrightarrow> node h' p = Some n)"

definition same_process :: "Host \<Rightarrow> Host \<Rightarrow> bool" where
  "same_process h h' \<longleftrightarrow> h_uid h' = h_uid h \<and> h_umask h' = h_umask h"

interpretation stays: host_relation "stays p" for p
  by unfold_locales (auto simp: stays_def)

interpretation process: host_relation same_process
  by unfold_locales (auto simp: same_process_def put_node_def)

lemma process_calls:
  "preserves same_process (unlink q)" "preserves same_process (rmdir q)" "preserves same_process (rename q q')"
  "preserves same_process (set_mode q m)" "preserves same_process (write_text q c)"
  unfolding unlink_def rmdir_def rename_def set_mode_def
  by ((intro process.keeps_host_call)?;
      auto simp: preserves_def same_process_def delete_node_def put_node_def write_text_def Let_def
        split: option.splits HostNode.splits list.splits)+

lemma stays_calls:
  "p \<noteq> q \<Longrightarrow> preserves (stays p) (unlink q)" "p \<noteq> q \<Longrightarrow> preserves (stays p) (rmdir q)"
  "p \<noteq> q \<Longrightarrow> p \<noteq> q' \<Longrightarrow> preserves (stays p) (rename q q')"
  "p \<noteq> q \<Longrightarrow> preserves (stays p) (set_mode q m)" "p \<noteq> q \<Longrightarrow> preserves (stays p) (write_text q c)"
  unfolding unlink_def rmdir_def rename_def set_mode_def
  by ((intro stays.keeps_host_call)?;
      auto simp: preserves_def stays_def write_text_def Let_def split: option.splits HostNode.splits list.splits)+

text \<open>A temporary file is new, so what was there before is out of its reach.\<close>

lemma tempfile_fresh:
  assumes "tempfile_in dir prefix h = (Inr t, h')"
  shows "node h t = None" and "node h' = (node h)(t \<mapsto> FileNode \<lparr>hf_uid = h_uid h, hf_mode = 384, hf_text = []\<rparr>)"
    and "\<exists>s. t = dir @ [Normal (prefix @ s)]"
  using assms
  by (auto simp: tempfile_in_def host_call_def Let_def dropWhile_eq_Cons_conv split: list.splits option.splits if_splits)

lemma hbindE:
  assumes "hbind m f h = (r, h')"
  obtains (Error) e where "m h = (Inl e, h')" "r = Inl e" | (Next) x h1 where "m h = (Inr x, h1)" "f x h1 = (r, h')"
  using assms by (auto simp: hbind_def split: prod.splits sum.splits)

lemma hmatchE:
  assumes "hmatch m f h = (r, h')"
  obtains x h1 where "m h = (x, h1)" "f x h1 = (r, h')"
  using assms by (auto simp: hmatch_def split: prod.splits)

lemma ioE:
  assumes "io p m h = (r, h')"
  obtains (Error) e where "m h = (Inl e, h')" "r = Inl (Io (path_text p) e)" | (Value) x where "m h = (Inr x, h')" "r = Inr x"
  using assms by (auto simp: io_def hmatch_def hfail_def hreturn_def split: prod.splits sum.splits)

lemma stays_persist: "p \<noteq> q \<Longrightarrow> preserves (stays p) (persist_atomic q content m)"
  unfolding preserves_def
proof
  fix h
  assume pq: "p \<noteq> q"
  obtain r h' where run: "persist_atomic q content m h = (r, h')" by fastforce
  from run [unfolded persist_atomic_def Let_def] have "stays p h h'"
  proof (cases rule: hbindE)
    case (Error e)
    then show ?thesis using preservesD [OF stays.keeps_io [OF stays.keeps_tempfile_in]] by blast
  next
    case (Next t h1)
    from Next(1) have fresh: "node h t = None" and one: "stays p h h1"
      using preservesD [OF stays.keeps_tempfile_in] by (auto elim: ioE dest: tempfile_fresh(1))
    have "stays p h1 h'" if "p \<noteq> t"
    proof -
      have "preserves (stays p) (hbind (drop_on_error t (fill_temporary t q content m)) (\<lambda>_.
          sync_directory (case parent q of None \<Rightarrow> [CurDir] | Some d \<Rightarrow> d)))"
        using that pq
        by (intro stays.keeps_hbind stays.keeps_drop_on_error stays.keeps_fill stays_calls stays.keeps_sync_directory) auto
      then show ?thesis using Next(2) by (rule preservesD)
    qed
    with fresh one show ?thesis by (cases "p = t") (auto simp: stays_def)
  qed
  then show "stays p h (snd (persist_atomic q content m h))" by (simp add: run)
qed

lemma process_persist: "preserves same_process (persist_atomic q content m)"
  unfolding persist_atomic_def Let_def
  by (intro process.keeps_hbind process.keeps_io process.keeps_drop_on_error process.keeps_fill process_calls
      process.keeps_tempfile_in process.keeps_sync_directory)

section \<open>What an update leaves\<close>

lemma host_callE:
  assumes "host_call f h = (r, h')"
  obtains (Fault) e where "r = Inl (EOTHER e)" "node h' = node h" "same_process h h'"
    | (Done) h0 where "f h0 = (r, h')" "node h0 = node h" "same_process h h0"
  using assms by (auto simp: host_call_def same_process_def split: list.splits option.splits)

lemma set_mode_result:
  assumes "set_mode t m h = (r, h')" and "node h t = Some (FileNode f)"
  shows "r = Inr () \<and> node h' = (node h)(t \<mapsto> FileNode (f\<lparr>hf_mode := m\<rparr>)) \<or> (\<exists>e. r = Inl e) \<and> node h' = node h"
  using assms(1) [unfolded set_mode_def] assms(2) by (cases rule: host_callE) auto

lemma write_text_result:
  assumes "write_text t c h = (r, h')" and "node h t = Some (FileNode f)"
  shows "\<exists>x. node h' = (node h)(t \<mapsto> FileNode x) \<and> (r = Inr () \<and> x = f\<lparr>hf_text := hf_text f @ c\<rparr> \<or> (\<exists>e. r = Inl e))"
  using assms by (auto simp: write_text_def Let_def split: list.splits option.splits)

lemma descriptor_result: "descriptor h = (r, h') \<Longrightarrow> node h' = node h"
  unfolding descriptor_def by (auto elim: host_callE)

lemma looking_result: "symlink_metadata p h = (r, h') \<Longrightarrow> node h' = node h" "follow p h = (r', h') \<Longrightarrow> node h' = node h"
  "read_all n h = (r'', h') \<Longrightarrow> node h' = node h"
  unfolding symlink_metadata_def follow_def read_all_def by (auto elim!: host_callE)

lemma rename_result:
  assumes "rename t p h = (r, h')" and "node h t = Some n"
  shows "r = Inr () \<and> node h' = ((node h)(p \<mapsto> n))(t := None) \<or> (\<exists>e. r = Inl e) \<and> node h' = node h"
  using assms(1) [unfolded rename_def] assms(2) by (cases rule: host_callE) (auto split: if_splits)

lemma unlink_result: "unlink t h = (r, h') \<Longrightarrow> p \<noteq> t \<Longrightarrow> node h' p = node h p"
  unfolding unlink_def by (erule host_callE) (auto split: option.splits HostNode.splits)

lemma sync_result: "sync_directory d h = (r, h') \<Longrightarrow> r = Inr () \<and> node h' = node h"
  unfolding sync_directory_def
  by (auto elim!: hmatchE simp: hreturn_def split: sum.splits dest!: looking_result descriptor_result)

lemma fill_outcome:
  assumes "fill_temporary t p c m h = (r, h')" and "node h t = Some (FileNode f)" and "p \<noteq> t"
  shows "r = Inr () \<and> node h' p = Some (FileNode (f\<lparr>hf_mode := m, hf_text := hf_text f @ c\<rparr>)) \<or> (\<exists>e. r = Inl e) \<and> node h' p = node h p"
  using assms(1) [unfolded fill_temporary_def]
proof (cases rule: hbindE)
  case (Error e)
  then show ?thesis by (auto elim!: ioE dest!: set_mode_result [OF _ assms(2)])
next
  case (Next x h1)
  then have n1: "node h1 = (node h)(t \<mapsto> FileNode (f\<lparr>hf_mode := m\<rparr>))"
    by (auto elim!: ioE dest!: set_mode_result [OF _ assms(2)])
  then have t1: "node h1 t = Some (FileNode (f\<lparr>hf_mode := m\<rparr>))" by simp
  from Next(2) show ?thesis
  proof (cases rule: hbindE)
    case (Error e)
    then show ?thesis using n1 assms(3) by (auto elim!: ioE dest!: write_text_result [OF _ t1])
  next
    case (Next y h2)
    then have n2: "node h2 = (node h1)(t \<mapsto> FileNode (f\<lparr>hf_mode := m, hf_text := hf_text f @ c\<rparr>))"
      by (auto elim!: ioE dest!: write_text_result [OF _ t1])
    from Next(2) show ?thesis
    proof (cases rule: hbindE)
      case (Error e)
      then show ?thesis using n1 n2 assms(3) by (auto elim!: ioE dest: descriptor_result)
    next
      case (Next z h3)
      then have "node h3 = node h2" by (auto elim!: ioE dest: descriptor_result)
      then have t3: "node h3 t = Some (FileNode (f\<lparr>hf_mode := m, hf_text := hf_text f @ c\<rparr>))" and p3: "node h3 p = node h p"
        using n1 n2 assms(3) by simp_all
      show ?thesis using Next(2) p3 assms(3) by (auto elim!: ioE dest!: rename_result [OF _ t3])
    qed
  qed
qed

text \<open>An atomic write puts the whole new file in place, or leaves the target as it was.\<close>

definition written_file :: "Host \<Rightarrow> u32 \<Rightarrow> string \<Rightarrow> HostNode" where
  "written_file h mode content = FileNode \<lparr>hf_uid = h_uid h, hf_mode = mode, hf_text = content\<rparr>"

lemma persist_outcome:
  assumes "persist_atomic p c m h = (r, h')" and "p \<noteq> []" and "last p = Normal n"
  shows "r = Inr () \<and> node h' p = Some (written_file h m c) \<or> (\<exists>e. r = Inl e) \<and> node h' p = node h p"
proof -
  have par: "(case parent p of Some d \<Rightarrow> d | None \<Rightarrow> [CurDir]) = butlast p" using assms(2,3) by (simp add: parent_def)
  from assms(1) [unfolded persist_atomic_def Let_def par] show ?thesis
  proof (cases rule: hbindE)
    case (Error e)
    have "node h' p = node h p" if "tempfile_in (butlast p) (temp_prefix p) h = (Inl e', h')" for e'
      using that unfolding tempfile_in_def by (auto elim!: host_callE simp: Let_def split: list.splits if_splits)
    with Error show ?thesis by (auto elim!: ioE)
  next
    case (Next t h1)
    then have temp: "tempfile_in (butlast p) (temp_prefix p) h = (Inr t, h1)" by (auto elim: ioE)
    have "t \<noteq> p"
    proof
      assume "t = p"
      then obtain s where "p = butlast p @ [Normal (temp_prefix p @ s)]"
        using tempfile_fresh(3) [OF temp] by metis
      then have "n = temp_prefix p @ s" using assms(3) by (metis component.inject last_snoc)
      then have "length n = length (temp_prefix p) + length s" by (metis length_append)
      moreover have "length (temp_prefix p) = length n + 9" using assms(3) by (simp add: temp_prefix_def)
      ultimately show False by simp
    qed
    have n1: "node h1 = (node h)(t \<mapsto> FileNode \<lparr>hf_uid = h_uid h, hf_mode = 384, hf_text = []\<rparr>)" using tempfile_fresh(2) [OF temp] .
    obtain r2 h2 where fill: "fill_temporary t p c m h1 = (r2, h2)" by fastforce
    have t1: "node h1 t = Some (FileNode \<lparr>hf_uid = h_uid h, hf_mode = 384, hf_text = []\<rparr>)" using n1 by simp
    have two: "r2 = Inr () \<and> node h2 p = Some (written_file h m c) \<or> (\<exists>e. r2 = Inl e) \<and> node h2 p = node h p"
      using fill_outcome [OF fill t1] n1 \<open>t \<noteq> p\<close> by (auto simp: written_file_def)
    from Next(2) show ?thesis
    proof (cases rule: hbindE)
      case (Error e)
      then show ?thesis using two fill \<open>t \<noteq> p\<close> unlink_result [of t h2 _ _ p]
        by (cases "unlink t h2") (auto simp: drop_on_error_def split: sum.splits)
    next
      case (Next y h3)
      then have "h3 = h2" "r2 = Inr ()" using fill by (auto simp: drop_on_error_def split: sum.splits)
      then show ?thesis using Next(2) two sync_result by fastforce
    qed
  qed
qed

lemma read_result:
  assumes "read_to_string p h = (r, h')"
  shows "node h' = node h" and "node h p = Some (FileNode f) \<Longrightarrow> r = Inr (hf_text f) \<or> (\<exists>e. r = Inl e \<and> e \<noteq> ENOENT)"
    and "node h p = None \<Longrightarrow> p \<noteq> [RootDir] \<Longrightarrow> \<exists>e. r = Inl e"
proof -
  have res: "node h p = Some (FileNode f) \<Longrightarrow> resolve MAXSYMLINKS h0 p = Inr p" if "node h0 = node h" for h0
    using that by (simp add: MAXSYMLINKS_def numeral_eq_Suc)
  show "node h' = node h"
    using assms unfolding read_to_string_def
    by (auto split: prod.splits sum.splits dest!: looking_result)
  show "node h p = Some (FileNode f) \<Longrightarrow> r = Inr (hf_text f) \<or> (\<exists>e. r = Inl e \<and> e \<noteq> ENOENT)"
    using assms res unfolding read_to_string_def follow_def read_all_def
    by (auto split: prod.splits sum.splits elim!: host_callE simp: found_def from_utf8_def
        simp del: and_then_eq_Inr split: if_splits)
  have "node h p = None \<Longrightarrow> resolve MAXSYMLINKS h0 p = Inr p" if "node h0 = node h" for h0
    using that by (simp add: MAXSYMLINKS_def numeral_eq_Suc)
  then show "node h p = None \<Longrightarrow> p \<noteq> [RootDir] \<Longrightarrow> \<exists>e. r = Inl e"
    using assms unfolding read_to_string_def follow_def
    by (auto split: prod.splits sum.splits elim!: host_callE simp: found_def)
qed

definition final_mode :: "u32 option \<Rightarrow> Host \<Rightarrow> path \<Rightarrow> u32" where
  "final_mode mode h p =
     (case mode of Some m \<Rightarrow> m | None \<Rightarrow> (case node h p of Some (FileNode f) \<Rightarrow> hf_mode f AND 4095 | _ \<Rightarrow> 384))"

lemma final_mode_Some [simp]: "final_mode (Some m) h p = m"
  by (simp add: final_mode_def)

lemma same_write:
  "node h1 p = node h p \<Longrightarrow> final_mode mode h1 p = final_mode mode h p"
  "same_process h h1 \<Longrightarrow> written_file h1 = written_file h"
  by (cases mode) (simp_all add: final_mode_def fun_eq_iff written_file_def same_process_def)

lemma existing_mode_result:
  assumes "existing_mode p h = (Inr em, h')"
  shows "node h' = node h" and "node h p = None \<or> (\<exists>f. node h p = Some (FileNode f))"
    and "p \<noteq> [RootDir] \<Longrightarrow> (case mode of Some m \<Rightarrow> m | None \<Rightarrow> (case em of Some m \<Rightarrow> m | None \<Rightarrow> 384)) = final_mode mode h p"
  using assms unfolding existing_mode_def symlink_metadata_def
  by (auto elim!: hmatchE host_callE simp: hreturn_def hfail_def found_def lookup_error_def final_mode_def
      split: sum.splits HostNode.splits if_splits option.splits)

text \<open>The text an update starts from.\<close>

definition text_at :: "Host \<Rightarrow> path \<Rightarrow> string option" where
  "text_at h p = (case node h p of Some (FileNode f) \<Rightarrow> Some (hf_text f) | _ \<Rightarrow> None)"

definition plain_target :: "Host \<Rightarrow> path \<Rightarrow> bool" where
  "plain_target h p \<longleftrightarrow> node h p = None \<or> (\<exists>f. node h p = Some (FileNode f))"

lemma write_back_outcome:
  assumes "hbind (existing_mode p) (\<lambda>em. hbind (persist_atomic p c (case mode of Some m \<Rightarrow> m | None \<Rightarrow> (case em of Some m \<Rightarrow> m | None \<Rightarrow> 384)))
      (\<lambda>_. hbind (case parent p of Some d \<Rightarrow> sync_directory d | None \<Rightarrow> hreturn ()) (\<lambda>_. hreturn x))) h = (r, h')"
    and "p \<noteq> []" and "last p = Normal n"
  shows "(\<exists>e. r = Inl e) \<and> node h' p = node h p \<or>
    r = Inr x \<and> plain_target h p \<and> node h' p = Some (written_file h (final_mode mode h p) c)"
  using assms(1)
proof (cases rule: hbindE)
  case (Error e)
  then have "node h' = node h" unfolding existing_mode_def
    by (auto elim!: hmatchE simp: hreturn_def hfail_def split: sum.splits HostNode.splits if_splits dest!: looking_result)
  then show ?thesis using Error by simp
next
  case (Next em h3)
  note em = existing_mode_result [OF Next(1)]
  have s3: "same_process h h3" using Next(1) by (rule preservesD [OF process.keeps_existing_mode])
  from Next(2) show ?thesis
  proof (cases rule: hbindE)
    case (Error e)
    then show ?thesis using persist_outcome [OF Error(1) assms(2,3)] em(1) by auto
  next
    case (Next u h4)
    have "p \<noteq> [RootDir]" using assms(2,3) by auto
    then have n4: "node h4 p = Some (written_file h (final_mode mode h p) c)"
      using persist_outcome [OF Next(1) assms(2,3)] s3 em(3) [of mode] by (auto simp: written_file_def same_process_def)
    have "node h' = node h4" "r = Inr x"
      using Next(2) assms(2,3) by (auto elim!: hbindE simp: parent_def hreturn_def dest!: sync_result)
    then show ?thesis using n4 em(2) by (auto simp: plain_target_def)
  qed
qed

lemma under_lock_outcome:
  assumes "apply_under_lock p mode gen h = (r, h')" and "p \<noteq> []" and "last p = Normal n"
  shows "node h' p = node h p \<and> (\<forall>x. r = Inr x \<longrightarrow> (\<exists>e. gen e = Inr (None, x)) \<and> (plain_target h p \<longrightarrow> gen (text_at h p) = Inr (None, x))) \<or>
    (\<exists>c x. gen (text_at h p) = Inr (Some c, x) \<and> r = Inr x \<and> plain_target h p \<and>
      node h' p = Some (written_file h (final_mode mode h p) c))"
  using assms(1) [unfolded apply_under_lock_def]
proof (cases rule: hbindE)
  case (Error e)
  then show ?thesis by (auto elim!: hmatchE simp: hreturn_def hfail_def split: sum.splits if_splits dest!: read_result(1))
next
  case (Next existing h1)
  from Next(1) obtain rr where rd: "read_to_string p h = (rr, h1)"
    and rv: "rr = Inl ENOENT \<and> existing = None \<or> (\<exists>c. rr = Inr c \<and> existing = Some c)"
    by (auto elim!: hmatchE simp: hreturn_def hfail_def split: sum.splits if_splits)
  have "p \<noteq> [RootDir]" using assms(2,3) by auto
  then have ex: "existing = text_at h p" if "plain_target h p"
    using that read_result(2,3) [OF rd] rv by (fastforce simp: plain_target_def text_at_def)
  have n1: "node h1 = node h" by (rule read_result(1) [OF rd])
  have s1: "same_process h h1" using rd by (rule preservesD [OF process.keeps_read_to_string])
  from Next(2) show ?thesis
  proof (cases rule: hbindE)
    case (Error e)
    then show ?thesis using n1 by (auto simp: hlift_def)
  next
    case (Next y h2)
    obtain cn x where y: "y = (cn, x)" by fastforce
    have g: "gen existing = Inr (cn, x)" and h2: "h2 = h1" using Next(1) y by (auto simp: hlift_def)
    show ?thesis
    proof (cases cn)
      case None
      then show ?thesis using Next(2) y g h2 n1 ex by (auto simp: hreturn_def)
    next
      case (Some c)
      then have "(\<exists>e. r = Inl e) \<and> node h' p = node h1 p \<or> r = Inr x \<and> plain_target h1 p \<and>
          node h' p = Some (written_file h1 (final_mode mode h1 p) c)"
        using Next(2) y h2 by (intro write_back_outcome [OF _ assms(2,3)]) simp
      then show ?thesis
        using g Some n1 ex same_write(1) [of h1 p h mode] same_write(2) [OF s1] by (auto simp: plain_target_def)
    qed
  qed
qed

text \<open>Getting there: the directories above the target and the lock beside it.\<close>

lemma mkdir_result: "mkdir q h = (r, h') \<Longrightarrow> p \<noteq> q \<Longrightarrow> node h' p = node h p"
  unfolding mkdir_def by (erule host_callE) (auto split: if_splits)

lemma is_dir_result: "is_dir q h = (b, h') \<Longrightarrow> node h' = node h"
  unfolding is_dir_def by (auto split: prod.splits sum.splits HostNode.splits dest!: looking_result)

lemma mkdir_or_dir_result: "mkdir_or_dir q h = (r, h') \<Longrightarrow> p \<noteq> q \<Longrightarrow> node h' p = node h p"
  unfolding mkdir_or_dir_def
  by (auto split: prod.splits sum.splits bool.splits dest!: is_dir_result dest: mkdir_result)

lemma create_dirs_result: "create_dirs cs h = (r, h') \<Longrightarrow> length cs < length p \<Longrightarrow> node h' p = node h p"
proof (induction cs arbitrary: h r h')
  case (Cons c cs)
  obtain r1 h1 where m: "mkdir (rev (c # cs)) h = (r1, h1)" by fastforce
  have ne: "p \<noteq> rev (c # cs)" using Cons.prems(2) by auto
  have n1: "node h1 p = node h p" using mkdir_result [OF m ne] .
  obtain r2 h2 where rec: "create_dirs cs h1 = (r2, h2)" by fastforce
  have n2: "node h2 p = node h1 p" using Cons.IH [OF rec] Cons.prems(2) by simp
  show ?case
    using Cons.prems(1) m rec n1 n2 mkdir_or_dir_result [OF _ ne, of h2]
    by (auto split: sum.splits prod.splits bool.splits if_splits dest!: is_dir_result)
qed simp

lemma create_dir_all_result: "create_dir_all d h = (r, h') \<Longrightarrow> length d < length p \<Longrightarrow> node h' p = node h p"
  unfolding create_dir_all_def using create_dirs_result [of "rev d" h r h' p] by simp

lemma create_parent_result: "create_parent p h = (r, h') \<Longrightarrow> p \<noteq> [] \<Longrightarrow> node h' p = node h p"
  using create_dir_all_result [of "butlast p" h _ h' p] unfolding create_parent_def
  by (auto simp: parent_def hreturn_def elim!: ioE split: if_splits)

lemma locked_inode_result:
  assumes "locked_inode_is_current l h = (r, h')"
  shows "node h' = node h" and "r = Inr u \<Longrightarrow> l \<noteq> [RootDir] \<Longrightarrow> \<exists>f. node h l = Some (FileNode f)"
  using assms unfolding locked_inode_is_current_def symlink_metadata_def
  by (auto elim!: hbindE ioE host_callE simp: hreturn_def hfail_def found_def dest!: descriptor_result
      split: HostNode.splits option.splits if_splits)

lemma locked_inode_grants:
  "locked_inode_is_current l h = (Inr u, h') \<Longrightarrow> l \<noteq> [RootDir] \<Longrightarrow> \<exists>f. node h' l = Some (FileNode f)"
  by (metis locked_inode_result)

definition lock_link :: "Host \<Rightarrow> path \<Rightarrow> bool" where
  "lock_link h l \<longleftrightarrow> (\<exists>t. node h l = Some (LinkNode t))"

lemma open_lock_result:
  assumes "open_lock_file l create h = (r, h')" and "\<not> lock_link h l" and "p \<noteq> l"
  shows "node h' p = node h p" and "\<not> lock_link h' l"
proof -
  have res: "resolve MAXSYMLINKS h0 l = Inr l" if "node h0 = node h" for h0
    using that assms(2) by (auto simp: MAXSYMLINKS_def numeral_eq_Suc lock_link_def split: option.splits HostNode.splits)
  show "node h' p = node h p" and "\<not> lock_link h' l"
    using assms(1) [unfolded open_lock_file_def] assms(2,3) res
    by (auto elim!: host_callE simp: lock_link_def split: option.splits HostNode.splits if_splits)
qed

lemma acquire_result:
  assumes "acquire_stable_lock_with_policy script opened l create h = (r, h')" and "\<not> lock_link h l" and "p \<noteq> l"
  shows "node h' p = node h p"
  using assms(1,2)
proof (induction script arbitrary: opened h)
  case Nil
  obtain r1 h1 where o: "(if opened then (\<lambda>h. (Inr (), h)) else open_lock_file l create) h = (r1, h1)" by fastforce
  then have "node h1 p = node h p" using open_lock_result [OF _ Nil.prems(2) assms(3)] by (auto split: if_splits)
  then show ?case
    using Nil.prems(1) o by (auto simp: hmatch_def hreturn_def hfail_def elim!: hbindE dest!: locked_inode_result(1) split: sum.splits if_splits)
next
  case (Cons a as)
  define h0 where "h0 = h\<lparr>h_locks := as\<rparr>"
  obtain r1 h1 where o: "(if opened then (\<lambda>h. (Inr (), h)) else open_lock_file l create) h0 = (r1, h1)" by fastforce
  have l0: "\<not> lock_link h0 l" using Cons.prems(2) by (simp add: h0_def lock_link_def)
  have n1: "node h1 p = node h p" and l1: "\<not> lock_link h1 l"
    using open_lock_result [OF _ l0 assms(3)] l0 o by (auto simp: h0_def split: if_splits)
  show ?case
    using Cons.prems(1) o n1 Cons.IH [OF _ l1]
    by (auto simp: h0_def [symmetric] hmatch_def hreturn_def hfail_def elim!: hbindE dest!: locked_inode_result(1)
        split: sum.splits if_splits LockAttempt.splits)
qed

lemma acquire_grants:
  assumes "acquire_stable_lock_with_policy script opened l create h = (Inr True, h')" and "l \<noteq> [RootDir]"
  shows "\<exists>f. node h' l = Some (FileNode f)"
  using assms(1)
proof (induction script arbitrary: opened h)
  case Nil
  then show ?case
    using assms(2) by (auto simp: hmatch_def hreturn_def hfail_def elim!: hbindE dest: locked_inode_grants split: sum.splits if_splits prod.splits)
next
  case (Cons a as)
  then show ?case
    using assms(2) by (auto simp: hmatch_def hreturn_def hfail_def elim!: hbindE dest: locked_inode_grants
        split: sum.splits if_splits prod.splits LockAttempt.splits)
qed

lemma acquire_lock_result:
  assumes "acquire_lock l create h = (Inr True, h')" and "p \<noteq> l" and "l \<noteq> [RootDir]"
  shows "node h' p = node h p"
proof -
  have "\<not> lock_link h l"
    using acquire_grants [OF assms(1) [unfolded acquire_lock_def] assms(3)] preservesD [OF stays.keeps_acquire_lock assms(1)]
    by (fastforce simp: lock_link_def stays_def)
  then show ?thesis using assms(1,2) acquire_result unfolding acquire_lock_def by blast
qed

lemma lock_path_beside:
  assumes "p \<noteq> []" and "last p = Normal n"
  shows "p \<noteq> lock_path_for p" and "lock_path_for p \<noteq> [RootDir]"
proof -
  have lock: "last (lock_path_for p) = Normal (''.'' @ n @ ''.lock'')" using assms by (simp add: lock_path_for_def)
  show "p \<noteq> lock_path_for p"
  proof
    assume "p = lock_path_for p"
    then have "Normal n = Normal (''.'' @ n @ ''.lock'')" using lock assms(2) by metis
    then have "length n = length (''.'' @ n @ ''.lock'')" unfolding component.inject by (rule arg_cong)
    then show False by simp
  qed
  show "lock_path_for p \<noteq> [RootDir]" using assms by (simp add: lock_path_for_def)
qed

text \<open>
  An update under the lock: what was at the target stays unless it was a plain file whose text the generator
  replaces; a result tells what the generator made of the text found.
\<close>

lemma apply_locked_outcome:
  assumes "apply_locked_inner p mode gen h = (r, h')" and "p \<noteq> []" and "last p = Normal n"
  shows "stays p h h' \<and> (\<forall>x. r = Inr x \<longrightarrow> (\<exists>e. gen e = Inr (None, x)) \<and>
      (plain_target h p \<longrightarrow> node h' p = node h p \<and> gen (text_at h p) = Inr (None, x))) \<or>
    (\<exists>c x. gen (text_at h p) = Inr (Some c, x) \<and> r = Inr x \<and> plain_target h p \<and>
      node h' p = Some (written_file h (final_mode mode h p) c))"
  using assms(1) [unfolded apply_locked_inner_def]
proof (cases rule: hbindE)
  case (Error e)
  then show ?thesis using preservesD [OF stays.keeps_create_parent] by fastforce
next
  case (Next u h1)
  have s1: "same_process h h1" and n1: "node h1 p = node h p"
    using preservesD [OF process.keeps_create_parent Next(1)] create_parent_result [OF Next(1) assms(2)] by simp_all
  from Next(2) show ?thesis
  proof (cases rule: hbindE)
    case (Error e)
    then show ?thesis using n1 preservesD [OF stays.keeps_acquire_lock, of _ _ h1 _ h' p] by (auto simp: stays_def)
  next
    case (Next locked h2)
    show ?thesis
    proof (cases locked)
      case True
      have s2: "same_process h h2"
        using s1 preservesD [OF process.keeps_acquire_lock Next(1)] by (rule process.transitive)
      have n2: "node h2 p = node h p"
        using acquire_lock_result [OF _ lock_path_beside [OF assms(2,3)]] Next(1) True n1 by simp
      show ?thesis
        using under_lock_outcome [of p mode gen h2 r h', OF _ assms(2,3)] Next(2) True n2
          same_write(1) [of h2 p h mode, OF n2] same_write(2) [OF s2]
        by (auto simp: stays_def plain_target_def text_at_def)
    next
      case False
      then show ?thesis
        using Next n1 preservesD [OF stays.keeps_acquire_lock, of _ _ h1 _ h2 p] by (auto simp: stays_def hfail_def)
    qed
  qed
qed

end
