(* ===== verification/Unit_Overrides.thy ===== *)
theory Unit_Overrides
  imports Host_Files Nspawn_Spec Request_Claims "HOL-Library.List_Lexorder" "HOL-Library.Char_ord"
begin

text \<open>
  Lasper's drop-ins for the units of machines (\<open>src/adapters/config/systemd_unit.rs\<close>): validation, the texts, the
  proof of ownership, and the operations the privileged daemon runs on them.
\<close>

section \<open>Places and limits\<close>

text \<open>The roots are fixed when the program is built (\<open>src/paths.rs\<close>).\<close>

record HostRoots =
  systemd_config_root :: path
  systemd_runtime_root :: path
  machines_dir :: path

definition default_roots :: HostRoots where
  "default_roots = \<lparr>systemd_config_root = components ''/etc/systemd'', systemd_runtime_root = components ''/run/systemd'',
     machines_dir = components ''/var/lib/machines''\<rparr>"

definition systemd_system_unit_dir :: "HostRoots \<Rightarrow> path" where
  "systemd_system_unit_dir roots = systemd_config_root roots @ [Normal ''system'']"

definition systemd_runtime_unit_dir :: "HostRoots \<Rightarrow> path" where
  "systemd_runtime_unit_dir roots = systemd_runtime_root roots @ [Normal ''system'']"

definition MAX_OVERRIDE_CONTENT_BYTES :: nat where
  "MAX_OVERRIDE_CONTENT_BYTES = 1024 * 1024"

definition MAX_INSPECTION_DROP_INS :: nat where
  "MAX_INSPECTION_DROP_INS = 256"

definition MAX_INSPECTION_CONTENT_BYTES :: nat where
  "MAX_INSPECTION_CONTENT_BYTES = 8 * 1024 * 1024"

definition MAX_DEVICE_ALLOW_ENTRIES :: nat where
  "MAX_DEVICE_ALLOW_ENTRIES = 4096"

definition LASPER_OVERRIDE_FILE :: string where
  "LASPER_OVERRIDE_FILE = ''90-lasper.conf''"

definition LASPER_NVIDIA_OVERRIDE_FILE :: string where
  "LASPER_NVIDIA_OVERRIDE_FILE = ''90-lasper-nvidia.conf''"

definition LEGACY_OVERRIDE_FILE :: string where
  "LEGACY_OVERRIDE_FILE = ''override.conf''"

definition LEGACY_NVIDIA_OVERRIDE_FILE :: string where
  "LEGACY_NVIDIA_OVERRIDE_FILE = ''10-lasper-nvidia.conf''"

definition LASPER_OVERRIDE_MARKER :: string where
  "LASPER_OVERRIDE_MARKER = ''# Managed by Lasper: systemd unit override v1''"

definition ALL_DRM_DEVICE_ALLOW :: string where
  "ALL_DRM_DEVICE_ALLOW = ''char-drm''"

definition unit_dir_name :: "MachineName \<Rightarrow> string" where
  "unit_dir_name m = ''systemd-nspawn@'' @ machine_as_str m @ ''.service.d''"

definition service_override_dir :: "HostRoots \<Rightarrow> MachineName \<Rightarrow> path" where
  "service_override_dir roots m = systemd_system_unit_dir roots @ [Normal (unit_dir_name m)]"

definition service_override_path :: "HostRoots \<Rightarrow> MachineName \<Rightarrow> path" where
  "service_override_path roots m = service_override_dir roots m @ [Normal LASPER_OVERRIDE_FILE]"

definition transient_service_override_dir :: "HostRoots \<Rightarrow> MachineName \<Rightarrow> path" where
  "transient_service_override_dir roots m = systemd_runtime_unit_dir roots @ [Normal (unit_dir_name m)]"

definition persistent_nvidia_override_path :: "HostRoots \<Rightarrow> MachineName \<Rightarrow> path" where
  "persistent_nvidia_override_path roots m = service_override_dir roots m @ [Normal LASPER_NVIDIA_OVERRIDE_FILE]"

definition transient_nvidia_override_path :: "HostRoots \<Rightarrow> MachineName \<Rightarrow> path" where
  "transient_nvidia_override_path roots m = transient_service_override_dir roots m @ [Normal LASPER_NVIDIA_OVERRIDE_FILE]"

section \<open>Requests and results\<close>

datatype ArtifactOwnership = ProvenOwned | AmbiguousLegacy | NotPresent

datatype ResourceApplyStatus = ApplyCreated | ReplacedOwned | Unchanged | ConflictUnknownOwner

record ServiceOverrideSpec =
  so_device_binds :: "string list"
  so_gpu_passthrough_all :: bool

datatype UnitOperation =
    ReadOverrides MachineName
  | ProbeOwnedOverrides MachineName
  | WriteOverride MachineName ServiceOverrideSpec
  | CloneOverride MachineName MachineName
  | WriteNvidiaDeviceAllow MachineName "string list"
  | RemoveOverride MachineName
  | RemoveOwnedOverrides MachineName

record SystemdDropIn =
  di_path :: string
  di_content :: string

record SystemdUnitResult =
  ur_drop_ins :: "SystemdDropIn list"
  ur_apply :: "ResourceApplyStatus option"
  ur_ownership :: "ArtifactOwnership list option"

definition unit_result_default :: SystemdUnitResult where
  "unit_result_default = \<lparr>ur_drop_ins = [], ur_apply = None, ur_ownership = None\<rparr>"

section \<open>Validation\<close>

text \<open>\<open>esc\<close> is the \<open>Debug\<close> escape of a string.\<close>

definition validate_device_allow_path :: "(string \<Rightarrow> string) \<Rightarrow> string \<Rightarrow> NspawnError + unit" where
  "validate_device_allow_path esc v =
     (if v = [] \<or> length v > 4096 \<or> has_control v \<or> \<not> is_absolute v
      then Inl (ValidationError (''Invalid DeviceAllow path: '' @ esc v)) else Inr ())"

definition validate_device_allow_paths :: "(string \<Rightarrow> string) \<Rightarrow> string list \<Rightarrow> NspawnError + unit" where
  "validate_device_allow_paths esc paths =
     (if length paths > MAX_DEVICE_ALLOW_ENTRIES then Inl (ValidationError ''Too many DeviceAllow entries'')
      else try_each (validate_device_allow_path esc) paths)"

definition validate_override_spec :: "(string \<Rightarrow> string) \<Rightarrow> ServiceOverrideSpec \<Rightarrow> NspawnError + unit" where
  "validate_override_spec esc spec = validate_device_allow_paths esc (so_device_binds spec)"

definition validate_device_allow_spec :: "(string \<Rightarrow> string) \<Rightarrow> string \<Rightarrow> NspawnError + unit" where
  "validate_device_allow_spec esc v = (if v = ALL_DRM_DEVICE_ALLOW then Inr () else validate_device_allow_path esc v)"

definition validate_override_size :: "string \<Rightarrow> NspawnError + unit" where
  "validate_override_size content =
     (if length content > MAX_OVERRIDE_CONTENT_BYTES
      then Inl (ValidationError (''systemd override content exceeds '' @ show_nat MAX_OVERRIDE_CONTENT_BYTES @ '' bytes''))
      else Inr ())"

section \<open>Texts\<close>

text \<open>
  The INI package is a parameter: its documents are lists of sections, the first of which may be nameless.
\<close>

type_synonym ini_document = "(string option \<times> (string \<times> string) list) list"

record IniCodec =
  load_from_str :: "string \<Rightarrow> ini_document option"
  write_to :: "ini_document \<Rightarrow> string"

definition device_allow_entries :: "string list \<Rightarrow> bool \<Rightarrow> (string \<times> string) list" where
  "device_allow_entries device_binds gpu_passthrough_all =
     map (\<lambda>dev. (''DeviceAllow'', dev @ '' rw'')) (filter (\<lambda>dev. dev \<noteq> ALL_DRM_DEVICES_PATH) device_binds) @
     (if gpu_passthrough_all \<or> ALL_DRM_DEVICES_PATH \<in> set device_binds
      then [(''DeviceAllow'', ALL_DRM_DEVICE_ALLOW @ '' rw'')] else [])"

definition systemd_override_content :: "IniCodec \<Rightarrow> string list \<Rightarrow> bool \<Rightarrow> string" where
  "systemd_override_content ini device_binds gpu_passthrough_all =
     LASPER_OVERRIDE_MARKER @ [CHR 0x0A] @
     write_to ini [(Some ''Service'', device_allow_entries device_binds gpu_passthrough_all)]"

definition nvidia_device_allow_content :: "string list \<Rightarrow> string" where
  "nvidia_device_allow_content device_paths =
     LASPER_OVERRIDE_MARKER @ [CHR 0x0A] @ ''[Service]'' @ [CHR 0x0A] @
     concat (map (\<lambda>p. ''DeviceAllow='' @ p @ '' rw'' @ [CHR 0x0A]) device_paths)"

definition owned_entry :: "string \<times> string \<Rightarrow> bool" where
  "owned_entry kv \<longleftrightarrow>
     fst kv = ''DeviceAllow'' \<and>
     (case strip_suffix (snd kv) '' rw'' of Some p \<Rightarrow> is_ok (validate_device_allow_spec id p) | None \<Rightarrow> False)"

fun owned_section :: "string option \<times> (string \<times> string) list \<Rightarrow> bool" where
  "owned_section (None, properties) \<longleftrightarrow> properties = []"
| "owned_section (Some s, properties) \<longleftrightarrow> s = ''Service'' \<and> list_all owned_entry properties"

definition is_owned_override_content :: "IniCodec \<Rightarrow> string \<Rightarrow> bool" where
  "is_owned_override_content ini content \<longleftrightarrow>
     starts_with content (LASPER_OVERRIDE_MARKER @ [CHR 0x0A]) \<and>
     (case load_from_str ini content of
        None \<Rightarrow> False
      | Some config \<Rightarrow> list_all owned_section config \<and> list_ex (\<lambda>s. fst s = Some ''Service'') config)"

section \<open>Reading\<close>

definition read_override_content :: "path \<Rightarrow> string hop" where
  "read_override_content p =
     hbind (io p (follow p)) (\<lambda>n.
     hbind (io p descriptor) (\<lambda>_.
       case n of
         FileNode f \<Rightarrow>
           if length (hf_text f) > MAX_OVERRIDE_CONTENT_BYTES
           then hfail (ValidationError (''systemd override '' @ [CHR 0x27] @ path_text p @ [CHR 0x27] @
                  '' must be a regular file of at most '' @ show_nat MAX_OVERRIDE_CONTENT_BYTES @ '' bytes''))
           else hbind (io p (read_all n)) (\<lambda>bytes. hlift (map_err (Io (path_text p)) (from_utf8 bytes)))
       | _ \<Rightarrow> hfail (ValidationError (''systemd override '' @ [CHR 0x27] @ path_text p @ [CHR 0x27] @
                  '' must be a regular file of at most '' @ show_nat MAX_OVERRIDE_CONTENT_BYTES @ '' bytes''))))"

text \<open>\<open>read_optional\<close>: an \<open>Io\<close> error of the kind \<open>NotFound\<close> is no file.\<close>

definition read_optional :: "path \<Rightarrow> string option hop" where
  "read_optional p h =
     (case read_override_content p h of
        (Inr content, h) \<Rightarrow> (Inr (Some content), h)
      | (Inl (Io q ENOENT), h) \<Rightarrow> (Inr None, h)
      | (Inl e, h) \<Rightarrow> (Inl e, h))"

record DropInReadBudget =
  bg_files :: nat
  bg_bytes :: nat

definition check_file_count :: "DropInReadBudget \<Rightarrow> NspawnError + unit" where
  "check_file_count b =
     (if bg_files b \<ge> MAX_INSPECTION_DROP_INS
      then Inl (ValidationError (''systemd unit inspection exceeds '' @ show_nat MAX_INSPECTION_DROP_INS @ '' drop-in files''))
      else Inr ())"

definition budget_record :: "DropInReadBudget \<Rightarrow> nat \<Rightarrow> NspawnError + DropInReadBudget" where
  "budget_record b n =
     (if n > MAX_INSPECTION_CONTENT_BYTES - bg_bytes b
      then Inl (ValidationError (''systemd unit inspection exceeds '' @ show_nat MAX_INSPECTION_CONTENT_BYTES @
             '' bytes of drop-in content''))
      else Inr (b\<lparr>bg_files := bg_files b + 1, bg_bytes := bg_bytes b + n\<rparr>))"

text \<open>\<open>extension\<close>: what follows the last dot of a name that does not begin with its only one.\<close>

definition is_conf_name :: "string \<Rightarrow> bool" where
  "is_conf_name name \<longleftrightarrow> ends_with name ''.conf'' \<and> name \<noteq> ''.conf''"

definition read_dir :: "path \<Rightarrow> (path \<times> HostNode) list call" where
  "read_dir dir = host_call (\<lambda>h.
     (case and_then (resolve MAXSYMLINKS h dir) (found h) of
        Inl e \<Rightarrow> Inl e
      | Inr DirectoryNode \<Rightarrow> Inr (filter (\<lambda>(p, n). below dir p \<and> length p = Suc (length dir)) (h_nodes h))
      | Inr _ \<Rightarrow> Inl (EOTHER 20), h))"

fun collect_drop_ins ::
  "path \<Rightarrow> (path \<times> HostNode) list \<Rightarrow> DropInReadBudget \<Rightarrow> (SystemdDropIn list \<times> DropInReadBudget) hop" where
  "collect_drop_ins dir [] b = hreturn ([], b)"
| "collect_drop_ins dir ((p, n) # entries) b =
     hbind (io dir descriptor) (\<lambda>_.
     hbind (io p descriptor) (\<lambda>_.
     if (case n of FileNode _ \<Rightarrow> False | _ \<Rightarrow> True) \<or> (case last p of Normal name \<Rightarrow> \<not> is_conf_name name | _ \<Rightarrow> True)
     then collect_drop_ins dir entries b
     else
       hbind (hlift (check_file_count b)) (\<lambda>_.
       hbind (read_override_content p) (\<lambda>content.
       hbind (hlift (budget_record b (length content))) (\<lambda>b.
       hbind (collect_drop_ins dir entries b) (\<lambda>(rest, b).
         hreturn (\<lparr>di_path = path_text p, di_content = content\<rparr> # rest, b)))))))"

definition read_drop_ins :: "path \<Rightarrow> DropInReadBudget \<Rightarrow> (SystemdDropIn list \<times> DropInReadBudget) hop" where
  "read_drop_ins dir b =
     hmatch (read_dir dir) (\<lambda>r.
       case r of
         Inl e \<Rightarrow> if e = ENOENT then hreturn ([], b) else hfail (Io (path_text dir) e)
       | Inr entries \<Rightarrow>
           hbind (collect_drop_ins dir entries b) (\<lambda>result.
           hbind (io dir descriptor) (\<lambda>_. hreturn result)))"

section \<open>Ownership\<close>

definition probe_owned_override_at :: "IniCodec \<Rightarrow> path \<Rightarrow> u32 \<Rightarrow> ArtifactOwnership hop" where
  "probe_owned_override_at ini p expected_uid =
     hmatch (symlink_metadata p) (\<lambda>r.
       case r of
         Inl e \<Rightarrow> if e = ENOENT then hreturn NotPresent else hfail (Io (path_text p) e)
       | Inr (FileNode f) \<Rightarrow>
           if length (hf_text f) > MAX_OVERRIDE_CONTENT_BYTES \<or> hf_uid f \<noteq> expected_uid \<or> hf_mode f AND 4095 \<noteq> 420
           then hreturn AmbiguousLegacy
           else
             hbind (read_override_content p) (\<lambda>content.
               hreturn (if is_owned_override_content ini content then ProvenOwned else AmbiguousLegacy))
       | Inr _ \<Rightarrow> hreturn AmbiguousLegacy)"

definition probe_legacy_override_at :: "path \<Rightarrow> ArtifactOwnership hop" where
  "probe_legacy_override_at p =
     hmatch (symlink_metadata p) (\<lambda>r.
       case r of
         Inr _ \<Rightarrow> hreturn AmbiguousLegacy
       | Inl e \<Rightarrow> if e = ENOENT then hreturn NotPresent else hfail (Io (path_text p) e))"

definition owned_paths :: "path \<Rightarrow> path \<Rightarrow> path list" where
  "owned_paths persistent_dir transient_dir =
     [persistent_dir @ [Normal LASPER_OVERRIDE_FILE], persistent_dir @ [Normal LASPER_NVIDIA_OVERRIDE_FILE],
      transient_dir @ [Normal LASPER_NVIDIA_OVERRIDE_FILE]]"

definition legacy_paths :: "path \<Rightarrow> path \<Rightarrow> path list" where
  "legacy_paths persistent_dir transient_dir =
     [persistent_dir @ [Normal LEGACY_OVERRIDE_FILE], persistent_dir @ [Normal LEGACY_NVIDIA_OVERRIDE_FILE],
      transient_dir @ [Normal LEGACY_NVIDIA_OVERRIDE_FILE]]"

fun hmap :: "('a \<Rightarrow> 'b hop) \<Rightarrow> 'a list \<Rightarrow> 'b list hop" where
  "hmap f [] = hreturn []"
| "hmap f (x # xs) = hbind (f x) (\<lambda>y. hbind (hmap f xs) (\<lambda>ys. hreturn (y # ys)))"

definition probe_lasper_overrides_at_with_uid ::
  "IniCodec \<Rightarrow> path \<Rightarrow> path \<Rightarrow> u32 \<Rightarrow> ArtifactOwnership list hop" where
  "probe_lasper_overrides_at_with_uid ini persistent_dir transient_dir expected_uid =
     hbind (hmap (\<lambda>p. probe_owned_override_at ini p expected_uid) (owned_paths persistent_dir transient_dir)) (\<lambda>owned.
     hbind (hmap probe_legacy_override_at (legacy_paths persistent_dir transient_dir)) (\<lambda>legacy.
       hreturn (owned @ legacy)))"

section \<open>Writing and removing\<close>

definition override_update ::
  "IniCodec \<Rightarrow> string \<Rightarrow> ArtifactOwnership \<Rightarrow> string option \<Rightarrow> NspawnError + string option \<times> ResourceApplyStatus" where
  "override_update ini content ownership existing =
     Inr (case existing of
            None \<Rightarrow> (Some content, ApplyCreated)
          | Some old \<Rightarrow>
              if old = content then (None, Unchanged)
              else if ownership = ProvenOwned \<and> is_owned_override_content ini old then (Some content, ReplacedOwned)
              else (None, ConflictUnknownOwner))"

definition apply_new_override_at_with_uid :: "IniCodec \<Rightarrow> path \<Rightarrow> string \<Rightarrow> u32 \<Rightarrow> ResourceApplyStatus hop" where
  "apply_new_override_at_with_uid ini p content expected_uid =
     hbind (probe_owned_override_at ini p expected_uid) (\<lambda>ownership.
       if ownership = AmbiguousLegacy then hreturn ConflictUnknownOwner
       else apply_locked_inner p (Some 420) (override_update ini content ownership))"

definition write_nvidia_device_allow_at :: "path \<Rightarrow> path \<Rightarrow> string \<Rightarrow> unit hop" where
  "write_nvidia_device_allow_at persistent_path transient_path content =
     hbind (write_atomic_with_mode persistent_path content (Some 420)) (\<lambda>_ h.
       (Inr (), snd (remove_optional_file transient_path h)))"

definition remove_service_override_at :: "path \<Rightarrow> unit hop" where
  "remove_service_override_at persistent_dir =
     (let override_path = persistent_dir @ [Normal LASPER_OVERRIDE_FILE] in
      hbind (remove_optional_file override_path) (\<lambda>_.
      hbind (remove_optional_file (lock_path_for override_path)) (\<lambda>_.
        remove_empty_dir persistent_dir)))"

definition remove_owned_override :: "IniCodec \<Rightarrow> u32 \<Rightarrow> path \<Rightarrow> ArtifactOwnership hop" where
  "remove_owned_override ini expected_uid p =
     hbind (probe_owned_override_at ini p expected_uid) (\<lambda>evidence.
     hbind (case evidence of
              ProvenOwned \<Rightarrow> hbind (remove_optional_file p) (\<lambda>_. remove_optional_file (lock_path_for p))
            | NotPresent \<Rightarrow> hbind (remove_lock_if_target_absent p (lock_path_for p)) (\<lambda>_. hreturn ())
            | AmbiguousLegacy \<Rightarrow> hreturn ()) (\<lambda>_.
       hreturn evidence))"

definition remove_owned_lasper_overrides_at_with_uid ::
  "IniCodec \<Rightarrow> path \<Rightarrow> path \<Rightarrow> u32 \<Rightarrow> ArtifactOwnership list hop" where
  "remove_owned_lasper_overrides_at_with_uid ini persistent_dir transient_dir expected_uid =
     hbind (hmap (remove_owned_override ini expected_uid) (owned_paths persistent_dir transient_dir)) (\<lambda>owned.
     hbind (hmap probe_legacy_override_at (legacy_paths persistent_dir transient_dir)) (\<lambda>legacy.
     hbind (remove_empty_dir persistent_dir) (\<lambda>_.
     hbind (remove_empty_dir transient_dir) (\<lambda>_.
       hreturn (owned @ legacy)))))"

text \<open>The operation the daemon executes for a request.\<close>

fun execute_systemd_unit_operation ::
  "HostRoots \<Rightarrow> IniCodec \<Rightarrow> (string \<Rightarrow> string) \<Rightarrow> UnitOperation \<Rightarrow> SystemdUnitResult hop" where
  "execute_systemd_unit_operation roots ini esc (ReadOverrides m) =
     hbind (read_drop_ins (service_override_dir roots m) \<lparr>bg_files = 0, bg_bytes = 0\<rparr>) (\<lambda>(persistent, b).
     hbind (read_drop_ins (transient_service_override_dir roots m) b) (\<lambda>(transient, _).
       hreturn (unit_result_default\<lparr>ur_drop_ins := sort_key di_path (persistent @ transient)\<rparr>)))"
| "execute_systemd_unit_operation roots ini esc (ProbeOwnedOverrides m) =
     hbind (probe_lasper_overrides_at_with_uid ini (service_override_dir roots m) (transient_service_override_dir roots m) 0)
       (\<lambda>ownership. hreturn (unit_result_default\<lparr>ur_ownership := Some ownership\<rparr>))"
| "execute_systemd_unit_operation roots ini esc (WriteOverride m spec) =
     hbind (hlift (validate_override_spec esc spec)) (\<lambda>_.
     (let content = systemd_override_content ini (so_device_binds spec) (so_gpu_passthrough_all spec) in
      hbind (hlift (validate_override_size content)) (\<lambda>_.
      hbind (apply_new_override_at_with_uid ini (service_override_path roots m) content 0) (\<lambda>st.
        hreturn (unit_result_default\<lparr>ur_apply := Some st\<rparr>)))))"
| "execute_systemd_unit_operation roots ini esc (CloneOverride source destination) =
     hbind (read_optional (service_override_path roots source)) (\<lambda>found_content.
     hbind (case found_content of
              Some content \<Rightarrow>
                hbind (hlift (validate_override_size content)) (\<lambda>_.
                  apply_new_override_at_with_uid ini (service_override_path roots destination) content 0)
            | None \<Rightarrow> hreturn Unchanged) (\<lambda>st.
       hreturn (unit_result_default\<lparr>ur_apply := Some st\<rparr>)))"
| "execute_systemd_unit_operation roots ini esc (WriteNvidiaDeviceAllow m device_paths) =
     hbind (hlift (validate_device_allow_paths esc device_paths)) (\<lambda>_.
     (let content = nvidia_device_allow_content device_paths in
      hbind (hlift (validate_override_size content)) (\<lambda>_.
      hbind (write_nvidia_device_allow_at (persistent_nvidia_override_path roots m) (transient_nvidia_override_path roots m) content)
        (\<lambda>_. hreturn unit_result_default))))"
| "execute_systemd_unit_operation roots ini esc (RemoveOverride m) =
     hbind (remove_service_override_at (service_override_dir roots m)) (\<lambda>_. hreturn unit_result_default)"
| "execute_systemd_unit_operation roots ini esc (RemoveOwnedOverrides m) =
     hbind (remove_owned_lasper_overrides_at_with_uid ini (service_override_dir roots m) (transient_service_override_dir roots m) 0)
       (\<lambda>ownership. hreturn (unit_result_default\<lparr>ur_ownership := Some ownership\<rparr>))"

section \<open>The store\<close>

text \<open>
  \<open>SystemdUnitStore\<close> over an executor: the operation itself, or the daemon's, whose errors arrive as texts.
\<close>

type_synonym unit_executor = "UnitOperation \<Rightarrow> SystemdUnitResult hop"

text \<open>\<open>rpc\<close> is the call to the daemon.\<close>

definition elevated_executor :: "(UnitOperation \<Rightarrow> Host \<Rightarrow> (string + SystemdUnitResult) \<times> Host) \<Rightarrow> unit_executor" where
  "elevated_executor rpc operation h = (case rpc operation h of (r, h) \<Rightarrow> (map_err RuntimeError r, h))"

definition parse_machine_name :: "string \<Rightarrow> NspawnError + MachineName" where
  "parse_machine_name name = map_err (\<lambda>e. case e of MachineNameError s \<Rightarrow> ValidationError s) (machine_name_new name)"

definition store_write_override :: "unit_executor \<Rightarrow> string \<Rightarrow> string list \<Rightarrow> bool \<Rightarrow> ResourceApplyStatus hop" where
  "store_write_override exec name device_binds gpu_passthrough_all =
     (if device_binds = [] \<and> \<not> gpu_passthrough_all then hreturn Unchanged
      else
        hbind (hlift (parse_machine_name name)) (\<lambda>m.
        hbind (exec (WriteOverride m \<lparr>so_device_binds = device_binds, so_gpu_passthrough_all = gpu_passthrough_all\<rparr>)) (\<lambda>result.
          hlift (ok_or (ur_apply result) (RuntimeError ''systemd override write returned no apply status'')))))"

definition store_clone_override :: "unit_executor \<Rightarrow> string \<Rightarrow> string \<Rightarrow> ResourceApplyStatus hop" where
  "store_clone_override exec source destination =
     hbind (hlift (parse_machine_name source)) (\<lambda>s.
     hbind (hlift (parse_machine_name destination)) (\<lambda>d.
     hbind (exec (CloneOverride s d)) (\<lambda>result.
       hlift (ok_or (ur_apply result) (RuntimeError ''systemd override clone returned no apply status'')))))"

definition store_write_nvidia_device_allow :: "unit_executor \<Rightarrow> string \<Rightarrow> string list \<Rightarrow> unit hop" where
  "store_write_nvidia_device_allow exec name device_paths =
     hbind (hlift (parse_machine_name name)) (\<lambda>m.
     hbind (exec (WriteNvidiaDeviceAllow m device_paths)) (\<lambda>_. hreturn ()))"

definition store_remove_owned_overrides :: "unit_executor \<Rightarrow> string \<Rightarrow> ArtifactOwnership list hop" where
  "store_remove_owned_overrides exec name =
     hbind (hlift (parse_machine_name name)) (\<lambda>m.
     hbind (exec (RemoveOwnedOverrides m)) (\<lambda>result.
       hlift (ok_or (ur_ownership result) (RuntimeError ''owned override cleanup returned no ownership evidence''))))"

definition store_remove_service_override :: "unit_executor \<Rightarrow> string \<Rightarrow> unit hop" where
  "store_remove_service_override exec name =
     hbind (hlift (parse_machine_name name)) (\<lambda>m.
     hbind (exec (RemoveOverride m)) (\<lambda>_. hreturn ()))"

definition store_read_overrides :: "unit_executor \<Rightarrow> string \<Rightarrow> (string \<times> SystemdDropIn list) hop" where
  "store_read_overrides exec name =
     hbind (hlift (parse_machine_name name)) (\<lambda>m.
     hbind (exec (ReadOverrides m)) (\<lambda>result.
       hreturn (systemd_nspawn_unit m, ur_drop_ins result)))"

definition store_probe_owned_overrides :: "unit_executor \<Rightarrow> string \<Rightarrow> ArtifactOwnership list hop" where
  "store_probe_owned_overrides exec name =
     hbind (hlift (parse_machine_name name)) (\<lambda>m.
     hbind (exec (ProbeOwnedOverrides m)) (\<lambda>result.
       hlift (ok_or (ur_ownership result) (RuntimeError ''override probe returned no ownership evidence''))))"

section \<open>What an operation may change\<close>

definition owned_file :: "IniCodec \<Rightarrow> u32 \<Rightarrow> HostNode \<Rightarrow> bool" where
  "owned_file ini uid n \<longleftrightarrow>
     (case n of
        FileNode f \<Rightarrow> length (hf_text f) \<le> MAX_OVERRIDE_CONTENT_BYTES \<and> hf_uid f = uid \<and> hf_mode f AND 4095 = 420 \<and>
          is_owned_override_content ini (hf_text f)
      | _ \<Rightarrow> False)"

lemma follow_file:
  assumes "follow p h = (Inr n, h')" and "node h p = Some (FileNode f)"
  shows "n = FileNode f"
proof -
  have "resolve MAXSYMLINKS h0 p = Inr p" if "node h0 = node h" for h0
    using that assms(2) by (simp add: MAXSYMLINKS_def numeral_eq_Suc)
  then show ?thesis
    using assms unfolding follow_def by (auto elim!: host_callE simp: found_def)
qed

lemma read_override_file:
  assumes "read_override_content p h = (Inr c, h')" and "node h p = Some (FileNode f)"
  shows "c = hf_text f"
  using assms unfolding read_override_content_def
  by (auto elim!: hbindE ioE simp: hfail_def hlift_def from_utf8_def read_all_def
      dest!: follow_file split: HostNode.splits if_splits elim!: host_callE)

lemma probe_owned_result:
  assumes "probe_owned_override_at ini p uid h = (Inr ev, h')" and "p \<noteq> [RootDir]"
  shows "ev = ProvenOwned \<Longrightarrow> \<exists>n. node h p = Some n \<and> owned_file ini uid n" and "ev = NotPresent \<Longrightarrow> node h p = None"
    and "ev \<noteq> AmbiguousLegacy \<Longrightarrow> plain_target h p"
proof -
  from assms(1) [unfolded probe_owned_override_at_def] obtain r h1 where meta: "symlink_metadata p h = (r, h1)"
    and rest: "(case r of Inl e \<Rightarrow> if e = ENOENT then hreturn NotPresent else hfail (Io (path_text p) e)
       | Inr (FileNode f) \<Rightarrow>
           if length (hf_text f) > MAX_OVERRIDE_CONTENT_BYTES \<or> hf_uid f \<noteq> uid \<or> hf_mode f AND 4095 \<noteq> 420
           then hreturn AmbiguousLegacy
           else hbind (read_override_content p) (\<lambda>content.
               hreturn (if is_owned_override_content ini content then ProvenOwned else AmbiguousLegacy))
       | Inr _ \<Rightarrow> hreturn AmbiguousLegacy) h1 = (Inr ev, h')"
    by (rule hmatchE)
  have n1: "node h1 = node h" using looking_result(1) [OF meta] .
  have known: "r = Inr n \<Longrightarrow> node h p = Some n" and absent: "r = Inl ENOENT \<Longrightarrow> node h p = None" for n
    using meta assms(2) unfolding symlink_metadata_def
    by (auto elim!: host_callE simp: found_def split: option.splits if_splits)
  show "ev = ProvenOwned \<Longrightarrow> \<exists>n. node h p = Some n \<and> owned_file ini uid n"
    using rest known n1
    by (auto simp: hreturn_def hfail_def owned_file_def not_less elim!: hbindE dest!: read_override_file
        split: sum.splits HostNode.splits if_splits)
  show "ev = NotPresent \<Longrightarrow> node h p = None"
    using rest absent by (auto simp: hreturn_def hfail_def elim!: hbindE split: sum.splits HostNode.splits if_splits)
  show "ev \<noteq> AmbiguousLegacy \<Longrightarrow> plain_target h p"
    using rest known absent
    by (auto simp: hreturn_def hfail_def plain_target_def split: sum.splits HostNode.splits if_splits)
qed

lemma read_override_nodes: "read_override_content p h = (r, h') \<Longrightarrow> node h' = node h"
  unfolding read_override_content_def
  by (auto elim!: hbindE ioE simp: hfail_def hlift_def dest!: looking_result descriptor_result split: HostNode.splits if_splits)

lemma probe_nodes: "probe_owned_override_at ini p uid h = (r, h') \<Longrightarrow> node h' = node h"
  unfolding probe_owned_override_at_def
  by (auto elim!: hmatchE hbindE simp: hfail_def hreturn_def dest!: looking_result read_override_nodes
      split: HostNode.splits if_splits sum.splits)

text \<open>The paths of a machine's drop-ins, and what each operation may replace or remove there.\<close>

fun may_change :: "HostRoots \<Rightarrow> IniCodec \<Rightarrow> UnitOperation \<Rightarrow> path \<Rightarrow> HostNode \<Rightarrow> bool" where
  "may_change roots ini (ReadOverrides m) p n = False"
| "may_change roots ini (ProbeOwnedOverrides m) p n = False"
| "may_change roots ini (WriteOverride m spec) p n = (p = service_override_path roots m \<and> owned_file ini 0 n)"
| "may_change roots ini (CloneOverride source destination) p n = (p = service_override_path roots destination \<and> owned_file ini 0 n)"
| "may_change roots ini (WriteNvidiaDeviceAllow m paths) p n =
     (p = persistent_nvidia_override_path roots m \<or> p = transient_nvidia_override_path roots m)"
| "may_change roots ini (RemoveOverride m) p n =
     (p \<in> {service_override_path roots m, lock_path_for (service_override_path roots m)} \<or>
      p = service_override_dir roots m \<and> n = DirectoryNode)"
| "may_change roots ini (RemoveOwnedOverrides m) p n =
     (let paths = set (owned_paths (service_override_dir roots m) (transient_service_override_dir roots m)) in
      p \<in> paths \<and> owned_file ini 0 n \<or> p \<in> lock_path_for ` paths \<or>
      p \<in> {service_override_dir roots m, transient_service_override_dir roots m} \<and> n = DirectoryNode)"

definition keeps_at :: "path \<Rightarrow> HostNode \<Rightarrow> Host \<Rightarrow> Host \<Rightarrow> bool" where
  "keeps_at p n h h' \<longleftrightarrow> (node h p = Some n \<longrightarrow> node h' p = Some n)"

interpretation at: host_relation "keeps_at p n" for p n
  by unfold_locales (auto simp: keeps_at_def)

lemma keeps_at_stays: "preserves (stays p) m \<Longrightarrow> preserves (keeps_at p n) m"
  by (simp add: preserves_def stays_def keeps_at_def)

context host_reading
begin

lemma keeps_read_override_content: "preserves R (read_override_content p)"
  unfolding read_override_content_def by (intro keeps_rules keeps_looking)

lemma keeps_probe_owned: "preserves R (probe_owned_override_at ini p uid)"
  unfolding probe_owned_override_at_def by (intro keeps_rules keeps_looking keeps_read_override_content)

lemma keeps_probe_legacy: "preserves R (probe_legacy_override_at p)"
  unfolding probe_legacy_override_at_def by (intro keeps_rules keeps_looking)

lemma keeps_hmap: "(\<And>x. x \<in> set xs \<Longrightarrow> preserves R (f x)) \<Longrightarrow> preserves R (hmap f xs)"
  by (induction xs) (auto intro!: keeps_rules)

lemma keeps_read_optional: "preserves R (read_optional p)"
  using keeps_read_override_content [of p] unfolding preserves_def read_optional_def
  by (auto split: prod.splits sum.splits NspawnError.splits Errno.splits) (metis snd_conv)+

lemma keeps_read_dir: "preserves R (read_dir p)"
  unfolding read_dir_def by (intro keeps_host_call) (simp add: preserves_def reflexive)

lemma keeps_collect: "preserves R (collect_drop_ins dir entries b)"
  by (induction dir entries b rule: collect_drop_ins.induct)
    (auto intro!: keeps_rules keeps_looking keeps_read_override_content simp del: if_split)

lemma keeps_read_drop_ins: "preserves R (read_drop_ins dir b)"
  unfolding read_drop_ins_def by (intro keeps_rules keeps_looking keeps_read_dir keeps_collect)

end

lemma keeps_at_calls:
  "q \<noteq> p \<Longrightarrow> preserves (keeps_at q n) (unlink p)" "q \<noteq> p \<or> n \<noteq> DirectoryNode \<Longrightarrow> preserves (keeps_at q n) (rmdir p)"
  unfolding unlink_def rmdir_def
  by (intro at.keeps_host_call; auto simp: preserves_def keeps_at_def split: option.splits HostNode.splits)+

lemma keeps_at_persist: "q \<noteq> p \<Longrightarrow> preserves (keeps_at q n) (persist_atomic p content m)"
  by (intro keeps_at_stays stays_persist)

lemma override_paths_plain:
  "service_override_path roots m \<noteq> []" "last (service_override_path roots m) = Normal LASPER_OVERRIDE_FILE"
  "persistent_nvidia_override_path roots m \<noteq> []"
  "service_override_path roots m \<noteq> [RootDir]"
  by (simp_all add: service_override_path_def persistent_nvidia_override_path_def service_override_dir_def
      systemd_system_unit_dir_def)

text \<open>A new override replaces a file only on proof of ownership.\<close>

lemma apply_new_override_keeps:
  assumes "p \<noteq> []" and "last p = Normal name" and "q \<noteq> p \<or> \<not> owned_file ini uid n"
  shows "preserves (keeps_at q n) (apply_new_override_at_with_uid ini p content uid)"
proof (cases "q = p")
  case False
  then show ?thesis
    unfolding apply_new_override_at_with_uid_def
    by (intro at.keeps_rules at.keeps_probe_owned at.keeps_apply_locked keeps_at_persist)
next
  case True
  with assms(3) have foreign: "\<not> owned_file ini uid n" by simp
  have "p \<noteq> [RootDir]" using assms(1,2) by auto
  note probe = probe_owned_result [OF _ this]
  show ?thesis unfolding preserves_def
  proof
    fix h
    obtain r h' where run: "apply_new_override_at_with_uid ini p content uid h = (r, h')" by fastforce
    from run [unfolded apply_new_override_at_with_uid_def] have "keeps_at q n h h'"
    proof (cases rule: hbindE)
      case (Error e)
      then show ?thesis using preservesD [OF at.keeps_probe_owned] by blast
    next
      case (Next ev h1)
      show ?thesis
      proof (cases ev)
        case AmbiguousLegacy
        then show ?thesis using Next preservesD [OF at.keeps_probe_owned Next(1)] by (simp add: hreturn_def)
      qed (use probe(1,2) [OF Next(1)] foreign True in \<open>auto simp: keeps_at_def\<close>)
    qed
    then show "keeps_at q n h (snd (apply_new_override_at_with_uid ini p content uid h))" by (simp add: run)
  qed
qed

lemma remove_owned_override_keeps:
  assumes "p \<noteq> [RootDir]" and "q \<noteq> p \<or> \<not> owned_file ini uid n" and "q \<noteq> lock_path_for p"
  shows "preserves (keeps_at q n) (remove_owned_override ini uid p)"
proof (cases "q = p")
  case False
  then show ?thesis
    unfolding remove_owned_override_def
    using assms(3)
    by (auto intro!: keeps_at_calls at.keeps_rules at.keeps_probe_owned at.keeps_remove_optional_file at.keeps_remove_lock split: ArtifactOwnership.split)
next
  case True
  with assms(2) have foreign: "\<not> owned_file ini uid n" by simp
  note probe = probe_owned_result [OF _ assms(1)]
  show ?thesis unfolding preserves_def
  proof
    fix h
    obtain r h' where run: "remove_owned_override ini uid p h = (r, h')" by fastforce
    from run [unfolded remove_owned_override_def] have "keeps_at q n h h'"
    proof (cases rule: hbindE)
      case (Error e)
      then show ?thesis using preservesD [OF at.keeps_probe_owned] by blast
    next
      case (Next ev h1)
      show ?thesis
      proof (cases ev)
        case AmbiguousLegacy
        then show ?thesis
          using Next preservesD [OF at.keeps_probe_owned Next(1)] by (simp add: hreturn_def hbind_def)
      qed (use probe(1,2) [OF Next(1)] foreign True in \<open>auto simp: keeps_at_def\<close>)
    qed
    then show "keeps_at q n h (snd (remove_owned_override ini uid p h))" by (simp add: run)
  qed
qed

lemma owned_paths_plain: "p \<in> set (owned_paths d e) \<Longrightarrow> d \<noteq> [] \<Longrightarrow> e \<noteq> [] \<Longrightarrow> p \<noteq> [RootDir]"
  by (auto simp: owned_paths_def)

lemma override_dirs_nonempty: "service_override_dir roots m \<noteq> []" "transient_service_override_dir roots m \<noteq> []"
  by (simp_all add: service_override_dir_def transient_service_override_dir_def)

lemma operation_keeps:
  assumes "\<not> may_change roots ini op q n"
  shows "preserves (keeps_at q n) (execute_systemd_unit_operation roots ini esc op)"
proof (cases op)
  case (ReadOverrides m)
  then show ?thesis by (auto intro!: at.keeps_rules at.keeps_read_drop_ins)
next
  case (ProbeOwnedOverrides m)
  then show ?thesis
    by (auto simp: probe_lasper_overrides_at_with_uid_def
        intro!: at.keeps_rules at.keeps_hmap at.keeps_probe_owned at.keeps_probe_legacy)
next
  case (WriteOverride m spec)
  then show ?thesis
    using assms by (auto simp: Let_def intro!: at.keeps_rules apply_new_override_keeps override_paths_plain)
next
  case (CloneOverride source destination)
  then show ?thesis
    using assms by (auto intro!: at.keeps_rules at.keeps_read_optional apply_new_override_keeps override_paths_plain)
next
  case (WriteNvidiaDeviceAllow m paths)
  have "preserves (keeps_at q n) (\<lambda>h. (Inr (), snd (remove_optional_file (transient_nvidia_override_path roots m) h)))"
    using at.keeps_remove_optional_file [OF keeps_at_calls(1)] assms WriteNvidiaDeviceAllow by (simp add: preserves_def)
  then show ?thesis
    using assms WriteNvidiaDeviceAllow
    by (auto simp: Let_def write_nvidia_device_allow_at_def
        intro!: at.keeps_rules at.keeps_write_atomic keeps_at_persist)
next
  case (RemoveOverride m)
  then show ?thesis
    using assms
    by (auto simp: remove_service_override_at_def Let_def service_override_path_def
        intro!: at.keeps_rules at.keeps_remove_optional_file at.keeps_remove_empty_dir keeps_at_calls)
next
  case (RemoveOwnedOverrides m)
  then show ?thesis
    using assms owned_paths_plain [OF _ override_dirs_nonempty, of _ roots m roots m]
    by (auto simp: remove_owned_lasper_overrides_at_with_uid_def Let_def
        intro!: at.keeps_rules at.keeps_hmap remove_owned_override_keeps at.keeps_probe_legacy at.keeps_remove_empty_dir keeps_at_calls)
qed

section \<open>Changes are claimed\<close>

text \<open>The request as the dispatcher sees it when it takes claims.\<close>

fun claimed :: "UnitOperation \<Rightarrow> SystemdUnitOperation" where
  "claimed (ReadOverrides m) = UnitRead m"
| "claimed (ProbeOwnedOverrides m) = UnitProbeOwnedOverrides m"
| "claimed (WriteOverride m spec) = UnitWriteOverride m"
| "claimed (CloneOverride source destination) = UnitCloneOverride source destination"
| "claimed (WriteNvidiaDeviceAllow m paths) = UnitWriteNvidiaDeviceAllow m"
| "claimed (RemoveOverride m) = UnitRemoveOverride m"
| "claimed (RemoveOwnedOverrides m) = UnitRemoveOwnedOverrides m"

text \<open>The drop-in directories of a machine and what is in them.\<close>

definition unit_area :: "HostRoots \<Rightarrow> MachineName \<Rightarrow> path \<Rightarrow> bool" where
  "unit_area roots m p \<longleftrightarrow>
     p = service_override_dir roots m \<or> below (service_override_dir roots m) p \<or>
     p = transient_service_override_dir roots m \<or> below (transient_service_override_dir roots m) p"

lemma below_child: "below d (d @ [c])"
  by (simp add: below_def)

lemma below_lock: "below d (lock_path_for (d @ [Normal n]))"
  by (simp add: lock_path_for_def below_def)

fun changed_machine :: "UnitOperation \<Rightarrow> MachineName" where
  "changed_machine (ReadOverrides m) = m"
| "changed_machine (ProbeOwnedOverrides m) = m"
| "changed_machine (WriteOverride m spec) = m"
| "changed_machine (CloneOverride source destination) = destination"
| "changed_machine (WriteNvidiaDeviceAllow m paths) = m"
| "changed_machine (RemoveOverride m) = m"
| "changed_machine (RemoveOwnedOverrides m) = m"

lemmas unit_paths = service_override_path_def persistent_nvidia_override_path_def transient_nvidia_override_path_def owned_paths_def

lemma may_change_area: "may_change roots ini op p n \<Longrightarrow> unit_area roots (changed_machine op) p"
  by (cases op) (auto simp: unit_area_def unit_paths Let_def below_child below_lock)

lemma may_change_claimed:
  "may_change roots ini op p n \<Longrightarrow> claim_exclusive (for_machine (changed_machine op)) \<in> set (systemd_unit_claims (claimed op))"
  by (cases op) (simp_all add: unit_mutation_claims_def)

text \<open>
  C10. Which operation may replace or remove what, whatever fails: when an operation leaves an existing file, link or
  directory changed, then it was one of these. Writing or cloning an override changes the override file of its
  machine, and only if it is provably Lasper's (owned by root, of mode 0644, marked, and listing nothing but
  devices). Cleaning up owned overrides changes only such files at Lasper's own paths, the locks beside these paths,
  and the machine's drop-in directories. Writing the NVIDIA device rules changes only the two NVIDIA drop-ins of the
  machine, and removing the override changes only the override file, its lock and its drop-in directory; these two
  take the paths as Lasper's own and prove nothing about the file that is there. Reading and probing change
  nothing. In every case the request claims exclusively the machine in whose drop-in directories the change lies.
\<close>

theorem unit_changes_allowed:
  assumes "execute_systemd_unit_operation roots ini esc op h = (r, h')" and "node h p = Some n" and "node h' p \<noteq> Some n"
  shows "may_change roots ini op p n \<and>
    (\<exists>m. unit_area roots m p \<and> claim_exclusive (for_machine m) \<in> set (systemd_unit_claims (claimed op)))"
proof -
  have "may_change roots ini op p n"
    using preservesD [OF operation_keeps assms(1), of p n] assms(2,3) by (auto simp: keeps_at_def)
  then show ?thesis using may_change_area may_change_claimed by blast
qed

section \<open>Written overrides are found and removed again\<close>

lemma probe_ambiguous:
  assumes "probe_owned_override_at ini p uid h = (Inr AmbiguousLegacy, h')" and "p \<noteq> [RootDir]"
  shows "\<exists>n. node h p = Some n \<and> \<not> owned_file ini uid n"
  using assms(1) [unfolded probe_owned_override_at_def]
proof (rule hmatchE)
  fix r h1
  assume meta: "symlink_metadata p h = (r, h1)"
    and rest: "(case r of Inl e \<Rightarrow> if e = ENOENT then hreturn NotPresent else hfail (Io (path_text p) e)
       | Inr (FileNode f) \<Rightarrow>
           if length (hf_text f) > MAX_OVERRIDE_CONTENT_BYTES \<or> hf_uid f \<noteq> uid \<or> hf_mode f AND 4095 \<noteq> 420
           then hreturn AmbiguousLegacy
           else hbind (read_override_content p) (\<lambda>content.
               hreturn (if is_owned_override_content ini content then ProvenOwned else AmbiguousLegacy))
       | Inr _ \<Rightarrow> hreturn AmbiguousLegacy) h1 = (Inr AmbiguousLegacy, h')"
  have n1: "node h1 = node h" using looking_result(1) [OF meta] .
  have known: "r = Inr n \<Longrightarrow> node h p = Some n" for n
    using meta assms(2) unfolding symlink_metadata_def
    by (auto elim!: host_callE simp: found_def split: option.splits if_splits)
  show ?thesis
    using rest known n1
    by (auto simp: hreturn_def hfail_def owned_file_def elim!: hbindE dest!: read_override_file
        split: sum.splits HostNode.splits if_splits)
qed

lemma apply_new_override_result:
  assumes "apply_new_override_at_with_uid ini p content uid h = (Inr st, h')" and "p \<noteq> []" and "last p = Normal name"
  shows "if st = ConflictUnknownOwner then \<exists>n. node h p = Some n \<and> \<not> owned_file ini uid n \<and> node h' p = Some n
    else node h' p = Some (written_file h 420 content) \<or>
      (\<exists>n. node h' p = Some n \<and> owned_file ini uid n \<and> text_at h' p = Some content)"
  using assms(1) [unfolded apply_new_override_at_with_uid_def]
proof (cases rule: hbindE)
  case (Next ev h1)
  have root: "p \<noteq> [RootDir]" using assms(2,3) by auto
  note probe = probe_owned_result [OF Next(1) root]
  have s1: "same_process h h1" using Next(1) by (rule preservesD [OF process.keeps_probe_owned])
  have n1: "node h1 = node h" using probe_nodes [OF Next(1)] .
  show ?thesis
  proof (cases "ev = AmbiguousLegacy")
    case True
    then show ?thesis using Next n1 probe_ambiguous [of ini p uid h h1] root by (auto simp: hreturn_def)
  next
    case False
    have run: "apply_locked_inner p (Some 420) (override_update ini content ev) h1 = (Inr st, h')" using Next(2) False by simp
    have plain: "plain_target h1 p" using probe(3) [OF False] n1 by (simp add: plain_target_def)
    have own: "text_at h1 p = Some t \<Longrightarrow> ev = ProvenOwned \<and> is_owned_override_content ini t" for t
      using probe(1,2) False n1 by (cases ev) (auto simp: text_at_def owned_file_def split: option.splits HostNode.splits)
    note outcome = apply_locked_outcome [OF run assms(2,3)]
    show ?thesis
    proof (cases "text_at h1 p")
      case None
      then have gen: "override_update ini content ev (text_at h1 p) = Inr (Some content, ApplyCreated)"
        by (simp add: override_update_def)
      have "st = ApplyCreated" "node h' p = Some (written_file h1 420 content)" using outcome plain unfolding gen by auto
      then show ?thesis using s1 by (simp add: written_file_def same_process_def)
    next
      case (Some t)
      then have gen: "override_update ini content ev (text_at h1 p) =
          Inr (if t = content then (None, Unchanged) else (Some content, ReplacedOwned))"
        using own [OF Some] by (simp add: override_update_def)
      have "if t = content then st = Unchanged \<and> node h' p = node h1 p
          else st = ReplacedOwned \<and> node h' p = Some (written_file h1 420 content)"
        using outcome plain unfolding gen by (auto split: if_splits)
      moreover have "\<exists>n. node h p = Some n \<and> owned_file ini uid n" using own [OF Some] probe(1) by simp
      ultimately show ?thesis
        using Some n1 s1 by (auto simp: text_at_def written_file_def same_process_def split: if_splits)
    qed
  qed
qed simp

text \<open>What is not there stays away from calls that make nothing.\<close>

definition stays_absent :: "path \<Rightarrow> Host \<Rightarrow> Host \<Rightarrow> bool" where
  "stays_absent p h h' \<longleftrightarrow> (node h p = None \<longrightarrow> node h' p = None)"

interpretation absent: host_reading "stays_absent p" for p
  by unfold_locales (auto simp: stays_absent_def)

lemma absent_calls: "preserves (stays_absent p) (unlink q)" "preserves (stays_absent p) (rmdir q)"
  unfolding unlink_def rmdir_def
  by (intro absent.keeps_host_call; auto simp: preserves_def stays_absent_def split: option.splits HostNode.splits)+

lemma absent_remove_owned: "preserves (stays_absent p) (remove_owned_override ini uid q)"
  unfolding remove_owned_override_def
  by (auto intro!: absent.keeps_rules absent.keeps_probe_owned absent.keeps_remove_optional_file absent.keeps_remove_lock absent_calls
      split: ArtifactOwnership.split)

lemma host_call_quiet: "h_faults h = [] \<Longrightarrow> host_call f h = f h"
  by (simp add: host_call_def)

lemma probe_quiet:
  assumes "h_faults h = []" and "node h p = Some (FileNode f)" and "owned_file ini uid (FileNode f)" and "utf8_ok (hf_text f)"
  shows "probe_owned_override_at ini p uid h = (Inr ProvenOwned, h)"
proof -
  have "resolve MAXSYMLINKS h p = Inr p" using assms(2) by (simp add: MAXSYMLINKS_def numeral_eq_Suc)
  then show ?thesis
    using assms
    by (simp add: probe_owned_override_at_def hmatch_def symlink_metadata_def host_call_quiet found_def read_override_content_def
        hbind_def io_def follow_def descriptor_def read_all_def hreturn_def hlift_def from_utf8_def owned_file_def not_less
        del: and_then_eq_Inr)
qed

lemma probe_absent:
  "h_faults h = [] \<Longrightarrow> node h p = None \<Longrightarrow> lookup_error h p = ENOENT \<Longrightarrow> p \<noteq> [RootDir] \<Longrightarrow>
   probe_owned_override_at ini p uid h = (Inr NotPresent, h)"
  by (simp add: probe_owned_override_at_def hmatch_def symlink_metadata_def host_call_quiet found_def hreturn_def)

lemma override_update_absent:
  "override_update ini c NotPresent = (\<lambda>e. Inr (case e of None \<Rightarrow> (Some c, ApplyCreated)
     | Some old \<Rightarrow> (None, if old = c then Unchanged else ConflictUnknownOwner)))"
  by (auto simp: override_update_def fun_eq_iff split: option.splits)

lemma remove_owned_removes:
  assumes "h_faults h = []" and "node h (service_override_path roots m) = Some (FileNode f)" and "owned_file ini 0 (FileNode f)"
    and "utf8_ok (hf_text f)"
    and "execute_systemd_unit_operation roots ini esc (RemoveOwnedOverrides m) h = (r, h')"
  shows "node h' (service_override_path roots m) = None"
proof -
  let ?p = "service_override_path roots m" and ?d = "service_override_dir roots m" and ?e = "transient_service_override_dir roots m"
  have removed: "remove_optional_file ?p h = (Inr (), delete_node ?p h)"
    using assms(1,2) by (simp add: remove_optional_file_def hmatch_def unlink_def host_call_quiet hreturn_def)
  have later: "preserves (stays_absent ?p) (hbind (hmap (remove_owned_override ini 0) (tl (owned_paths ?d ?e))) (\<lambda>ys. hreturn (ev # ys)))" for ev
    by (intro absent.keeps_rules absent.keeps_hmap absent_remove_owned)
  have rest: "preserves (stays_absent ?p) (hbind (hmap probe_legacy_override_at (legacy_paths ?d ?e)) (\<lambda>legacy.
      hbind (remove_empty_dir ?d) (\<lambda>_. hbind (remove_empty_dir ?e) (\<lambda>_. hreturn (owned @ legacy)))))" for owned
    by (intro absent.keeps_rules absent.keeps_hmap absent.keeps_probe_legacy absent.keeps_remove_empty_dir absent_calls)
  define h1 where "h1 = delete_node ?p h"
  have first: "remove_owned_override ini 0 ?p h = hbind (remove_optional_file (lock_path_for ?p)) (\<lambda>_. hreturn ProvenOwned) h1"
    using probe_quiet [OF assms(1-4)] removed by (simp add: remove_owned_override_def hbind_def h1_def split: prod.splits sum.splits)
  have lock: "preserves (stays_absent ?p) (hbind (remove_optional_file (lock_path_for ?p)) (\<lambda>_. hreturn ProvenOwned))"
    by (intro absent.keeps_rules absent.keeps_remove_optional_file absent_calls)
  have paths: "hmap g (owned_paths ?d ?e) = hbind (g ?p) (\<lambda>y. hbind (hmap g (tl (owned_paths ?d ?e))) (\<lambda>ys. hreturn (y # ys)))" for g
    by (simp add: owned_paths_def service_override_path_def)
  let ?m = "hbind (hbind (hbind (remove_optional_file (lock_path_for ?p)) (\<lambda>_. hreturn ProvenOwned)) (\<lambda>ev.
      hbind (hmap (remove_owned_override ini 0) (tl (owned_paths ?d ?e))) (\<lambda>ys. hreturn (ev # ys)))) (\<lambda>owned.
      hbind (hmap probe_legacy_override_at (legacy_paths ?d ?e)) (\<lambda>legacy.
      hbind (remove_empty_dir ?d) (\<lambda>_. hbind (remove_empty_dir ?e) (\<lambda>_. hreturn (owned @ legacy)))))"
  have "remove_owned_lasper_overrides_at_with_uid ini ?d ?e 0 h = ?m h1"
    unfolding remove_owned_lasper_overrides_at_with_uid_def paths by (simp add: hbind_def first)
  moreover have "preserves (stays_absent ?p) ?m" by (intro absent.keeps_hbind lock later rest)
  ultimately have "stays_absent ?p h1 (snd (remove_owned_lasper_overrides_at_with_uid ini ?d ?e 0 h))" by (simp add: preserves_def)
  moreover have "h' = snd (remove_owned_lasper_overrides_at_with_uid ini ?d ?e 0 h)"
    using assms(5) by (auto simp: hbind_def hreturn_def split: prod.splits sum.splits)
  ultimately show ?thesis by (simp add: stays_absent_def h1_def)
qed

text \<open>The text of an accepted specification proves itself.\<close>

lemma written_is_owned:
  assumes "validate_override_spec esc spec = Inr ()"
    and "load_from_str ini content = Some [(None, []), (Some ''Service'', device_allow_entries (so_device_binds spec) (so_gpu_passthrough_all spec))]"
    and "content = systemd_override_content ini (so_device_binds spec) (so_gpu_passthrough_all spec)"
  shows "is_owned_override_content ini content"
proof -
  have "owned_entry (''DeviceAllow'', dev @ '' rw'')" if "dev = ALL_DRM_DEVICE_ALLOW \<or> dev \<in> set (so_device_binds spec)" for dev
  proof -
    have "strip_suffix (dev @ '' rw'') '' rw'' = Some dev" by (simp only: strip_suffix_Some)
    moreover have "is_ok (validate_device_allow_spec id dev)"
      using that assms(1)
      by (auto simp: validate_device_allow_spec_def validate_override_spec_def validate_device_allow_paths_def
          validate_device_allow_path_def split: if_splits)
    ultimately show ?thesis by (simp add: owned_entry_def)
  qed
  then have "list_all owned_entry (device_allow_entries (so_device_binds spec) (so_gpu_passthrough_all spec))"
    by (auto simp: device_allow_entries_def list_all_iff)
  moreover have "starts_with content (LASPER_OVERRIDE_MARKER @ [CHR 0x0A])"
    by (simp add: assms(3) systemd_override_content_def starts_with_def)
  ultimately show ?thesis using assms(2) by (simp add: is_owned_override_content_def)
qed

text \<open>
  C11. Overrides can be written and taken back: when root's daemon reports the result of writing an override, then
  either it met a file that is not provably Lasper's and left it as it was, reporting the conflict; or the file now
  holds exactly the text for the requested devices, is provably Lasper's, and a cleanup that meets no failure
  removes it. This relies on the INI package reading the written document back.
\<close>

theorem override_write_roundtrip:
  assumes "execute_systemd_unit_operation roots ini esc (WriteOverride m spec) h = (Inr result, h')" and "h_uid h = 0"
    and "content = systemd_override_content ini (so_device_binds spec) (so_gpu_passthrough_all spec)" and "utf8_ok content"
    and "load_from_str ini content = Some [(None, []), (Some ''Service'', device_allow_entries (so_device_binds spec) (so_gpu_passthrough_all spec))]"
  shows "if ur_apply result = Some ConflictUnknownOwner
    then \<exists>n. node h (service_override_path roots m) = Some n \<and> \<not> owned_file ini 0 n \<and> node h' (service_override_path roots m) = Some n
    else \<exists>n. node h' (service_override_path roots m) = Some n \<and> owned_file ini 0 n \<and>
      text_at h' (service_override_path roots m) = Some content \<and>
      node (snd (execute_systemd_unit_operation roots ini esc (RemoveOwnedOverrides m) (h'\<lparr>h_faults := [], h_locks := []\<rparr>)))
        (service_override_path roots m) = None"
proof -
  let ?p = "service_override_path roots m"
  obtain st where valid: "validate_override_spec esc spec = Inr ()" "validate_override_size content = Inr ()"
    and run: "apply_new_override_at_with_uid ini ?p content 0 h = (Inr st, h')" and res: "ur_apply result = Some st"
    using assms(1) unfolding assms(3)
    by (auto simp: Let_def hlift_def hreturn_def elim!: hbindE)
  have small: "length content \<le> MAX_OVERRIDE_CONTENT_BYTES" using valid(2) by (simp add: validate_override_size_def split: if_splits)
  have mine: "owned_file ini 0 (written_file h 420 content)"
    using written_is_owned [OF valid(1) assms(5,3)] small assms(2) by (simp add: owned_file_def written_file_def)
  note result = apply_new_override_result [OF run override_paths_plain(1,2)]
  show ?thesis
  proof (cases "st = ConflictUnknownOwner")
    case True
    then show ?thesis using result res by simp
  next
    case False
    then obtain n where n: "node h' ?p = Some n" "owned_file ini 0 n" "text_at h' ?p = Some content"
      using result mine by (auto simp: text_at_def written_file_def)
    then obtain f where f: "n = FileNode f" "hf_text f = content" by (auto simp: text_at_def split: HostNode.splits)
    have "node (snd (execute_systemd_unit_operation roots ini esc (RemoveOwnedOverrides m) (h'\<lparr>h_faults := [], h_locks := []\<rparr>))) ?p = None"
      using n f assms(4)
      by (intro remove_owned_removes [of "h'\<lparr>h_faults := [], h_locks := []\<rparr>" roots m f ini esc _ _, OF _ _ _ _ prod.collapse [symmetric]]) simp_all
    with n False res show ?thesis by auto
  qed
qed

text \<open>A machine with two drop-ins: one of the administrator's, one of Lasper's.\<close>

definition unit_machine :: MachineName where
  "unit_machine = MachineName ''web''"

definition unit_spec :: ServiceOverrideSpec where
  "unit_spec = \<lparr>so_device_binds = [''/dev/fuse''], so_gpu_passthrough_all = False\<rparr>"

definition unit_document :: ini_document where
  "unit_document = [(None, []), (Some ''Service'', [(''DeviceAllow'', ''/dev/fuse rw'')])]"

definition unit_ini :: IniCodec where
  "unit_ini = \<lparr>load_from_str = (\<lambda>s. if s = LASPER_OVERRIDE_MARKER @ [CHR 0x0A] @ ''[Service]'' @ [CHR 0x0A] @ ''DeviceAllow=/dev/fuse rw'' @ [CHR 0x0A]
       then Some unit_document else None),
     write_to = (\<lambda>d. if d = tl unit_document then ''[Service]'' @ [CHR 0x0A] @ ''DeviceAllow=/dev/fuse rw'' @ [CHR 0x0A] else [])\<rparr>"

definition unit_directories :: "(path \<times> HostNode) list" where
  "unit_directories = map (\<lambda>k. (take k (service_override_dir default_roots unit_machine), DirectoryNode)) [2..<6]"

definition unit_host :: Host where
  "unit_host = \<lparr>h_nodes = (lock_path_for (service_override_path default_roots unit_machine),
       FileNode \<lparr>hf_uid = 0, hf_mode = 420, hf_text = []\<rparr>) # unit_directories, h_uid = 0, h_umask = 18, h_faults = [], h_locks = [], h_temps = [''a'', ''b'']\<rparr>"

definition unit_removable :: Host where
  "unit_removable = put_node (service_override_path default_roots unit_machine)
     (FileNode \<lparr>hf_uid = 0, hf_mode = 420, hf_text = ''x''\<rparr>) unit_host"

theorem unit_changes_allowed_witness:
  "\<exists>m. unit_area default_roots m (service_override_path default_roots unit_machine)
     \<and> claim_exclusive (for_machine m) \<in> set (systemd_unit_claims (UnitRemoveOverride unit_machine))"
proof -
  let ?p = "service_override_path default_roots unit_machine"
  let ?run = "execute_systemd_unit_operation default_roots unit_ini id (RemoveOverride unit_machine) unit_removable"
  have before: "node unit_removable ?p = Some (FileNode \<lparr>hf_uid = 0, hf_mode = 420, hf_text = ''x''\<rparr>)"
    by (simp add: unit_removable_def)
  have after: "node (snd ?run) ?p = None" by code_simp
  show ?thesis
    using unit_changes_allowed [OF prod.collapse [symmetric] before, of default_roots unit_ini id "RemoveOverride unit_machine"] after
    by simp
qed

theorem override_write_roundtrip_witness:
  "\<exists>result h'. execute_systemd_unit_operation default_roots unit_ini id (WriteOverride unit_machine unit_spec) unit_host = (Inr result, h')
     \<and> ur_apply result = Some ApplyCreated
     \<and> text_at h' (service_override_path default_roots unit_machine) = Some (systemd_override_content unit_ini [''/dev/fuse''] False)"
proof -
  let ?p = "service_override_path default_roots unit_machine"
  let ?run = "execute_systemd_unit_operation default_roots unit_ini id (WriteOverride unit_machine unit_spec) unit_host"
  let ?c = "systemd_override_content unit_ini (so_device_binds unit_spec) (so_gpu_passthrough_all unit_spec)"
  have "validate_override_spec id unit_spec = Inr ()"
    by (simp add: validate_override_spec_def validate_device_allow_paths_def validate_device_allow_path_def unit_spec_def
        MAX_DEVICE_ALLOW_ENTRIES_def is_absolute_def starts_with_def ctrl1_def ctrl2_def)
  moreover have "validate_override_size ?c = Inr ()"
    by (simp add: validate_override_size_def systemd_override_content_def unit_spec_def unit_ini_def LASPER_OVERRIDE_MARKER_def
        MAX_OVERRIDE_CONTENT_BYTES_def)
  moreover have "fst (apply_new_override_at_with_uid unit_ini ?p ?c 0 unit_host) = Inr ApplyCreated"
  proof -
    have "node unit_host ?p = None" "lookup_error unit_host ?p = ENOENT" "?p \<noteq> [RootDir]" by code_simp+
    then have "probe_owned_override_at unit_ini ?p 0 unit_host = (Inr NotPresent, unit_host)"
      by (intro probe_absent) (simp add: unit_host_def)
    moreover have "fst (apply_locked_inner ?p (Some 420) (\<lambda>e. Inr (case e of None \<Rightarrow> (Some ?c, ApplyCreated)
        | Some old \<Rightarrow> (None, if old = ?c then Unchanged else ConflictUnknownOwner))) unit_host) = Inr ApplyCreated"
      by code_simp
    ultimately show ?thesis
      by (simp add: apply_new_override_at_with_uid_def hbind_def override_update_absent)
  qed
  ultimately have "fst ?run = Inr (unit_result_default\<lparr>ur_apply := Some ApplyCreated\<rparr>)"
    by (auto simp: hbind_def hlift_def hreturn_def Let_def split: prod.splits sum.splits)
  then have run: "?run = (Inr (unit_result_default\<lparr>ur_apply := Some ApplyCreated\<rparr>), snd ?run)" by (metis prod.collapse)
  have root: "h_uid unit_host = 0" by (simp add: unit_host_def)
  have utf8: "utf8_ok ?c" by code_simp
  have law: "load_from_str unit_ini ?c = Some [(None, []), (Some ''Service'', device_allow_entries (so_device_binds unit_spec) (so_gpu_passthrough_all unit_spec))]"
    by code_simp
  have applied: "ur_apply (unit_result_default\<lparr>ur_apply := Some ApplyCreated\<rparr>) = Some ApplyCreated" by simp
  have "text_at (snd ?run) ?p = Some ?c"
    using override_write_roundtrip [OF run root refl utf8 law] unfolding applied by auto
  moreover have "?c = systemd_override_content unit_ini [''/dev/fuse''] False" by (simp add: unit_spec_def)
  ultimately show ?thesis using run applied by metis
qed

end
