(* ===== verification/Oci_Promotion.thy ===== *)
theory Oci_Promotion
  imports Nspawn_Document
begin

text \<open>
  Promotion of the runtime configuration of an OCI machine to an administrator's \<open>.nspawn\<close> file
  (\<open>promote_oci_content\<close> in \<open>src/adapters/config/store.rs\<close>): user and network policy are set, everything else is
  carried over.
\<close>

section \<open>The edit\<close>

definition LASPER_OCI_CONFIG_MARKER :: string where
  "LASPER_OCI_CONFIG_MARKER = ''# Managed by Lasper: promoted systemd OCI runtime configuration''"

definition MAX_NSPAWN_CONTENT_BYTES :: nat where
  "MAX_NSPAWN_CONTENT_BYTES = 1024 * 1024"

definition validate_content_size :: "string \<Rightarrow> NspawnError + unit" where
  "validate_content_size content =
     (if length content > MAX_NSPAWN_CONTENT_BYTES
      then Inl (ValidationError (''.nspawn content exceeds '' @ show_nat MAX_NSPAWN_CONTENT_BYTES @ '' bytes''))
      else Inr ())"

text \<open>\<open>str::lines\<close>: without the newline, and without a carriage return before it.\<close>

definition strip_line :: "string \<Rightarrow> string" where
  "strip_line l =
     (case strip_suffix l [CHR 0x0A] of
        None \<Rightarrow> l
      | Some m \<Rightarrow> (case strip_suffix m [CHR 0x0D] of None \<Rightarrow> m | Some k \<Rightarrow> k))"

definition str_lines :: "string \<Rightarrow> string list" where
  "str_lines s = map strip_line (split_inclusive (CHR 0x0A) s)"

fun oci_resolv_conf :: "OciNetworkMode \<Rightarrow> string" where
  "oci_resolv_conf OciHost = ''bind-host''"
| "oci_resolv_conf OciIsolated = ''off''"
| "oci_resolv_conf OciVeth = ''off''"

fun oci_network_policy :: "OciNetworkMode \<Rightarrow> string list" where
  "oci_network_policy OciHost = [''Private=no'', ''VirtualEthernet=no'']"
| "oci_network_policy OciIsolated = [''Private=yes'', ''VirtualEthernet=no'']"
| "oci_network_policy OciVeth = [''Private=yes'', ''VirtualEthernet=yes'']"

definition oci_managed_network_key :: "string \<Rightarrow> bool" where
  "oci_managed_network_key key \<longleftrightarrow>
     key \<in> {''Private'', ''VirtualEthernet'', ''VirtualEthernetExtra'', ''Interface'', ''MACVLAN'', ''IPVLAN'', ''Bridge'',
            ''Zone'', ''NamespacePath'', ''Port''}"

record PromoteState =
  pr_result :: "string list"
  pr_in_exec :: bool
  pr_in_network :: bool
  pr_found_exec :: bool
  pr_found_network :: bool

definition key_is :: "(string \<Rightarrow> bool) \<Rightarrow> string \<Rightarrow> bool" where
  "key_is P trimmed \<longleftrightarrow> (case split_once CHR ''='' trimmed of Some (key, _) \<Rightarrow> P (trim key) | None \<Rightarrow> False)"

definition promote_line :: "OciNetworkMode \<Rightarrow> string \<Rightarrow> PromoteState \<Rightarrow> PromoteState" where
  "promote_line network line st =
     (let trimmed = trim line in
      if starts_with trimmed ''['' \<and> ends_with trimmed '']''
      then
        let st = (if pr_in_network st then st\<lparr>pr_result := pr_result st @ oci_network_policy network\<rparr> else st);
            st = st\<lparr>pr_in_exec := trimmed = ''[Exec]'', pr_in_network := trimmed = ''[Network]''\<rparr>;
            st = (if pr_in_exec st then st\<lparr>pr_found_exec := True\<rparr> else st);
            st = (if pr_in_network st then st\<lparr>pr_found_network := True\<rparr> else st);
            st = st\<lparr>pr_result := pr_result st @ [line]\<rparr> in
        (if pr_in_exec st
         then st\<lparr>pr_result := pr_result st @ [''PrivateUsers=no'', ''ResolvConf='' @ oci_resolv_conf network]\<rparr> else st)
      else if pr_in_exec st \<and> key_is (\<lambda>k. k = ''PrivateUsers'') trimmed \<or> pr_in_exec st \<and> key_is (\<lambda>k. k = ''ResolvConf'') trimmed
         \<or> pr_in_network st \<and> key_is oci_managed_network_key trimmed
      then st
      else st\<lparr>pr_result := pr_result st @ [line]\<rparr>)"

definition promote_start :: "string \<Rightarrow> PromoteState" where
  "promote_start content =
     \<lparr>pr_result = (if str_lines content \<noteq> [] \<and> hd (str_lines content) = LASPER_OCI_CONFIG_MARKER then [] else [LASPER_OCI_CONFIG_MARKER]),
      pr_in_exec = False, pr_in_network = False, pr_found_exec = False, pr_found_network = False\<rparr>"

definition promote_lines :: "OciNetworkMode \<Rightarrow> PromoteState \<Rightarrow> string list" where
  "promote_lines network st =
     (let result = pr_result st;
          result = (if pr_in_network st then result @ oci_network_policy network else result) in
      if pr_found_network st then result
      else result @ (if result \<noteq> [] \<and> last result \<noteq> [] then [[]] else []) @ [''[Network]''] @ oci_network_policy network)"

definition promote_oci_content :: "string \<Rightarrow> OciNetworkMode \<Rightarrow> NspawnError + string" where
  "promote_oci_content content network =
     (let st = fold (promote_line network) (str_lines content) (promote_start content) in
      if \<not> pr_found_exec st then Inl (ValidationError ''OCI runtime configuration has no [Exec] section'')
      else
        let promoted = join [CHR 0x0A] (promote_lines network st) @ (if ends_with content [CHR 0x0A] then [CHR 0x0A] else []) in
        and_then (validate_content_size promoted) (\<lambda>_. Inr promoted))"

section \<open>Settings of a file\<close>

text \<open>The settings in the order of the file: section header, key and value.\<close>

fun settings :: "string \<Rightarrow> string list \<Rightarrow> (string \<times> string \<times> string) list" where
  "settings sec [] = []"
| "settings sec (l # ls) =
     (if starts_with (trim l) ''['' \<and> ends_with (trim l) '']'' then settings (trim l) ls
      else (case split_once CHR ''='' (trim l) of Some (k, v) \<Rightarrow> (sec, trim k, v) # settings sec ls | None \<Rightarrow> settings sec ls))"

fun section_after :: "string \<Rightarrow> string list \<Rightarrow> string" where
  "section_after sec [] = sec"
| "section_after sec (l # ls) = section_after (if starts_with (trim l) ''['' \<and> ends_with (trim l) '']'' then trim l else sec) ls"

definition file_settings :: "string \<Rightarrow> (string \<times> string \<times> string) list" where
  "file_settings content = settings [] (split_inclusive (CHR 0x0A) content)"

text \<open>The settings that promotion decides, and its decisions.\<close>

definition promoted_key :: "string \<times> string \<times> string \<Rightarrow> bool" where
  "promoted_key s \<longleftrightarrow>
     (case s of (sec, k, v) \<Rightarrow> sec = ''[Exec]'' \<and> k \<in> {''PrivateUsers'', ''ResolvConf''} \<or> sec = ''[Network]'' \<and> oci_managed_network_key k)"

definition exec_policy :: "OciNetworkMode \<Rightarrow> (string \<times> string \<times> string) list" where
  "exec_policy network = [(''[Exec]'', ''PrivateUsers'', ''no''), (''[Exec]'', ''ResolvConf'', oci_resolv_conf network)]"

fun network_policy :: "OciNetworkMode \<Rightarrow> (string \<times> string \<times> string) list" where
  "network_policy OciHost = [(''[Network]'', ''Private'', ''no''), (''[Network]'', ''VirtualEthernet'', ''no'')]"
| "network_policy OciIsolated = [(''[Network]'', ''Private'', ''yes''), (''[Network]'', ''VirtualEthernet'', ''no'')]"
| "network_policy OciVeth = [(''[Network]'', ''Private'', ''yes''), (''[Network]'', ''VirtualEthernet'', ''yes'')]"

lemma settings_append: "settings sec (a @ b) = settings sec a @ settings (section_after sec a) b"
  by (induction a arbitrary: sec) (auto split: option.splits)

lemma section_after_append [simp]: "section_after sec (a @ b) = section_after (section_after sec a) b"
  by (induction a arbitrary: sec) auto

lemma settings_trim: "map trim a = map trim b \<Longrightarrow> settings sec a = settings sec b \<and> section_after sec a = section_after sec b"
proof (induction a arbitrary: b sec)
  case (Cons x a)
  then obtain y b' where b: "b = y # b'" "trim x = trim y" "map trim a = map trim b'" by (cases b) auto
  then show ?case using Cons.IH [OF b(3)] by (auto split: option.splits)
qed simp

text \<open>The lines that promotion inserts.\<close>

lemma policy_trim:
  "trim ''PrivateUsers=no'' = ''PrivateUsers=no''" "trim ''ResolvConf=bind-host'' = ''ResolvConf=bind-host''"
  "trim ''ResolvConf=off'' = ''ResolvConf=off''" "trim ''Private=no'' = ''Private=no''" "trim ''Private=yes'' = ''Private=yes''"
  "trim ''VirtualEthernet=no'' = ''VirtualEthernet=no''" "trim ''VirtualEthernet=yes'' = ''VirtualEthernet=yes''"
  "trim ''PrivateUsers'' = ''PrivateUsers''" "trim ''ResolvConf'' = ''ResolvConf''" "trim ''Private'' = ''Private''"
  "trim ''VirtualEthernet'' = ''VirtualEthernet''" "trim ''[Network]'' = ''[Network]''" "trim [] = []"
  "trim LASPER_OCI_CONFIG_MARKER = LASPER_OCI_CONFIG_MARKER"
  by code_simp+

lemma policy_settings:
  "settings ''[Exec]'' [''PrivateUsers=no'', ''ResolvConf='' @ oci_resolv_conf n] = exec_policy n"
  "section_after ''[Exec]'' [''PrivateUsers=no'', ''ResolvConf='' @ oci_resolv_conf n] = ''[Exec]''"
  "settings ''[Network]'' (oci_network_policy n) = network_policy n"
  "section_after ''[Network]'' (oci_network_policy n) = ''[Network]''"
  by (cases n; simp add: policy_trim starts_with_def exec_policy_def)+

section \<open>What promotion keeps and sets\<close>

definition promote_inv :: "OciNetworkMode \<Rightarrow> string list \<Rightarrow> PromoteState \<Rightarrow> bool" where
  "promote_inv n ls st \<longleftrightarrow>
     section_after [] (pr_result st) = section_after [] ls \<and>
     pr_in_exec st = (section_after [] ls = ''[Exec]'') \<and> pr_in_network st = (section_after [] ls = ''[Network]'') \<and>
     (pr_in_network st \<longrightarrow> pr_found_network st) \<and>
     filter (Not \<circ> promoted_key) (settings [] (pr_result st)) = filter (Not \<circ> promoted_key) (settings [] ls) \<and>
     set (filter promoted_key (settings [] (pr_result st))) \<subseteq> set (exec_policy n @ network_policy n) \<and>
     (pr_found_exec st \<longrightarrow> set (exec_policy n) \<subseteq> set (settings [] (pr_result st))) \<and>
     (pr_found_network st \<and> \<not> pr_in_network st \<longrightarrow> set (network_policy n) \<subseteq> set (settings [] (pr_result st)))"

lemma policy_promoted: "list_all promoted_key (exec_policy n)" "list_all promoted_key (network_policy n)"
  by (cases n; simp add: exec_policy_def promoted_key_def oci_managed_network_key_def)+

lemma policy_filters:
  "filter (Not \<circ> promoted_key) (exec_policy n) = []" "filter (Not \<circ> promoted_key) (network_policy n) = []"
  "filter promoted_key (exec_policy n) = exec_policy n" "filter promoted_key (network_policy n) = network_policy n"
  using policy_promoted [of n] by (simp_all add: list_all_iff filter_empty_conv)

lemma promote_header:
  assumes "promote_inv n ls st" and "starts_with (trim l) ''[''" and "ends_with (trim l) '']''"
  shows "promote_inv n (ls @ [l]) (promote_line n l st)"
proof -
  define R where "R = pr_result st @ (if pr_in_network st then oci_network_policy n else [])"
  note i = assms(1) [unfolded promote_inv_def]
  have sec: "section_after [] R = section_after [] ls"
    using i policy_settings(4) [of n] by (simp add: R_def)
  have E: "settings [] R = settings [] (pr_result st) @ (if pr_in_network st then network_policy n else [])"
    using i policy_settings(3) [of n] by (simp add: R_def settings_append)
  define R' where "R' = R @ [l] @ (if trim l = ''[Exec]'' then [''PrivateUsers=no'', ''ResolvConf='' @ oci_resolv_conf n] else [])"
  have st': "promote_line n l st = st\<lparr>pr_result := R', pr_in_exec := trim l = ''[Exec]'', pr_in_network := trim l = ''[Network]'',
      pr_found_exec := pr_found_exec st \<or> trim l = ''[Exec]'', pr_found_network := pr_found_network st \<or> trim l = ''[Network]''\<rparr>"
    using assms(2,3) by (cases st) (simp add: promote_line_def Let_def R'_def R_def)
  have sec': "section_after [] R' = trim l"
    using assms(2,3) policy_settings(2) [of n] by (simp add: R'_def)
  have E': "settings [] R' = settings [] R @ (if trim l = ''[Exec]'' then exec_policy n else [])"
    using assms(2,3) policy_settings(1) [of n] by (simp add: R'_def settings_append [of "[]" R] settings_append [of _ "[l]"])
  show ?thesis
    unfolding st' promote_inv_def using i assms(2,3) sec' E E'
    by (auto simp: settings_append policy_filters)
qed

lemma promote_other:
  assumes "promote_inv n ls st" and "\<not> (starts_with (trim l) ''['' \<and> ends_with (trim l) '']'')"
  shows "promote_inv n (ls @ [l]) (promote_line n l st)"
proof -
  note i = assms(1) [unfolded promote_inv_def]
  let ?cur = "section_after [] ls"
  define dropped where "dropped \<longleftrightarrow> list_ex promoted_key (settings ?cur [l])"
  have sec: "section_after [] (ls @ [l]) = ?cur" "section_after [] (pr_result st @ [l]) = ?cur"
    using assms(2) i by (auto simp: )
  have one: "settings ?cur [l] = [] \<or> (\<exists>s. settings ?cur [l] = [s])" using assms(2) by (auto split: option.splits)
  have drop: "dropped \<longleftrightarrow> (pr_in_exec st \<and> key_is (\<lambda>k. k = ''PrivateUsers'') (trim l) \<or> pr_in_exec st \<and> key_is (\<lambda>k. k = ''ResolvConf'') (trim l)
         \<or> pr_in_network st \<and> key_is oci_managed_network_key (trim l))"
    using assms(2) i by (auto simp: dropped_def promoted_key_def key_is_def split: option.splits)
  show ?thesis
  proof (cases dropped)
    case True
    then have "promote_line n l st = st" unfolding promote_line_def Let_def if_not_P [OF assms(2)] using drop by simp
    moreover have "filter (Not \<circ> promoted_key) (settings ?cur [l]) = []" using True one by (auto simp: dropped_def)
    ultimately show ?thesis using i sec unfolding promote_inv_def by (simp add: settings_append)
  next
    case False
    then have "promote_line n l st = st\<lparr>pr_result := pr_result st @ [l]\<rparr>"
      unfolding promote_line_def Let_def if_not_P [OF assms(2)] using drop by simp
    moreover have "filter promoted_key (settings ?cur [l]) = []" using False by (auto simp: dropped_def list_ex_iff filter_empty_conv)
    moreover have "settings [] (pr_result st @ [l]) = settings [] (pr_result st) @ settings ?cur [l]" "settings [] (ls @ [l]) = settings [] ls @ settings ?cur [l]"
      using i by (simp_all add: settings_append)
    ultimately show ?thesis using i sec unfolding promote_inv_def by auto
  qed
qed

lemma promote_fold_inv:
  assumes "promote_inv n [] st"
  shows "promote_inv n ls (fold (promote_line n) ls st)"
proof (induction ls rule: rev_induct)
  case (snoc l ls)
  then show ?case using promote_header promote_other by fastforce
qed (use assms in simp)

lemma promote_start_inv: "promote_inv n [] (promote_start c)"
proof -
  have "\<not> starts_with LASPER_OCI_CONFIG_MARKER ''[''" "split_once CHR ''='' LASPER_OCI_CONFIG_MARKER = None" by code_simp+
  then have "settings [] (pr_result (promote_start c)) = []" "section_after [] (pr_result (promote_start c)) = []"
    by (simp_all add: promote_start_def policy_trim)
  then show ?thesis by (simp add: promote_inv_def promote_start_def)
qed

lemma promote_lines_settings:
  assumes "promote_inv n ls st" and "pr_found_exec st"
  shows "filter (Not \<circ> promoted_key) (settings [] (promote_lines n st)) = filter (Not \<circ> promoted_key) (settings [] ls)"
    and "set (filter promoted_key (settings [] (promote_lines n st))) = set (exec_policy n @ network_policy n)"
proof -
  note i = assms(1) [unfolded promote_inv_def]
  define R where "R = pr_result st @ (if pr_in_network st then oci_network_policy n else [])"
  have E: "settings [] R = settings [] (pr_result st) @ (if pr_in_network st then network_policy n else [])"
    using i policy_settings(3) [of n] by (simp add: R_def settings_append)
  have tail: "settings sec ((if b then [[]] else []) @ [''[Network]''] @ oci_network_policy n) = network_policy n" for sec b
    using policy_settings(3) [of n] by (simp add: policy_trim starts_with_def ends_with_def)
  have "promote_lines n st =
      R @ (if pr_found_network st then [] else (if R \<noteq> [] \<and> last R \<noteq> [] then [[]] else []) @ [''[Network]''] @ oci_network_policy n)"
    by (cases "pr_in_network st") (simp_all add: promote_lines_def Let_def R_def del: last_append last_appendR last_appendL)
  then have "settings [] (promote_lines n st) = settings [] R @ (if pr_found_network st then [] else network_policy n)"
    using tail by (simp add: settings_append del: append.append_Cons settings.simps(2))
  then have F: "settings [] (promote_lines n st) = settings [] (pr_result st) @
      (if pr_in_network st \<or> \<not> pr_found_network st then network_policy n else [])"
    using E i by auto
  show "filter (Not \<circ> promoted_key) (settings [] (promote_lines n st)) = filter (Not \<circ> promoted_key) (settings [] ls)"
    unfolding F using i by (simp add: policy_filters)
  have "set (exec_policy n) \<subseteq> set (filter promoted_key (settings [] (pr_result st)))"
    using i assms(2) policy_promoted(1) [of n] by (auto simp: list_all_iff)
  moreover have "set (network_policy n) \<subseteq> set (filter promoted_key (settings [] (promote_lines n st)))"
    unfolding F using i policy_promoted(2) [of n] by (auto simp: list_all_iff)
  ultimately show "set (filter promoted_key (settings [] (promote_lines n st))) = set (exec_policy n @ network_policy n)"
    using i policy_filters(4) [of n] unfolding F by (auto split: if_splits)
qed

section \<open>From lines to text\<close>

lemma settings_cong: "map trim a = map trim b \<Longrightarrow> settings sec a = settings sec b"
  using settings_trim by blast

lemma trim_strip_line: "trim (strip_line l) = trim l"
proof -
  have "trim m = trim l" if "strip_suffix l [w] = Some m" "ws1 w" for l m w
  proof -
    have "l = m @ [w]" using that(1) by (simp only: strip_suffix_Some)
    then show ?thesis using that(2) by (simp add: trim_snoc)
  qed
  then show ?thesis using ws1_newline by (auto simp: strip_line_def split: option.splits)
qed

lemma settings_str_lines: "settings sec (str_lines s) = settings sec (split_inclusive nl s)"
  by (rule settings_cong) (simp add: str_lines_def comp_def trim_strip_line)

lemma line_no_newline: "terminated l \<or> nl \<notin> set l \<Longrightarrow> nl \<notin> set (strip_line l)"
proof -
  assume l: "terminated l \<or> nl \<notin> set l"
  have keep: "nl \<notin> set k" if "strip_suffix m [CHR 0x0D] = Some k" "nl \<notin> set m" for m k
  proof -
    have "m = k @ [CHR 0x0D]" using that(1) by (simp only: strip_suffix_Some)
    then show ?thesis using that(2) by simp
  qed
  show ?thesis
  proof (cases "strip_suffix l [nl]")
    case None
    have "nl \<notin> set l"
    proof
      assume "nl \<in> set l"
      then obtain b where "l = b @ [nl]" using l by (auto simp: terminated_def)
      then have "strip_suffix l [nl] = Some b" by (simp only: strip_suffix_Some)
      then show False using None by simp
    qed
    then show ?thesis using None by (simp add: strip_line_def)
  next
    case (Some m)
    then have "l = m @ [nl]" by (simp only: strip_suffix_Some)
    then have "nl \<notin> set m" using l by (auto simp: terminated_def)
    then show ?thesis using Some keep by (auto simp: strip_line_def split: option.splits)
  qed
qed

lemma str_lines_no_newline: "l \<in> set (str_lines s) \<Longrightarrow> nl \<notin> set l"
proof -
  assume "l \<in> set (str_lines s)"
  then obtain k where k: "k \<in> set (split_inclusive nl s)" "l = strip_line k" by (auto simp: str_lines_def)
  have "is_lines ls \<Longrightarrow> x \<in> set ls \<Longrightarrow> terminated x \<or> nl \<notin> set x" for ls x
    by (induction ls) (auto simp: is_lines_Cons split: if_splits)
  then show ?thesis using k is_lines_split line_no_newline by blast
qed

lemma settings_join:
  assumes "list_all (\<lambda>l. nl \<notin> set l) L" and "t \<in> {[], [nl]}"
  shows "settings sec (split_inclusive nl (join [nl] L @ t)) = settings sec L"
  using assms(1)
proof (induction L arbitrary: sec rule: induct_list012)
  case 1
  have "trim [nl] = []" by code_simp
  then show ?case using assms(2) by (auto simp: starts_with_def)
next
  case (2 x)
  show ?case
  proof (cases "x @ t = []")
    case True
    then show ?thesis by (simp add: policy_trim starts_with_def)
  next
    case False
    have "split_inclusive nl (x @ t) = [x @ t]"
      using assms(2) 2 False split_terminated [of x "[]"] split_unterminated [of x] by auto
    moreover have "trim (x @ t) = trim x" using assms(2) trim_snoc [OF ws1_newline(1)] by auto
    ultimately show ?thesis by simp
  qed
next
  case (3 x y zs)
  have "split_inclusive nl (join [nl] (x # y # zs) @ t) = (x @ [nl]) # split_inclusive nl (join [nl] (y # zs) @ t)"
    using 3(3) split_terminated [of x "join [nl] (y # zs) @ t"] by simp
  moreover have "trim (x @ [nl]) = trim x" using trim_snoc [OF ws1_newline(1)] by simp
  ultimately show ?case using 3(2) 3(3) by (simp del: join.simps) (simp split: option.splits)
qed

text \<open>The marker is the first line, so that a later promotion recognises its own file.\<close>

lemma promote_marker:
  assumes "pr_result st = [] \<longrightarrow> ls \<noteq> [] \<longrightarrow> hd ls = LASPER_OCI_CONFIG_MARKER \<and> \<not> pr_in_network st \<and> \<not> pr_in_exec st"
    and "pr_result st \<noteq> [] \<longrightarrow> hd (pr_result st) = LASPER_OCI_CONFIG_MARKER"
  shows "pr_result (fold (promote_line n) ls st) = [] \<or> hd (pr_result (fold (promote_line n) ls st)) = LASPER_OCI_CONFIG_MARKER"
  using assms
proof (induction ls arbitrary: st)
  case (Cons l ls)
  have marker: "\<not> starts_with (trim LASPER_OCI_CONFIG_MARKER) ''[''" unfolding policy_trim by code_simp
  have kept: "pr_result st \<noteq> [] \<Longrightarrow> \<exists>more. pr_result (promote_line n l st) = pr_result st @ more"
    by (simp add: promote_line_def Let_def)
  have first: "pr_result st = [] \<Longrightarrow> pr_result (promote_line n l st) = [l]"
    using Cons.prems(1) marker by (auto simp: promote_line_def Let_def)
  have "pr_result (promote_line n l st) \<noteq> [] \<and> hd (pr_result (promote_line n l st)) = LASPER_OCI_CONFIG_MARKER"
    using kept first Cons.prems by (cases "pr_result st = []") auto
  then show ?case using Cons.IH [of "promote_line n l st"] by simp
qed auto

lemma policy_no_newline: "list_all (\<lambda>l. nl \<notin> set l) (oci_network_policy n)" "nl \<notin> set (''ResolvConf='' @ oci_resolv_conf n)"
  by (cases n; simp)+

lemma constant_no_newline: "nl \<notin> set ''PrivateUsers=no''" "nl \<notin> set ''[Network]''" "nl \<notin> set LASPER_OCI_CONFIG_MARKER"
  by code_simp+

lemma promote_no_newline:
  assumes "list_all (\<lambda>l. nl \<notin> set l) ls" and "list_all (\<lambda>l. nl \<notin> set l) (pr_result st)"
  shows "list_all (\<lambda>l. nl \<notin> set l) (pr_result (fold (promote_line n) ls st))"
  using assms
proof (induction ls arbitrary: st)
  case (Cons l ls)
  have "list_all (\<lambda>l. nl \<notin> set l) (pr_result (promote_line n l st))"
    using Cons.prems policy_no_newline [of n] constant_no_newline by (simp add: promote_line_def Let_def)
  then show ?case using Cons by simp
qed simp

lemma first_line:
  assumes "L \<noteq> []" and "hd L = LASPER_OCI_CONFIG_MARKER" and "t \<in> {[], [nl]}"
  shows "str_lines (join [nl] L @ t) \<noteq> [] \<and> hd (str_lines (join [nl] L @ t)) = LASPER_OCI_CONFIG_MARKER"
proof -
  have strip: "strip_line (LASPER_OCI_CONFIG_MARKER @ [nl]) = LASPER_OCI_CONFIG_MARKER" "strip_line LASPER_OCI_CONFIG_MARKER = LASPER_OCI_CONFIG_MARKER"
    "LASPER_OCI_CONFIG_MARKER \<noteq> []" by code_simp+
  note plain = constant_no_newline(3)
  obtain rest where L: "L = LASPER_OCI_CONFIG_MARKER # rest" using assms(1,2) by (cases L) auto
  show ?thesis
  proof (cases rest)
    case Nil
    then show ?thesis
      using L strip assms(3) split_terminated [OF plain, of "[]"] split_unterminated [OF strip(3) plain] by (auto simp: str_lines_def)
  next
    case (Cons y ys)
    then show ?thesis using L strip split_terminated [OF plain, of "join [nl] (y # ys) @ t"] by (simp add: str_lines_def)
  qed
qed

text \<open>
  C12. Promotion sets the policy and nothing else: the promoted file starts with Lasper's marker; its settings for
  users and name resolution and all settings that attach it to a network are exactly those of the chosen network
  mode, whatever the runtime configuration said; and every other setting of the runtime configuration is there, in
  the same order and with the same value.
\<close>

theorem oci_promotion_policy:
  assumes "promote_oci_content c n = Inr r"
  shows "filter (Not \<circ> promoted_key) (file_settings r) = filter (Not \<circ> promoted_key) (file_settings c)
    \<and> set (filter promoted_key (file_settings r)) = set (exec_policy n @ network_policy n)
    \<and> str_lines r \<noteq> [] \<and> hd (str_lines r) = LASPER_OCI_CONFIG_MARKER"
proof -
  define st where "st = fold (promote_line n) (str_lines c) (promote_start c)"
  define t where "t = (if ends_with c [nl] then [nl] else [])"
  have found: "pr_found_exec st" and r: "r = join [nl] (promote_lines n st) @ t"
    using assms by (auto simp: promote_oci_content_def Let_def st_def t_def split: if_splits)
  have t: "t \<in> {[], [nl]}" by (simp add: t_def)
  have inv: "promote_inv n (str_lines c) st" unfolding st_def by (rule promote_fold_inv [OF promote_start_inv])
  have "list_all (\<lambda>l. nl \<notin> set l) (pr_result st)"
    unfolding st_def using str_lines_no_newline constant_no_newline(3)
    by (intro promote_no_newline) (auto simp: list_all_iff promote_start_def)
  then have plain: "list_all (\<lambda>l. nl \<notin> set l) (promote_lines n st)"
    using policy_no_newline [of n] constant_no_newline by (auto simp: promote_lines_def Let_def)
  have E: "file_settings r = settings [] (promote_lines n st)"
    unfolding r file_settings_def by (rule settings_join [OF plain t])
  have "pr_result st \<noteq> []" using found inv by (auto simp: promote_inv_def exec_policy_def)
  moreover have "pr_result st = [] \<or> hd (pr_result st) = LASPER_OCI_CONFIG_MARKER"
    unfolding st_def by (rule promote_marker) (auto simp: promote_start_def)
  ultimately have "promote_lines n st \<noteq> []" "hd (promote_lines n st) = LASPER_OCI_CONFIG_MARKER"
    by (auto simp: promote_lines_def Let_def)
  then show ?thesis
    using E promote_lines_settings [OF inv found] first_line [OF _ _ t] unfolding r
    by (simp add: file_settings_def settings_str_lines [symmetric])
qed

definition example_oci :: string where
  "example_oci = ''[Exec]'' @ [nl] @ ''PrivateUsers=pick'' @ [nl] @ ''Boot=no'' @ [nl] @ ''[Network]'' @ [nl] @ ''Port=80'' @ [nl]"

definition example_promoted :: string where
  "example_promoted = LASPER_OCI_CONFIG_MARKER @ [nl] @ ''[Exec]'' @ [nl] @ ''PrivateUsers=no'' @ [nl] @ ''ResolvConf=off'' @ [nl] @
     ''Boot=no'' @ [nl] @ ''[Network]'' @ [nl] @ ''Private=yes'' @ [nl] @ ''VirtualEthernet=no'' @ [nl]"

lemma example_promotion: "promote_oci_content example_oci OciIsolated = Inr example_promoted"
proof -
  have "pr_found_exec (fold (promote_line OciIsolated) (str_lines example_oci) (promote_start example_oci))" by code_simp
  moreover have "join [nl] (promote_lines OciIsolated (fold (promote_line OciIsolated) (str_lines example_oci) (promote_start example_oci))) @ [nl]
      = example_promoted" by code_simp
  moreover have "ends_with example_oci [nl]" by code_simp
  moreover have "validate_content_size example_promoted = Inr ()"
    by (simp add: validate_content_size_def MAX_NSPAWN_CONTENT_BYTES_def example_promoted_def LASPER_OCI_CONFIG_MARKER_def)
  ultimately show ?thesis by (simp add: promote_oci_content_def Let_def)
qed

theorem oci_promotion_policy_witness:
  "promote_oci_content example_oci OciIsolated = Inr example_promoted
    \<and> set (filter promoted_key (file_settings example_promoted)) = set (exec_policy OciIsolated @ network_policy OciIsolated)
    \<and> hd (str_lines example_promoted) = LASPER_OCI_CONFIG_MARKER"
  using oci_promotion_policy [OF example_promotion] example_promotion by blast

end
