(* ===== verification/Wayland_Host.thy ===== *)
theory Wayland_Host
  imports Host_Files Nspawn_Spec "HOL-Library.List_Lexorder" "HOL-Library.Char_ord"
begin

text \<open>
  Discovery of the Wayland sockets of a desktop session (\<open>src/adapters/platform/wayland.rs\<close>) and the check the
  privileged writer makes of a discovered socket before it binds it (\<open>src/adapters/wayland.rs\<close>).
\<close>

section \<open>The host as it is observed\<close>

datatype NodeKind = KindFile | KindDirectory | KindSocket | KindOther

record FileMetadata =
  md_kind :: NodeKind
  md_uid :: u32
  md_gid :: u32
  md_mode :: u32
  md_dev :: u64
  md_ino :: u64
  md_ctime :: "64 word"
  md_ctime_nsec :: "64 word"

text \<open>
  The answers of the operating system while one operation looks. \<open>hv_read_dir\<close> gives the names delivered before
  the listing ends or fails.
\<close>

record HostView =
  hv_canonicalize :: "string \<Rightarrow> Errno + string"
  hv_metadata :: "string \<Rightarrow> Errno + FileMetadata"
  hv_read_dir :: "string \<Rightarrow> Errno + string list"

definition revision_of :: "FileMetadata \<Rightarrow> SocketRevision" where
  "revision_of md = \<lparr>rev_device = md_dev md, rev_inode = md_ino md, rev_ctime_seconds = md_ctime md,
     rev_ctime_nanoseconds = md_ctime_nsec md\<rparr>"

definition writable_by_others :: "FileMetadata \<Rightarrow> bool" where
  "writable_by_others md \<longleftrightarrow> md_mode md AND 18 \<noteq> 0"

text \<open>\<open>to_str\<close> of an operating-system string.\<close>

definition to_str :: "string \<Rightarrow> string option" where
  "to_str s = (if utf8_ok s then Some s else None)"

text \<open>\<open>Path::parent\<close>, as the text it is a slice of.\<close>

fun trim_pieces :: "string list \<Rightarrow> string list" where
  "trim_pieces [] = []"
| "trim_pieces [w] = (if w = [] then [] else [w])"
| "trim_pieces (w # v # ws) = (if w = [] \<or> w = ''.'' then trim_pieces (v # ws) else w # v # ws)"

definition parent_text :: "string \<Rightarrow> string option" where
  "parent_text p =
     (case parent_components p of
        None \<Rightarrow> None
      | Some _ \<Rightarrow>
          (case trim_pieces (drop 1 (trim_pieces (rev (split_on CHR ''/'' p)))) of
             [] \<Rightarrow> Some (if is_absolute p then ''/'' else [])
           | ws \<Rightarrow> Some (join ''/'' (rev ws))))"

text \<open>\<open>Display\<close> of the evidence errors; \<open>esc\<close> is the \<open>Debug\<close> form of a text.\<close>

fun wayland_error_text :: "(string \<Rightarrow> string) \<Rightarrow> WaylandValidationError \<Rightarrow> string" where
  "wayland_error_text esc (InvalidDisplayName name) = ''invalid Wayland display name: '' @ esc name"
| "wayland_error_text esc (EvidencePathNotAbsolute field p) =
     ''Wayland evidence '' @ field @ '' must be absolute: '' @ esc p"
| "wayland_error_text esc (SocketOwnerMismatch session_uid owner_uid) =
     ''Wayland socket owner uid '' @ show_nat (unat owner_uid) @ '' does not match host session uid '' @ show_nat (unat session_uid)"
| "wayland_error_text esc EmptyTargetUsername = ''Wayland target username cannot be empty''"
| "wayland_error_text esc NoSocketSelection = ''Wayland access requires at least one socket''"
| "wayland_error_text esc (MixedSocketOwners expected actual) =
     ''Wayland sockets assigned to one user must have the same owner uid (expected '' @ show_nat (unat expected) @
     '', found '' @ show_nat (unat actual) @ '')''"
| "wayland_error_text esc (DuplicateDisplay d) = ''Wayland access contains duplicate display '' @ display_as_str d"
| "wayland_error_text esc (DuplicateSocketPath p) = ''Wayland access contains duplicate socket path '' @ esc p"
| "wayland_error_text esc ResolvedGrantWithoutSockets = ''Resolved Wayland grant has no sockets''"
| "wayland_error_text esc (SocketAccessMismatch d) =
     ''Wayland grant does not match DAC permissions for display '' @ display_as_str d"
| "wayland_error_text esc (DuplicateResolvedDisplay d) =
     ''Resolved Wayland grant contains duplicate display '' @ display_as_str d"

section \<open>Discovery\<close>

record WaylandSocketCatalog =
  cat_sockets :: "HostWaylandSocket list"
  cat_preferred :: "WaylandDisplay option"

datatype WaylandSourceState = SourceObserved | SourceMissing | SourceInvalid string | SourceUnverified string

definition observe_configured_wayland_source ::
  "(Errno \<Rightarrow> string) \<Rightarrow> HostView \<Rightarrow> string \<Rightarrow> HostWaylandSocket list \<Rightarrow> WaylandSourceState" where
  "observe_configured_wayland_source io_text v source sockets =
     (case hv_canonicalize v source of
        Inl e \<Rightarrow> if e = ENOENT then SourceMissing else SourceUnverified (io_text e)
      | Inr canonical \<Rightarrow>
          (case hv_metadata v canonical of
             Inl e \<Rightarrow> SourceUnverified (io_text e)
           | Inr md \<Rightarrow>
               if md_kind md \<noteq> KindSocket then SourceInvalid ''Configured source is not a Unix socket''
               else if list_ex (\<lambda>s. path_eq (ws_canonical_path s) canonical) sockets then SourceObserved
               else SourceUnverified ''Socket was not authenticated as part of the current desktop session''))"

definition runtime_dir_candidates_from :: "u32 \<Rightarrow> string option \<Rightarrow> string list" where
  "runtime_dir_candidates_from session_uid xdg_runtime =
     (let uid_path = ''/run/user/'' @ show_nat (unat session_uid);
          candidates = (case xdg_runtime of None \<Rightarrow> [] | Some dir \<Rightarrow> [dir]) in
      if \<not> list_ex (\<lambda>c. path_eq c uid_path) candidates then candidates @ [uid_path] else candidates)"

definition inspect_wayland_socket ::
  "(string \<Rightarrow> string) \<Rightarrow> HostView \<Rightarrow> string \<Rightarrow> string \<Rightarrow> WaylandDisplay \<Rightarrow> u32 \<Rightarrow> NspawnError + HostWaylandSocket" where
  "inspect_wayland_socket esc v runtime requested display session_uid =
     and_then (map_err (Io requested) (hv_canonicalize v requested)) (\<lambda>canonical.
     and_then (map_err (Io canonical) (hv_metadata v canonical)) (\<lambda>md.
       if md_kind md \<noteq> KindSocket
       then Inl (ValidationError (''Wayland display is not a Unix socket: '' @ requested))
       else if md_uid md \<noteq> session_uid
       then Inl (ValidationError (''Wayland socket is not owned by uid '' @ show_nat (unat session_uid) @ '': '' @ requested))
       else map_err (\<lambda>e. ValidationError (wayland_error_text esc e))
              (wayland_socket_from_verified_parts display runtime canonical session_uid (md_uid md) (md_gid md)
                 (md_mode md) (revision_of md))))"

definition validate_wayland_directory :: "HostView \<Rightarrow> string \<Rightarrow> u32 \<Rightarrow> bool \<Rightarrow> NspawnError + string" where
  "validate_wayland_directory v path session_uid allow_root_owner =
     (let label = (if allow_root_owner then ''WAYLAND_DISPLAY parent directory'' else ''XDG runtime directory'') in
      if \<not> is_absolute path then Inl (ValidationError (label @ '' is not absolute: '' @ path))
      else
        and_then (map_err (Io path) (hv_canonicalize v path)) (\<lambda>canonical.
        and_then (map_err (Io canonical) (hv_metadata v canonical)) (\<lambda>md.
          if md_kind md \<noteq> KindDirectory \<or> \<not> (md_uid md = session_uid \<or> allow_root_owner \<and> md_uid md = 0)
          then Inl (ValidationError (label @ '' is not owned by uid '' @ show_nat (unat session_uid) @
                 (if allow_root_owner then '' or root'' else [])))
          else if writable_by_others md
          then Inl (ValidationError (label @ '' is writable by group or others''))
          else Inr canonical)))"

definition validate_runtime_directory :: "HostView \<Rightarrow> string \<Rightarrow> u32 \<Rightarrow> NspawnError + string" where
  "validate_runtime_directory v path session_uid = validate_wayland_directory v path session_uid False"

text \<open>The body of the loop over the entries of a runtime directory.\<close>

definition listed_socket ::
  "(string \<Rightarrow> string) \<Rightarrow> HostView \<Rightarrow> string \<Rightarrow> u32 \<Rightarrow> string \<Rightarrow> HostWaylandSocket option" where
  "listed_socket esc v runtime session_uid entry_name =
     (case to_str entry_name of
        None \<Rightarrow> None
      | Some name \<Rightarrow>
          if \<not> starts_with name ''wayland-'' \<or> ends_with name ''.lock'' then None
          else
            (case wayland_display_new name of
               Inl _ \<Rightarrow> None
             | Inr display \<Rightarrow>
                 (case inspect_wayland_socket esc v runtime (path_join runtime entry_name) display session_uid of
                    Inl _ \<Rightarrow> None
                  | Inr socket \<Rightarrow> Some socket)))"

definition discover_wayland_sockets_in ::
  "(string \<Rightarrow> string) \<Rightarrow> HostView \<Rightarrow> string \<Rightarrow> u32 \<Rightarrow> HostWaylandSocket list" where
  "discover_wayland_sockets_in esc v runtime session_uid =
     sort_key (\<lambda>s. display_as_str (ws_display s))
       (case hv_read_dir v runtime of
          Inl _ \<Rightarrow> []
        | Inr names \<Rightarrow> List.map_filter (listed_socket esc v runtime session_uid) names)"

definition discover_absolute_wayland_socket ::
  "(string \<Rightarrow> string) \<Rightarrow> HostView \<Rightarrow> string \<Rightarrow> u32 \<Rightarrow> NspawnError + HostWaylandSocket" where
  "discover_absolute_wayland_socket esc v path session_uid =
     and_then
       (case Option.bind (file_name path) to_str of
          None \<Rightarrow> Inl (ValidationError (''WAYLAND_DISPLAY has no usable socket name: '' @ path))
        | Some name \<Rightarrow> map_err (\<lambda>e. ValidationError (wayland_error_text esc e)) (wayland_display_new name)) (\<lambda>display.
     and_then (ok_or (parent_text path) (ValidationError (''WAYLAND_DISPLAY has no parent directory: '' @ path))) (\<lambda>parent.
     and_then (validate_wayland_directory v parent session_uid True) (\<lambda>runtime.
       inspect_wayland_socket esc v runtime (path_join runtime (display_as_str display)) display session_uid)))"

text \<open>\<open>position\<close>, \<open>remove\<close> and \<open>insert(0)\<close>.\<close>

definition prioritize_display :: "WaylandDisplay option \<Rightarrow> HostWaylandSocket list \<Rightarrow> HostWaylandSocket list" where
  "prioritize_display preferred sockets =
     (case preferred of
        None \<Rightarrow> sockets
      | Some display \<Rightarrow>
          (case dropWhile (\<lambda>s. ws_display s \<noteq> display) sockets of
             [] \<Rightarrow> sockets
           | s # later \<Rightarrow> s # takeWhile (\<lambda>s. ws_display s \<noteq> display) sockets @ later))"

text \<open>The catalog of one runtime directory that has sockets.\<close>

definition catalog_of ::
  "HostWaylandSocket option \<Rightarrow> WaylandDisplay option \<Rightarrow> HostWaylandSocket list \<Rightarrow> WaylandSocketCatalog" where
  "catalog_of preferred_socket preferred_display sockets =
     (case preferred_socket of
        Some preferred \<Rightarrow>
          \<lparr>cat_sockets = preferred # filter (\<lambda>s. ws_display s \<noteq> ws_display preferred \<and>
               \<not> path_eq (ws_canonical_path s) (ws_canonical_path preferred)) sockets,
           cat_preferred = Some (ws_display preferred)\<rparr>
      | None \<Rightarrow>
          \<lparr>cat_sockets = prioritize_display preferred_display sockets,
           cat_preferred = (case preferred_display of
              Some d \<Rightarrow> if list_ex (\<lambda>s. ws_display s = d) sockets then Some d else None
            | None \<Rightarrow> None)\<rparr>)"

fun search_runtimes ::
  "(string \<Rightarrow> string) \<Rightarrow> HostView \<Rightarrow> u32 \<Rightarrow> HostWaylandSocket option \<Rightarrow> WaylandDisplay option \<Rightarrow> string list \<Rightarrow>
     WaylandSocketCatalog" where
  "search_runtimes esc v uid preferred_socket preferred_display [] =
     (case preferred_socket of
        Some preferred \<Rightarrow> \<lparr>cat_sockets = [preferred], cat_preferred = Some (ws_display preferred)\<rparr>
      | None \<Rightarrow> \<lparr>cat_sockets = [], cat_preferred = None\<rparr>)"
| "search_runtimes esc v uid preferred_socket preferred_display (candidate # candidates) =
     (case validate_runtime_directory v candidate uid of
        Inl _ \<Rightarrow> search_runtimes esc v uid preferred_socket preferred_display candidates
      | Inr runtime \<Rightarrow>
          let sockets = discover_wayland_sockets_in esc v runtime uid in
          if sockets = [] then search_runtimes esc v uid preferred_socket preferred_display candidates
          else catalog_of preferred_socket preferred_display sockets)"

definition discover_wayland_socket_catalog_from ::
  "(string \<Rightarrow> string) \<Rightarrow> HostView \<Rightarrow> u32 \<Rightarrow> string option \<Rightarrow> string option \<Rightarrow> WaylandSocketCatalog" where
  "discover_wayland_socket_catalog_from esc v session_uid xdg_runtime configured_display =
     (let preferred_socket =
            (case configured_display of
               Some path \<Rightarrow>
                 if is_absolute path
                 then (case discover_absolute_wayland_socket esc v path session_uid of Inl _ \<Rightarrow> None | Inr s \<Rightarrow> Some s)
                 else None
             | None \<Rightarrow> None);
          preferred_display =
            (case configured_display of
               Some path \<Rightarrow>
                 if is_absolute path then None
                 else Option.bind (to_str path) (\<lambda>name.
                   case wayland_display_new name of Inl _ \<Rightarrow> None | Inr d \<Rightarrow> Some d)
             | None \<Rightarrow> None) in
      search_runtimes esc v session_uid preferred_socket preferred_display
        (runtime_dir_candidates_from session_uid xdg_runtime))"

definition current_wayland_socket_from ::
  "(string \<Rightarrow> string) \<Rightarrow> HostView \<Rightarrow> u32 \<Rightarrow> string option \<Rightarrow> string option \<Rightarrow> NspawnError + HostWaylandSocket option" where
  "current_wayland_socket_from esc v uid runtime display =
     (case display of
        None \<Rightarrow> Inr None
      | Some path \<Rightarrow>
          if path = [] then Inr None
          else
            and_then
              (if is_absolute path then Inr path
               else
                 and_then (ok_or (to_str path) (ValidationError ''WAYLAND_DISPLAY is not valid UTF-8'')) (\<lambda>name.
                 and_then (map_err (\<lambda>e. ValidationError (wayland_error_text esc e)) (wayland_display_new name)) (\<lambda>_.
                 and_then (ok_or (case runtime of Some r \<Rightarrow> if r = [] then None else Some r | None \<Rightarrow> None)
                             (ValidationError ''relative WAYLAND_DISPLAY requires XDG_RUNTIME_DIR'')) (\<lambda>runtime.
                   Inr (path_join runtime path))))) (\<lambda>path.
            and_then (discover_absolute_wayland_socket esc v path uid) (\<lambda>socket. Inr (Some socket))))"

text \<open>\<open>invoking_uid\<close>: the process, and \<open>SUDO_UID\<close> of its environment.\<close>

definition invoking_uid :: "u32 \<Rightarrow> string option \<Rightarrow> u32" where
  "invoking_uid current sudo_uid =
     (if current = 0
      then (case Option.bind sudo_uid (parse_uint (2 ^ 32)) of Some uid \<Rightarrow> of_nat uid | None \<Rightarrow> current)
      else current)"

text \<open>The endpoint discovery port: the catalog and the state of every configured source, each once.\<close>

fun observe_sources ::
  "(Errno \<Rightarrow> string) \<Rightarrow> HostView \<Rightarrow> HostWaylandSocket list \<Rightarrow> (string \<times> WaylandSourceState) list \<Rightarrow> string list \<Rightarrow>
     (string \<times> WaylandSourceState) list" where
  "observe_sources io_text v sockets seen [] = seen"
| "observe_sources io_text v sockets seen (source # sources) =
     (if list_ex (\<lambda>(p, _). path_eq p source) seen then observe_sources io_text v sockets seen sources
      else observe_sources io_text v sockets
             (seen @ [(source, observe_configured_wayland_source io_text v source sockets)]) sources)"

section \<open>Revalidation\<close>

record ObservedWaylandSocket =
  os_owner_uid :: u32
  os_owner_gid :: u32
  os_mode :: u32
  os_revision :: SocketRevision

definition observe_socket_target :: "(string \<Rightarrow> string) \<Rightarrow> HostView \<Rightarrow> string \<Rightarrow> NspawnError + ObservedWaylandSocket" where
  "observe_socket_target esc v path =
     and_then (ok_or (to_str path) (ValidationError ''Wayland socket path is not valid UTF-8'')) (\<lambda>path_text.
       if has_control path_text \<or> \<not> is_absolute path
       then Inl (ValidationError (''Invalid Wayland socket path: '' @ esc path_text))
       else
         and_then (map_err (Io path) (hv_metadata v path)) (\<lambda>md.
           if md_kind md \<noteq> KindSocket then Inl (ValidationError (''Wayland path is not a socket: '' @ path))
           else Inr \<lparr>os_owner_uid = md_uid md, os_owner_gid = md_gid md, os_mode = md_mode md AND 0xFFF,
                     os_revision = revision_of md\<rparr>))"

definition revalidate_host_socket ::
  "(string \<Rightarrow> string) \<Rightarrow> HostView \<Rightarrow> HostWaylandSocket \<Rightarrow> u32 \<Rightarrow> NspawnError + string" where
  "revalidate_host_socket esc v source authorized_uid =
     (let runtime = ws_runtime_dir source in
      if ws_session_uid source \<noteq> authorized_uid \<or> ws_owner_uid source \<noteq> authorized_uid
      then Inl (ValidationError (''Wayland grant does not belong to authorized uid '' @ show_nat (unat authorized_uid)))
      else if \<not> is_absolute runtime then Inl (ValidationError ''Wayland runtime directory must be absolute'')
      else
        and_then (map_err (Io runtime) (hv_canonicalize v runtime)) (\<lambda>canonical_runtime.
        if \<not> path_eq canonical_runtime runtime
        then Inl (ValidationError ''Wayland runtime directory evidence is no longer canonical'')
        else
          and_then (map_err (Io runtime) (hv_metadata v runtime)) (\<lambda>md.
          if md_kind md \<noteq> KindDirectory \<or> md_uid md \<noteq> 0 \<and> md_uid md \<noteq> authorized_uid
          then Inl (ValidationError (''Wayland socket directory is not owned by uid '' @ show_nat (unat authorized_uid) @ '' or root''))
          else if writable_by_others md
          then Inl (ValidationError ''Wayland socket directory is writable by group or others'')
          else
            let requested_socket = path_join runtime (display_as_str (ws_display source)) in
            if parent_components requested_socket \<noteq> Some (components runtime)
            then Inl (ValidationError ''Wayland socket entry escaped its runtime directory'')
            else
              and_then (map_err (Io requested_socket) (hv_canonicalize v requested_socket)) (\<lambda>canonical_socket.
              if \<not> path_eq canonical_socket (ws_canonical_path source)
              then Inl (ValidationError ''Wayland socket was replaced after discovery'')
              else
                and_then (observe_socket_target esc v canonical_socket) (\<lambda>observed.
                if os_owner_uid observed \<noteq> ws_owner_uid source \<or> os_owner_gid observed \<noteq> ws_owner_gid source
                   \<or> os_mode observed \<noteq> ws_mode source \<or> os_revision observed \<noteq> ws_revision source
                then Inl (ValidationError ''Wayland socket metadata changed after discovery'')
                else Inr canonical_socket)))))"

section \<open>What discovery finds is what revalidation accepts\<close>

text \<open>\<open>canonicalize\<close> gives an absolute path without links, which is its own canonical path.\<close>

definition canonical_paths :: "HostView \<Rightarrow> bool" where
  "canonical_paths v \<longleftrightarrow> (\<forall>p q. hv_canonicalize v p = Inr q \<longrightarrow>
     hv_canonicalize v q = Inr q \<and> is_absolute q \<and> (q = ''/'' \<or> \<not> ends_with q ''/''))"

definition socket_identity :: "FileMetadata \<Rightarrow> u32 \<times> u32 \<times> u32 \<times> SocketRevision" where
  "socket_identity md = (md_uid md, md_gid md, md_mode md AND 0xFFF, revision_of md)"

definition trusted_directory :: "u32 \<Rightarrow> FileMetadata \<Rightarrow> bool" where
  "trusted_directory uid md \<longleftrightarrow> md_kind md = KindDirectory \<and> (md_uid md = 0 \<or> md_uid md = uid) \<and> \<not> writable_by_others md"

text \<open>A socket entry that the host shows as it is described.\<close>

definition socket_at :: "HostView \<Rightarrow> u32 \<Rightarrow> HostWaylandSocket \<Rightarrow> bool" where
  "socket_at v uid s \<longleftrightarrow>
     ws_session_uid s = uid \<and> ws_owner_uid s = uid \<and> is_valid_display_name (display_as_str (ws_display s)) \<and>
     hv_canonicalize v (path_join (ws_runtime_dir s) (display_as_str (ws_display s))) = Inr (ws_canonical_path s) \<and>
     (\<exists>md. hv_metadata v (ws_canonical_path s) = Inr md \<and> md_kind md = KindSocket \<and>
        socket_identity md = (uid, ws_owner_gid s, ws_mode s, ws_revision s))"

definition directory_of :: "HostView \<Rightarrow> u32 \<Rightarrow> string \<Rightarrow> bool" where
  "directory_of v uid runtime \<longleftrightarrow>
     (\<exists>p md. hv_canonicalize v p = Inr runtime \<and> hv_metadata v runtime = Inr md \<and> trusted_directory uid md)"

lemma display_new_valid: "wayland_display_new name = Inr d \<Longrightarrow> display_as_str d = name \<and> is_valid_display_name name"
  by (auto simp: wayland_display_new_def split: if_splits)

lemma inspect_socket_at:
  assumes "inspect_wayland_socket esc v runtime (path_join runtime (display_as_str d)) d uid = Inr s"
    and "is_valid_display_name (display_as_str d)"
  shows "socket_at v uid s" and "ws_runtime_dir s = runtime" and "ws_display s = d"
  using assms
  by (auto simp: inspect_wayland_socket_def wayland_socket_from_verified_parts_def socket_at_def socket_identity_def
      split: if_splits)

lemma validate_directory_of:
  "validate_wayland_directory v p uid root = Inr runtime \<Longrightarrow> directory_of v uid runtime"
  by (auto simp: validate_wayland_directory_def Let_def directory_of_def trusted_directory_def split: if_splits)

lemma listed_socket_at:
  assumes "listed_socket esc v runtime uid name = Some s"
  shows "socket_at v uid s \<and> ws_runtime_dir s = runtime \<and> display_as_str (ws_display s) = name"
proof -
  from assms obtain d where d: "wayland_display_new name = Inr d"
    and s: "inspect_wayland_socket esc v runtime (path_join runtime name) d uid = Inr s"
    by (auto simp: listed_socket_def to_str_def split: if_splits sum.splits)
  from s display_new_valid [OF d] show ?thesis using inspect_socket_at [of esc v runtime d uid s] by simp
qed

definition known_socket :: "HostView \<Rightarrow> u32 \<Rightarrow> HostWaylandSocket \<Rightarrow> bool" where
  "known_socket v uid s \<longleftrightarrow> socket_at v uid s \<and> directory_of v uid (ws_runtime_dir s)"

lemma discovered_in_known:
  assumes "validate_runtime_directory v p uid = Inr runtime" and "s \<in> set (discover_wayland_sockets_in esc v runtime uid)"
  shows "known_socket v uid s"
  using assms(2) validate_directory_of [OF assms(1) [unfolded validate_runtime_directory_def]] listed_socket_at
  by (fastforce simp: discover_wayland_sockets_in_def known_socket_def List.map_filter_def split: sum.splits)

lemma discovered_absolute_known:
  assumes "discover_absolute_wayland_socket esc v path uid = Inr s"
  shows "known_socket v uid s"
proof -
  from assms obtain name d parent runtime where d: "wayland_display_new name = Inr d"
    and dir: "validate_wayland_directory v parent uid True = Inr runtime"
    and s: "inspect_wayland_socket esc v runtime (path_join runtime (display_as_str d)) d uid = Inr s"
    by (auto simp: discover_absolute_wayland_socket_def split: option.splits)
  show ?thesis
    using inspect_socket_at [OF s] display_new_valid [OF d] validate_directory_of [OF dir]
    by (simp add: known_socket_def)
qed

lemma prioritize_mset: "mset (prioritize_display d sockets) = mset sockets"
proof (cases d)
  case (Some display)
  let ?P = "\<lambda>s. ws_display s \<noteq> display"
  have "mset sockets = mset (takeWhile ?P sockets) + mset (dropWhile ?P sockets)"
    by (metis mset_append takeWhile_dropWhile_id)
  then show ?thesis
    by (auto simp: prioritize_display_def Some split: list.splits)
qed (simp add: prioritize_display_def)

lemma prioritize_set [simp]: "set (prioritize_display d sockets) = set sockets"
  using prioritize_mset [of d sockets] by (rule mset_eq_setD)

lemma catalog_of_known:
  assumes "\<And>s. s \<in> set sockets \<Longrightarrow> P s" and "\<And>s. preferred = Some s \<Longrightarrow> P s"
    and "s \<in> set (cat_sockets (catalog_of preferred d sockets))"
  shows "P s"
  using assms by (auto simp: catalog_of_def split: option.splits)

lemma search_known:
  assumes "\<And>s. preferred = Some s \<Longrightarrow> known_socket v uid s"
    and "s \<in> set (cat_sockets (search_runtimes esc v uid preferred d candidates))"
  shows "known_socket v uid s"
  using assms(2)
proof (induction candidates)
  case Nil
  then show ?case using assms(1) by (auto split: option.splits)
next
  case (Cons c cs)
  show ?case
  proof (cases "validate_runtime_directory v c uid")
    case (Inr runtime)
    then show ?thesis
      using Cons discovered_in_known [OF Inr] assms(1)
      by (auto simp: Let_def split: if_splits elim: catalog_of_known [rotated 2])
  qed (use Cons in simp)
qed

lemma catalog_known:
  "s \<in> set (cat_sockets (discover_wayland_socket_catalog_from esc v uid xdg display)) \<Longrightarrow> known_socket v uid s"
  unfolding discover_wayland_socket_catalog_from_def Let_def
  by (erule search_known [rotated])
    (auto split: option.splits if_splits sum.splits dest: discovered_absolute_known)

lemma entry_in_directory:
  assumes "is_absolute runtime" and "runtime = ''/'' \<or> \<not> ends_with runtime ''/''" and "is_valid_display_name name"
  shows "parent_components (path_join runtime name) = Some (components runtime)"
proof -
  have n: "name \<noteq> []" "CHR ''/'' \<notin> set name" "name \<noteq> ''.''" "name \<noteq> ''..''"
    using assms(3) file_name_self [of name] by (auto simp: is_valid_display_name_def)
  have "components (path_join runtime name) = components runtime @ [Normal name]"
  proof (cases "runtime = ''/''")
    case True
    have "path_join ''/'' name = CHR ''/'' # name" using n by (cases name) (auto simp: path_join_def starts_with_def ends_with_def)
    then show ?thesis
      using True n by (simp add: components_def starts_with_def split_on_no_sep path_parts_def)
  next
    case False
    then show ?thesis using path_join_child [of runtime name] assms n by (simp add: is_absolute_def)
  qed
  then show ?thesis by (simp add: parent_components_def)
qed

lemma known_socket_accepted:
  assumes "canonical_paths v" and "known_socket v uid s"
    and "utf8_ok (ws_canonical_path s)" and "\<not> has_control (ws_canonical_path s)"
  shows "revalidate_host_socket esc v s uid = Inr (ws_canonical_path s)"
proof -
  obtain p root where dir: "hv_canonicalize v p = Inr (ws_runtime_dir s)" "hv_metadata v (ws_runtime_dir s) = Inr root"
    "trusted_directory uid root"
    using assms(2) by (auto simp: known_socket_def directory_of_def)
  have abs: "hv_canonicalize v (ws_runtime_dir s) = Inr (ws_runtime_dir s)" "is_absolute (ws_runtime_dir s)"
    "ws_runtime_dir s = ''/'' \<or> \<not> ends_with (ws_runtime_dir s) ''/''"
    using assms(1) dir(1) by (auto simp: canonical_paths_def)
  obtain md where s: "ws_session_uid s = uid" "ws_owner_uid s = uid" "is_valid_display_name (display_as_str (ws_display s))"
    "hv_canonicalize v (path_join (ws_runtime_dir s) (display_as_str (ws_display s))) = Inr (ws_canonical_path s)"
    "hv_metadata v (ws_canonical_path s) = Inr md" "md_kind md = KindSocket"
    "socket_identity md = (uid, ws_owner_gid s, ws_mode s, ws_revision s)"
    using assms(2) by (auto simp: known_socket_def socket_at_def)
  have "is_absolute (ws_canonical_path s)" using assms(1) s(4) by (auto simp: canonical_paths_def)
  then have seen: "observe_socket_target esc v (ws_canonical_path s) = Inr \<lparr>os_owner_uid = uid, os_owner_gid = ws_owner_gid s,
      os_mode = ws_mode s, os_revision = ws_revision s\<rparr>"
    using s(5-7) assms(3,4)
    by (simp add: observe_socket_target_def to_str_def ok_or_def socket_identity_def del: and_then_eq_Inr)
  show ?thesis
    unfolding revalidate_host_socket_def Let_def
    using abs dir(2,3) s(1-4) seen entry_in_directory [OF abs(2,3) s(3)]
    by (simp add: trusted_directory_def path_eq_def del: and_then_eq_Inr)
qed

lemma accepted_socket_identity:
  assumes "revalidate_host_socket esc v s uid = Inr p"
  shows "ws_owner_uid s = uid" and "path_eq p (ws_canonical_path s)"
    and "\<exists>md. hv_metadata v p = Inr md \<and> md_kind md = KindSocket \<and>
      socket_identity md = (uid, ws_owner_gid s, ws_mode s, ws_revision s)"
  using assms
  by (auto simp: revalidate_host_socket_def Let_def observe_socket_target_def socket_identity_def split: if_splits)

text \<open>
  C13. Wayland evidence is exact: every socket in the catalog of a session passes the check of the privileged writer
  for that session's user as long as the host has not changed and the canonical path is printable text; and
  whenever the check passes, on whatever host and for whatever user, then for that user, and what is at the
  canonical path at the moment of the check is a socket with the owner, group, permissions, device, inode and
  change time that discovery saw, so that a socket replaced before the check is refused. The check is evidence
  for its own moment only: nothing is stated of what is at the path when the machine is started later.
\<close>

theorem wayland_evidence_exact:
  assumes "canonical_paths v" and "s \<in> set (cat_sockets (discover_wayland_socket_catalog_from esc v uid xdg display))"
  shows "(utf8_ok (ws_canonical_path s) \<and> \<not> has_control (ws_canonical_path s) \<longrightarrow>
      revalidate_host_socket esc v s uid = Inr (ws_canonical_path s))
    \<and> (\<forall>v' user p. revalidate_host_socket esc v' s user = Inr p \<longrightarrow>
         user = uid \<and> path_eq p (ws_canonical_path s) \<and>
         (\<exists>md md'. hv_metadata v (ws_canonical_path s) = Inr md \<and> hv_metadata v' p = Inr md' \<and>
            md_kind md' = KindSocket \<and> socket_identity md' = socket_identity md))"
proof (intro conjI impI allI)
  note known = catalog_known [OF assms(2)]
  show "revalidate_host_socket esc v s uid = Inr (ws_canonical_path s)"
    if "utf8_ok (ws_canonical_path s) \<and> \<not> has_control (ws_canonical_path s)"
    using that known_socket_accepted [OF assms(1) known] by blast
  fix v' user p
  assume ok: "revalidate_host_socket esc v' s user = Inr p"
  obtain md where md: "hv_metadata v (ws_canonical_path s) = Inr md" "ws_owner_uid s = uid"
    "socket_identity md = (uid, ws_owner_gid s, ws_mode s, ws_revision s)"
    using known by (auto simp: known_socket_def socket_at_def)
  show "user = uid" using accepted_socket_identity(1) [OF ok] md(2) by simp
  show "path_eq p (ws_canonical_path s)" by (rule accepted_socket_identity(2) [OF ok])
  show "\<exists>md md'. hv_metadata v (ws_canonical_path s) = Inr md \<and> hv_metadata v' p = Inr md' \<and>
      md_kind md' = KindSocket \<and> socket_identity md' = socket_identity md"
    using accepted_socket_identity [OF ok] md by fastforce
qed

section \<open>The order of the catalog\<close>

lemma listed_distinct:
  assumes "distinct names"
  shows "distinct (map ws_display (List.map_filter (listed_socket esc v runtime uid) names))"
  using assms
proof (induction names)
  case (Cons n ns)
  have "n \<in> set ns" if "listed_socket esc v runtime uid n = Some s"
    and "ws_display s \<in> ws_display ` set (List.map_filter (listed_socket esc v runtime uid) ns)" for s
  proof -
    from that(2) obtain m t where t: "m \<in> set ns" "listed_socket esc v runtime uid m = Some t" "ws_display s = ws_display t"
      by (auto simp: List.map_filter_def)
    then have "n = m" using listed_socket_at [OF that(1)] listed_socket_at [OF t(2)] by simp
    then show ?thesis using t(1) by simp
  qed
  then show ?case using Cons by (auto simp: List.map_filter_simps split: option.splits)
qed (simp add: List.map_filter_simps)

lemma discovered_distinct:
  assumes "\<And>p names. hv_read_dir v p = Inr names \<Longrightarrow> distinct names"
  shows "distinct (map ws_display (discover_wayland_sockets_in esc v runtime uid))"
proof -
  let ?found = "case hv_read_dir v runtime of Inl _ \<Rightarrow> [] | Inr names \<Rightarrow> List.map_filter (listed_socket esc v runtime uid) names"
  have "distinct (map ws_display ?found)"
    using assms listed_distinct by (auto split: sum.splits)
  moreover have "mset (map ws_display (discover_wayland_sockets_in esc v runtime uid)) = mset (map ws_display ?found)"
    by (simp add: discover_wayland_sockets_in_def)
  ultimately show ?thesis using mset_eq_imp_distinct_iff by blast
qed

lemma catalog_of_ok:
  assumes "distinct (map ws_display sockets)"
  shows "distinct (map ws_display (cat_sockets (catalog_of preferred d sockets)))"
    and "cat_preferred (catalog_of preferred d sockets) = Some x \<Longrightarrow>
      \<exists>s later. cat_sockets (catalog_of preferred d sockets) = s # later \<and> ws_display s = x"
proof -
  have "mset (map ws_display (prioritize_display d sockets)) = mset (map ws_display sockets)"
    by (simp add: prioritize_mset)
  then have "distinct (map ws_display (prioritize_display d sockets))"
    using assms mset_eq_imp_distinct_iff by blast
  then show "distinct (map ws_display (cat_sockets (catalog_of preferred d sockets)))"
    using assms by (auto simp: catalog_of_def distinct_map inj_on_def split: option.splits)
  have "\<exists>s later. prioritize_display (Some x) sockets = s # later \<and> ws_display s = x" if "list_ex (\<lambda>s. ws_display s = x) sockets"
  proof -
    from that obtain s later where d: "dropWhile (\<lambda>s. ws_display s \<noteq> x) sockets = s # later"
      by (cases "dropWhile (\<lambda>s. ws_display s \<noteq> x) sockets") (auto simp: list_ex_iff)
    then show ?thesis using hd_dropWhile [of "\<lambda>s. ws_display s \<noteq> x" sockets] by (simp add: prioritize_display_def)
  qed
  then show "cat_preferred (catalog_of preferred d sockets) = Some x \<Longrightarrow>
      \<exists>s later. cat_sockets (catalog_of preferred d sockets) = s # later \<and> ws_display s = x"
    by (auto simp: catalog_of_def split: option.splits if_splits)
qed

text \<open>
  The catalog offers each display once, and the display the session prefers, if the catalog names one, first.
\<close>

lemma wayland_catalog_ordered:
  assumes "\<And>p names. hv_read_dir v p = Inr names \<Longrightarrow> distinct names"
    and "c = discover_wayland_socket_catalog_from esc v uid xdg display"
  shows "distinct (map ws_display (cat_sockets c))"
    and "cat_preferred c = Some d \<Longrightarrow> \<exists>s later. cat_sockets c = s # later \<and> ws_display s = d"
proof -
  let ?ok = "\<lambda>c. distinct (map ws_display (cat_sockets c)) \<and>
    (cat_preferred c = Some d \<longrightarrow> (\<exists>s later. cat_sockets c = s # later \<and> ws_display s = d))"
  have found: "?ok (catalog_of preferred pd (discover_wayland_sockets_in esc v runtime uid))" for preferred pd runtime
  proof -
    have "distinct (map ws_display (discover_wayland_sockets_in esc v runtime uid))"
      by (rule discovered_distinct) (rule assms(1))
    then show ?thesis by (intro conjI impI catalog_of_ok)
  qed
  have "?ok (search_runtimes esc v uid preferred pd candidates)" for preferred pd candidates
  proof (induction candidates)
    case (Cons p candidates)
    then show ?case using found by (cases "validate_runtime_directory v p uid") (simp_all add: Let_def)
  qed (auto split: option.splits)
  then show "distinct (map ws_display (cat_sockets c))"
    and "cat_preferred c = Some d \<Longrightarrow> \<exists>s later. cat_sockets c = s # later \<and> ws_display s = d"
    unfolding assms(2) discover_wayland_socket_catalog_from_def Let_def by blast+
qed

section \<open>A session with one compositor\<close>

definition session_metadata :: "NodeKind \<Rightarrow> u32 \<Rightarrow> FileMetadata" where
  "session_metadata kind mode = \<lparr>md_kind = kind, md_uid = 1000, md_gid = 1000, md_mode = mode, md_dev = 1, md_ino = 7,
     md_ctime = 5, md_ctime_nsec = 9\<rparr>"

definition session_view :: HostView where
  "session_view = \<lparr>hv_canonicalize = (\<lambda>p. if p = ''/run/user/1000'' \<or> p = ''/run/user/1000/wayland-0'' then Inr p else Inl ENOENT),
     hv_metadata = (\<lambda>p. if p = ''/run/user/1000'' then Inr (session_metadata KindDirectory 448)
        else if p = ''/run/user/1000/wayland-0'' then Inr (session_metadata KindSocket 493) else Inl ENOENT),
     hv_read_dir = (\<lambda>p. if p = ''/run/user/1000'' then Inr [''wayland-0.lock'', ''wayland-0''] else Inl ENOENT)\<rparr>"

definition session_socket :: HostWaylandSocket where
  "session_socket = \<lparr>ws_display = WaylandDisplay ''wayland-0'', ws_runtime_dir = ''/run/user/1000'',
     ws_canonical_path = ''/run/user/1000/wayland-0'', ws_session_uid = 1000, ws_owner_uid = 1000, ws_owner_gid = 1000,
     ws_mode = 493, ws_revision = \<lparr>rev_device = 1, rev_inode = 7, rev_ctime_seconds = 5, rev_ctime_nanoseconds = 9\<rparr>\<rparr>"

lemma session_view_canonical: "canonical_paths session_view"
  by (auto simp: canonical_paths_def session_view_def is_absolute_def starts_with_def ends_with_def split: if_splits)

lemma session_display: "wayland_display_new ''wayland-0'' = Inr (WaylandDisplay ''wayland-0'')"
  by code_simp

lemma session_entry: "path_join ''/run/user/1000'' ''wayland-0'' = ''/run/user/1000/wayland-0''"
  by code_simp

lemma session_directory: "validate_runtime_directory session_view ''/run/user/1000'' 1000 = Inr ''/run/user/1000''"
  by (simp add: validate_runtime_directory_def validate_wayland_directory_def session_view_def session_metadata_def
      is_absolute_def starts_with_def writable_by_others_def)

lemma session_listed:
  "listed_socket id session_view ''/run/user/1000'' 1000 ''wayland-0'' = Some session_socket"
  "listed_socket id session_view ''/run/user/1000'' 1000 ''wayland-0.lock'' = None"
proof -
  have "inspect_wayland_socket id session_view ''/run/user/1000'' ''/run/user/1000/wayland-0'' (WaylandDisplay ''wayland-0'') 1000
      = Inr session_socket"
    by (simp add: inspect_wayland_socket_def session_view_def session_metadata_def session_socket_def revision_of_def
        wayland_socket_from_verified_parts_def is_absolute_def starts_with_def)
  moreover have "to_str ''wayland-0'' = Some ''wayland-0''" "to_str ''wayland-0.lock'' = Some ''wayland-0.lock''"
    "starts_with ''wayland-0'' ''wayland-''" "\<not> ends_with ''wayland-0'' ''.lock''" "ends_with ''wayland-0.lock'' ''.lock''"
    by code_simp+
  ultimately show "listed_socket id session_view ''/run/user/1000'' 1000 ''wayland-0'' = Some session_socket"
    "listed_socket id session_view ''/run/user/1000'' 1000 ''wayland-0.lock'' = None"
    by (simp_all add: listed_socket_def session_display session_entry)
qed

lemma session_catalog:
  "cat_sockets (discover_wayland_socket_catalog_from id session_view 1000 None None) = [session_socket]"
proof -
  have "show_nat (unat (1000 :: u32)) = ''1000''" by code_simp
  then have "runtime_dir_candidates_from 1000 None = [''/run/user/1000'']"
    by (simp add: runtime_dir_candidates_from_def)
  moreover have "hv_read_dir session_view ''/run/user/1000'' = Inr [''wayland-0.lock'', ''wayland-0'']"
    by (simp add: session_view_def)
  then have "discover_wayland_sockets_in id session_view ''/run/user/1000'' 1000 = [session_socket]"
    by (simp add: discover_wayland_sockets_in_def List.map_filter_simps session_listed)
  ultimately show ?thesis
    by (simp add: discover_wayland_socket_catalog_from_def session_directory catalog_of_def prioritize_display_def)
qed

theorem wayland_evidence_exact_witness:
  "revalidate_host_socket id session_view session_socket 1000 = Inr ''/run/user/1000/wayland-0''"
proof -
  have "utf8_ok ''/run/user/1000/wayland-0''" "\<not> has_control ''/run/user/1000/wayland-0''" by code_simp+
  then show ?thesis
    using wayland_evidence_exact [OF session_view_canonical, of session_socket id 1000 None None] session_catalog
    by (simp add: session_socket_def)
qed

end
