(* ===== verification/Config_Store.thy ===== *)
theory Config_Store
  imports Unit_Overrides Oci_Promotion Wayland_Host
begin

text \<open>
  The store of \<open>.nspawn\<close> files (\<open>src/adapters/config/store.rs\<close>, \<open>nspawn_source.rs\<close>, \<open>settings_lock.rs\<close>): where the
  settings of a machine are looked for, and the operations the privileged daemon runs on them.
\<close>

section \<open>Places\<close>

definition nspawn_config_dir :: "HostRoots \<Rightarrow> path" where
  "nspawn_config_dir roots = systemd_config_root roots @ [Normal ''nspawn'']"

definition nspawn_runtime_config_dir :: "HostRoots \<Rightarrow> path" where
  "nspawn_runtime_config_dir roots = systemd_runtime_root roots @ [Normal ''nspawn'']"

definition nspawn_file_name :: "string \<Rightarrow> string" where
  "nspawn_file_name name = name @ ''.nspawn''"

definition nspawn_path :: "HostRoots \<Rightarrow> MachineName \<Rightarrow> path" where
  "nspawn_path roots m = nspawn_config_dir roots @ [Normal (nspawn_file_name (machine_as_str m))]"

datatype NspawnConfigSourceKind = AdministratorSource | RuntimeSource | ImageAdjacent

record NspawnConfigSource =
  ns_kind :: NspawnConfigSourceKind
  ns_path :: path

definition from_roots :: "HostRoots \<Rightarrow> string \<Rightarrow> bool \<Rightarrow> NspawnConfigSource list" where
  "from_roots roots name image_adjacent =
     (let filename = Normal (nspawn_file_name name) in
      [\<lparr>ns_kind = AdministratorSource, ns_path = nspawn_config_dir roots @ [filename]\<rparr>,
       \<lparr>ns_kind = RuntimeSource, ns_path = nspawn_runtime_config_dir roots @ [filename]\<rparr>] @
      (if image_adjacent then [\<lparr>ns_kind = ImageAdjacent, ns_path = machines_dir roots @ [filename]\<rparr>] else []))"

definition sources_for_machine :: "HostRoots \<Rightarrow> MachineName \<Rightarrow> NspawnConfigSource list" where
  "sources_for_machine roots m = from_roots roots (machine_as_str m) False"

definition sources_for_image :: "HostRoots \<Rightarrow> ImageName \<Rightarrow> NspawnConfigSource list" where
  "sources_for_image roots i = from_roots roots (image_as_str i) True"

definition discovered_nspawn_paths :: "HostRoots \<Rightarrow> ImageName \<Rightarrow> path list" where
  "discovered_nspawn_paths roots i = map ns_path (sources_for_image roots i)"

text \<open>\<open>with_extension("lock")\<close>: what follows the last dot of the name is replaced.\<close>

definition lock_extension :: "path \<Rightarrow> path" where
  "lock_extension p =
     (case last p of
        Normal n \<Rightarrow>
          (case dropWhile (\<lambda>c. c \<noteq> CHR ''.'') (rev n) of
             c # stem \<Rightarrow> butlast p @ [Normal ((if stem = [] then n else rev stem) @ ''.lock'')]
           | [] \<Rightarrow> butlast p @ [Normal (n @ ''.lock'')])
      | _ \<Rightarrow> p)"

section \<open>Requests and results\<close>

datatype ConfigOperation =
    ReadConfig MachineName
  | InspectConfig ImageName
  | WriteConfig NspawnConfigSpec "WaylandGrant list" "PassthroughBind list option"
  | PrepareOciPromotion MachineName
  | PromoteOci MachineName OciNetworkMode
  | UpdateGpu MachineName "PassthroughBind list" "PassthroughBind list"
  | RemoveConfig MachineName
  | CleanupSidecarLocks ImageName

fun settings_machine :: "ConfigOperation \<Rightarrow> MachineName option" where
  "settings_machine (ReadConfig _) = None"
| "settings_machine (InspectConfig _) = None"
| "settings_machine (PrepareOciPromotion _) = None"
| "settings_machine (CleanupSidecarLocks _) = None"
| "settings_machine (WriteConfig spec _ _) = Some (sp_machine spec)"
| "settings_machine (PromoteOci m _) = Some m"
| "settings_machine (UpdateGpu m _ _) = Some m"
| "settings_machine (RemoveConfig m) = Some m"

record NspawnConfigInspection =
  in_path :: string
  in_content :: string

record NspawnConfigResult =
  cr_content :: "NspawnConfigInspection option"
  cr_apply :: "ResourceApplyStatus option"
  cr_sidecars_cleaned :: "bool option"

definition config_result_default :: NspawnConfigResult where
  "config_result_default = \<lparr>cr_content = None, cr_apply = None, cr_sidecars_cleaned = None\<rparr>"

datatype NspawnConfigPresence = ConfigAbsent | ConfigRegular | ConfigUnsafe

text \<open>
  Parameters of an operation: the \<open>Debug\<close> form of a text, the text of an error, the INI writer, and the host as far
  as sockets, display directories and bind sources are looked at.
\<close>

record ConfigEnv =
  ce_debug :: "string \<Rightarrow> string"
  ce_io_text :: "Errno \<Rightarrow> string"
  ce_write_ini :: "directive list \<Rightarrow> NspawnError + string"
  ce_view :: HostView

section \<open>Reading\<close>

definition content_too_large :: string where
  "content_too_large = ''.nspawn content exceeds '' @ show_nat MAX_NSPAWN_CONTENT_BYTES @ '' bytes''"

fun node_len :: "HostNode \<Rightarrow> nat" where
  "node_len (FileNode f) = length (hf_text f)"
| "node_len _ = 0"

definition bounded_utf8 :: "string \<Rightarrow> Errno + string" where
  "bounded_utf8 content =
     (let bytes = take (MAX_NSPAWN_CONTENT_BYTES + 1) content in
      if length bytes > MAX_NSPAWN_CONTENT_BYTES then Inl (InvalidData content_too_large) else from_utf8 bytes)"

definition read_bounded_utf8 :: "path \<Rightarrow> string call" where
  "read_bounded_utf8 p h =
     (case follow p h of
        (Inl e, h) \<Rightarrow> (Inl e, h)
      | (Inr n, h) \<Rightarrow>
          (case descriptor h of
             (Inl e, h) \<Rightarrow> (Inl e, h)
           | (Inr _, h) \<Rightarrow>
               if node_len n > MAX_NSPAWN_CONTENT_BYTES then (Inl (InvalidData content_too_large), h)
               else (case read_all n h of (r, h) \<Rightarrow> (and_then r bounded_utf8, h))))"

definition read_optional_config :: "path \<Rightarrow> string option hop" where
  "read_optional_config p =
     hmatch (read_bounded_utf8 p) (\<lambda>r.
       case r of
         Inr content \<Rightarrow> hreturn (Some content)
       | Inl e \<Rightarrow> if e = ENOENT then hreturn None else hfail (Io (path_text p) e))"

definition read_config_at :: "path \<Rightarrow> NspawnConfigInspection option hop" where
  "read_config_at p =
     hbind (read_optional_config p) (\<lambda>found_content.
       case found_content of
         None \<Rightarrow> hreturn None
       | Some content \<Rightarrow>
           hbind (hlift (validate_content_size content)) (\<lambda>_.
             hreturn (Some \<lparr>in_path = path_text p, in_content = content\<rparr>)))"

text \<open>\<open>ErrorKind::PermissionDenied\<close> is \<open>EACCES\<close> or \<open>EPERM\<close>.\<close>

definition permission_denied :: "Errno \<Rightarrow> bool" where
  "permission_denied e \<longleftrightarrow> e = EOTHER 13 \<or> e = EOTHER 1"

fun read_discovered_config_from :: "NspawnConfigSource list \<Rightarrow> NspawnConfigInspection option hop" where
  "read_discovered_config_from [] = hreturn None"
| "read_discovered_config_from (source # sources) =
     hmatch (read_bounded_utf8 (ns_path source)) (\<lambda>r.
       case r of
         Inr content \<Rightarrow> hreturn (Some \<lparr>in_path = path_text (ns_path source), in_content = content\<rparr>)
       | Inl e \<Rightarrow>
           if e = ENOENT \<or> ns_kind source = ImageAdjacent \<and> permission_denied e
           then read_discovered_config_from sources
           else hfail (Io (path_text (ns_path source)) e))"

definition read_discovered_config :: "HostRoots \<Rightarrow> ImageName \<Rightarrow> NspawnConfigInspection option hop" where
  "read_discovered_config roots i = read_discovered_config_from (sources_for_image roots i)"

definition probe_nspawn_config_at :: "path \<Rightarrow> NspawnConfigPresence hop" where
  "probe_nspawn_config_at p =
     hmatch (symlink_metadata p) (\<lambda>r.
       case r of
         Inl e \<Rightarrow> if e = ENOENT then hreturn ConfigAbsent else hfail (Io (path_text p) e)
       | Inr (FileNode f) \<Rightarrow>
           hreturn (if length (hf_text f) \<le> MAX_NSPAWN_CONTENT_BYTES then ConfigRegular else ConfigUnsafe)
       | Inr _ \<Rightarrow> hreturn ConfigUnsafe)"

section \<open>Removing\<close>

definition remove_config_at :: "path \<Rightarrow> unit hop" where
  "remove_config_at p =
     hbind (remove_optional_file p) (\<lambda>_.
     hbind (remove_optional_file (lock_path_for p)) (\<lambda>_.
       remove_optional_file (lock_extension p)))"

fun cleanup_sidecar_locks_at :: "path list \<Rightarrow> bool hop" where
  "cleanup_sidecar_locks_at [] = hreturn False"
| "cleanup_sidecar_locks_at (p # ps) =
     hmatch (symlink_metadata p) (\<lambda>r.
       case r of
         Inr _ \<Rightarrow> cleanup_sidecar_locks_at ps
       | Inl e \<Rightarrow>
           if e \<noteq> ENOENT then hfail (Io (path_text p) e)
           else
             hbind (remove_lock_if_target_absent p (lock_path_for p)) (\<lambda>current.
             hbind (remove_lock_if_target_absent p (lock_extension p)) (\<lambda>legacy.
             hbind (cleanup_sidecar_locks_at ps) (\<lambda>cleaned.
               hreturn (current \<or> legacy \<or> cleaned)))))"

section \<open>Writing\<close>

definition new_content_update :: "string \<Rightarrow> string option \<Rightarrow> NspawnError + string option \<times> ResourceApplyStatus" where
  "new_content_update content existing =
     Inr (case existing of
            None \<Rightarrow> (Some content, ApplyCreated)
          | Some old \<Rightarrow> if old = content then (None, Unchanged) else (None, ConflictUnknownOwner))"

definition apply_new_content_at :: "path \<Rightarrow> string \<Rightarrow> u32 option \<Rightarrow> ResourceApplyStatus hop" where
  "apply_new_content_at p content mode = apply_locked_inner p mode (new_content_update content)"

definition MAX_NVIDIA_BINDS :: nat where
  "MAX_NVIDIA_BINDS = 16384"

definition validate_absolute_value :: "(string \<Rightarrow> string) \<Rightarrow> string \<Rightarrow> string \<Rightarrow> NspawnError + unit" where
  "validate_absolute_value dbg label v =
     (if v = [] \<or> has_control v \<or> \<not> is_absolute v
      then Inl (ValidationError (''Invalid '' @ label @ '': '' @ dbg v)) else Inr ())"

definition validate_nvidia_update ::
  "(string \<Rightarrow> string) \<Rightarrow> PassthroughBind list \<Rightarrow> PassthroughBind list \<Rightarrow> NspawnError + unit" where
  "validate_nvidia_update dbg binds removed_binds =
     (if length binds > MAX_NVIDIA_BINDS \<or> length removed_binds > MAX_NVIDIA_BINDS
      then Inl (ValidationError ''Too many NVIDIA bind entries'')
      else
        and_then (try_each (\<lambda>b.
          and_then (validate_absolute_value dbg ''NVIDIA host path'' (host_path b)) (\<lambda>_.
            validate_absolute_value dbg ''NVIDIA container path'' (container_path b))) binds) (\<lambda>_.
        try_each (\<lambda>b.
          and_then (validate_absolute_value dbg ''removed NVIDIA host path'' (host_path b)) (\<lambda>_.
            validate_absolute_value dbg ''removed NVIDIA container path'' (container_path b))) removed_binds))"

definition gpu_update ::
  "MachineName \<Rightarrow> PassthroughBind list \<Rightarrow> PassthroughBind list \<Rightarrow> string option \<Rightarrow> NspawnError + string" where
  "gpu_update machine binds removed_binds existing =
     and_then (ok_or existing (RuntimeError (''No .nspawn configuration found for '' @ machine_as_str machine))) (\<lambda>content.
     and_then (apply_gpu_passthrough_to_content content binds removed_binds) (\<lambda>updated.
     and_then (validate_content_size updated) (\<lambda>_. Inr updated)))"

definition update_gpu_at ::
  "(string \<Rightarrow> string) \<Rightarrow> path \<Rightarrow> MachineName \<Rightarrow> PassthroughBind list \<Rightarrow> PassthroughBind list \<Rightarrow> unit hop" where
  "update_gpu_at dbg p machine binds removed_binds =
     hbind (hlift (validate_nvidia_update dbg binds removed_binds)) (\<lambda>_.
       write_locked p (gpu_update machine binds removed_binds))"

subsection \<open>Sources on the host\<close>

fun validate_bind_sources :: "HostView \<Rightarrow> BindMount list \<Rightarrow> NspawnError + unit" where
  "validate_bind_sources v [] = Inr ()"
| "validate_bind_sources v (b # bs) =
     (case hv_metadata v (bm_source b) of
        Inr _ \<Rightarrow> validate_bind_sources v bs
      | Inl e \<Rightarrow>
          if e = ENOENT then Inl (ValidationError (''Bind source does not exist: '' @ bm_source b))
          else Inl (Io (bm_source b) e))"

definition validate_custom_bind_sources :: "HostView \<Rightarrow> NspawnConfigSpec \<Rightarrow> NspawnError + unit" where
  "validate_custom_bind_sources v spec = validate_bind_sources v (sp_bind_mounts spec)"

text \<open>Four octal digits of a masked mode.\<close>

definition octal4 :: "u32 \<Rightarrow> string" where
  "octal4 mode = map (\<lambda>k. char_of (48 + unat mode div 8 ^ k mod 8)) [3, 2, 1, 0]"

definition validate_socket_directory_metadata :: "string \<Rightarrow> bool \<Rightarrow> u32 \<Rightarrow> u32 \<Rightarrow> string + string option" where
  "validate_socket_directory_metadata path is_directory owner_uid mode =
     (let mode = mode AND 0xFFF;
          seen = ''uid='' @ show_nat (unat owner_uid) @ '' mode='' @ octal4 mode in
      if \<not> is_directory then Inl (path @ '' is not a directory ('' @ seen @ '')'')
      else if owner_uid \<noteq> 0 then Inl (path @ '' is not root-owned ('' @ seen @ '')'')
      else if mode AND 18 \<noteq> 0 \<and> mode AND 512 = 0
      then Inr (Some (path @ '' is root-owned but writable by group/other without the sticky bit (mode='' @ octal4 mode @
             ''); accepting this compatibility layout with weaker replacement-race protection''))
      else Inr None)"

definition validate_socket_directory :: "(Errno \<Rightarrow> string) \<Rightarrow> HostView \<Rightarrow> string \<Rightarrow> string + string option" where
  "validate_socket_directory io_text v path =
     and_then (map_err (\<lambda>e. ''Cannot inspect '' @ path @ '': '' @ io_text e) (hv_metadata v path)) (\<lambda>md.
       validate_socket_directory_metadata path (md_kind md = KindDirectory) (md_uid md) (md_mode md))"

definition x11_socket_directory_available :: "(Errno \<Rightarrow> string) \<Rightarrow> HostView \<Rightarrow> bool" where
  "x11_socket_directory_available io_text v \<longleftrightarrow>
     is_ok (validate_socket_directory io_text v X11_SOCKET_DIRECTORY) \<and>
     (case hv_canonicalize v X11_SOCKET_DIRECTORY of Inr canonical \<Rightarrow> path_eq canonical X11_SOCKET_DIRECTORY | Inl _ \<Rightarrow> False)"

definition validate_x11_source :: "ConfigEnv \<Rightarrow> X11BindIntent \<Rightarrow> NspawnError + unit" where
  "validate_x11_source env b =
     (let source = bind_source_path (xb_source b); v = ce_view env in
      and_then (map_err (Io source) (hv_canonicalize v source)) (\<lambda>canonical.
      and_then (map_err (Io canonical) (hv_metadata v canonical)) (\<lambda>md.
        case xb_source b of
          SourceDirectory _ \<Rightarrow>
            if \<not> path_eq canonical X11_SOCKET_DIRECTORY \<or> md_kind md \<noteq> KindDirectory
               \<or> \<not> x11_socket_directory_available (ce_io_text env) v
            then Inl (ValidationError (''X11 bind directory changed since selection: '' @ source)) else Inr ()
        | SourceSocket socket \<Rightarrow>
            if \<not> path_eq canonical (xs_canonical_path socket)
            then Inl (ValidationError (''X11 bind source changed since discovery: '' @ source))
            else if md_kind md \<noteq> KindSocket \<or> revision_of md \<noteq> xs_revision socket
            then Inl (ValidationError (''X11 bind endpoint changed since discovery: '' @ source))
            else Inr ())))"

definition validate_x11_bind_sources :: "ConfigEnv \<Rightarrow> X11BindIntent list \<Rightarrow> NspawnError + unit" where
  "validate_x11_bind_sources env binds = try_each (validate_x11_source env) binds"

definition validate_resolved_wayland_policy :: "NspawnConfigSpec \<Rightarrow> WaylandGrant \<Rightarrow> NspawnError + unit" where
  "validate_resolved_wayland_policy spec grant =
     and_then
       (case sp_private_users spec of
          Some UsersNo \<Rightarrow> Inr BindNoIdmap
        | None \<Rightarrow> Inr BindIdmap
        | Some UsersYes \<Rightarrow> Inr BindIdmap
        | Some UsersPick \<Rightarrow> Inr BindIdmap
        | Some _ \<Rightarrow> Inl (ValidationError ''Wayland grant uses an unsupported PrivateUsers mode'')) (\<lambda>expected_policy.
     if wg_bind_policy grant \<noteq> expected_policy
     then Inl (ValidationError ''Wayland grant idmap policy does not match PrivateUsers'')
     else try_each (\<lambda>socket.
            if write_access_for (sg_source socket) (wg_target grant) \<noteq> Some (sg_access socket)
            then Inl (ValidationError ''Wayland grant does not match socket DAC permissions'') else Inr ()) (wg_sockets grant))"

definition validate_wayland_grant :: "ConfigEnv \<Rightarrow> NspawnConfigSpec \<Rightarrow> WaylandGrant \<Rightarrow> u32 \<Rightarrow> NspawnError + string list" where
  "validate_wayland_grant env spec grant uid =
     and_then (validate_resolved_wayland_policy spec grant) (\<lambda>_.
       try_map (\<lambda>socket. revalidate_host_socket (ce_debug env) (ce_view env) (sg_source socket) uid) (wg_sockets grant))"

text \<open>The binds of one grant: each of its sockets with the path it was found at.\<close>

definition grant_binds :: "WaylandGrant \<Rightarrow> string list \<Rightarrow> WaylandBind list" where
  "grant_binds grant sockets =
     map (\<lambda>(socket, source).
       \<lparr>wb_source = source, wb_target = container_socket_path (ci_uid (wg_target grant)) (ws_display (sg_source socket)),
        wb_policy = wg_bind_policy grant\<rparr>) (zip (wg_sockets grant) sockets)"

fun validate_wayland_grants :: "ConfigEnv \<Rightarrow> NspawnConfigSpec \<Rightarrow> u32 \<Rightarrow> WaylandGrant list \<Rightarrow> NspawnError + WaylandBind list" where
  "validate_wayland_grants env spec uid [] = Inr []"
| "validate_wayland_grants env spec uid (grant # grants) =
     and_then (validate_wayland_grant env spec grant uid) (\<lambda>sockets.
     and_then (validate_wayland_grants env spec uid grants) (\<lambda>binds.
       Inr (grant_binds grant sockets @ binds)))"

definition generated_content ::
  "ConfigEnv \<Rightarrow> NspawnConfigSpec \<Rightarrow> WaylandGrant list \<Rightarrow> PassthroughBind list option \<Rightarrow> u32 \<Rightarrow> NspawnError + string" where
  "generated_content env spec wayland nvidia_state uid =
     and_then (spec_validate (ce_debug env) spec) (\<lambda>_.
     and_then (validate_custom_bind_sources (ce_view env) spec) (\<lambda>_.
     and_then (validate_x11_bind_sources env (sp_x11_binds spec)) (\<lambda>_.
     and_then (validate_wayland_grants env spec uid wayland) (\<lambda>wayland_binds.
     and_then (case nvidia_state of Some binds \<Rightarrow> validate_nvidia_update (ce_debug env) binds [] | None \<Rightarrow> Inr ()) (\<lambda>_.
     and_then (nspawn_directives (ce_debug env) spec wayland_binds) (\<lambda>directives.
     and_then (ce_write_ini env directives) (\<lambda>content.
     and_then (case nvidia_state of Some binds \<Rightarrow> apply_gpu_passthrough_to_content content binds [] | None \<Rightarrow> Inr content) (\<lambda>content.
     and_then (validate_content_size content) (\<lambda>_. Inr content)))))))))"

definition write_generated_at ::
  "ConfigEnv \<Rightarrow> path \<Rightarrow> NspawnConfigSpec \<Rightarrow> WaylandGrant list \<Rightarrow> PassthroughBind list option \<Rightarrow> u32 \<Rightarrow> ResourceApplyStatus hop" where
  "write_generated_at env p spec wayland nvidia_state uid =
     hbind (hlift (generated_content env spec wayland nvidia_state uid)) (\<lambda>content.
       apply_new_content_at p content (Some 420))"

subsection \<open>Promotion\<close>

definition optional_symlink_metadata :: "path \<Rightarrow> HostNode option hop" where
  "optional_symlink_metadata p =
     hmatch (symlink_metadata p) (\<lambda>r.
       case r of
         Inr n \<Rightarrow> hreturn (Some n)
       | Inl e \<Rightarrow> if e = ENOENT then hreturn None else hfail (Io (path_text p) e))"

text \<open>\<open>lines().next() == Some(marker)\<close>.\<close>

definition marked :: "string \<Rightarrow> bool" where
  "marked content \<longleftrightarrow> (case str_lines content of l # _ \<Rightarrow> l = LASPER_OCI_CONFIG_MARKER | [] \<Rightarrow> False)"

definition check_admin_config :: "path \<Rightarrow> HostNode option \<Rightarrow> unit hop" where
  "check_admin_config admin metadata =
     (case metadata of
        None \<Rightarrow> hreturn ()
      | Some (FileNode _) \<Rightarrow>
          hbind (io admin (read_to_string admin)) (\<lambda>existing.
          hbind (hlift (validate_content_size existing)) (\<lambda>_.
            if \<not> marked existing
            then hfail (ValidationError (''Refusing to replace existing administrator configuration: '' @ path_text admin))
            else hreturn ()))
      | Some _ \<Rightarrow>
          hfail (ValidationError (''Refusing to replace non-regular administrator configuration: '' @ path_text admin)))"

definition validate_oci_promotion_target :: "MachineName \<Rightarrow> path \<Rightarrow> path \<Rightarrow> unit hop" where
  "validate_oci_promotion_target machine admin_dir runtime_dir =
     (let filename = Normal (nspawn_file_name (machine_as_str machine));
          admin = admin_dir @ [filename]; runtime = runtime_dir @ [filename] in
      hbind (optional_symlink_metadata admin) (\<lambda>metadata.
      hbind (check_admin_config admin metadata) (\<lambda>_.
      hbind (optional_symlink_metadata runtime) (\<lambda>masked.
        if masked \<noteq> None
        then hfail (ValidationError (''Refusing to mask existing runtime configuration: '' @ path_text runtime))
        else hreturn ()))))"

text \<open>\<open>open\<close> with \<open>O_NOFOLLOW\<close>.\<close>

definition open_nofollow :: "path \<Rightarrow> HostNode call" where
  "open_nofollow p = host_call (\<lambda>h. (case found h p of Inr (LinkNode _) \<Rightarrow> Inl ELOOP | r \<Rightarrow> r, h))"

definition read_exclusive_file :: "(Errno \<Rightarrow> string) \<Rightarrow> path \<Rightarrow> HostFile \<Rightarrow> string hop" where
  "read_exclusive_file io_text p f h =
     (if hf_uid f \<noteq> h_uid h \<or> hf_mode f AND 18 \<noteq> 0
      then hfail (ValidationError (''OCI runtime configuration is not owned exclusively by the privileged executor: '' @ path_text p)) h
      else if length (hf_text f) > MAX_NSPAWN_CONTENT_BYTES then hfail (ValidationError content_too_large) h
      else
        hbind (io p (read_all (FileNode f))) (\<lambda>content.
          let bytes = take (MAX_NSPAWN_CONTENT_BYTES + 1) content in
          if length bytes > MAX_NSPAWN_CONTENT_BYTES then hfail (ValidationError content_too_large)
          else hlift (map_err (\<lambda>e. ValidationError (''OCI runtime configuration is not valid UTF-8: '' @ io_text e))
                 (from_utf8 bytes))) h)"

definition read_trusted_oci_config :: "(Errno \<Rightarrow> string) \<Rightarrow> path \<Rightarrow> string hop" where
  "read_trusted_oci_config io_text p =
     (let irregular = ValidationError (''OCI runtime configuration is not a regular file: '' @ path_text p) in
      hbind (hmatch (open_nofollow p) (\<lambda>r.
        case r of
          Inr n \<Rightarrow> hreturn n
        | Inl e \<Rightarrow> hfail (if e = ELOOP then irregular else Io (path_text p) e))) (\<lambda>n.
      hbind (io p descriptor) (\<lambda>_.
        case n of
          FileNode f \<Rightarrow> read_exclusive_file io_text p f
        | _ \<Rightarrow> hfail irregular)))"

definition promotion_update :: "string \<Rightarrow> bool \<Rightarrow> string option \<Rightarrow> NspawnError + string option \<times> ResourceApplyStatus" where
  "promotion_update content replace_owned existing =
     Inr (case existing of
            None \<Rightarrow> (Some content, ApplyCreated)
          | Some old \<Rightarrow>
              if old = content then (None, Unchanged)
              else if replace_owned \<and> marked old then (Some content, ReplacedOwned)
              else (None, ConflictUnknownOwner))"

definition promote_oci_config_inner ::
  "(Errno \<Rightarrow> string) \<Rightarrow> MachineName \<Rightarrow> OciNetworkMode \<Rightarrow> path \<Rightarrow> path \<Rightarrow> path \<Rightarrow> bool \<Rightarrow> ResourceApplyStatus hop" where
  "promote_oci_config_inner io_text machine network machines admin_dir runtime_dir replace_owned =
     hbind (validate_oci_promotion_target machine admin_dir runtime_dir) (\<lambda>_.
     (let filename = Normal (nspawn_file_name (machine_as_str machine));
          source = machines @ [filename]; destination = admin_dir @ [filename] in
      hbind (read_trusted_oci_config io_text source) (\<lambda>source_content.
      hbind (hlift (promote_oci_content source_content network)) (\<lambda>content.
      hbind (hlift (validate_content_size content)) (\<lambda>_.
        apply_locked_inner destination (Some 416) (promotion_update content replace_owned))))))"

definition promote_new_oci_config ::
  "(Errno \<Rightarrow> string) \<Rightarrow> MachineName \<Rightarrow> OciNetworkMode \<Rightarrow> path \<Rightarrow> path \<Rightarrow> path \<Rightarrow> ResourceApplyStatus hop" where
  "promote_new_oci_config io_text machine network machines admin_dir runtime_dir =
     promote_oci_config_inner io_text machine network machines admin_dir runtime_dir False"

section \<open>The operations of the daemon\<close>

fun run_config_operation :: "HostRoots \<Rightarrow> ConfigEnv \<Rightarrow> u32 \<Rightarrow> ConfigOperation \<Rightarrow> NspawnConfigResult hop" where
  "run_config_operation roots env uid (ReadConfig m) =
     hbind (read_config_at (nspawn_path roots m)) (\<lambda>content. hreturn (config_result_default\<lparr>cr_content := content\<rparr>))"
| "run_config_operation roots env uid (InspectConfig i) =
     hbind (read_discovered_config roots i) (\<lambda>content. hreturn (config_result_default\<lparr>cr_content := content\<rparr>))"
| "run_config_operation roots env uid (WriteConfig spec wayland nvidia) =
     hbind (write_generated_at env (nspawn_path roots (sp_machine spec)) spec wayland nvidia uid) (\<lambda>st.
       hreturn (config_result_default\<lparr>cr_apply := Some st\<rparr>))"
| "run_config_operation roots env uid (PromoteOci m network) =
     hbind (promote_new_oci_config (ce_io_text env) m network (machines_dir roots) (nspawn_config_dir roots)
         (nspawn_runtime_config_dir roots)) (\<lambda>st.
       hreturn (config_result_default\<lparr>cr_apply := Some st\<rparr>))"
| "run_config_operation roots env uid (PrepareOciPromotion m) =
     hbind (validate_oci_promotion_target m (nspawn_config_dir roots) (nspawn_runtime_config_dir roots)) (\<lambda>_.
       hreturn config_result_default)"
| "run_config_operation roots env uid (UpdateGpu m binds removed_binds) =
     hbind (update_gpu_at (ce_debug env) (nspawn_path roots m) m binds removed_binds) (\<lambda>_. hreturn config_result_default)"
| "run_config_operation roots env uid (RemoveConfig m) =
     hbind (remove_config_at (nspawn_path roots m)) (\<lambda>_. hreturn config_result_default)"
| "run_config_operation roots env uid (CleanupSidecarLocks i) =
     hbind (cleanup_sidecar_locks_at (discovered_nspawn_paths roots i)) (\<lambda>cleaned.
       hreturn (config_result_default\<lparr>cr_sidecars_cleaned := Some cleaned\<rparr>))"

text \<open>
  \<open>settings_lock::acquire\<close>: the directory of the locks as it was opened, or the error of opening it, is given.
\<close>

definition settings_lock_acquire ::
  "(string \<Rightarrow> string) \<Rightarrow> NspawnError + TrustedDirectory \<Rightarrow> MachineName \<Rightarrow> NspawnError + TrustedDirectory" where
  "settings_lock_acquire dbg directory machine =
     and_then directory (\<lambda>d.
       case lock_exclusive dbg (machine_as_str machine) d of (Inl e, _) \<Rightarrow> Inl e | (Inr _, d') \<Rightarrow> Inr d')"

definition execute_nspawn_config_operation ::
  "HostRoots \<Rightarrow> ConfigEnv \<Rightarrow> NspawnError + TrustedDirectory \<Rightarrow> ConfigOperation \<Rightarrow> u32 \<Rightarrow> NspawnConfigResult hop" where
  "execute_nspawn_config_operation roots env locks op uid =
     (case settings_machine op of
        None \<Rightarrow> run_config_operation roots env uid op
      | Some machine \<Rightarrow>
          hbind (hlift (settings_lock_acquire (ce_debug env) locks machine)) (\<lambda>_.
            run_config_operation roots env uid op))"

subsection \<open>The store as its clients see it\<close>

text \<open>
  \<open>NspawnConfigStore\<close> turns a name into a request and hands it to its executor, the operation above or the daemon's
  reply to it; \<open>NspawnConfig\<close> has the fields of an inspection.
\<close>

type_synonym executor = "ConfigOperation \<Rightarrow> NspawnConfigResult hop"

definition direct_config_executor :: "HostRoots \<Rightarrow> ConfigEnv \<Rightarrow> NspawnError + TrustedDirectory \<Rightarrow> u32 \<Rightarrow> string option \<Rightarrow> executor" where
  "direct_config_executor roots env locks uid sudo_uid op = execute_nspawn_config_operation roots env locks op (invoking_uid uid sudo_uid)"

definition elevated_config_executor :: "('e \<Rightarrow> string) \<Rightarrow> (ConfigOperation \<Rightarrow> Host \<Rightarrow> ('e + NspawnConfigResult) \<times> Host) \<Rightarrow> executor" where
  "elevated_config_executor to_string rpc op h = (case rpc op h of (r, h') \<Rightarrow> (map_err (\<lambda>e. RuntimeError (to_string e)) r, h'))"

definition parse_image_name :: "string \<Rightarrow> NspawnError + ImageName" where
  "parse_image_name name = map_err (\<lambda>e. case e of ImageNameError s \<Rightarrow> ValidationError s) (image_name_new name)"

definition store_read :: "executor \<Rightarrow> string \<Rightarrow> NspawnConfigInspection option hop" where
  "store_read exec name =
     hbind (hlift (parse_machine_name name)) (\<lambda>machine.
     hbind (exec (ReadConfig machine)) (\<lambda>result. hreturn (cr_content result)))"

definition store_inspect :: "executor \<Rightarrow> string \<Rightarrow> NspawnConfigInspection option hop" where
  "store_inspect exec name =
     hbind (hlift (parse_image_name name)) (\<lambda>image.
     hbind (exec (InspectConfig image)) (\<lambda>result. hreturn (cr_content result)))"

definition store_write_generated ::
  "executor \<Rightarrow> (string \<Rightarrow> string) \<Rightarrow> MachineProvisioningConfig \<Rightarrow> WaylandGrant list \<Rightarrow> PassthroughBind list option \<Rightarrow> ResourceApplyStatus hop" where
  "store_write_generated exec dbg config wayland nvidia_state =
     hbind (hlift (spec_try_from dbg config)) (\<lambda>spec.
     hbind (exec (WriteConfig spec wayland nvidia_state)) (\<lambda>result.
       hlift (ok_or (cr_apply result) (RuntimeError ''nspawn write returned no apply status''))))"

definition store_promote_oci :: "executor \<Rightarrow> string \<Rightarrow> OciNetworkMode \<Rightarrow> ResourceApplyStatus hop" where
  "store_promote_oci exec name network =
     hbind (hlift (parse_machine_name name)) (\<lambda>machine.
     hbind (exec (PromoteOci machine network)) (\<lambda>result.
       hlift (ok_or (cr_apply result) (RuntimeError ''OCI promotion returned no apply status''))))"

definition store_prepare_oci_promotion :: "executor \<Rightarrow> string \<Rightarrow> unit hop" where
  "store_prepare_oci_promotion exec name =
     hbind (hlift (parse_machine_name name)) (\<lambda>machine.
     hbind (exec (PrepareOciPromotion machine)) (\<lambda>_. hreturn ()))"

definition store_update_gpu :: "executor \<Rightarrow> string \<Rightarrow> PassthroughBind list \<Rightarrow> PassthroughBind list \<Rightarrow> unit hop" where
  "store_update_gpu exec name binds removed_binds =
     hbind (hlift (parse_machine_name name)) (\<lambda>machine.
     hbind (exec (UpdateGpu machine binds removed_binds)) (\<lambda>_. hreturn ()))"

definition store_remove :: "executor \<Rightarrow> string \<Rightarrow> unit hop" where
  "store_remove exec name =
     hbind (hlift (parse_machine_name name)) (\<lambda>machine.
     hbind (exec (RemoveConfig machine)) (\<lambda>_. hreturn ()))"

definition store_cleanup_sidecar_locks :: "executor \<Rightarrow> string \<Rightarrow> bool hop" where
  "store_cleanup_sidecar_locks exec name =
     hbind (hlift (parse_image_name name)) (\<lambda>image.
     hbind (exec (CleanupSidecarLocks image)) (\<lambda>result.
       hreturn (case cr_sidecars_cleaned result of Some cleaned \<Rightarrow> cleaned | None \<Rightarrow> False)))"

text \<open>
  What the clients rely on: a result carries the part its operation is asked for. Then an error of a client call is
  one of its arguments or of the executor, and never that of a missing part.
\<close>

locale config_executor =
  fixes exec :: executor
  assumes write_status: "exec (WriteConfig spec wayland nvidia) h = (Inr r, h') \<Longrightarrow> cr_apply r \<noteq> None"
    and promote_status: "exec (PromoteOci m network) h = (Inr r, h') \<Longrightarrow> cr_apply r \<noteq> None"
    and cleanup_report: "exec (CleanupSidecarLocks i) h = (Inr r, h') \<Longrightarrow> cr_sidecars_cleaned r \<noteq> None"
begin

lemma write_error_cause:
  assumes "store_write_generated exec dbg config wayland nvidia h = (Inl e, h')"
  shows "spec_try_from dbg config = Inl e \<and> h' = h \<or> (\<exists>spec. spec_try_from dbg config = Inr spec \<and> exec (WriteConfig spec wayland nvidia) h = (Inl e, h'))"
  using assms write_status
  by (fastforce simp: ok_or_def store_write_generated_def hbind_def hlift_def split: prod.splits sum.splits option.splits)

lemma promote_error_cause:
  assumes "store_promote_oci exec name network h = (Inl e, h')"
  shows "parse_machine_name name = Inl e \<and> h' = h \<or> (\<exists>m. parse_machine_name name = Inr m \<and> exec (PromoteOci m network) h = (Inl e, h'))"
  using assms promote_status
  by (fastforce simp: ok_or_def store_promote_oci_def hbind_def hlift_def split: prod.splits sum.splits option.splits)

lemma cleanup_reported:
  assumes "store_cleanup_sidecar_locks exec name h = (Inr b, h')"
  shows "\<exists>i r. parse_image_name name = Inr i \<and> exec (CleanupSidecarLocks i) h = (Inr r, h') \<and> cr_sidecars_cleaned r = Some b"
  using assms cleanup_report
  by (fastforce simp: store_cleanup_sidecar_locks_def hbind_def hlift_def hreturn_def split: prod.splits sum.splits option.splits)

end

interpretation direct: config_executor "direct_config_executor roots env locks uid sudo_uid"
  for roots env locks uid sudo_uid
  by unfold_locales
    (auto simp: direct_config_executor_def execute_nspawn_config_operation_def hlift_def hreturn_def config_result_default_def elim!: hbindE)

lemma direct_write_error:
  assumes "store_write_generated (direct_config_executor roots env locks uid sudo_uid) dbg config wayland nvidia h = (Inl e, h')"
  shows "spec_try_from dbg config = Inl e \<and> h' = h
    \<or> (\<exists>spec. spec_try_from dbg config = Inr spec \<and>
         execute_nspawn_config_operation roots env locks (WriteConfig spec wayland nvidia) (invoking_uid uid sudo_uid) h = (Inl e, h'))"
  using direct.write_error_cause [OF assms] by (simp add: direct_config_executor_def)

section \<open>What an operation may change\<close>

text \<open>The request as the dispatcher sees it when it takes claims.\<close>

fun config_claimed :: "ConfigOperation \<Rightarrow> NspawnConfigOperation" where
  "config_claimed (ReadConfig m) = NspawnRead m"
| "config_claimed (InspectConfig i) = NspawnInspect i"
| "config_claimed (WriteConfig spec _ _) = NspawnWrite (sp_machine spec)"
| "config_claimed (PrepareOciPromotion m) = NspawnPrepareOciPromotion m"
| "config_claimed (PromoteOci m _) = NspawnPromoteOci m"
| "config_claimed (UpdateGpu m _ _) = NspawnUpdateGpu m"
| "config_claimed (RemoveConfig m) = NspawnRemove m"
| "config_claimed (CleanupSidecarLocks i) = NspawnCleanupSidecarLocks i"

text \<open>The locks beside a file: the current one and that of earlier versions.\<close>

definition sidecar_locks :: "path \<Rightarrow> path set" where
  "sidecar_locks p = {lock_path_for p, lock_extension p}"

text \<open>What may become of a file, link or directory that is there: \<open>None\<close> when it is removed.\<close>

fun config_may_become :: "HostRoots \<Rightarrow> Host \<Rightarrow> ConfigOperation \<Rightarrow> path \<Rightarrow> HostNode \<Rightarrow> HostNode option \<Rightarrow> bool" where
  "config_may_become roots h (UpdateGpu m binds removed) p n after =
     (p = nspawn_path roots m \<and>
      (\<exists>f c. n = FileNode f \<and> apply_gpu_passthrough_to_content (hf_text f) binds removed = Inr c \<and>
         length c \<le> MAX_NSPAWN_CONTENT_BYTES \<and> after = Some (written_file h (hf_mode f AND 4095) c)))"
| "config_may_become roots h (RemoveConfig m) p n after =
     (p \<in> insert (nspawn_path roots m) (sidecar_locks (nspawn_path roots m)) \<and> n \<noteq> DirectoryNode \<and> after = None)"
| "config_may_become roots h (CleanupSidecarLocks i) p n after =
     ((\<exists>q \<in> set (discovered_nspawn_paths roots i). p \<in> sidecar_locks q \<and> node h q = None) \<and> n \<noteq> DirectoryNode \<and> after = None)"
| "config_may_become roots h _ p n after = False"

definition same_at :: "path \<Rightarrow> Host \<Rightarrow> Host \<Rightarrow> bool" where
  "same_at p h h' \<longleftrightarrow> node h' p = node h p"

interpretation same: host_reading "same_at p" for p
  by unfold_locales (auto simp: same_at_def)

context host_reading
begin

lemma keeps_read_bounded: "preserves R (read_bounded_utf8 p)"
  using keeps_looking(2) [of p] keeps_looking(3) keeps_looking(4) transitive
  unfolding preserves_def read_bounded_utf8_def
  by (auto split: prod.splits sum.splits) (metis snd_conv)+

lemma keeps_read_optional_config: "preserves R (read_optional_config p)"
  unfolding read_optional_config_def by (intro keeps_rules keeps_read_bounded)

lemma keeps_read_config_at: "preserves R (read_config_at p)"
  unfolding read_config_at_def by (intro keeps_rules keeps_read_optional_config)

lemma keeps_read_discovered: "preserves R (read_discovered_config_from sources)"
  by (induction sources) (auto intro!: keeps_rules keeps_read_bounded simp del: if_split)

lemma keeps_optional_metadata: "preserves R (optional_symlink_metadata p)"
  unfolding optional_symlink_metadata_def by (intro keeps_rules keeps_looking)

lemma keeps_promotion_target: "preserves R (validate_oci_promotion_target m a r)"
  unfolding validate_oci_promotion_target_def check_admin_config_def Let_def
  by (intro keeps_rules keeps_optional_metadata keeps_read_to_string)

lemma keeps_open_nofollow: "preserves R (open_nofollow p)"
  unfolding open_nofollow_def by (intro keeps_host_call) (simp add: preserves_def reflexive)

lemma keeps_read_exclusive: "preserves R (read_exclusive_file io_text p f)"
proof -
  let ?rest = "hbind (io p (read_all (FileNode f))) (\<lambda>content.
    if length (take (MAX_NSPAWN_CONTENT_BYTES + 1) content) > MAX_NSPAWN_CONTENT_BYTES then hfail (ValidationError content_too_large)
    else hlift (map_err (\<lambda>e. ValidationError (''OCI runtime configuration is not valid UTF-8: '' @ io_text e))
      (from_utf8 (take (MAX_NSPAWN_CONTENT_BYTES + 1) content))))"
  have "preserves R ?rest" by (intro keeps_rules keeps_looking)
  then show ?thesis
    unfolding preserves_def read_exclusive_file_def Let_def by (simp add: hfail_def reflexive)
qed

lemma keeps_trusted_oci: "preserves R (read_trusted_oci_config io_text p)"
  unfolding read_trusted_oci_config_def Let_def
  by (intro keeps_rules keeps_open_nofollow keeps_looking keeps_read_exclusive)

end

text \<open>A locked update changes its target only, and that only from a plain file to the text made of it.\<close>

lemma apply_locked_change:
  assumes "apply_locked_inner p mode gen h = (r, h')" and "p \<noteq> []" and "last p = Normal name"
    and "node h q = Some n" and "node h' q \<noteq> Some n"
  shows "q = p \<and> (\<exists>f c x. n = FileNode f \<and> gen (Some (hf_text f)) = Inr (Some c, x) \<and> r = Inr x \<and>
    node h' p = Some (written_file h (final_mode mode h p) c))"
proof (cases "q = p")
  case True
  then show ?thesis
    using apply_locked_outcome [OF assms(1-3)] assms(4,5)
    by (auto simp: stays_def plain_target_def text_at_def split: option.splits HostNode.splits)
next
  case False
  have "preserves (stays q) (apply_locked_inner p mode gen)"
    using False by (intro stays.keeps_apply_locked stays_persist)
  from preservesD [OF this assms(1)] show ?thesis using assms(4,5) by (auto simp: stays_def)
qed

text \<open>Nothing but removals, at some paths, of what is no directory.\<close>

definition removes_only :: "path set \<Rightarrow> Host \<Rightarrow> Host \<Rightarrow> bool" where
  "removes_only S h h' \<longleftrightarrow>
     (\<forall>p. node h' p = node h p \<or> p \<in> S \<and> node h p \<noteq> Some DirectoryNode \<and> node h' p = None)"

interpretation removing: host_reading "removes_only S" for S
proof
  fix h h' h''
  assume "removes_only S h h'" and "removes_only S h' h''"
  then show "removes_only S h h''" unfolding removes_only_def by metis
qed (auto simp: removes_only_def)

lemma removes_only_cases:
  "removes_only S h h' \<Longrightarrow> node h p = Some n \<Longrightarrow> node h' p \<noteq> Some n \<Longrightarrow> p \<in> S \<and> n \<noteq> DirectoryNode \<and> node h' p = None"
  unfolding removes_only_def by metis

lemma removing_unlink: "q \<in> S \<Longrightarrow> preserves (removes_only S) (unlink q)"
  unfolding unlink_def
  by (intro removing.keeps_host_call) (auto simp: preserves_def removes_only_def split: option.splits HostNode.splits)

lemma remove_config_removes:
  "preserves (removes_only (insert p (sidecar_locks p))) (remove_config_at p)"
  unfolding remove_config_at_def
  by (intro removing.keeps_rules removing.keeps_remove_optional_file removing_unlink) (simp_all add: sidecar_locks_def)

lemma metadata_absent:
  "symlink_metadata p h = (Inl ENOENT, h') \<Longrightarrow> node h p = None \<and> node h' = node h"
  unfolding symlink_metadata_def
  by (erule host_callE) (auto simp: found_def split: option.splits if_splits)

lemma cleanup_removes:
  assumes "cleanup_sidecar_locks_at ps h = (r, h')" and "\<And>q q'. q \<in> set ps \<Longrightarrow> q' \<in> set ps \<Longrightarrow> q' \<notin> sidecar_locks q"
  shows "removes_only (\<Union> (sidecar_locks ` {q \<in> set ps. node h q = None})) h h'"
  using assms
proof (induction ps arbitrary: h r h')
  case Nil
  then show ?case by (simp add: hreturn_def removing.reflexive)
next
  case (Cons q ps)
  let ?S = "\<lambda>h ps. \<Union> (sidecar_locks ` {q \<in> set ps. node h q = None})"
  have mono: "removes_only S h h' \<Longrightarrow> S \<subseteq> T \<Longrightarrow> removes_only T h h'" for S T h h'
    unfolding removes_only_def by blast
  have IH: "removes_only (?S h1 ps) h1 h2" if "cleanup_sidecar_locks_at ps h1 = (r, h2)" for h1 r h2
    using that by (intro Cons.IH Cons.prems(2)) auto
  obtain x h1 where m: "symlink_metadata q h = (x, h1)" by fastforce
  have n1: "node h1 = node h" using looking_result(1) [OF m] .
  show ?case
  proof (cases "x = Inl ENOENT")
    case False
    then have "removes_only (?S h1 ps) h1 h'"
      using Cons.prems(1) m IH
      by (cases x) (auto simp: hmatch_def hfail_def removing.reflexive)
    moreover have "?S h1 ps \<subseteq> ?S h (q # ps)" using n1 by auto
    ultimately have "removes_only (?S h (q # ps)) h1 h'" by (rule mono)
    then show ?thesis using n1 unfolding removes_only_def by simp
  next
    case True
    then have absent: "node h q = None" using metadata_absent m by blast
    let ?locks = "hbind (remove_lock_if_target_absent q (lock_path_for q)) (\<lambda>current.
      hbind (remove_lock_if_target_absent q (lock_extension q)) (\<lambda>legacy. hreturn (current \<or> legacy)))"
    have locks: "preserves (removes_only (sidecar_locks q)) ?locks"
      by (intro removing.keeps_rules removing.keeps_remove_lock removing_unlink) (simp_all add: sidecar_locks_def)
    have run: "hbind ?locks (\<lambda>b. hbind (cleanup_sidecar_locks_at ps) (\<lambda>cleaned. hreturn (b \<or> cleaned))) h1 = (r, h')"
      using Cons.prems(1) m True
      by (auto simp: hmatch_def hbind_def hreturn_def split: prod.splits sum.splits)
    from run have "\<exists>h2. removes_only (sidecar_locks q) h1 h2 \<and> (h' = h2 \<or> removes_only (?S h2 ps) h2 h')"
    proof (cases rule: hbindE)
      case (Error e)
      then show ?thesis using preservesD [OF locks] by blast
    next
      case (Next b h2)
      then have "removes_only (?S h2 ps) h2 h'"
        using IH by (auto simp: hbind_def hreturn_def split: prod.splits sum.splits)
      then show ?thesis using preservesD [OF locks Next(1)] by blast
    qed
    then obtain h2 where h2: "removes_only (sidecar_locks q) h1 h2" "h' = h2 \<or> removes_only (?S h2 ps) h2 h'" by blast
    have "node h2 q' = node h q'" if "q' \<in> set ps" for q'
      using h2(1) Cons.prems(2) [of q q'] that n1 unfolding removes_only_def by (metis list.set_intros(1,2))
    then have "?S h2 ps \<subseteq> ?S h (q # ps)" by auto
    moreover have "sidecar_locks q \<subseteq> ?S h (q # ps)" using absent by auto
    ultimately have "removes_only (?S h (q # ps)) h1 h2" "h' = h2 \<or> removes_only (?S h (q # ps)) h2 h'"
      using mono [OF h2(1)] h2(2) mono [of "?S h2 ps" h2 h'] by blast+
    then have "removes_only (?S h (q # ps)) h1 h'" using removing.transitive by blast
    then show ?thesis using n1 unfolding removes_only_def by simp
  qed
qed

lemma sidecar_names:
  "q \<in> sidecar_locks (d @ [Normal n]) \<Longrightarrow> \<exists>s. q = d @ [Normal (s @ ''.lock'')]"
proof -
  assume q: "q \<in> sidecar_locks (d @ [Normal n])"
  have "\<exists>s. lock_path_for (d @ [Normal n]) = d @ [Normal (s @ ''.lock'')]"
    by (rule exI [of _ "''.'' @ n"]) (simp add: lock_path_for_def)
  moreover have "\<exists>s. lock_extension (d @ [Normal n]) = d @ [Normal (s @ ''.lock'')]"
    by (auto simp: lock_extension_def split: list.split)
  ultimately show ?thesis using q unfolding sidecar_locks_def by blast
qed

lemma sidecar_not_config: "q \<in> sidecar_locks (d @ [Normal n]) \<Longrightarrow> q \<noteq> d' @ [Normal (nspawn_file_name n')]"
proof
  assume "q \<in> sidecar_locks (d @ [Normal n])" and "q = d' @ [Normal (nspawn_file_name n')]"
  then obtain s where "s @ ''.lock'' = n' @ ''.nspawn''" using sidecar_names [of q d n] by (auto simp: nspawn_file_name_def)
  then have "last (s @ ''.lock'') = last (n' @ ''.nspawn'')" by simp
  then show False by simp
qed

lemma discovered_paths_cases:
  "q \<in> set (discovered_nspawn_paths roots i) \<Longrightarrow> \<exists>d. q = d @ [Normal (nspawn_file_name (image_as_str i))]"
  by (auto simp: discovered_nspawn_paths_def sources_for_image_def from_roots_def Let_def)

lemma nspawn_path_plain: "nspawn_path roots m \<noteq> []" "last (nspawn_path roots m) = Normal (nspawn_file_name (machine_as_str m))"
  by (simp_all add: nspawn_path_def)

lemma reading_config_keeps:
  "preserves (keeps_at p n) (run_config_operation roots env uid (ReadConfig m))"
  "preserves (keeps_at p n) (run_config_operation roots env uid (InspectConfig i))"
  "preserves (keeps_at p n) (run_config_operation roots env uid (PrepareOciPromotion m))"
  unfolding run_config_operation.simps read_discovered_config_def
  by (intro at.keeps_rules at.keeps_read_config_at at.keeps_read_discovered at.keeps_promotion_target)+

lemma hbind_change:
  assumes "hbind m f h = (r, h')" and "\<And>x. preserves (same_at p) (f x)"
  obtains r1 h1 where "m h = (r1, h1)" and "node h' p = node h1 p"
  using assms(1)
proof (cases rule: hbindE)
  case (Next x h1)
  then have "same_at p h1 h'" using preservesD [OF assms(2)] by blast
  then show ?thesis using that Next(1) by (simp add: same_at_def)
qed (use that in blast)

lemma same_hreturn: "preserves (same_at p) (hreturn x)"
  by (rule same.keeps_hreturn)

lemma apply_locked_keeps:
  assumes "p \<noteq> []" and "last p = Normal name" and "\<And>old c x. gen (Some old) \<noteq> Inr (Some c, x)"
  shows "preserves (keeps_at q n) (apply_locked_inner p mode gen)"
  unfolding preserves_def
proof
  fix h
  obtain r h' where run: "apply_locked_inner p mode gen h = (r, h')" by fastforce
  have "node h' q = Some n" if "node h q = Some n"
    using apply_locked_change [OF run assms(1,2) that] assms(3) by blast
  then show "keeps_at q n h (snd (apply_locked_inner p mode gen h))" by (simp add: keeps_at_def run)
qed

lemma write_config_keeps: "preserves (keeps_at p n) (run_config_operation roots env uid (WriteConfig spec wayland nvidia))"
proof -
  have "preserves (keeps_at p n) (apply_locked_inner (nspawn_path roots m) mode (new_content_update content))" for m mode content
    by (rule apply_locked_keeps [OF nspawn_path_plain]) (simp add: new_content_update_def)
  then show ?thesis
    unfolding run_config_operation.simps write_generated_at_def apply_new_content_at_def by (intro at.keeps_rules)
qed

lemma promote_config_keeps: "preserves (keeps_at p n) (run_config_operation roots env uid (PromoteOci m network))"
proof -
  have dest: "nspawn_config_dir roots @ [Normal (nspawn_file_name (machine_as_str m))] = nspawn_path roots m"
    by (simp add: nspawn_path_def)
  have "preserves (keeps_at p n) (apply_locked_inner (nspawn_path roots m) mode (promotion_update content False))" for content mode
    by (rule apply_locked_keeps [OF nspawn_path_plain]) (simp add: promotion_update_def)
  then show ?thesis
    unfolding run_config_operation.simps promote_new_oci_config_def promote_oci_config_inner_def Let_def dest
    by (intro at.keeps_rules at.keeps_promotion_target at.keeps_trusted_oci)
qed

lemma gpu_update_Some:
  "gpu_update m binds removed (Some old) = Inr c \<Longrightarrow>
   apply_gpu_passthrough_to_content old binds removed = Inr c \<and> length c \<le> MAX_NSPAWN_CONTENT_BYTES"
  by (auto simp: gpu_update_def validate_content_size_def ok_or_def split: if_splits)

lemma config_change:
  assumes "run_config_operation roots env uid op h = (r, h')" and "node h p = Some n" and "node h' p \<noteq> Some n"
  shows "config_may_become roots h op p n (node h' p)"
proof -
  have keep: "\<not> preserves (keeps_at p n) (run_config_operation roots env uid op)"
    using assms unfolding preserves_def keeps_at_def by (metis snd_conv)
  show ?thesis
  proof (cases op)
    case (UpdateGpu m binds removed)
    from assms(1) [unfolded UpdateGpu run_config_operation.simps] obtain r1 h1
      where up: "update_gpu_at (ce_debug env) (nspawn_path roots m) m binds removed h = (r1, h1)" and n1: "node h' p = node h1 p"
      by (rule hbind_change [OF _ same_hreturn])
    from up [unfolded update_gpu_at_def] have "write_locked (nspawn_path roots m) (gpu_update m binds removed) h = (r1, h1)"
    proof (cases rule: hbindE)
      case (Error e)
      then show ?thesis using n1 assms(2,3) by (simp add: hlift_def)
    qed (simp add: hlift_def)
    from apply_locked_change [OF this [unfolded write_locked_def] nspawn_path_plain assms(2)] obtain f c
      where "p = nspawn_path roots m" "n = FileNode f" "gpu_update m binds removed (Some (hf_text f)) = Inr c"
        "node h1 (nspawn_path roots m) = Some (written_file h (final_mode None h (nspawn_path roots m)) c)"
      using assms(3) n1 by auto
    then show ?thesis using gpu_update_Some assms(2) n1 by (auto simp: UpdateGpu final_mode_def)
  next
    case (RemoveConfig m)
    from assms(1) [unfolded RemoveConfig run_config_operation.simps] obtain r1 h1
      where up: "remove_config_at (nspawn_path roots m) h = (r1, h1)" and n1: "node h' p = node h1 p"
      by (rule hbind_change [OF _ same_hreturn])
    have "removes_only (insert (nspawn_path roots m) (sidecar_locks (nspawn_path roots m))) h h1"
      by (rule preservesD [OF remove_config_removes up])
    from removes_only_cases [OF this assms(2)] show ?thesis using n1 assms(3) RemoveConfig by simp
  next
    case (CleanupSidecarLocks i)
    from assms(1) [unfolded CleanupSidecarLocks run_config_operation.simps] obtain r1 h1
      where up: "cleanup_sidecar_locks_at (discovered_nspawn_paths roots i) h = (r1, h1)" and n1: "node h' p = node h1 p"
      by (rule hbind_change [OF _ same_hreturn])
    have "q' \<notin> sidecar_locks q" if "q \<in> set (discovered_nspawn_paths roots i)" "q' \<in> set (discovered_nspawn_paths roots i)" for q q'
      using discovered_paths_cases that sidecar_not_config by metis
    from removes_only_cases [OF cleanup_removes [OF up this] assms(2)] show ?thesis
      using n1 assms(3) CleanupSidecarLocks by auto
  qed (use keep reading_config_keeps write_config_keeps promote_config_keeps in auto)
qed

text \<open>The settings files of a name and their locks, in all places they are looked for.\<close>

definition config_area :: "HostRoots \<Rightarrow> string \<Rightarrow> path \<Rightarrow> bool" where
  "config_area roots name p \<longleftrightarrow> (\<exists>q \<in> set (map ns_path (from_roots roots name True)). p = q \<or> p \<in> sidecar_locks q)"

lemma nspawn_path_source: "nspawn_path roots m \<in> set (map ns_path (from_roots roots (machine_as_str m) True))"
  by (simp add: from_roots_def Let_def nspawn_path_def)

lemma change_claimed:
  assumes "config_may_become roots h op p n after"
  shows "(\<exists>m. settings_machine op = Some m \<and> config_area roots (machine_as_str m) p \<and>
        claim_exclusive (for_machine m) \<in> set (nspawn_config_claims (config_claimed op)))
    \<or> (\<exists>i. op = CleanupSidecarLocks i \<and> config_area roots (image_as_str i) p \<and>
        claim_exclusive (for_image i) \<in> set (nspawn_config_claims (config_claimed op)))"
proof -
  have "config_area roots (machine_as_str m) (nspawn_path roots m)"
    "q \<in> sidecar_locks (nspawn_path roots m) \<Longrightarrow> config_area roots (machine_as_str m) q" for m q
    using nspawn_path_source unfolding config_area_def by blast+
  moreover have "q \<in> set (discovered_nspawn_paths roots i) \<Longrightarrow> p \<in> sidecar_locks q \<Longrightarrow> config_area roots (image_as_str i) p" for q i
    unfolding config_area_def discovered_nspawn_paths_def sources_for_image_def by blast
  ultimately show ?thesis using assms by (cases op) auto
qed

text \<open>
  C14. Settings of others are safe, whatever fails: when an operation leaves a file, link or directory changed, then
  either the managed GPU block of the machine's own plain settings file was rewritten, as a whole and with the
  file's permissions kept, or the machine's settings and their locks were removed on request, or locks were cleaned
  up beside a settings file that is not there. Creating and promoting settings never replaces anything, reading
  changes nothing, a directory is never removed. The request holds an exclusive claim on the name whose settings
  change, and unless it only cleans up it runs under the settings lock of its machine.
\<close>

theorem config_changes_allowed:
  assumes "execute_nspawn_config_operation roots env locks op uid h = (r, h')"
    and "node h p = Some n" and "node h' p \<noteq> Some n"
  shows "config_may_become roots h op p n (node h' p)
    \<and> ((\<exists>m d. settings_machine op = Some m \<and> config_area roots (machine_as_str m) p \<and>
           claim_exclusive (for_machine m) \<in> set (nspawn_config_claims (config_claimed op)) \<and>
           settings_lock_acquire (ce_debug env) locks m = Inr d)
       \<or> (\<exists>i. op = CleanupSidecarLocks i \<and> config_area roots (image_as_str i) p \<and>
           claim_exclusive (for_image i) \<in> set (nspawn_config_claims (config_claimed op))))"
proof -
  have run: "run_config_operation roots env uid op h = (r, h') \<and>
      (\<forall>m. settings_machine op = Some m \<longrightarrow> (\<exists>d. settings_lock_acquire (ce_debug env) locks m = Inr d))"
  proof (cases "settings_machine op")
    case (Some m)
    with assms show ?thesis
      by (cases "settings_lock_acquire (ce_debug env) locks m")
        (auto simp: execute_nspawn_config_operation_def hbind_def hlift_def)
  qed (use assms in \<open>simp add: execute_nspawn_config_operation_def\<close>)
  then have "config_may_become roots h op p n (node h' p)" using config_change assms(2,3) by blast
  then show ?thesis using change_claimed run by blast
qed

section \<open>What is created\<close>

lemma created_outcome:
  assumes "apply_locked_inner p (Some mode) gen h = (Inr ApplyCreated, h')" and "p \<noteq> []" and "last p = Normal name"
    and "\<And>e c. gen e = Inr (c, ApplyCreated) \<Longrightarrow> e = None \<and> c = Some content"
  shows "node h p = None" and "node h' p = Some (written_file h mode content)"
proof -
  from apply_locked_outcome [OF assms(1-3)] assms(4) obtain c where
    "gen (text_at h p) = Inr (Some c, ApplyCreated)" "plain_target h p" "node h' p = Some (written_file h mode c)"
    by fastforce
  moreover from this(1) have "text_at h p = None" "c = content"
    using assms(4) [of "text_at h p" "Some c"] by simp_all
  ultimately show "node h p = None" and "node h' p = Some (written_file h mode content)"
    by (auto simp: plain_target_def text_at_def)
qed

lemma new_content_created: "new_content_update content e = Inr (c, ApplyCreated) \<Longrightarrow> e = None \<and> c = Some content"
  by (auto simp: new_content_update_def split: option.splits if_splits)

lemma promotion_created: "promotion_update content b e = Inr (c, ApplyCreated) \<Longrightarrow> e = None \<and> c = Some content"
  by (auto simp: promotion_update_def split: option.splits if_splits)

text \<open>A Wayland bind that was checked against the host for the invoking user, and an X11 source that is current.\<close>

definition authorized_bind :: "ConfigEnv \<Rightarrow> NspawnConfigSpec \<Rightarrow> u32 \<Rightarrow> WaylandGrant list \<Rightarrow> WaylandBind \<Rightarrow> bool" where
  "authorized_bind env spec uid grants b \<longleftrightarrow>
     (\<exists>g \<in> set grants. \<exists>s \<in> set (wg_sockets g).
        ws_owner_uid (sg_source s) = uid \<and> path_eq (wb_source b) (ws_canonical_path (sg_source s)) \<and>
        (\<exists>md. hv_metadata (ce_view env) (wb_source b) = Inr md \<and> md_kind md = KindSocket \<and>
           socket_identity md = (uid, ws_owner_gid (sg_source s), ws_mode (sg_source s), ws_revision (sg_source s))) \<and>
        write_access_for (sg_source s) (wg_target g) = Some (sg_access s) \<and>
        wb_target b = container_socket_path (ci_uid (wg_target g)) (ws_display (sg_source s)) \<and>
        wb_policy b = (if sp_private_users spec = Some UsersNo then BindNoIdmap else BindIdmap))"

definition current_x11_source :: "HostView \<Rightarrow> X11BindIntent \<Rightarrow> bool" where
  "current_x11_source v b \<longleftrightarrow>
     (\<exists>canonical md. hv_canonicalize v (bind_source_path (xb_source b)) = Inr canonical \<and> hv_metadata v canonical = Inr md \<and>
        (case xb_source b of
           SourceDirectory _ \<Rightarrow> path_eq canonical X11_SOCKET_DIRECTORY \<and> md_kind md = KindDirectory \<and>
             (\<exists>dir. hv_metadata v X11_SOCKET_DIRECTORY = Inr dir \<and> md_uid dir = 0)
         | SourceSocket s \<Rightarrow> path_eq canonical (xs_canonical_path s) \<and> md_kind md = KindSocket \<and> revision_of md = xs_revision s))"

lemma socket_directory_owner:
  "validate_socket_directory io_text v p = Inr w \<Longrightarrow> \<exists>dir. hv_metadata v p = Inr dir \<and> md_uid dir = 0"
  by (auto simp: validate_socket_directory_def validate_socket_directory_metadata_def Let_def split: if_splits)

lemma validate_x11_current:
  assumes "validate_x11_source env b = Inr u"
  shows "current_x11_source (ce_view env) b"
proof (cases "xb_source b")
  case (SourceDirectory d)
  then have "x11_socket_directory_available (ce_io_text env) (ce_view env)"
    using assms by (auto simp: validate_x11_source_def Let_def split: if_splits)
  then obtain w where "validate_socket_directory (ce_io_text env) (ce_view env) X11_SOCKET_DIRECTORY = Inr w"
    by (cases "validate_socket_directory (ce_io_text env) (ce_view env) X11_SOCKET_DIRECTORY")
      (auto simp: x11_socket_directory_available_def)
  then show ?thesis
    using assms SourceDirectory socket_directory_owner
    by (auto simp: validate_x11_source_def Let_def current_x11_source_def split: if_splits)
next
  case (SourceSocket s)
  then show ?thesis
    using assms by (auto simp: validate_x11_source_def Let_def current_x11_source_def split: if_splits)
qed

lemma validate_bind_sources_exist:
  "validate_bind_sources v bs = Inr u \<Longrightarrow> b \<in> set bs \<Longrightarrow> \<exists>md. hv_metadata v (bm_source b) = Inr md"
  by (induction bs) (auto split: sum.splits if_splits)

lemma resolved_policy:
  assumes "validate_resolved_wayland_policy spec g = Inr u"
  shows "wg_bind_policy g = (if sp_private_users spec = Some UsersNo then BindNoIdmap else BindIdmap)"
    and "s \<in> set (wg_sockets g) \<Longrightarrow> write_access_for (sg_source s) (wg_target g) = Some (sg_access s)"
  using assms
  by (auto simp: validate_resolved_wayland_policy_def split: option.splits PrivateUsersMode.splits if_splits)

lemma grant_authorized:
  assumes "validate_wayland_grant env spec g uid = Inr sockets" and "g \<in> set grants" and "b \<in> set (grant_binds g sockets)"
  shows "authorized_bind env spec uid grants b"
proof -
  from assms(1) have policy: "validate_resolved_wayland_policy spec g = Inr ()"
    and pairs: "list_all2 (\<lambda>s p. revalidate_host_socket (ce_debug env) (ce_view env) (sg_source s) uid = Inr p) (wg_sockets g) sockets"
    by (auto simp: validate_wayland_grant_def try_map_ok)
  from assms(3) obtain s p where s: "(s, p) \<in> set (zip (wg_sockets g) sockets)"
    and b: "b = \<lparr>wb_source = p, wb_target = container_socket_path (ci_uid (wg_target g)) (ws_display (sg_source s)),
      wb_policy = wg_bind_policy g\<rparr>"
    by (auto simp: grant_binds_def)
  from s pairs have ok: "revalidate_host_socket (ce_debug env) (ce_view env) (sg_source s) uid = Inr p"
    by (auto simp: list_all2_iff)
  from s have mem: "s \<in> set (wg_sockets g)" by (rule set_zip_leftD)
  show ?thesis
    unfolding authorized_bind_def b
    using assms(2) mem resolved_policy [OF policy] accepted_socket_identity [OF ok]
    by (intro bexI [of _ g] bexI [of _ s]) auto
qed

lemma grants_authorized:
  "validate_wayland_grants env spec uid gs = Inr binds \<Longrightarrow> set gs \<subseteq> set grants \<Longrightarrow> list_all (authorized_bind env spec uid grants) binds"
  by (induction gs arbitrary: binds) (auto simp: list_all_iff intro: grant_authorized)

lemma generated_content_parts:
  assumes "generated_content env spec wayland nvidia uid = Inr content"
  obtains binds ds text0 where "list_all (authorized_bind env spec uid wayland) binds"
    and "list_all (current_x11_source (ce_view env)) (sp_x11_binds spec)"
    and "\<And>b. b \<in> set (sp_bind_mounts spec) \<Longrightarrow> \<exists>md. hv_metadata (ce_view env) (bm_source b) = Inr md"
    and "nspawn_directives (ce_debug env) spec binds = Inr ds" and "ce_write_ini env ds = Inr text0"
    and "(case nvidia of None \<Rightarrow> Inr text0 | Some gpu \<Rightarrow> apply_gpu_passthrough_to_content text0 gpu []) = Inr content"
    and "length content \<le> MAX_NSPAWN_CONTENT_BYTES"
proof -
  from assms obtain binds ds text0 where
    a: "validate_wayland_grants env spec uid wayland = Inr binds" "validate_custom_bind_sources (ce_view env) spec = Inr ()"
    "validate_x11_bind_sources env (sp_x11_binds spec) = Inr ()" "nspawn_directives (ce_debug env) spec binds = Inr ds"
    "ce_write_ini env ds = Inr text0" "validate_content_size content = Inr ()"
    "(case nvidia of None \<Rightarrow> Inr text0 | Some gpu \<Rightarrow> apply_gpu_passthrough_to_content text0 gpu []) = Inr content"
    by (auto simp: generated_content_def)
  show thesis
    using a grants_authorized [OF a(1)] validate_x11_current
    by (intro that [of binds ds text0])
      (auto simp: validate_x11_bind_sources_def list_all_iff validate_custom_bind_sources_def validate_content_size_def
        intro: validate_bind_sources_exist split: if_splits)
qed

lemma run_under_lock:
  assumes "execute_nspawn_config_operation roots env locks op uid h = (Inr res, h')"
  shows "run_config_operation roots env uid op h = (Inr res, h')"
  using assms
  by (auto simp: execute_nspawn_config_operation_def hbind_def hlift_def split: option.splits sum.splits)

text \<open>
  C15. A settings file that the daemon creates exposes only what was verified: it is new, complete, readable by all
  and writable by its owner alone; it holds the entries generated from the specification; every Wayland bind in it
  is a socket of the invoking user that is at that moment the one discovery described, that the granted account
  may write to, at the account's own place in the container and mapped the way the machine's user namespace
  requires; every X11 bind is the socket or the root-owned directory that was selected; and the source of every
  bind mount exists.
\<close>

theorem generated_config_verified:
  assumes "execute_nspawn_config_operation roots env locks (WriteConfig spec wayland nvidia) uid h = (Inr res, h')"
    and "cr_apply res = Some ApplyCreated"
  shows "\<exists>binds ds plain content.
    node h (nspawn_path roots (sp_machine spec)) = None
    \<and> node h' (nspawn_path roots (sp_machine spec)) = Some (written_file h 420 content)
    \<and> length content \<le> MAX_NSPAWN_CONTENT_BYTES
    \<and> nspawn_directives (ce_debug env) spec binds = Inr ds \<and> ce_write_ini env ds = Inr plain
    \<and> (case nvidia of None \<Rightarrow> Inr plain | Some gpu \<Rightarrow> apply_gpu_passthrough_to_content plain gpu []) = Inr content
    \<and> list_all (authorized_bind env spec uid wayland) binds
    \<and> list_all (current_x11_source (ce_view env)) (sp_x11_binds spec)
    \<and> list_all (\<lambda>b. \<exists>md. hv_metadata (ce_view env) (bm_source b) = Inr md) (sp_bind_mounts spec)"
proof -
  let ?p = "nspawn_path roots (sp_machine spec)"
  from run_under_lock [OF assms(1)] assms(2) obtain content
    where c: "generated_content env spec wayland nvidia uid = Inr content"
      and run: "apply_new_content_at ?p content (Some 420) h = (Inr ApplyCreated, h')"
    by (auto simp: write_generated_at_def hlift_def hreturn_def elim!: hbindE)
  have "node h ?p = None" "node h' ?p = Some (written_file h 420 content)"
    using created_outcome [OF run [unfolded apply_new_content_at_def] nspawn_path_plain new_content_created [of content]] by blast+
  moreover from c obtain binds ds plain where "list_all (authorized_bind env spec uid wayland) binds"
    "list_all (current_x11_source (ce_view env)) (sp_x11_binds spec)"
    "\<And>b. b \<in> set (sp_bind_mounts spec) \<Longrightarrow> \<exists>md. hv_metadata (ce_view env) (bm_source b) = Inr md"
    "nspawn_directives (ce_debug env) spec binds = Inr ds" "ce_write_ini env ds = Inr plain"
    "(case nvidia of None \<Rightarrow> Inr plain | Some gpu \<Rightarrow> apply_gpu_passthrough_to_content plain gpu []) = Inr content"
    "length content \<le> MAX_NSPAWN_CONTENT_BYTES"
    by (rule generated_content_parts) blast
  ultimately show ?thesis by (intro exI [of _ binds] exI [of _ ds] exI [of _ plain] exI [of _ content]) (simp add: list_all_iff)
qed

section \<open>Promotion\<close>

lemma open_nofollow_result:
  assumes "open_nofollow p h = (r, h')"
  shows "node h' = node h" and "same_process h h'" and "r = Inr (FileNode f) \<Longrightarrow> node h p = Some (FileNode f)"
  using assms unfolding open_nofollow_def
  by (auto elim!: host_callE simp: found_def split: option.splits if_splits HostNode.splits sum.splits)

lemma trusted_oci_result:
  assumes "read_trusted_oci_config io_text p h = (Inr content, h')"
  shows "\<exists>f. node h p = Some (FileNode f) \<and> hf_uid f = h_uid h \<and> hf_mode f AND 18 = 0 \<and> content = hf_text f"
    and "node h' = node h" and "same_process h h'"
proof -
  obtain n h1 h2 where o: "open_nofollow p h = (Inr n, h1)" and "io p descriptor h1 = (Inr (), h2)"
    and r: "(case n of FileNode f \<Rightarrow> read_exclusive_file io_text p f
      | _ \<Rightarrow> hfail (ValidationError (''OCI runtime configuration is not a regular file: '' @ path_text p))) h2 = (Inr content, h')"
    using assms unfolding read_trusted_oci_config_def Let_def
    by (auto elim!: hbindE hmatchE simp: hreturn_def hfail_def split: sum.splits)
  then have d: "descriptor h1 = (Inr (), h2)" by (auto elim: ioE)
  from r obtain f where f: "n = FileNode f" and x: "read_exclusive_file io_text p f h2 = (Inr content, h')"
    by (auto simp: hfail_def split: HostNode.splits)
  have s2: "same_process h1 h2" by (rule preservesD [OF process.keeps_looking(3) d])
  have s3: "same_process h2 h'" by (rule preservesD [OF process.keeps_read_exclusive x])
  have same: "same_process h h2" using open_nofollow_result(2) [OF o] s2 by (rule process.transitive)
  show "same_process h h'" using same s3 by (rule process.transitive)
  have n2: "node h2 = node h" using open_nofollow_result(1) [OF o] descriptor_result [OF d] by simp
  have "hf_uid f = h_uid h2" "hf_mode f AND 18 = 0" "node h' = node h2" "content = hf_text f"
    using x unfolding read_exclusive_file_def
    by (auto simp: hfail_def hlift_def Let_def from_utf8_def read_all_def elim!: hbindE ioE host_callE split: if_splits)
  then show "\<exists>f. node h p = Some (FileNode f) \<and> hf_uid f = h_uid h \<and> hf_mode f AND 18 = 0 \<and> content = hf_text f"
    and "node h' = node h"
    using open_nofollow_result(3) [OF o] f same n2 by (auto simp: same_process_def)
qed

lemma optional_metadata_result:
  assumes "optional_symlink_metadata p h = (Inr m, h')"
  shows "node h' = node h" and "m = None \<Longrightarrow> node h p = None"
  using assms unfolding optional_symlink_metadata_def
  by (auto elim!: hmatchE simp: hreturn_def hfail_def split: sum.splits if_splits dest: looking_result(1) metadata_absent)

text \<open>Whatever a relation keeps at every path is the same there.\<close>

lemma same_nodes: "(\<And>p. preserves (same_at p) m) \<Longrightarrow> m h = (r, h') \<Longrightarrow> node h' = node h"
  by (rule ext) (use preservesD in \<open>force simp: same_at_def\<close>)

lemma promotion_target_result:
  assumes "validate_oci_promotion_target m admin_dir runtime_dir h = (Inr u, h')"
  shows "node h (runtime_dir @ [Normal (nspawn_file_name (machine_as_str m))]) = None" and "node h' = node h" and "same_process h h'"
proof -
  let ?f = "[Normal (nspawn_file_name (machine_as_str m))]"
  obtain a h1 h2 masked h3 where s1: "optional_symlink_metadata (admin_dir @ ?f) h = (Inr a, h1)"
    and s2: "check_admin_config (admin_dir @ ?f) a h1 = (Inr (), h2)"
    and s3: "optional_symlink_metadata (runtime_dir @ ?f) h2 = (Inr masked, h3)" and "masked = None"
    using assms unfolding validate_oci_promotion_target_def Let_def
    by (auto elim!: hbindE simp: hfail_def hreturn_def split: if_splits)
  moreover have "preserves (same_at p) (check_admin_config q a)" for p q a
    unfolding check_admin_config_def by (intro same.keeps_rules same.keeps_read_to_string)
  then have "node h2 = node h1" using s2 by (rule same_nodes)
  ultimately show "node h (runtime_dir @ ?f) = None"
    using optional_metadata_result(1) [OF s1] optional_metadata_result(2) [OF s3] by simp
  show "node h' = node h" using same.keeps_promotion_target assms by (rule same_nodes)
  show "same_process h h'" using process.keeps_promotion_target assms by (rule preservesD)
qed

text \<open>
  C16. A promoted file comes from a trusted source: when promotion creates the administrator's settings of an OCI
  machine, the runtime configuration it was made from is a plain file of the privileged process that no one else
  may write to, its text was promoted as the network mode demands, the machine had neither administrator's nor
  runtime settings before, and the new file is complete and readable by its owner and group only.
\<close>

theorem promoted_config_trusted:
  assumes "execute_nspawn_config_operation roots env locks (PromoteOci m network) uid h = (Inr res, h')"
    and "cr_apply res = Some ApplyCreated"
  shows "\<exists>f content. node h (machines_dir roots @ [Normal (nspawn_file_name (machine_as_str m))]) = Some (FileNode f)
    \<and> hf_uid f = h_uid h \<and> hf_mode f AND 18 = 0 \<and> promote_oci_content (hf_text f) network = Inr content
    \<and> node h (nspawn_runtime_config_dir roots @ [Normal (nspawn_file_name (machine_as_str m))]) = None
    \<and> node h (nspawn_path roots m) = None
    \<and> node h' (nspawn_path roots m) = Some (written_file h 416 content)"
proof -
  let ?f = "[Normal (nspawn_file_name (machine_as_str m))]"
  have dest: "nspawn_config_dir roots @ ?f = nspawn_path roots m" by (simp add: nspawn_path_def)
  from run_under_lock [OF assms(1)] assms(2) obtain h1 h2 text0 content
    where v: "validate_oci_promotion_target m (nspawn_config_dir roots) (nspawn_runtime_config_dir roots) h = (Inr (), h1)"
      and rd: "read_trusted_oci_config (ce_io_text env) (machines_dir roots @ ?f) h1 = (Inr text0, h2)"
      and pr: "promote_oci_content text0 network = Inr content"
      and run: "apply_locked_inner (nspawn_path roots m) (Some 416) (promotion_update content False) h2 = (Inr ApplyCreated, h')"
    by (auto simp: promote_new_oci_config_def promote_oci_config_inner_def Let_def dest hlift_def hreturn_def elim!: hbindE)
  have new: "node h2 (nspawn_path roots m) = None" "node h' (nspawn_path roots m) = Some (written_file h2 416 content)"
    using created_outcome [OF run nspawn_path_plain promotion_created [of content False]] by blast+
  have n1: "node h1 = node h" and s1: "same_process h h1" using promotion_target_result(2,3) [OF v] .
  have n2: "node h2 = node h" and s2: "same_process h h2"
    using trusted_oci_result(2) [OF rd] n1 process.transitive [OF s1 trusted_oci_result(3) [OF rd]] by simp_all
  obtain f where f: "node h1 (machines_dir roots @ ?f) = Some (FileNode f)" "hf_uid f = h_uid h1" "hf_mode f AND 18 = 0" "text0 = hf_text f"
    using trusted_oci_result(1) [OF rd] by blast
  show ?thesis
    using f n1 s1 pr promotion_target_result(1) [OF v] new n2 same_write(2) [OF s2]
    by (intro exI [of _ f] exI [of _ content]) (simp add: same_process_def)
qed

section \<open>Which settings are reported\<close>

text \<open>The plain file a path leads to, and a path that leads nowhere.\<close>

definition settings_text :: "Host \<Rightarrow> path \<Rightarrow> string option" where
  "settings_text h p = (case resolve MAXSYMLINKS h p of Inr q \<Rightarrow> text_at h q | Inl _ \<Rightarrow> None)"

definition leads_nowhere :: "Host \<Rightarrow> path \<Rightarrow> bool" where
  "leads_nowhere h p \<longleftrightarrow> (\<exists>q. resolve MAXSYMLINKS h p = Inr q \<and> node h q = None)"

lemma resolve_nodes: "node h0 = node h \<Longrightarrow> resolve k h0 p = resolve k h p"
  by (induction k arbitrary: p) (auto split: option.splits HostNode.splits)

lemma seen_nodes:
  assumes "node h0 = node h"
  shows "settings_text h0 = settings_text h" and "leads_nowhere h0 = leads_nowhere h"
proof -
  have "text_at h0 = text_at h" using assms by (simp add: fun_eq_iff text_at_def)
  then show "settings_text h0 = settings_text h" and "leads_nowhere h0 = leads_nowhere h"
    using assms resolve_nodes [OF assms] by (simp_all add: fun_eq_iff settings_text_def leads_nowhere_def split: sum.split)
qed

lemma resolve_ELOOP: "resolve k h p = Inl e \<Longrightarrow> e = ELOOP"
  by (induction k h p rule: resolve.induct) (auto split: option.splits HostNode.splits)

lemma follow_result:
  assumes "follow p h = (r, h')"
  shows "r = Inr (FileNode f) \<Longrightarrow> settings_text h p = Some (hf_text f)" and "r = Inl ENOENT \<Longrightarrow> leads_nowhere h p"
proof -
  from assms [unfolded follow_def] have "(\<exists>e. r = Inl (EOTHER e)) \<or> r = and_then (resolve MAXSYMLINKS h p) (found h)"
  proof (cases rule: host_callE)
    case (Done h0)
    have "found h0 q = found h q" for q
      unfolding found_def lookup_error_def Done(2) ..
    then have "found h0 = found h" by (rule ext)
    then show ?thesis using Done(1) resolve_nodes [OF Done(2)] by simp
  qed blast
  then show "r = Inr (FileNode f) \<Longrightarrow> settings_text h p = Some (hf_text f)" and "r = Inl ENOENT \<Longrightarrow> leads_nowhere h p"
    by (cases "resolve MAXSYMLINKS h p"; auto simp: settings_text_def leads_nowhere_def text_at_def found_def dest: resolve_ELOOP
        split: option.splits if_splits)+
qed

lemma bounded_utf8_Inr: "bounded_utf8 s = Inr c \<Longrightarrow> c = s"
  by (auto simp: bounded_utf8_def from_utf8_def Let_def split: if_splits)

lemma read_bounded_result:
  assumes "read_bounded_utf8 p h = (r, h')"
  shows "node h' = node h" and "r = Inr c \<Longrightarrow> settings_text h p = Some c" and "r = Inl ENOENT \<Longrightarrow> leads_nowhere h p"
proof -
  show "node h' = node h" using same.keeps_read_bounded assms by (rule same_nodes)
  obtain x h1 where f: "follow p h = (x, h1)" by fastforce
  show "settings_text h p = Some c" if ok: "r = Inr c"
  proof (cases x)
    case (Inr n)
    obtain h2 h3 where d: "descriptor h1 = (Inr (), h2)" and rd: "read_all n h2 = (Inr (c :: string), h3)"
      using assms ok f Inr
      by (auto simp: read_bounded_utf8_def dest: bounded_utf8_Inr split: prod.splits sum.splits if_splits)
    then obtain g where "n = FileNode g" "hf_text g = c"
      unfolding read_all_def by (auto elim!: host_callE split: HostNode.splits)
    then show ?thesis using follow_result(1) [OF f] Inr by simp
  qed (use assms ok f in \<open>simp add: read_bounded_utf8_def\<close>)
  show "leads_nowhere h p" if "r = Inl ENOENT"
  proof (cases x)
    case (Inl e)
    then show ?thesis using assms that f follow_result(2) [OF f] by (simp add: read_bounded_utf8_def)
  next
    case (Inr n)
    have "fst (descriptor h1) \<noteq> Inl ENOENT" "\<And>h. fst (read_all n h) \<noteq> Inl ENOENT" "\<And>c. bounded_utf8 c \<noteq> Inl ENOENT"
      unfolding descriptor_def read_all_def host_call_def bounded_utf8_def from_utf8_def Let_def
      by (auto split: list.splits option.splits HostNode.splits)
    then show ?thesis
      using assms that f Inr
      by (auto simp: read_bounded_utf8_def split: prod.splits sum.splits if_splits) (metis fst_conv and_then.simps sum.exhaust)+
  qed
qed

lemma discovered_result:
  assumes "read_discovered_config_from sources h = (Inr found_config, h')"
  shows "case found_config of
      Some i \<Rightarrow> \<exists>earlier source later. sources = earlier @ source # later \<and> in_path i = path_text (ns_path source) \<and>
        settings_text h (ns_path source) = Some (in_content i) \<and>
        list_all (\<lambda>s. ns_kind s = ImageAdjacent \<or> leads_nowhere h (ns_path s)) earlier
    | None \<Rightarrow> list_all (\<lambda>s. ns_kind s = ImageAdjacent \<or> leads_nowhere h (ns_path s)) sources"
  using assms
proof (induction sources arbitrary: h)
  case Nil
  then show ?case by (simp add: hreturn_def)
next
  case (Cons source sources)
  obtain r h1 where rd: "read_bounded_utf8 (ns_path source) h = (r, h1)" by fastforce
  note res = read_bounded_result [OF rd]
  show ?case
  proof (cases r)
    case (Inr c)
    then have "found_config = Some \<lparr>in_path = path_text (ns_path source), in_content = c\<rparr>"
      using Cons.prems rd by (simp add: hmatch_def hreturn_def)
    then show ?thesis using res(2) [OF Inr] by (auto intro!: exI [of _ "[]"])
  next
    case (Inl e)
    then have next_source: "read_discovered_config_from sources h1 = (Inr found_config, h')"
      and skip: "ns_kind source = ImageAdjacent \<or> leads_nowhere h (ns_path source)"
      using Cons.prems rd res(3) by (auto simp: hmatch_def hfail_def split: if_splits)
    have same: "settings_text h1 = settings_text h" "leads_nowhere h1 = leads_nowhere h"
      using seen_nodes [OF res(1)] .
    show ?thesis
    proof (cases found_config)
      case None
      then show ?thesis using Cons.IH [OF next_source] skip same by simp
    next
      case (Some i)
      from Cons.IH [OF next_source] obtain earlier src later where "sources = earlier @ src # later"
        "in_path i = path_text (ns_path src)" "settings_text h (ns_path src) = Some (in_content i)"
        "list_all (\<lambda>s. ns_kind s = ImageAdjacent \<or> leads_nowhere h (ns_path s)) earlier"
        unfolding Some same by auto
      then show ?thesis using Some skip by (auto intro!: exI [of _ "source # earlier"])
    qed
  qed
qed

text \<open>
  C17. Inspection reports the settings in force, whatever fails on the way: it changes nothing; settings it reports
  are the text of the plain file found at one of the places systemd looks in, and every place before that one, in
  systemd's order, leads nowhere; when it reports none, neither the administrator's nor the runtime place leads
  anywhere. A place that cannot be read for any other reason is an error and not a missing file, except for the one
  beside the image, which comes last and may be out of reach.
\<close>

theorem inspection_reports_effective:
  assumes "execute_nspawn_config_operation roots env locks (InspectConfig i) uid h = (Inr res, h')"
  shows "node h' = node h \<and>
    (case cr_content res of
       Some c \<Rightarrow> \<exists>earlier source later. sources_for_image roots i = earlier @ source # later \<and>
         in_path c = path_text (ns_path source) \<and> settings_text h (ns_path source) = Some (in_content c) \<and>
         list_all (\<lambda>s. leads_nowhere h (ns_path s)) earlier
     | None \<Rightarrow> list_all (\<lambda>s. leads_nowhere h (ns_path s)) (take 2 (sources_for_image roots i)))"
proof -
  from run_under_lock [OF assms] have rd: "read_discovered_config_from (sources_for_image roots i) h = (Inr (cr_content res), h')"
    by (auto simp: read_discovered_config_def hreturn_def config_result_default_def elim!: hbindE)
  have nodes: "node h' = node h" using same.keeps_read_discovered rd by (rule same_nodes)
  have order: "list_all (\<lambda>s. ns_kind s = ImageAdjacent \<or> P s) earlier \<Longrightarrow> list_all P earlier"
    if "sources_for_image roots i = earlier @ source # later" for P earlier source later
  proof -
    have "length earlier \<le> 2" using arg_cong [OF that, of length] by (simp add: sources_for_image_def from_roots_def Let_def)
    moreover have "earlier = take (length earlier) (sources_for_image roots i)" using that by simp
    ultimately have "set earlier \<subseteq> set (take 2 (sources_for_image roots i))" by (metis set_take_subset_set_take)
    moreover have "ns_kind s \<noteq> ImageAdjacent" if "s \<in> set (take 2 (sources_for_image roots i))" for s
      using that by (auto simp: sources_for_image_def from_roots_def Let_def numeral_2_eq_2)
    ultimately show "list_all (\<lambda>s. ns_kind s = ImageAdjacent \<or> P s) earlier \<Longrightarrow> list_all P earlier"
      by (auto simp: list_all_iff)
  qed
  show ?thesis
  proof (cases "cr_content res")
    case None
    then show ?thesis using discovered_result [OF rd] nodes by (simp add: sources_for_image_def from_roots_def Let_def numeral_2_eq_2)
  next
    case (Some c)
    then show ?thesis using discovered_result [OF rd] nodes order by auto metis
  qed
qed

section \<open>Created settings are read back and removed\<close>

lemma quiet_read:
  assumes "h_faults h = []" and "node h p = Some (FileNode f)" and "utf8_ok (hf_text f)" and "length (hf_text f) \<le> MAX_NSPAWN_CONTENT_BYTES"
  shows "read_bounded_utf8 p h = (Inr (hf_text f), h)"
proof -
  have "resolve MAXSYMLINKS h p = Inr p" using assms(2) by (simp add: MAXSYMLINKS_def numeral_eq_Suc)
  moreover have "bounded_utf8 (hf_text f) = Inr (hf_text f)"
    using assms(3,4) by (simp add: bounded_utf8_def from_utf8_def Let_def)
  ultimately show ?thesis
    using assms(1,2,4) by (simp add: read_bounded_utf8_def follow_def descriptor_def read_all_def host_call_quiet found_def
        del: and_then_eq_Inr)
qed

lemma quiet_remove:
  assumes "h_faults h = []" and "node h p = Some (FileNode f)" and "remove_config_at p h = (r, h')"
  shows "node h' p = None"
proof -
  have "remove_optional_file p h = (Inr (), delete_node p h)"
    using assms(1,2) by (simp add: remove_optional_file_def hmatch_def unlink_def host_call_quiet hreturn_def)
  then have "hbind (remove_optional_file (lock_path_for p)) (\<lambda>_. remove_optional_file (lock_extension p)) (delete_node p h) = (r, h')"
    using assms(3) by (simp add: remove_config_at_def hbind_def)
  moreover have "preserves (stays_absent p) (hbind (remove_optional_file (lock_path_for p)) (\<lambda>_. remove_optional_file (lock_extension p)))"
    by (intro absent.keeps_rules absent.keeps_remove_optional_file absent_calls)
  ultimately show ?thesis using preservesD by (fastforce simp: stays_absent_def)
qed

text \<open>
  C18. Settings that were created are found and removed again: once the daemon reports that it created the settings of
  a machine, and from then on no call fails, reading the machine and inspecting the image of the same name both
  return the path and the text that were written, if that text is UTF-8; and removing the machine's settings leaves
  none.
\<close>

theorem config_write_roundtrip:
  assumes "execute_nspawn_config_operation roots env locks (WriteConfig spec wayland nvidia) uid h = (Inr res, h1)"
    and "cr_apply res = Some ApplyCreated" and "h_faults h1 = []" and "m = sp_machine spec"
  shows "\<exists>content. generated_content env spec wayland nvidia uid = Inr content \<and>
    (utf8_ok content \<longrightarrow>
       execute_nspawn_config_operation roots env locks (ReadConfig m) user h1 =
         (Inr (config_result_default\<lparr>cr_content := Some \<lparr>in_path = path_text (nspawn_path roots m), in_content = content\<rparr>\<rparr>), h1) \<and>
       execute_nspawn_config_operation roots env locks (InspectConfig (ImageName (machine_as_str m))) user h1 =
         (Inr (config_result_default\<lparr>cr_content := Some \<lparr>in_path = path_text (nspawn_path roots m), in_content = content\<rparr>\<rparr>), h1)) \<and>
    (\<forall>r h2. run_config_operation roots env user (RemoveConfig m) h1 = (r, h2) \<longrightarrow> node h2 (nspawn_path roots m) = None)"
proof -
  let ?p = "nspawn_path roots m"
  from run_under_lock [OF assms(1)] assms(2) obtain content
    where c: "generated_content env spec wayland nvidia uid = Inr content"
      and run: "apply_new_content_at (nspawn_path roots (sp_machine spec)) content (Some 420) h = (Inr ApplyCreated, h1)"
    by (auto simp: write_generated_at_def hlift_def hreturn_def elim!: hbindE)
  have written: "node h1 ?p = Some (FileNode \<lparr>hf_uid = h_uid h, hf_mode = 420, hf_text = content\<rparr>)"
    using created_outcome(2) [OF run [unfolded apply_new_content_at_def] nspawn_path_plain new_content_created [of content]]
    by (simp add: written_file_def assms(4))
  have size: "length content \<le> MAX_NSPAWN_CONTENT_BYTES" using c by (rule generated_content_parts) blast
  have read: "read_bounded_utf8 ?p h1 = (Inr content, h1)" if "utf8_ok content"
    using quiet_read [OF assms(3) written] that size by simp
  have first: "\<exists>later. sources_for_image roots (ImageName (machine_as_str m)) = \<lparr>ns_kind = AdministratorSource, ns_path = ?p\<rparr> # later"
    by (simp add: sources_for_image_def from_roots_def Let_def nspawn_path_def)
  have "execute_nspawn_config_operation roots env locks (ReadConfig m) user h1 =
      (Inr (config_result_default\<lparr>cr_content := Some \<lparr>in_path = path_text ?p, in_content = content\<rparr>\<rparr>), h1)" if "utf8_ok content"
    using read [OF that] size
    by (simp add: execute_nspawn_config_operation_def read_config_at_def read_optional_config_def hbind_def hmatch_def hreturn_def
        hlift_def validate_content_size_def not_less)
  moreover have "execute_nspawn_config_operation roots env locks (InspectConfig (ImageName (machine_as_str m))) user h1 =
      (Inr (config_result_default\<lparr>cr_content := Some \<lparr>in_path = path_text ?p, in_content = content\<rparr>\<rparr>), h1)" if "utf8_ok content"
    using read [OF that] first
    by (auto simp: execute_nspawn_config_operation_def read_discovered_config_def hbind_def hmatch_def hreturn_def)
  moreover have "node h2 ?p = None" if "run_config_operation roots env user (RemoveConfig m) h1 = (r, h2)" for r h2
    using that quiet_remove [OF assms(3) written]
    by (auto simp: hbind_def hreturn_def split: prod.splits sum.splits)
  ultimately show ?thesis using c by blast
qed

section \<open>A machine with a Wayland grant\<close>

definition store_spec :: NspawnConfigSpec where
  "store_spec = example_spec\<lparr>sp_bind_mounts := [], sp_port_forwards := []\<rparr>"

definition store_grant :: WaylandGrant where
  "store_grant = \<lparr>wg_target = \<lparr>ci_username = ''alice'', ci_uid = 1000, ci_gid = 1000\<rparr>,
     wg_sockets = [\<lparr>sg_source = session_socket, sg_access = AccessOwner\<rparr>], wg_bind_policy = BindIdmap\<rparr>"

definition store_env :: ConfigEnv where
  "store_env = \<lparr>ce_debug = (\<lambda>s. s), ce_io_text = (\<lambda>_. ''error''),
     ce_write_ini = (\<lambda>ds. Inr (concat (map (\<lambda>(s, k, v). k @ ''='' @ v @ [CHR 0x0A]) ds))), ce_view = session_view\<rparr>"

definition store_bind :: WaylandBind where
  "store_bind = \<lparr>wb_source = ''/run/user/1000/wayland-0'', wb_target = ''/run/lasper/wayland/1000/wayland-0'', wb_policy = BindIdmap\<rparr>"

lemma store_grant_binds: "validate_wayland_grants store_env store_spec 1000 [store_grant] = Inr [store_bind]"
proof -
  have "known_socket session_view 1000 session_socket"
    using catalog_known [of session_socket id session_view 1000 None None] session_catalog by simp
  moreover have "utf8_ok ''/run/user/1000/wayland-0''" "\<not> has_control ''/run/user/1000/wayland-0''" by code_simp+
  ultimately have "revalidate_host_socket (\<lambda>s. s) session_view session_socket 1000 = Inr ''/run/user/1000/wayland-0''"
    using known_socket_accepted [OF session_view_canonical] by (simp add: session_socket_def)
  moreover have "container_socket_path 1000 (WaylandDisplay ''wayland-0'') = ''/run/lasper/wayland/1000/wayland-0''" by code_simp
  moreover have "validate_resolved_wayland_policy store_spec store_grant = Inr ()"
    by (simp add: validate_resolved_wayland_policy_def store_spec_def example_spec_def store_grant_def write_access_for_def
        session_socket_def)
  ultimately show ?thesis
    by (simp add: validate_wayland_grant_def grant_binds_def store_env_def store_grant_def store_bind_def)
      (simp add: session_socket_def)
qed

definition store_directives :: "directive list" where
  "store_directives = exec_directives store_spec @ network_directives store_spec @ plain_file_directives store_spec @
     [(''Files'', ''Bind'', ''/run/user/1000/wayland-0:/run/lasper/wayland/1000/wayland-0:idmap'')]"

definition store_content :: string where
  "store_content = concat (map (\<lambda>(s, k, v). k @ ''='' @ v @ [CHR 0x0A]) store_directives)"

lemma store_generated: "generated_content store_env store_spec [store_grant] None 1000 = Inr store_content"
proof -
  have valid: "spec_validate (\<lambda>s. s) store_spec = Inr ()"
    unfolding spec_validate_def store_spec_def example_spec_def MAX_CONFIG_ITEMS_def
    by (simp add: resolv_for_network_def port_forward_validate_def validate_network_def validate_absolute_path_ok is_absolute_def
        ctrl1_def ctrl2_def)
  moreover have "validate_wayland_endpoint_available store_spec = Inr ()" by code_simp
  moreover have "wayland_directive store_bind = Inr (''Files'', ''Bind'', ''/run/user/1000/wayland-0:/run/lasper/wayland/1000/wayland-0:idmap'')"
    by code_simp
  moreover have no_binds: "sp_bind_mounts store_spec = []" "sp_x11_binds store_spec = []"
    by (simp_all add: store_spec_def example_spec_def)
  ultimately have "nspawn_directives (\<lambda>s. s) store_spec [store_bind] = Inr store_directives"
    by (simp add: nspawn_directives_def store_directives_def del: and_then_eq_Inr)
  moreover have ds: "store_directives = [(''Exec'', ''Boot'', ''yes''), (''Exec'', ''ResolvConf'', ''off''),
      (''Network'', ''VirtualEthernet'', ''yes''), (''Files'', ''Bind'', ''/dev/kvm''),
      (''Files'', ''Bind'', ''/run/user/1000/wayland-0:/run/lasper/wayland/1000/wayland-0:idmap'')]" by code_simp
  moreover have "validate_content_size store_content = Inr ()"
    unfolding store_content_def ds by (simp add: validate_content_size_def MAX_NSPAWN_CONTENT_BYTES_def)
  ultimately show ?thesis
    using valid no_binds store_grant_binds
    by (simp add: generated_content_def validate_custom_bind_sources_def validate_x11_bind_sources_def store_env_def store_content_def
        del: and_then_eq_Inr)
qed

definition store_path :: path where
  "store_path = nspawn_path default_roots (MachineName ''web'')"

text \<open>A host with the directory of the settings and the lock of the machine, and one with old settings besides.\<close>

definition store_host :: Host where
  "store_host = \<lparr>h_nodes = (lock_path_for store_path, FileNode \<lparr>hf_uid = 0, hf_mode = 420, hf_text = []\<rparr>) #
       map (\<lambda>k. (take k store_path, DirectoryNode)) [2..<5],
     h_uid = 0, h_umask = 18, h_faults = [], h_locks = [], h_temps = [''a'', ''b'']\<rparr>"

definition settled_host :: Host where
  "settled_host = put_node store_path (FileNode \<lparr>hf_uid = 0, hf_mode = 420, hf_text = ''x''\<rparr>) store_host"

definition store_locks :: TrustedDirectory where
  "store_locks = \<lparr>td_path = ''/run/lasper/locks/nspawn'', td_expected_uid = 0, td_process_uid = 0,
     td_entries = [], faults = [], lock_script = [], temp_ids = []\<rparr>"

lemma store_lock: "\<exists>d. settings_lock_acquire (\<lambda>s. s) (Inr store_locks) (MachineName ''web'') = Inr d"
proof -
  have "is_ok (settings_lock_acquire (\<lambda>s. s) (Inr store_locks) (MachineName ''web''))" by code_simp
  then show ?thesis by (cases "settings_lock_acquire (\<lambda>s. s) (Inr store_locks) (MachineName ''web'')") simp_all
qed

lemma store_written: "fst (apply_new_content_at store_path store_content (Some 420) store_host) = Inr ApplyCreated"
  by code_simp

theorem config_changes_allowed_witness:
  "config_may_become default_roots settled_host (RemoveConfig (MachineName ''web'')) store_path
     (FileNode \<lparr>hf_uid = 0, hf_mode = 420, hf_text = ''x''\<rparr>) None"
proof -
  let ?run = "execute_nspawn_config_operation default_roots store_env (Inr store_locks) (RemoveConfig (MachineName ''web'')) 0 settled_host"
  obtain d where lock: "settings_lock_acquire (\<lambda>s. s) (Inr store_locks) (MachineName ''web'') = Inr d" using store_lock by blast
  have before: "node settled_host store_path = Some (FileNode \<lparr>hf_uid = 0, hf_mode = 420, hf_text = ''x''\<rparr>)"
    by (simp add: settled_host_def)
  have "node (snd (remove_config_at store_path settled_host)) store_path = None" by code_simp
  moreover have "snd ?run = snd (remove_config_at store_path settled_host)"
    using lock by (simp add: execute_nspawn_config_operation_def store_env_def store_path_def hbind_def hlift_def hreturn_def
        split: prod.splits sum.splits)
  ultimately have after: "node (snd ?run) store_path = None" by simp
  show ?thesis
    using config_changes_allowed [OF prod.collapse [symmetric] before, of default_roots store_env "Inr store_locks"
      "RemoveConfig (MachineName ''web'')" 0] after by simp
qed

lemma store_created: "\<exists>h'. execute_nspawn_config_operation default_roots store_env (Inr store_locks) (WriteConfig store_spec [store_grant] None) 1000 store_host
    = (Inr (config_result_default\<lparr>cr_apply := Some ApplyCreated\<rparr>), h') \<and> h_faults h' = []"
proof -
  obtain d where lock: "settings_lock_acquire (\<lambda>s. s) (Inr store_locks) (MachineName ''web'') = Inr d" using store_lock by blast
  have m: "sp_machine store_spec = MachineName ''web''" by (simp add: store_spec_def example_spec_def)
  obtain h' where run: "apply_new_content_at store_path store_content (Some 420) store_host = (Inr ApplyCreated, h')"
    using store_written by (cases "apply_new_content_at store_path store_content (Some 420) store_host") simp
  have "h_faults (snd (apply_new_content_at store_path store_content (Some 420) store_host)) = []" by code_simp
  then have "h_faults h' = []" using run by simp
  moreover have "ce_debug store_env = (\<lambda>s. s)" by (simp add: store_env_def)
  ultimately show ?thesis
    using lock run store_generated m
    by (simp add: execute_nspawn_config_operation_def write_generated_at_def hbind_def hlift_def hreturn_def store_path_def)
qed

theorem generated_config_verified_witness:
  "\<exists>binds. list_all (authorized_bind store_env store_spec 1000 [store_grant]) binds
    \<and> (\<exists>ds. nspawn_directives (ce_debug store_env) store_spec binds = Inr ds)"
proof -
  obtain h' where run: "execute_nspawn_config_operation default_roots store_env (Inr store_locks)
      (WriteConfig store_spec [store_grant] None) 1000 store_host = (Inr (config_result_default\<lparr>cr_apply := Some ApplyCreated\<rparr>), h')"
    using store_created by blast
  show ?thesis using generated_config_verified [OF run] by auto
qed

theorem config_write_roundtrip_witness:
  "\<exists>h' content. generated_content store_env store_spec [store_grant] None 1000 = Inr content
    \<and> fst (execute_nspawn_config_operation default_roots store_env (Inr store_locks) (ReadConfig (MachineName ''web'')) 1000 h')
      = Inr (config_result_default\<lparr>cr_content := Some \<lparr>in_path = path_text store_path, in_content = content\<rparr>\<rparr>)"
proof -
  obtain h' where run: "execute_nspawn_config_operation default_roots store_env (Inr store_locks)
      (WriteConfig store_spec [store_grant] None) 1000 store_host = (Inr (config_result_default\<lparr>cr_apply := Some ApplyCreated\<rparr>), h')"
    and quiet: "h_faults h' = []"
    using store_created by blast
  have m: "MachineName ''web'' = sp_machine store_spec" by (simp add: store_spec_def example_spec_def)
  have "utf8_ok store_content" by code_simp
  then show ?thesis
    using config_write_roundtrip [OF run _ quiet m, of 1000] store_generated unfolding store_path_def by (auto intro!: exI [of _ h'])
qed

theorem inspection_reports_effective_witness:
  "\<exists>earlier source later. sources_for_image default_roots (ImageName ''web'') = earlier @ source # later
    \<and> settings_text settled_host (ns_path source) = Some ''x''
    \<and> list_all (\<lambda>s. leads_nowhere settled_host (ns_path s)) earlier"
proof -
  let ?run = "execute_nspawn_config_operation default_roots store_env (Inr store_locks) (InspectConfig (ImageName ''web'')) 0 settled_host"
  have "h_faults settled_host = []" by (simp add: settled_host_def store_host_def put_node_def)
  moreover have "node settled_host store_path = Some (FileNode \<lparr>hf_uid = 0, hf_mode = 420, hf_text = ''x''\<rparr>)"
    by (simp add: settled_host_def)
  moreover have "utf8_ok ''x''" by code_simp
  ultimately have "read_bounded_utf8 store_path settled_host = (Inr ''x'', settled_host)"
    by (simp add: quiet_read MAX_NSPAWN_CONTENT_BYTES_def del: utf8_ok.simps)
  moreover have "\<exists>later. sources_for_image default_roots (ImageName ''web'') = \<lparr>ns_kind = AdministratorSource, ns_path = store_path\<rparr> # later"
    by (simp add: sources_for_image_def from_roots_def Let_def store_path_def nspawn_path_def)
  then obtain later where "sources_for_image default_roots (ImageName ''web'') = \<lparr>ns_kind = AdministratorSource, ns_path = store_path\<rparr> # later" ..
  ultimately have run: "?run = (Inr (config_result_default\<lparr>cr_content := Some \<lparr>in_path = path_text store_path, in_content = ''x''\<rparr>\<rparr>), settled_host)"
    by (simp add: execute_nspawn_config_operation_def read_discovered_config_def hbind_def hmatch_def hreturn_def)
  show ?thesis using inspection_reports_effective [OF run] unfolding config_result_default_def by simp blast
qed

section \<open>The promotion of an image without administrator's settings\<close>

definition oci_source :: path where
  "oci_source = machines_dir default_roots @ [Normal (nspawn_file_name ''web'')]"

definition oci_host :: Host where
  "oci_host = put_node oci_source (FileNode \<lparr>hf_uid = 0, hf_mode = 420, hf_text = example_oci\<rparr>) store_host"

lemma oci_written: "fst (apply_locked_inner store_path (Some 416) (promotion_update example_promoted False) oci_host) = Inr ApplyCreated"
  by code_simp

theorem promoted_config_trusted_witness:
  "\<exists>h'. execute_nspawn_config_operation default_roots store_env (Inr store_locks) (PromoteOci (MachineName ''web'') OciIsolated) 0 oci_host
      = (Inr (config_result_default\<lparr>cr_apply := Some ApplyCreated\<rparr>), h')
    \<and> node h' store_path = Some (written_file oci_host 416 example_promoted)"
proof -
  let ?run = "execute_nspawn_config_operation default_roots store_env (Inr store_locks) (PromoteOci (MachineName ''web'') OciIsolated) 0 oci_host"
  let ?dir = "nspawn_config_dir default_roots" and ?run_dir = "nspawn_runtime_config_dir default_roots"
  obtain d where lock: "settings_lock_acquire (\<lambda>s. s) (Inr store_locks) (MachineName ''web'') = Inr d" using store_lock by blast
  have src: "node oci_host oci_source = Some (FileNode \<lparr>hf_uid = 0, hf_mode = 420, hf_text = example_oci\<rparr>)" by (simp add: oci_host_def)
  have quiet: "h_faults oci_host = []" "h_uid oci_host = 0" by (simp_all add: oci_host_def store_host_def put_node_def)
  have target: "validate_oci_promotion_target (MachineName ''web'') ?dir ?run_dir oci_host = (Inr (), oci_host)" by code_simp
  have "utf8_ok example_oci" by code_simp
  then have read: "read_trusted_oci_config (\<lambda>_. ''error'') oci_source oci_host = (Inr example_oci, oci_host)"
    using src quiet by (simp add: read_trusted_oci_config_def open_nofollow_def hmatch_def hbind_def host_call_quiet found_def hreturn_def io_def
        descriptor_def read_exclusive_file_def read_all_def hlift_def from_utf8_def Let_def MAX_NSPAWN_CONTENT_BYTES_def example_oci_def)
  obtain h' where run: "apply_locked_inner store_path (Some 416) (promotion_update example_promoted False) oci_host = (Inr ApplyCreated, h')"
    using oci_written by (cases "apply_locked_inner store_path (Some 416) (promotion_update example_promoted False) oci_host") simp
  have size: "validate_content_size example_promoted = Inr ()"
    by (simp add: validate_content_size_def MAX_NSPAWN_CONTENT_BYTES_def example_promoted_def LASPER_OCI_CONFIG_MARKER_def)
  have env: "ce_debug store_env = (\<lambda>s. s)" "ce_io_text store_env = (\<lambda>_. ''error'')" by (simp_all add: store_env_def)
  have ok: "?run = (Inr (config_result_default\<lparr>cr_apply := Some ApplyCreated\<rparr>), h')"
    using lock target read [unfolded oci_source_def] example_promotion size run [unfolded store_path_def nspawn_path_def]
    by (simp add: execute_nspawn_config_operation_def promote_new_oci_config_def promote_oci_config_inner_def hbind_def hlift_def hreturn_def env Let_def)
  obtain f content where "node oci_host oci_source = Some (FileNode f)" "promote_oci_content (hf_text f) OciIsolated = Inr content"
    "node h' store_path = Some (written_file oci_host 416 content)"
    using promoted_config_trusted [OF ok] by (auto simp: oci_source_def store_path_def)
  then show ?thesis using src example_promotion ok by (auto intro!: exI [of _ h'])
qed

end
