(* ===== verification/Nvidia_State.thy ===== *)
theory Nvidia_State
  imports Unit_Overrides Nspawn_Document
begin

text \<open>
  The NVIDIA state of a machine (\<open>src/adapters/platform/nvidia/state.rs\<close>, \<open>src/domain/nvidia.rs\<close>): the document, its
  migration from the fields of earlier versions, its validation, what an update removes, and the files it is kept in.
\<close>

section \<open>The document\<close>

datatype NvidiaFileCategory = Lib64 | Lib32 | Bin | Firmware | ConfigFile | Xorg | Vdpau | Gbm | OtherFile

definition all_static :: "NvidiaFileCategory list" where
  "all_static = [Lib64, Lib32, Bin, Firmware]"

definition all_categories :: "NvidiaFileCategory list" where
  "all_categories = [Lib64, Lib32, Bin, Firmware, ConfigFile, Xorg, Vdpau, Gbm, OtherFile]"

fun category_label :: "NvidiaFileCategory \<Rightarrow> string" where
  "category_label Lib64 = ''Libraries (64-bit)''"
| "category_label Lib32 = ''Libraries (32-bit)''"
| "category_label Bin = ''Binaries''"
| "category_label Firmware = ''Firmware''"
| "category_label ConfigFile = ''Vulkan/EGL Config''"
| "category_label Xorg = ''Xorg Modules''"
| "category_label Vdpau = ''VDPAU''"
| "category_label Gbm = ''GBM''"
| "category_label OtherFile = ''Other / Unclassified''"

fun default_container_root :: "NvidiaFileCategory \<Rightarrow> string" where
  "default_container_root Lib64 = ''/usr/lib''"
| "default_container_root Lib32 = ''/usr/lib32''"
| "default_container_root Bin = ''/usr/bin''"
| "default_container_root Firmware = ''/lib/firmware/nvidia''"
| "default_container_root ConfigFile = []"
| "default_container_root OtherFile = []"
| "default_container_root Xorg = ''/usr/lib/xorg/modules''"
| "default_container_root Vdpau = ''/usr/lib/vdpau''"
| "default_container_root Gbm = ''/usr/lib/gbm''"

datatype NvidiaPassthroughMode = Mirror | Categorized

record ManualClassification =
  man_host_path :: string
  man_category :: NvidiaFileCategory
  man_destination :: string
  man_readonly :: bool

text \<open>The map of destinations is an association list with distinct keys.\<close>

record NvidiaPassthroughProfile =
  pf_gpu_device :: string
  pf_mode :: NvidiaPassthroughMode
  pf_category_destinations :: "(NvidiaFileCategory \<times> string) list"
  pf_inject_env :: bool
  pf_manual_classifications :: "ManualClassification list"

definition profile_default :: NvidiaPassthroughProfile where
  "profile_default = \<lparr>pf_gpu_device = ''all'', pf_mode = Mirror, pf_category_destinations = [], pf_inject_env = False,
     pf_manual_classifications = []\<rparr>"

record ClassifiedEntry =
  ce_host_path :: string
  ce_default_container_path :: string
  ce_category :: NvidiaFileCategory
  ce_readonly :: bool

record SymlinkEntry =
  sl_target :: string
  sl_link_path :: string

record NvidiaState =
  ns_driver_version :: string
  ns_ownership_marker :: "string option"
  ns_binds :: "PassthroughBind list"
  ns_readonly_binds :: "string list"
  ns_device_binds :: "string list"
  ns_classified_entries :: "ClassifiedEntry list"
  ns_symlinks :: "SymlinkEntry list"
  ns_ldcache_folders :: "string list"
  ns_env_vars :: "(string \<times> string) list"
  ns_profile :: "NvidiaPassthroughProfile option"

definition nvidia_state_default :: NvidiaState where
  "nvidia_state_default = \<lparr>ns_driver_version = [], ns_ownership_marker = None, ns_binds = [], ns_readonly_binds = [],
     ns_device_binds = [], ns_classified_entries = [], ns_symlinks = [], ns_ldcache_folders = [], ns_env_vars = [],
     ns_profile = None\<rparr>"

definition same_payload :: "NvidiaState \<Rightarrow> NvidiaState \<Rightarrow> bool" where
  "same_payload a b \<longleftrightarrow>
     ns_driver_version a = ns_driver_version b \<and> ns_binds a = ns_binds b
     \<and> ns_readonly_binds a = ns_readonly_binds b \<and> ns_device_binds a = ns_device_binds b
     \<and> ns_classified_entries a = ns_classified_entries b \<and> ns_symlinks a = ns_symlinks b
     \<and> ns_ldcache_folders a = ns_ldcache_folders b \<and> ns_env_vars a = ns_env_vars b \<and> ns_profile a = ns_profile b"

subsection \<open>Fields of earlier versions\<close>

definition split_host_container :: "string \<Rightarrow> string \<times> string" where
  "split_host_container s = (case split_once CHR '':'' s of Some (h, c) \<Rightarrow> (h, c) | None \<Rightarrow> (s, s))"

text \<open>The key a bind is remembered by while the fields are joined.\<close>

definition bind_key :: "PassthroughBind \<Rightarrow> string" where
  "bind_key b = host_path b @ ''::'' @ container_path b"

definition push_unseen :: "PassthroughBind \<Rightarrow> string set \<times> PassthroughBind list \<Rightarrow> string set \<times> PassthroughBind list" where
  "push_unseen b acc =
     (case acc of (seen, binds) \<Rightarrow>
        if bind_key b \<in> seen then (seen, binds) else (insert (bind_key b) seen, binds @ [b]))"

definition legacy_bind :: "bool \<Rightarrow> string \<Rightarrow> PassthroughBind" where
  "legacy_bind ro s =
     (case split_host_container s of (host, container) \<Rightarrow>
        \<lparr>host_path = host, container_path = container, pt_readonly = ro\<rparr>)"

definition classified_bind :: "ClassifiedEntry \<Rightarrow> PassthroughBind" where
  "classified_bind e = \<lparr>host_path = ce_host_path e, container_path = ce_default_container_path e, pt_readonly = ce_readonly e\<rparr>"

definition symlink_bind :: "SymlinkEntry \<Rightarrow> PassthroughBind" where
  "symlink_bind l = \<lparr>host_path = sl_target l, container_path = sl_link_path l, pt_readonly = True\<rparr>"

definition migrate_from_legacy :: "NvidiaState \<Rightarrow> NvidiaState" where
  "migrate_from_legacy s =
     (if ns_binds s \<noteq> [] then s
      else
        let acc = fold (push_unseen \<circ> legacy_bind False) (ns_device_binds s) ({}, []);
            acc = fold (push_unseen \<circ> legacy_bind True) (ns_readonly_binds s) acc;
            acc = fold (push_unseen \<circ> classified_bind) (ns_classified_entries s) acc;
            acc = fold (push_unseen \<circ> symlink_bind) (ns_symlinks s) acc in
        s\<lparr>ns_binds := snd acc\<rparr>)"

definition populate_legacy :: "NvidiaState \<Rightarrow> NvidiaState" where
  "populate_legacy s =
     s\<lparr>ns_readonly_binds :=
         map (\<lambda>b. if host_path b = container_path b then host_path b else host_path b @ '':'' @ container_path b)
           (filter pt_readonly (ns_binds s)),
       ns_device_binds := map host_path (filter (\<lambda>b. \<not> pt_readonly b) (ns_binds s))\<rparr>"

text \<open>The paths of a state are collected in a \<open>HashSet\<close> and listed in any order.\<close>

definition all_host_paths :: "NvidiaState \<Rightarrow> string set" where
  "all_host_paths s =
     host_path ` set (ns_binds s)
     \<union> (\<lambda>b. hd (split_on CHR '':'' b)) ` set (ns_readonly_binds s)
     \<union> (\<lambda>b. hd (split_on CHR '':'' b)) ` set (ns_device_binds s)
     \<union> ce_host_path ` set (ns_classified_entries s)"

definition all_container_paths :: "NvidiaState \<Rightarrow> string set" where
  "all_container_paths s =
     container_path ` set (ns_binds s)
     \<union> (\<lambda>b. last (split_on CHR '':'' b)) ` set (ns_readonly_binds s)
     \<union> (\<lambda>b. last (split_on CHR '':'' b)) ` set (ns_device_binds s)
     \<union> ce_default_container_path ` set (ns_classified_entries s)
     \<union> sl_link_path ` set (ns_symlinks s)"

definition calculate_death_list :: "NvidiaState \<Rightarrow> NvidiaState \<Rightarrow> string set" where
  "calculate_death_list old new = all_container_paths old - all_container_paths new"

definition calculate_removed_binds :: "NvidiaState \<Rightarrow> NvidiaState \<Rightarrow> PassthroughBind list" where
  "calculate_removed_binds old new = filter (\<lambda>b. b \<notin> set (ns_binds new)) (ns_binds old)"

subsection \<open>Validation\<close>

definition MAX_NVIDIA_STATE_BYTES :: nat where
  "MAX_NVIDIA_STATE_BYTES = 1024 * 1024"

definition MAX_NVIDIA_STATE_ITEMS :: nat where
  "MAX_NVIDIA_STATE_ITEMS = 16384"

definition NVIDIA_STATE_MARKER :: string where
  "NVIDIA_STATE_MARKER = ''lasper-nvidia-state-v1''"

definition validate_text_value :: "(string \<Rightarrow> string) \<Rightarrow> string \<Rightarrow> bool \<Rightarrow> string \<Rightarrow> NspawnError + unit" where
  "validate_text_value dbg label allow_empty v =
     (if \<not> allow_empty \<and> v = [] \<or> length v > 4096 \<or> has_control v
      then Inl (ValidationError (''Invalid '' @ label @ '': '' @ dbg v)) else Inr ())"

definition state_absolute_value :: "(string \<Rightarrow> string) \<Rightarrow> string \<Rightarrow> string \<Rightarrow> NspawnError + unit" where
  "state_absolute_value dbg label v =
     and_then (validate_text_value dbg label False v) (\<lambda>_.
       if \<not> is_absolute v then Inl (ValidationError (label @ '' must be absolute: '' @ dbg v)) else Inr ())"

definition validate_bind_expression :: "(string \<Rightarrow> string) \<Rightarrow> string \<Rightarrow> string \<Rightarrow> NspawnError + unit" where
  "validate_bind_expression dbg label v =
     and_then (validate_text_value dbg label False v) (\<lambda>_.
       if \<not> is_absolute (case split_once CHR '':'' v of Some (source, _) \<Rightarrow> source | None \<Rightarrow> v)
       then Inl (ValidationError (label @ '' source must be absolute: '' @ dbg v)) else Inr ())"

definition validate_env_key :: "(string \<Rightarrow> string) \<Rightarrow> string \<Rightarrow> NspawnError + unit" where
  "validate_env_key dbg v =
     (if v = [] \<or> length v > 255 \<or> CHR ''='' \<in> set v \<or> has_control v
      then Inl (ValidationError (''Invalid environment key: '' @ dbg v)) else Inr ())"

definition total_items :: "NvidiaState \<Rightarrow> nat" where
  "total_items s =
     length (ns_binds s) + length (ns_readonly_binds s) + length (ns_device_binds s) + length (ns_classified_entries s)
     + length (ns_symlinks s) + length (ns_ldcache_folders s) + length (ns_env_vars s)
     + (case ns_profile s of
          Some p \<Rightarrow> length (pf_category_destinations p) + length (pf_manual_classifications p)
        | None \<Rightarrow> 0)"

definition validate_profile :: "(string \<Rightarrow> string) \<Rightarrow> NvidiaPassthroughProfile \<Rightarrow> NspawnError + unit" where
  "validate_profile dbg p =
     and_then (validate_text_value dbg ''GPU device selector'' False (pf_gpu_device p)) (\<lambda>_.
     and_then (try_each (\<lambda>(_, destination). state_absolute_value dbg ''NVIDIA category destination'' destination)
       (pf_category_destinations p)) (\<lambda>_.
     try_each (\<lambda>c.
       and_then (state_absolute_value dbg ''manual classification host path'' (man_host_path c)) (\<lambda>_.
         if man_destination c \<noteq> [] then state_absolute_value dbg ''manual classification destination'' (man_destination c)
         else Inr ())) (pf_manual_classifications p)))"

definition validate_state :: "(string \<Rightarrow> string) \<Rightarrow> NvidiaState \<Rightarrow> NspawnError + unit" where
  "validate_state dbg s =
     (if ns_ownership_marker s \<noteq> None \<and> ns_ownership_marker s \<noteq> Some NVIDIA_STATE_MARKER
      then Inl (ValidationError ''unknown NVIDIA state ownership marker'')
      else if total_items s > MAX_NVIDIA_STATE_ITEMS then Inl (ValidationError ''Too many entries in NVIDIA state'')
      else
        and_then (validate_text_value dbg ''driver version'' True (ns_driver_version s)) (\<lambda>_.
        and_then (try_each (\<lambda>b.
          and_then (state_absolute_value dbg ''NVIDIA host path'' (host_path b)) (\<lambda>_.
            state_absolute_value dbg ''NVIDIA container path'' (container_path b))) (ns_binds s)) (\<lambda>_.
        and_then (try_each (validate_bind_expression dbg ''legacy read-only bind'') (ns_readonly_binds s)) (\<lambda>_.
        and_then (try_each (validate_bind_expression dbg ''legacy device bind'') (ns_device_binds s)) (\<lambda>_.
        and_then (try_each (\<lambda>e.
          and_then (state_absolute_value dbg ''classified host path'' (ce_host_path e)) (\<lambda>_.
            state_absolute_value dbg ''classified container path'' (ce_default_container_path e))) (ns_classified_entries s)) (\<lambda>_.
        and_then (try_each (\<lambda>l.
          and_then (state_absolute_value dbg ''symlink target'' (sl_target l)) (\<lambda>_.
            state_absolute_value dbg ''symlink path'' (sl_link_path l))) (ns_symlinks s)) (\<lambda>_.
        and_then (try_each (state_absolute_value dbg ''ldcache folder'') (ns_ldcache_folders s)) (\<lambda>_.
        and_then (try_each (\<lambda>(key, v).
          and_then (validate_env_key dbg key) (\<lambda>_. validate_text_value dbg ''environment value'' True v)) (ns_env_vars s)) (\<lambda>_.
          case ns_profile s of Some p \<Rightarrow> validate_profile dbg p | None \<Rightarrow> Inr ())))))))))"

section \<open>The files\<close>

text \<open>
  Parameters: the \<open>Debug\<close> form of a text, and reading and writing the document as JSON. A JSON error is the error the
  \<open>?\<close> operator turns it into.
\<close>

record NvidiaEnv =
  nv_debug :: "string \<Rightarrow> string"
  nv_from_slice :: "u8 list \<Rightarrow> NspawnError + NvidiaState"
  nv_to_vec_pretty :: "NvidiaState \<Rightarrow> NspawnError + u8 list"

definition state_file_name :: "MachineName \<Rightarrow> string" where
  "state_file_name m = machine_as_str m @ ''.json''"

definition read_state :: "NvidiaEnv \<Rightarrow> string \<Rightarrow> NvidiaState option dir_op" where
  "read_state env name d =
     dir_bind (read_bounded (nv_debug env) name MAX_NVIDIA_STATE_BYTES d) (\<lambda>found d.
       case found of
         None \<Rightarrow> (Inr None, d)
       | Some f \<Rightarrow>
           if tf_uid f \<noteq> td_expected_uid d \<or> tf_mode f \<noteq> 384
           then (Inl (ValidationError (''NVIDIA state has unsafe ownership or mode: '' @ name)), d)
           else
             (and_then (nv_from_slice env (tf_bytes f)) (\<lambda>parsed.
              let state = migrate_from_legacy parsed in
              and_then (validate_state (nv_debug env) state) (\<lambda>_. Inr (Some state))), d))"

definition is_owned_state_content :: "NvidiaEnv \<Rightarrow> u8 list \<Rightarrow> bool" where
  "is_owned_state_content env content \<longleftrightarrow>
     length content \<le> MAX_NVIDIA_STATE_BYTES \<and>
     (case nv_from_slice env content of
        Inl _ \<Rightarrow> False
      | Inr state \<Rightarrow> ns_ownership_marker state = Some NVIDIA_STATE_MARKER \<and> is_ok (validate_state (nv_debug env) state))"

definition probe_owned_state :: "NvidiaEnv \<Rightarrow> string \<Rightarrow> ArtifactOwnership dir_op" where
  "probe_owned_state env name d =
     (case read_bounded (nv_debug env) name MAX_NVIDIA_STATE_BYTES d of
        (Inl (ValidationError _), d') \<Rightarrow> (Inr AmbiguousLegacy, d')
      | (Inl e, d') \<Rightarrow> (Inl e, d')
      | (Inr None, d') \<Rightarrow> (Inr NotPresent, d')
      | (Inr (Some f), d') \<Rightarrow>
          (Inr (if tf_uid f \<noteq> td_expected_uid d' \<or> tf_mode f \<noteq> 384 then AmbiguousLegacy
                else if is_owned_state_content env (tf_bytes f) then ProvenOwned else AmbiguousLegacy), d'))"

text \<open>What both writers do before they take the lock.\<close>

definition state_content :: "NvidiaEnv \<Rightarrow> NvidiaState \<Rightarrow> NspawnError + u8 list" where
  "state_content env state =
     and_then (validate_state (nv_debug env) state) (\<lambda>_.
     and_then (nv_to_vec_pretty env (state\<lparr>ns_ownership_marker := Some NVIDIA_STATE_MARKER\<rparr>)) (\<lambda>content.
       if length content > MAX_NVIDIA_STATE_BYTES
       then Inl (ValidationError (''NVIDIA state exceeds '' @ show_nat MAX_NVIDIA_STATE_BYTES @ '' bytes''))
       else Inr content))"

definition replace_state :: "NvidiaEnv \<Rightarrow> string \<Rightarrow> u8 list \<Rightarrow> unit dir_op" where
  "replace_state env name content d =
     dir_bind (read_bounded (nv_debug env) name MAX_NVIDIA_STATE_BYTES d) (\<lambda>existing d.
       case existing of
         Some f \<Rightarrow>
           if tf_uid f \<noteq> td_expected_uid d \<or> tf_mode f \<noteq> 384
           then (Inl (ValidationError (''Refusing to replace NVIDIA state with unsafe ownership or mode: '' @ name)), d)
           else write_atomic (nv_debug env) name content 384 d
       | None \<Rightarrow> write_atomic (nv_debug env) name content 384 d)"

definition write_state :: "NvidiaEnv \<Rightarrow> string \<Rightarrow> NvidiaState \<Rightarrow> unit dir_op" where
  "write_state env name state d =
     (case state_content env state of
        Inl e \<Rightarrow> (Inl e, d)
      | Inr content \<Rightarrow> with_exclusive_lock (nv_debug env) name (replace_state env name content) d)"

definition create_state :: "NvidiaEnv \<Rightarrow> string \<Rightarrow> u8 list \<Rightarrow> ResourceApplyStatus dir_op" where
  "create_state env name content d =
     dir_bind (probe_owned_state env name d) (\<lambda>ownership d.
     dir_bind (read_bounded (nv_debug env) name MAX_NVIDIA_STATE_BYTES d) (\<lambda>existing d.
       case existing of
         None \<Rightarrow> dir_bind (write_atomic (nv_debug env) name content 384 d) (\<lambda>_ d. (Inr ApplyCreated, d))
       | Some f \<Rightarrow>
           if tf_bytes f = content then (Inr Unchanged, d)
           else if ownership = ProvenOwned
           then dir_bind (write_atomic (nv_debug env) name content 384 d) (\<lambda>_ d. (Inr ReplacedOwned, d))
           else (Inr ConflictUnknownOwner, d)))"

definition write_initial_state :: "NvidiaEnv \<Rightarrow> string \<Rightarrow> NvidiaState \<Rightarrow> ResourceApplyStatus dir_op" where
  "write_initial_state env name state d =
     (case state_content env state of
        Inl e \<Rightarrow> (Inl e, d)
      | Inr content \<Rightarrow> with_exclusive_lock (nv_debug env) name (create_state env name content) d)"

definition remove_if_owned :: "NvidiaEnv \<Rightarrow> string \<Rightarrow> ArtifactOwnership dir_op" where
  "remove_if_owned env name d =
     dir_bind (probe_owned_state env name d) (\<lambda>ownership d.
       if ownership = ProvenOwned
       then dir_bind (remove_unlocked (nv_debug env) name d) (\<lambda>_ d. (Inr ownership, d))
       else (Inr ownership, d))"

definition remove_owned_state :: "NvidiaEnv \<Rightarrow> string \<Rightarrow> ArtifactOwnership dir_op" where
  "remove_owned_state env name = with_exclusive_lock_and_cleanup (nv_debug env) name (remove_if_owned env name)"

section \<open>The operations of the daemon\<close>

datatype StateFileOperation =
    ReadState MachineName
  | ProbeOwnedState MachineName
  | WriteState MachineName NvidiaState
  | WriteInitialState MachineName NvidiaState
  | RemoveState MachineName
  | RemoveOwnedState MachineName

record NvidiaStateResult =
  nr_state :: "NvidiaState option"
  nr_apply :: "ResourceApplyStatus option"
  nr_ownership :: "ArtifactOwnership option"

definition nvidia_result_default :: NvidiaStateResult where
  "nvidia_result_default = \<lparr>nr_state = None, nr_apply = None, nr_ownership = None\<rparr>"

text \<open>The directory \<open>States\<close> of the state root, once it is open.\<close>

fun execute_nvidia_state_operation :: "NvidiaEnv \<Rightarrow> StateFileOperation \<Rightarrow> NvidiaStateResult dir_op" where
  "execute_nvidia_state_operation env (ReadState m) d =
     dir_bind (read_state env (state_file_name m) d) (\<lambda>s d. (Inr (nvidia_result_default\<lparr>nr_state := s\<rparr>), d))"
| "execute_nvidia_state_operation env (ProbeOwnedState m) d =
     dir_bind (probe_owned_state env (state_file_name m) d) (\<lambda>ow d.
       (Inr (nvidia_result_default\<lparr>nr_ownership := Some ow\<rparr>), d))"
| "execute_nvidia_state_operation env (WriteState m s) d =
     dir_bind (write_state env (state_file_name m) s d) (\<lambda>_ d. (Inr nvidia_result_default, d))"
| "execute_nvidia_state_operation env (WriteInitialState m s) d =
     dir_bind (write_initial_state env (state_file_name m) s d) (\<lambda>st d.
       (Inr (nvidia_result_default\<lparr>nr_apply := Some st\<rparr>), d))"
| "execute_nvidia_state_operation env (RemoveState m) d =
     dir_bind (remove_with_lock (nv_debug env) (state_file_name m) d) (\<lambda>_ d. (Inr nvidia_result_default, d))"
| "execute_nvidia_state_operation env (RemoveOwnedState m) d =
     dir_bind (remove_owned_state env (state_file_name m) d) (\<lambda>ow d.
       (Inr (nvidia_result_default\<lparr>nr_ownership := Some ow\<rparr>), d))"

subsection \<open>The store as its clients see it\<close>

type_synonym state_executor = "StateFileOperation \<Rightarrow> NvidiaStateResult dir_op"

definition elevated_state_executor ::
  "('e \<Rightarrow> string) \<Rightarrow> (StateFileOperation \<Rightarrow> TrustedDirectory \<Rightarrow> ('e + NvidiaStateResult) \<times> TrustedDirectory) \<Rightarrow> state_executor" where
  "elevated_state_executor to_string rpc op d = (case rpc op d of (r, d') \<Rightarrow> (map_err (\<lambda>e. RuntimeError (to_string e)) r, d'))"

definition for_state :: "string \<Rightarrow> (MachineName \<Rightarrow> 'a dir_op) \<Rightarrow> 'a dir_op" where
  "for_state name f d = (case parse_machine_name name of Inl e \<Rightarrow> (Inl e, d) | Inr m \<Rightarrow> f m d)"

definition state_store_read :: "state_executor \<Rightarrow> string \<Rightarrow> NvidiaState option dir_op" where
  "state_store_read exec name = for_state name (\<lambda>m d.
     dir_bind (exec (ReadState m) d) (\<lambda>res d. (Inr (nr_state res), d)))"

definition state_store_probe_owned :: "state_executor \<Rightarrow> string \<Rightarrow> ArtifactOwnership dir_op" where
  "state_store_probe_owned exec name = for_state name (\<lambda>m d.
     dir_bind (exec (ProbeOwnedState m) d) (\<lambda>res d.
       (ok_or (nr_ownership res) (RuntimeError ''NVIDIA state probe returned no ownership evidence''), d)))"

definition state_store_write :: "state_executor \<Rightarrow> string \<Rightarrow> NvidiaState \<Rightarrow> unit dir_op" where
  "state_store_write exec name state = for_state name (\<lambda>m d.
     dir_bind (exec (WriteState m state) d) (\<lambda>_ d. (Inr (), d)))"

definition state_store_write_initial :: "state_executor \<Rightarrow> string \<Rightarrow> NvidiaState \<Rightarrow> ResourceApplyStatus dir_op" where
  "state_store_write_initial exec name state = for_state name (\<lambda>m d.
     dir_bind (exec (WriteInitialState m state) d) (\<lambda>res d.
       (ok_or (nr_apply res) (RuntimeError ''initial NVIDIA state write returned no apply status''), d)))"

definition state_store_remove :: "state_executor \<Rightarrow> string \<Rightarrow> unit dir_op" where
  "state_store_remove exec name = for_state name (\<lambda>m d.
     dir_bind (exec (RemoveState m) d) (\<lambda>_ d. (Inr (), d)))"

definition state_store_remove_owned :: "state_executor \<Rightarrow> string \<Rightarrow> ArtifactOwnership dir_op" where
  "state_store_remove_owned exec name = for_state name (\<lambda>m d.
     dir_bind (exec (RemoveOwnedState m) d) (\<lambda>res d.
       (ok_or (nr_ownership res) (RuntimeError ''owned NVIDIA cleanup returned no ownership evidence''), d)))"

section \<open>What an operation may change\<close>

text \<open>A file that only the privileged process may have written, and one that Lasper can prove to be its own.\<close>

definition safe_state :: "TrustedDirectory \<Rightarrow> Inode \<Rightarrow> bool" where
  "safe_state d i \<longleftrightarrow> i_kind i = RegularFile \<and> i_uid i = td_expected_uid d \<and> i_mode i AND 4095 = 384"

definition owned_state :: "NvidiaEnv \<Rightarrow> TrustedDirectory \<Rightarrow> Inode \<Rightarrow> bool" where
  "owned_state env d i \<longleftrightarrow> safe_state d i \<and> is_owned_state_content env (i_bytes i)"

lemma state_place:
  assumes "same_place d d'"
  shows "safe_state d' = safe_state d" "owned_state env d' = owned_state env d" "new_file d' = new_file d"
  using assms by (auto simp: fun_eq_iff safe_state_def owned_state_def new_file_def same_place_def)

lemma nvidia_probe_result:
  assumes "probe_owned_state env name d = (r, d')"
  shows "same_place d d'" and "entry d' = entry d"
    and "r = Inr ProvenOwned \<Longrightarrow> \<exists>i. entry d name = Some i \<and> owned_state env d i"
    and "r = Inr NotPresent \<Longrightarrow> entry d name = None"
proof -
  obtain r1 d1 where 1: "read_bounded (nv_debug env) name MAX_NVIDIA_STATE_BYTES d = (r1, d1)" by force
  have d': "d' = d1" using assms 1 by (auto simp: probe_owned_state_def split: sum.splits option.splits NspawnError.splits)
  note e = read_bounded_entry [OF 1]
  show "same_place d d'" "entry d' = entry d" using e d' by simp_all
  show "\<exists>i. entry d name = Some i \<and> owned_state env d i" if proven: "r = Inr ProvenOwned"
  proof -
    obtain f where f: "r1 = Inr (Some f)" "tf_uid f = td_expected_uid d1" "tf_mode f = 384" "is_owned_state_content env (tf_bytes f)"
      using assms 1 proven by (auto simp: probe_owned_state_def split: sum.splits option.splits NspawnError.splits if_splits)
    then show ?thesis using e by (auto simp: owned_state_def safe_state_def same_place_def)
  qed
  show "entry d name = None" if "r = Inr NotPresent"
    using assms 1 that e by (auto simp: probe_owned_state_def split: sum.splits option.splits NspawnError.splits if_splits)
qed

text \<open>Existing entries stay what they are, but for one that may become what the relation allows.\<close>

definition changes_entry :: "(TrustedDirectory \<Rightarrow> Inode \<Rightarrow> Inode option \<Rightarrow> bool) \<Rightarrow> string \<Rightarrow> TrustedDirectory \<Rightarrow> TrustedDirectory \<Rightarrow> bool" where
  "changes_entry allowed name d d' \<longleftrightarrow> same_place d d' \<and>
     (\<forall>k i. entry d k = Some i \<longrightarrow> entry d' k = Some i \<or> k = name \<and> allowed d i (entry d' k))"

definition place_stable :: "(TrustedDirectory \<Rightarrow> Inode \<Rightarrow> Inode option \<Rightarrow> bool) \<Rightarrow> bool" where
  "place_stable allowed \<longleftrightarrow> (\<forall>a b. same_place a b \<longrightarrow> allowed b = allowed a)"

lemma unchanged_entries: "same_place d d' \<Longrightarrow> entry d' = entry d \<Longrightarrow> changes_entry allowed name d d'"
  by (simp add: changes_entry_def)

lemma changes_after:
  "same_place d d1 \<Longrightarrow> entry d1 = entry d \<Longrightarrow> place_stable allowed \<Longrightarrow> changes_entry allowed name d1 d' \<Longrightarrow> changes_entry allowed name d d'"
  by (auto simp: changes_entry_def place_stable_def intro: same_place_trans)

lemma write_changes:
  assumes "write_atomic esc name bytes mode d = (r, d')"
    and "\<And>i. entry d name = Some i \<Longrightarrow> allowed d i (Some (new_file d bytes mode))"
  shows "changes_entry allowed name d d'"
  using write_atomic_entry [OF assms(1)] assms(2) by (auto simp: changes_entry_def leaves_temp_def split: if_splits)

lemma removal_changes:
  assumes "remove_unlocked esc name d = (r, d')" and "\<And>i. entry d name = Some i \<Longrightarrow> allowed d i None"
  shows "changes_entry allowed name d d'"
  using remove_unlocked_entry [OF assms(1)] assms(2) by (auto simp: changes_entry_def split: if_splits)

lemma locked_changes:
  assumes "with_exclusive_lock_inner esc name cleanup operation d = (r, d')" and "place_stable allowed"
    and "\<And>d1 r2 d2. operation d1 = (r2, d2) \<Longrightarrow> changes_entry allowed name d1 d2"
    and "entry d k = Some i" and "k \<noteq> lock_name_of name"
  shows "entry d' k = Some i \<or> k = name \<and> allowed d i (entry d' k)"
  using assms(1)
proof (cases rule: with_lock_cases)
  case Refused
  then show ?thesis using assms(4,5) by (simp add: only_changes_def)
next
  case (Ran d1 r2 d2)
  then have "entry d1 k = Some i" "entry d' k = entry d2 k" "allowed d1 = allowed d"
    using assms(2,4,5) by (auto simp: only_changes_def place_stable_def)
  then show ?thesis using assms(3) [OF Ran(3)] by (auto simp: changes_entry_def)
qed

definition replaced_by :: "(TrustedDirectory \<Rightarrow> Inode \<Rightarrow> bool) \<Rightarrow> u8 list \<Rightarrow> TrustedDirectory \<Rightarrow> Inode \<Rightarrow> Inode option \<Rightarrow> bool" where
  "replaced_by guard content d i new \<longleftrightarrow> guard d i \<and> new = Some (new_file d content 384)"

definition removed_if :: "(TrustedDirectory \<Rightarrow> Inode \<Rightarrow> bool) \<Rightarrow> TrustedDirectory \<Rightarrow> Inode \<Rightarrow> Inode option \<Rightarrow> bool" where
  "removed_if guard d i new \<longleftrightarrow> guard d i \<and> new = None"

lemma stable_replacements:
  "place_stable (replaced_by safe_state content)" "place_stable (replaced_by (owned_state env) content)"
  "place_stable (removed_if (\<lambda>_ _. True))" "place_stable (removed_if (owned_state env))"
  by (auto simp: place_stable_def replaced_by_def removed_if_def fun_eq_iff state_place)

lemma replace_changes:
  assumes "replace_state env name content d = (r, d')"
  shows "changes_entry (replaced_by safe_state content) name d d'"
proof -
  obtain r1 d1 where 1: "read_bounded (nv_debug env) name MAX_NVIDIA_STATE_BYTES d = (r1, d1)" by force
  note e = read_bounded_entry [OF 1]
  have place: "same_place d d1" "entry d1 = entry d" using e by simp_all
  consider "d' = d1" | "write_atomic (nv_debug env) name content 384 d1 = (r, d')" "\<And>i. entry d1 name = Some i \<Longrightarrow> safe_state d1 i"
  proof (cases r1)
    case (Inl e)
    then show thesis using assms 1 that(1) by (simp add: replace_state_def)
  next
    case (Inr found)
    show thesis
    proof (cases found)
      case None
      then show thesis using assms 1 e Inr by (intro that(2)) (auto simp: replace_state_def)
    next
      case (Some f)
      then show thesis using assms 1 e Inr that
        by (cases "tf_uid f = td_expected_uid d1 \<and> tf_mode f = 384") (auto simp: replace_state_def safe_state_def same_place_def)
    qed
  qed
  then show ?thesis
  proof cases
    case 1
    then show ?thesis using place unchanged_entries by simp
  next
    case 2
    have "changes_entry (replaced_by safe_state content) name d1 d'"
      using 2(1) by (rule write_changes) (simp add: replaced_by_def 2(2))
    then show ?thesis by (rule changes_after [OF place stable_replacements(1)])
  qed
qed

lemma create_changes:
  assumes "create_state env name content d = (r, d')"
  shows "changes_entry (replaced_by (owned_state env) content) name d d'"
proof -
  obtain r1 d1 where 1: "probe_owned_state env name d = (r1, d1)" by force
  obtain r2 d2 where 2: "read_bounded (nv_debug env) name MAX_NVIDIA_STATE_BYTES d1 = (r2, d2)" by force
  note e = read_bounded_entry [OF 2]
  have place: "same_place d d1" "entry d1 = entry d" "same_place d d2" "entry d2 = entry d"
    using e nvidia_probe_result(1,2) [OF 1] same_place_trans by auto
  consider "d' \<in> {d1, d2}"
    | r3 where "write_atomic (nv_debug env) name content 384 d2 = (r3, d')" "entry d2 name = None \<or> r1 = Inr ProvenOwned"
  proof (cases "\<exists>found. r1 = Inr (fst found) \<and> r2 = Inr (snd found)")
    case False
    then show thesis using assms 1 2 that(1) by (cases r1; cases r2) (auto simp: create_state_def)
  next
    case True
    then obtain ow found where ok: "r1 = Inr ow" "r2 = Inr found" by auto
    show thesis
    proof (cases found)
      case None
      then show thesis using assms 1 2 e ok that(2) by (auto simp: create_state_def dir_bind_split)
    next
      case (Some f)
      then show thesis
        using assms 1 2 ok that by (cases "tf_bytes f = content \<or> ow \<noteq> ProvenOwned") (auto simp: create_state_def dir_bind_split split: if_splits)
    qed
  qed
  then show ?thesis
  proof cases
    case 1
    then show ?thesis using place unchanged_entries by auto
  next
    case (2 r3)
    have "owned_state env d2 i" if "entry d2 name = Some i" for i
      using nvidia_probe_result(3) [OF 1] 2(2) that place state_place(2) [OF place(3)] by auto
    then have "changes_entry (replaced_by (owned_state env) content) name d2 d'"
      by (intro write_changes [OF 2(1)]) (simp add: replaced_by_def)
    then show ?thesis by (rule changes_after [OF place(3,4) stable_replacements(2)])
  qed
qed

lemma remove_owned_changes:
  assumes "remove_if_owned env name d = (r, d')"
  shows "changes_entry (removed_if (owned_state env)) name d d'"
proof -
  obtain r1 d1 where 1: "probe_owned_state env name d = (r1, d1)" by force
  note place = nvidia_probe_result(1,2) [OF 1]
  consider "d' = d1" | r2 where "remove_unlocked (nv_debug env) name d1 = (r2, d')" "r1 = Inr ProvenOwned"
    using assms 1 by (auto simp: remove_if_owned_def dir_bind_split split: if_splits)
  then show ?thesis
  proof cases
    case 1
    then show ?thesis using place unchanged_entries by simp
  next
    case (2 r2)
    have "owned_state env d1 i" if "entry d1 name = Some i" for i
      using nvidia_probe_result(3) [OF 1 2(2)] that place state_place(2) [OF place(1)] by auto
    then have "changes_entry (removed_if (owned_state env)) name d1 d'"
      by (intro removal_changes [OF 2(1)]) (simp add: removed_if_def)
    then show ?thesis by (rule changes_after [OF place stable_replacements(4)])
  qed
qed

text \<open>What may become of a file of the directory.\<close>

fun state_may_become :: "NvidiaEnv \<Rightarrow> TrustedDirectory \<Rightarrow> StateFileOperation \<Rightarrow> string \<Rightarrow> Inode \<Rightarrow> Inode option \<Rightarrow> bool" where
  "state_may_become env d (ReadState m) name i new = False"
| "state_may_become env d (ProbeOwnedState m) name i new = False"
| "state_may_become env d (WriteState m s) name i new =
     (name = state_file_name m \<and> (\<exists>content. state_content env s = Inr content \<and> replaced_by safe_state content d i new))"
| "state_may_become env d (WriteInitialState m s) name i new =
     (name = state_file_name m \<and> (\<exists>content. state_content env s = Inr content \<and> replaced_by (owned_state env) content d i new))"
| "state_may_become env d (RemoveState m) name i new = (name = state_file_name m \<and> new = None)"
| "state_may_become env d (RemoveOwnedState m) name i new = (name = state_file_name m \<and> removed_if (owned_state env) d i new)"

fun operation_machine :: "StateFileOperation \<Rightarrow> MachineName" where
  "operation_machine (ReadState m) = m"
| "operation_machine (ProbeOwnedState m) = m"
| "operation_machine (WriteState m s) = m"
| "operation_machine (WriteInitialState m s) = m"
| "operation_machine (RemoveState m) = m"
| "operation_machine (RemoveOwnedState m) = m"

lemma read_state_entries: "read_state env name d = (r, d') \<Longrightarrow> entry d' = entry d"
  using read_bounded_entry [of "nv_debug env" name MAX_NVIDIA_STATE_BYTES d]
  by (cases "read_bounded (nv_debug env) name MAX_NVIDIA_STATE_BYTES d")
    (auto simp: read_state_def dir_bind_split split: option.splits if_splits)

text \<open>
  C21. The state of a machine is replaced only when it is safe to: whichever system calls fail, an operation leaves every
  file of the directory as it is but for the lock and the state file of its machine; a write replaces only a plain
  file of the expected user that no one else may access, by the complete new document; an initial write replaces and
  an owned removal deletes only a file that carries Lasper's marker besides and is a valid state; reads and probes
  change nothing.
\<close>

theorem nvidia_state_protected:
  assumes "execute_nvidia_state_operation env op d = (r, d')" and "entry d name = Some i"
    and "name \<noteq> lock_name_of (state_file_name (operation_machine op))"
  shows "entry d' name = Some i \<or> state_may_become env d op name i (entry d' name)"
proof (cases op)
  case (ReadState m)
  then show ?thesis using assms read_state_entries by (fastforce simp: dir_bind_split)
next
  case (ProbeOwnedState m)
  then show ?thesis using assms nvidia_probe_result(2) by (fastforce simp: dir_bind_split)
next
  case (WriteState m s)
  then obtain r1 where "write_state env (state_file_name m) s d = (r1, d')" using assms(1) by (auto simp: dir_bind_split)
  then show ?thesis
    using locked_changes [OF _ stable_replacements(1) replace_changes assms(2)] assms(2,3) WriteState
    by (fastforce simp: write_state_def with_exclusive_lock_def split: sum.splits)
next
  case (WriteInitialState m s)
  then obtain r1 where "write_initial_state env (state_file_name m) s d = (r1, d')" using assms(1) by (auto simp: dir_bind_split)
  then show ?thesis
    using locked_changes [OF _ stable_replacements(2) create_changes assms(2)] assms(2,3) WriteInitialState
    by (fastforce simp: write_initial_state_def with_exclusive_lock_def split: sum.splits)
next
  case (RemoveState m)
  then obtain r1 where "remove_with_lock (nv_debug env) (state_file_name m) d = (r1, d')" using assms(1) by (auto simp: dir_bind_split)
  moreover have "changes_entry (removed_if (\<lambda>_ _. True)) (state_file_name m) d1 d2"
    if "remove_unlocked (nv_debug env) (state_file_name m) d1 = (r2, d2)" for d1 r2 d2
    using that by (rule removal_changes) (simp add: removed_if_def)
  ultimately show ?thesis
    using locked_changes [OF _ stable_replacements(3) _ assms(2)] assms(3) RemoveState
    by (fastforce simp: remove_with_lock_def with_exclusive_lock_and_cleanup_def removed_if_def)
next
  case (RemoveOwnedState m)
  then obtain r1 where "remove_owned_state env (state_file_name m) d = (r1, d')" using assms(1) by (auto simp: dir_bind_split)
  then show ?thesis
    using locked_changes [OF _ stable_replacements(4) remove_owned_changes assms(2)] assms(3) RemoveOwnedState
    by (fastforce simp: remove_owned_state_def with_exclusive_lock_and_cleanup_def)
qed

section \<open>What was written is read\<close>

lemma write_success: "write_atomic esc name bytes mode d = (Inr u, d') \<Longrightarrow> same_place d d' \<and> entry d' name = Some (new_file d bytes mode)"
  using write_atomic_entry by fastforce

lemma replace_success:
  assumes "replace_state env name content d = (Inr u, d')"
  shows "same_place d d' \<and> entry d' name = Some (new_file d content 384)"
proof -
  obtain r1 d1 where 1: "read_bounded (nv_debug env) name MAX_NVIDIA_STATE_BYTES d = (r1, d1)" by force
  then have "write_atomic (nv_debug env) name content 384 d1 = (Inr u, d')"
    using assms by (cases r1) (auto simp: replace_state_def split: option.splits if_splits)
  then show ?thesis
    using write_success state_place(3) [of d d1] read_bounded_entry [OF 1] same_place_trans by metis
qed

lemma create_success:
  assumes "create_state env name content d = (Inr st, d')" and "st = ApplyCreated \<or> st = ReplacedOwned"
  shows "same_place d d' \<and> entry d' name = Some (new_file d content 384)"
proof -
  obtain r1 d1 where 1: "probe_owned_state env name d = (r1, d1)" by force
  obtain r2 d2 where 2: "read_bounded (nv_debug env) name MAX_NVIDIA_STATE_BYTES d1 = (r2, d2)" by force
  have "write_atomic (nv_debug env) name content 384 d2 = (Inr (), d')"
    using assms 1 2 by (cases r1; cases r2) (auto simp: create_state_def dir_bind_split split: option.splits if_splits)
  moreover have "same_place d d2" using nvidia_probe_result(1) [OF 1] read_bounded_entry [OF 2] same_place_trans by blast
  ultimately show ?thesis using write_success state_place(3) [of d d2] same_place_trans by metis
qed

lemma locked_success:
  assumes "with_exclusive_lock esc name operation d = (Inr x, d')"
    and "\<And>d1 d2. operation d1 = (Inr x, d2) \<Longrightarrow> same_place d1 d2 \<and> entry d2 name = Some (new_file d1 content 384)"
  shows "validate_name esc name = Inr name \<and> same_place d d' \<and> entry d' name = Some (new_file d content 384)"
  using assms(1) unfolding with_exclusive_lock_def
proof (cases rule: with_lock_cases)
  case Refused
  then show ?thesis by simp
next
  case (Ran d1 r2 d2)
  then have "same_place d1 d2" "entry d2 name = Some (new_file d1 content 384)" using assms(2) by auto
  moreover have "length name \<noteq> length (lock_name_of name)" by (simp add: lock_name_of_def)
  then have "name \<noteq> lock_name_of name" by metis
  ultimately show ?thesis
    using Ran state_place(3) [of d d1] same_place_trans unfolding only_changes_def by metis
qed

text \<open>A write took place: its request and the directory afterwards.\<close>

definition wrote_state :: "StateFileOperation \<Rightarrow> NvidiaStateResult \<Rightarrow> MachineName \<Rightarrow> NvidiaState \<Rightarrow> bool" where
  "wrote_state op res m s \<longleftrightarrow>
     op = WriteState m s \<or> op = WriteInitialState m s \<and> nr_apply res \<in> {Some ApplyCreated, Some ReplacedOwned}"

lemma written_state:
  assumes "execute_nvidia_state_operation env op d = (Inr res, d')" and "wrote_state op res m s"
  obtains content where "state_content env s = Inr content" "validate_name (nv_debug env) (state_file_name m) = Inr (state_file_name m)"
    "same_place d d'" "entry d' (state_file_name m) = Some (new_file d content 384)"
proof -
  consider "op = WriteState m s" | st where "op = WriteInitialState m s" "nr_apply res = Some st" "st = ApplyCreated \<or> st = ReplacedOwned"
    using assms(2) by (auto simp: wrote_state_def)
  then show thesis
  proof cases
    case 1
    then obtain u where w: "write_state env (state_file_name m) s d = (Inr u, d')" using assms(1) by (auto simp: dir_bind_split)
    then obtain content where c: "state_content env s = Inr content" by (auto simp: write_state_def split: sum.splits)
    then have "with_exclusive_lock (nv_debug env) (state_file_name m) (replace_state env (state_file_name m) content) d = (Inr u, d')"
      using w by (simp add: write_state_def)
    from locked_success [OF this, of content] replace_success c show thesis using that by blast
  next
    case (2 st)
    then have w: "write_initial_state env (state_file_name m) s d = (Inr st, d')"
      using assms(1) by (auto simp: dir_bind_split nvidia_result_default_def)
    then obtain content where c: "state_content env s = Inr content" by (auto simp: write_initial_state_def split: sum.splits)
    then have "with_exclusive_lock (nv_debug env) (state_file_name m) (create_state env (state_file_name m) content) d = (Inr st, d')"
      using w by (simp add: write_initial_state_def)
    from locked_success [OF this, of content] create_success [OF _ 2(3)] c show thesis using that by blast
  qed
qed

abbreviation with_marker :: "NvidiaState \<Rightarrow> NvidiaState" where
  "with_marker s \<equiv> s\<lparr>ns_ownership_marker := Some NVIDIA_STATE_MARKER\<rparr>"

lemma marker_valid: "validate_state dbg s = Inr () \<Longrightarrow> validate_state dbg (with_marker s) = Inr ()"
  by (simp add: validate_state_def total_items_def split: if_splits del: and_then_eq_Inr)

lemma marker_migrated: "migrate_from_legacy s = s \<Longrightarrow> migrate_from_legacy (with_marker s) = with_marker s"
  unfolding migrate_from_legacy_def Let_def by (cases s) (auto split: if_splits)

lemma written_read:
  assumes "execute_nvidia_state_operation env op d = (Inr res, d1)" and "wrote_state op res m s" and "faults d1 = []"
    and json: "\<And>x c. nv_to_vec_pretty env x = Inr c \<Longrightarrow> nv_from_slice env c = Inr x"
    and "td_process_uid d = td_expected_uid d" and "migrate_from_legacy s = s"
  shows "read_state env (state_file_name m) d1 = (Inr (Some (with_marker s)), d1)"
    and "probe_owned_state env (state_file_name m) d1 = (Inr ProvenOwned, d1)" and "same_place d d1"
proof -
  obtain content where c: "state_content env s = Inr content"
    and name: "validate_name (nv_debug env) (state_file_name m) = Inr (state_file_name m)"
    and place: "same_place d d1" and stored: "entry d1 (state_file_name m) = Some (new_file d content 384)"
    using written_state [OF assms(1,2)] by blast
  have valid: "validate_state (nv_debug env) s = Inr ()" and parsed: "nv_from_slice env content = Inr (with_marker s)"
    and size: "length content \<le> MAX_NVIDIA_STATE_BYTES"
    using c json by (auto simp: state_content_def split: if_splits)
  have uid: "td_expected_uid d1 = td_process_uid d" using place assms(5) by (simp add: same_place_def)
  have read: "read_bounded (nv_debug env) (state_file_name m) MAX_NVIDIA_STATE_BYTES d1 =
      (Inr (Some \<lparr>tf_bytes = content, tf_uid = td_process_uid d, tf_mode = 384\<rparr>), d1)"
    using no_faults_read [OF assms(3) name stored] size by (simp add: new_file_def)
  have "is_owned_state_content env content"
    using parsed size marker_valid [OF valid] by (simp add: is_owned_state_content_def)
  then show "read_state env (state_file_name m) d1 = (Inr (Some (with_marker s)), d1)"
    and "probe_owned_state env (state_file_name m) d1 = (Inr ProvenOwned, d1)"
    using read uid parsed marker_valid [OF valid] marker_migrated [OF assms(6)]
    by (simp_all add: read_state_def probe_owned_state_def Let_def)
  show "same_place d d1" by (rule place)
qed

text \<open>
  What was written is read and recognised: when the state of a machine was written, or an initial write created or
  replaced it, a read that meets no error returns the same state with Lasper's marker, and a probe finds it owned. The
  JSON text must read back as what it was written from, the process must be the expected user, and the state must
  have nothing left to migrate.
\<close>

lemma nvidia_state_roundtrip:
  assumes "execute_nvidia_state_operation env op d = (Inr res, d1)" and "wrote_state op res m s" and "faults d1 = []"
    and json: "\<And>x c. nv_to_vec_pretty env x = Inr c \<Longrightarrow> nv_from_slice env c = Inr x"
    and "td_process_uid d = td_expected_uid d" and "migrate_from_legacy s = s"
  shows "execute_nvidia_state_operation env (ReadState m) d1 = (Inr (nvidia_result_default\<lparr>nr_state := Some (with_marker s)\<rparr>), d1)
    \<and> execute_nvidia_state_operation env (ProbeOwnedState m) d1 = (Inr (nvidia_result_default\<lparr>nr_ownership := Some ProvenOwned\<rparr>), d1)"
  using written_read [OF assms] by simp

section \<open>Migration\<close>

text \<open>Every bind the fields of earlier versions stand for, in the order they are looked at.\<close>

definition legacy_binds :: "NvidiaState \<Rightarrow> PassthroughBind list" where
  "legacy_binds s = map (legacy_bind False) (ns_device_binds s) @ map (legacy_bind True) (ns_readonly_binds s) @
     map classified_bind (ns_classified_entries s) @ map symlink_bind (ns_symlinks s)"

lemma migrate_binds: "ns_binds s = [] \<Longrightarrow> ns_binds (migrate_from_legacy s) = snd (fold push_unseen (legacy_binds s) ({}, []))"
  by (simp add: migrate_from_legacy_def legacy_binds_def fold_map Let_def)

lemma push_unseen_step:
  "bind_key b \<in> seen \<Longrightarrow> push_unseen b (seen, binds) = (seen, binds)"
  "bind_key b \<notin> seen \<Longrightarrow> push_unseen b (seen, binds) = (insert (bind_key b) seen, binds @ [b])"
  by (simp_all add: push_unseen_def)

lemma push_unseen_fold:
  assumes "fold push_unseen bs (bind_key ` set before, binds) = (seen, result)" and "set (map bind_key binds) = bind_key ` set before"
    and "distinct (map bind_key binds)"
    and "\<And>b. b \<in> set binds \<Longrightarrow> find (\<lambda>x. bind_key x = bind_key b) before = Some b"
  shows "distinct (map bind_key result) \<and> set (map bind_key result) = bind_key ` set (before @ bs)
    \<and> (\<forall>b \<in> set result. find (\<lambda>x. bind_key x = bind_key b) (before @ bs) = Some b)"
  using assms
proof (induction bs arbitrary: before binds)
  case Nil
  then show ?case by auto
next
  case (Cons b bs)
  have keep: "find P (before @ [b]) = Some x" if "find P before = Some x" for P x
    using that by (induction before) (auto split: if_splits)
  show ?case
  proof (cases "bind_key b \<in> bind_key ` set before")
    case True
    then have "fold push_unseen bs (bind_key ` set (before @ [b]), binds) = (seen, result)"
      using Cons.prems(1) by (simp add: push_unseen_step insert_absorb)
    from Cons.IH [OF this] True Cons.prems(2-4) keep show ?thesis by (simp add: insert_absorb)
  next
    case False
    then have "fold push_unseen bs (bind_key ` set (before @ [b]), binds @ [b]) = (seen, result)"
      using Cons.prems(1) by (simp add: push_unseen_step)
    moreover have "find (\<lambda>x. bind_key x = bind_key b) (before @ [b]) = Some b"
      using False by (induction before) auto
    moreover have "bind_key b \<notin> bind_key ` set binds" using False Cons.prems(2) by simp
    moreover have "find (\<lambda>x. bind_key x = bind_key c) (before @ [b]) = Some c" if "c \<in> set (binds @ [b])" for c
      using that calculation(2) Cons.prems(4) keep by auto
    ultimately show ?thesis using Cons.IH [of "before @ [b]" "binds @ [b]"] Cons.prems(2,3) by simp
  qed
qed

text \<open>
  Migration loses no bind and repeats none: the binds of a state without any become those its older fields stand
  for, once for each pair of host and container path, and of several with the same pair the first, devices before
  read-only files before classified entries before links; a state with binds is left alone, and migrating again
  changes nothing.
\<close>

lemma nvidia_migration_exact:
  "(ns_binds s \<noteq> [] \<longrightarrow> migrate_from_legacy s = s)
    \<and> (ns_binds s = [] \<longrightarrow>
        distinct (map bind_key (ns_binds (migrate_from_legacy s)))
        \<and> bind_key ` set (ns_binds (migrate_from_legacy s)) = bind_key ` set (legacy_binds s)
        \<and> list_all (\<lambda>b. find (\<lambda>x. bind_key x = bind_key b) (legacy_binds s) = Some b) (ns_binds (migrate_from_legacy s)))
    \<and> migrate_from_legacy (migrate_from_legacy s) = migrate_from_legacy s"
proof -
  obtain seen result where f: "fold push_unseen (legacy_binds s) ({}, []) = (seen, result)" by force
  have "migrate_from_legacy (migrate_from_legacy s) = migrate_from_legacy s"
    by (simp add: migrate_from_legacy_def Let_def)
  then show ?thesis
    using push_unseen_fold [of "legacy_binds s" "[]" "[]" seen result] f migrate_binds [of s]
    by (auto simp: list_all_iff migrate_from_legacy_def)
qed

section \<open>A machine with one device\<close>

text \<open>A reader and a writer that know one document.\<close>

definition example_state :: NvidiaState where
  "example_state = nvidia_state_default\<lparr>ns_driver_version := ''570'',
     ns_binds := [\<lparr>host_path = ''/dev/nvidia0'', container_path = ''/dev/nvidia0'', pt_readonly = False\<rparr>]\<rparr>"

definition example_env :: NvidiaEnv where
  "example_env = \<lparr>nv_debug = (\<lambda>s. s),
     nv_from_slice = (\<lambda>c. if c = [1] then Inr (with_marker example_state) else Inl (SerdeError ''syntax'')),
     nv_to_vec_pretty = (\<lambda>s. if s = with_marker example_state then Inr [1] else Inl (SerdeError ''unsupported''))\<rparr>"

definition states_dir :: TrustedDirectory where
  "states_dir = \<lparr>td_path = ''/var/lib/lasper/states'', td_expected_uid = 0, td_process_uid = 0,
     td_entries = [(''web.json'', \<lparr>i_kind = RegularFile, i_bytes = [7], i_uid = 0, i_mode = 420\<rparr>)],
     faults = [], lock_script = [], temp_ids = [''00'']\<rparr>"

lemma example_json: "nv_to_vec_pretty example_env x = Inr c \<Longrightarrow> nv_from_slice example_env c = Inr x"
  by (simp add: example_env_def split: if_splits)

theorem nvidia_state_protected_witness:
  "entry (snd (execute_nvidia_state_operation example_env (WriteState (MachineName ''web'') example_state) states_dir)) ''web.json''
    = Some \<lparr>i_kind = RegularFile, i_bytes = [7], i_uid = 0, i_mode = 420\<rparr>"
proof -
  let ?i = "\<lparr>i_kind = RegularFile, i_bytes = [7 :: u8], i_uid = 0, i_mode = 420\<rparr>"
  let ?op = "WriteState (MachineName ''web'') example_state"
  have before: "entry states_dir ''web.json'' = Some ?i" by (simp add: states_dir_def entry_def)
  have "\<not> state_may_become example_env states_dir ?op ''web.json'' ?i new" for new
    by (simp add: replaced_by_def safe_state_def)
  moreover have "''web.json'' \<noteq> lock_name_of (state_file_name (operation_machine ?op))"
    by (simp add: state_file_name_def lock_name_of_def)
  ultimately show ?thesis
    using nvidia_state_protected [OF prod.collapse [symmetric] before, where env = example_env and op = ?op] by blast
qed

lemma example_written:
  "\<exists>d1. execute_nvidia_state_operation example_env (WriteState (MachineName ''api'') example_state) states_dir
    = (Inr nvidia_result_default, d1) \<and> faults d1 = []"
proof -
  define l where "l = acquire_stable_lock [] ''.api.json.lock'' True states_dir"
  have lock: "fst l = Inr True" "faults (snd l) = []" "entry (snd l) ''api.json'' = None" unfolding l_def by code_simp+
  define w where "w = write_atomic (\<lambda>s. s) ''api.json'' [1] 384 (snd l)"
  have wr: "fst w = Inr ()" "faults (snd w) = []" unfolding w_def l_def by code_simp+
  have name: "validate_name (\<lambda>s. s) ''api.json'' = Inr ''api.json''" by code_simp
  have dbg: "nv_debug example_env = (\<lambda>s. s)" by (simp add: example_env_def)
  have "replace_state example_env ''api.json'' [1] (snd l) = (Inr (), snd w)"
    using wr(1) by (simp add: replace_state_def dbg no_faults_read_absent [OF lock(2) name lock(3)] w_def prod_eq_iff)
  moreover have script: "lock_script states_dir = []" by (simp add: states_dir_def)
  have "acquire_stable_lock (lock_script states_dir) (lock_name_of ''api.json'') True states_dir = (Inr True, snd l)"
    unfolding script using lock(1) by (simp add: l_def lock_name_of_def prod_eq_iff del: acquire_stable_lock.simps)
  ultimately have "with_exclusive_lock (\<lambda>s. s) ''api.json'' (replace_state example_env ''api.json'' [1]) states_dir = (Inr (), snd w)"
    using name by (simp add: with_exclusive_lock_def with_exclusive_lock_inner_def Let_def)
  moreover have "state_content example_env example_state = Inr [1]"
    by (simp add: state_content_def example_env_def example_state_def nvidia_state_default_def validate_state_def total_items_def
        MAX_NVIDIA_STATE_ITEMS_def MAX_NVIDIA_STATE_BYTES_def validate_text_value_def state_absolute_value_def is_absolute_def
        starts_with_def ctrl1_def ctrl2_def)
  ultimately show ?thesis using wr(2) by (simp add: write_state_def state_file_name_def dbg)
qed

lemma nvidia_state_roundtrip_witness:
  "\<exists>d1. fst (execute_nvidia_state_operation example_env (ReadState (MachineName ''api'')) d1)
    = Inr (nvidia_result_default\<lparr>nr_state := Some (with_marker example_state)\<rparr>)"
proof -
  let ?op = "WriteState (MachineName ''api'') example_state"
  obtain d1 where run: "execute_nvidia_state_operation example_env ?op states_dir = (Inr nvidia_result_default, d1)" and quiet: "faults d1 = []"
    using example_written by blast
  have req: "wrote_state ?op nvidia_result_default (MachineName ''api'') example_state" by (simp add: wrote_state_def)
  have uid: "td_process_uid states_dir = td_expected_uid states_dir" by (simp add: states_dir_def)
  have "migrate_from_legacy example_state = example_state" by (simp add: migrate_from_legacy_def example_state_def)
  from nvidia_state_roundtrip [OF run req quiet example_json uid this] show ?thesis by (metis fst_conv)
qed

lemma nvidia_migration_exact_witness:
  "bind_key ` set (ns_binds (migrate_from_legacy (nvidia_state_default\<lparr>ns_device_binds := [''/dev/a'']\<rparr>))) = {''/dev/a::/dev/a''}"
  using nvidia_migration_exact [of "nvidia_state_default\<lparr>ns_device_binds := [''/dev/a'']\<rparr>"]
  by (simp add: nvidia_state_default_def legacy_binds_def legacy_bind_def split_host_container_def bind_key_def)

end
