(* ===== verification/Nvidia_Lifecycle.thy ===== *)
theory Nvidia_Lifecycle
  imports Config_Store Nvidia_State
begin

text \<open>
  Keeping the GPU of a machine in step with the host (\<open>src/adapters/platform/nvidia/lifecycle.rs\<close>): before a machine
  starts, its settings, its stored state, its files and its unit are brought up to what discovery finds. Discovery, the
  clean-up in the root filesystem and the INI package are parameters.
\<close>

section \<open>The managed block as it stands\<close>

record MarkerScan =
  mk_in_files :: bool
  mk_inside :: bool
  mk_complete :: bool
  mk_binds :: "(string \<times> string \<times> bool) set"

definition parse_managed_bind :: "string \<Rightarrow> (string \<times> string) option" where
  "parse_managed_bind v =
     (case parse_nspawn_bind_fields (trim v) of
        None \<Rightarrow> None
      | Some parts \<Rightarrow>
          if parts = [] \<or> length parts > 2 then None
          else
            let host = trim (hd parts) in
            if host = [] then None
            else Some (host, case map trim (tl parts) of c # _ \<Rightarrow> if c \<noteq> [] then c else host | [] \<Rightarrow> host))"

text \<open>\<open>file_binds.insert\<close>, which must be new.\<close>

definition scan_bind :: "MarkerScan \<Rightarrow> string \<Rightarrow> bool \<Rightarrow> unit + MarkerScan" where
  "scan_bind st v ro =
     (case parse_managed_bind v of
        None \<Rightarrow> Inl ()
      | Some (host, container) \<Rightarrow>
          if (host, container, ro) \<in> mk_binds st then Inl ()
          else Inr (st\<lparr>mk_binds := insert (host, container, ro) (mk_binds st)\<rparr>))"

definition scan_line :: "MarkerScan \<Rightarrow> string \<Rightarrow> unit + MarkerScan" where
  "scan_line st line =
     (let trimmed = trim line in
      if starts_with trimmed ''['' \<and> ends_with trimmed '']''
      then if mk_inside st then Inl () else Inr (st\<lparr>mk_in_files := eq_ignore_ascii_case trimmed ''[files]''\<rparr>)
      else if \<not> mk_in_files st then Inr st
      else if is_nvidia_begin_marker trimmed
      then if mk_inside st \<or> mk_complete st then Inl () else Inr (st\<lparr>mk_inside := True\<rparr>)
      else if is_nvidia_end_marker trimmed
      then if \<not> mk_inside st then Inl () else Inr (st\<lparr>mk_inside := False, mk_complete := True\<rparr>)
      else if \<not> mk_inside st then Inr st
      else if trimmed = [] \<or> starts_with trimmed ''#'' then Inr st
      else
        (case strip_prefix trimmed ''BindReadOnly='' of
           Some v \<Rightarrow> scan_bind st v True
         | None \<Rightarrow>
             (case strip_prefix trimmed ''Bind='' of
                Some v \<Rightarrow> scan_bind st v False
              | None \<Rightarrow> Inl ())))"

definition bind_triple :: "PassthroughBind \<Rightarrow> string \<times> string \<times> bool" where
  "bind_triple b = (host_path b, container_path b, pt_readonly b)"

definition marker_binds_match_state :: "string \<Rightarrow> NvidiaState \<Rightarrow> bool" where
  "marker_binds_match_state content state \<longleftrightarrow>
     (case try_fold scan_line \<lparr>mk_in_files = False, mk_inside = False, mk_complete = False, mk_binds = {}\<rparr> (str_lines content) of
        Inl _ \<Rightarrow> False
      | Inr st \<Rightarrow>
          mk_complete st \<and> \<not> mk_inside st
          \<and> card (bind_triple ` set (ns_binds state)) = length (ns_binds state)
          \<and> mk_binds st = bind_triple ` set (ns_binds state))"

section \<open>Synchronization\<close>

text \<open>The host, the directory of the states, and the root filesystems of the machines.\<close>

record 'w GpuWorld =
  gw_host :: Host
  gw_states :: TrustedDirectory
  gw_rootfs :: 'w

type_synonym ('w, 'a) gpu_op = "'w GpuWorld \<Rightarrow> (NspawnError + 'a) \<times> 'w GpuWorld"

text \<open>
  Parameters: the INI parser with its \<open>get_from\<close>, the D-Bus errors that are a rejection, the executors of the three
  stores, the clean-up in a root filesystem and discovery.
\<close>

record 'w GpuPorts =
  gp_load_ini :: "string \<Rightarrow> string + (string option \<Rightarrow> string \<Rightarrow> string option)"
  gp_polkit_rejection :: "NspawnError \<Rightarrow> bool"
  gp_config :: executor
  gp_units :: unit_executor
  gp_states :: state_executor
  gp_cleanup :: "string \<Rightarrow> string set \<Rightarrow> 'w \<Rightarrow> (NspawnError + string list) \<times> 'w"
  gp_discover :: "NvidiaPassthroughProfile \<Rightarrow> NvidiaCdiSource \<Rightarrow> NspawnError + NvidiaState"

definition gpu_return :: "'a \<Rightarrow> ('w, 'a) gpu_op" where
  "gpu_return x w = (Inr x, w)"

definition gpu_lift :: "NspawnError + 'a \<Rightarrow> ('w, 'a) gpu_op" where
  "gpu_lift r w = (r, w)"

definition gpu_bind :: "('w, 'a) gpu_op \<Rightarrow> ('a \<Rightarrow> ('w, 'b) gpu_op) \<Rightarrow> ('w, 'b) gpu_op" where
  "gpu_bind m f w = (case m w of (Inl e, w') \<Rightarrow> (Inl e, w') | (Inr x, w') \<Rightarrow> f x w')"

definition on_host :: "'a hop \<Rightarrow> ('w, 'a) gpu_op" where
  "on_host m w = (case m (gw_host w) of (r, h) \<Rightarrow> (r, w\<lparr>gw_host := h\<rparr>))"

definition on_states :: "'a dir_op \<Rightarrow> ('w, 'a) gpu_op" where
  "on_states m w = (case m (gw_states w) of (r, d) \<Rightarrow> (r, w\<lparr>gw_states := d\<rparr>))"

definition on_rootfs :: "('w \<Rightarrow> (NspawnError + 'a) \<times> 'w) \<Rightarrow> ('w, 'a) gpu_op" where
  "on_rootfs m w = (case m (gw_rootfs w) of (r, f) \<Rightarrow> (r, w\<lparr>gw_rootfs := f\<rparr>))"

definition is_gpu_enabled ::
  "(string \<Rightarrow> string + (string option \<Rightarrow> string \<Rightarrow> string option)) \<Rightarrow> NspawnConfigInspection \<Rightarrow> NspawnError + bool" where
  "is_gpu_enabled load config =
     (case load (in_content config) of
        Inl e \<Rightarrow> Inl (InvalidConfig (''failed to parse '' @ in_path config @ '' while checking NVIDIA passthrough: '' @ e))
      | Inr get_from \<Rightarrow>
          let key = ''X-Lasper-Nvidia-Enabled'';
              in_files = get_from (Some ''Files'') key; in_general = get_from (Some ''General'') key; in_global = get_from None key in
          Inr (case if in_files \<noteq> None then in_files else if in_general \<noteq> None then in_general else in_global of
                 Some v \<Rightarrow> eq_ignore_ascii_case v ''true''
               | None \<Rightarrow> False))"

fun is_permission_denied :: "(NspawnError \<Rightarrow> bool) \<Rightarrow> NspawnError \<Rightarrow> bool" where
  "is_permission_denied polkit PermissionDenied = True"
| "is_permission_denied polkit (GenericIo e) = permission_denied e"
| "is_permission_denied polkit (Io p e) = permission_denied e"
| "is_permission_denied polkit e = polkit e"

definition inject_persistent_device_allow :: "'w GpuPorts \<Rightarrow> string \<Rightarrow> NvidiaState \<Rightarrow> ('w, unit) gpu_op" where
  "inject_persistent_device_allow ports name state =
     on_host (store_write_nvidia_device_allow (gp_units ports) name (map host_path (filter (\<lambda>b. \<not> pt_readonly b) (ns_binds state))))"

definition nvidia_rootfs_config :: "NvidiaState \<Rightarrow> string list \<times> (string \<times> string) list \<times> bool" where
  "nvidia_rootfs_config state =
     (let folders = ns_ldcache_folders state @
            (case ns_profile state of
               Some p \<Rightarrow>
                 if pf_mode p = Categorized
                 then concat (map (\<lambda>category.
                        case map_of (pf_category_destinations p) category of Some d \<Rightarrow> [d] | None \<Rightarrow> []) [Lib64, Lib32])
                 else []
             | None \<Rightarrow> []);
          write_environment = (case ns_profile state of Some p \<Rightarrow> pf_inject_env p | None \<Rightarrow> False) in
      (folders, if write_environment then ns_env_vars state else [], write_environment))"

text \<open>\<open>RootfsStore::configure_nvidia\<close> is a parameter.\<close>

definition inject_env_once ::
  "('t \<Rightarrow> string list \<Rightarrow> (string \<times> string) list \<Rightarrow> bool \<Rightarrow> 'w \<Rightarrow> (NspawnError + string list) \<times> 'w) \<Rightarrow> 't \<Rightarrow> NvidiaState \<Rightarrow>
   'w \<Rightarrow> (NspawnError + string list) \<times> 'w" where
  "inject_env_once configure_nvidia target state =
     (case nvidia_rootfs_config state of (ld_cache_folders, environment, write_environment) \<Rightarrow>
        configure_nvidia target ld_cache_folders environment write_environment)"

datatype NvidiaPreparationOutcome = NotConfigured | Synchronized

definition load_persisted :: "'w GpuPorts \<Rightarrow> string \<Rightarrow> ('w, NvidiaState option) gpu_op" where
  "load_persisted ports name w =
     (case on_states (state_store_read (gp_states ports) name) w of
        (Inl e, w') \<Rightarrow> (Inl (if is_permission_denied (gp_polkit_rejection ports) e then PermissionDenied else e), w')
      | (Inr s, w') \<Rightarrow> (Inr s, w'))"

text \<open>The steps after the comparison: refresh what differs.\<close>

definition refresh_gpu :: "'w GpuPorts \<Rightarrow> string \<Rightarrow> NspawnConfigInspection \<Rightarrow> NvidiaState \<Rightarrow> NvidiaState \<Rightarrow> ('w, NvidiaPreparationOutcome) gpu_op" where
  "refresh_gpu ports name config old_state host_state =
     (let death_list = calculate_death_list old_state host_state;
          removed_binds = calculate_removed_binds old_state host_state in
      gpu_bind (gpu_lift (apply_gpu_passthrough_to_content (in_content config) (ns_binds host_state) removed_binds)) (\<lambda>_.
      gpu_bind (on_rootfs (gp_cleanup ports name death_list)) (\<lambda>_.
      gpu_bind (on_host (store_update_gpu (gp_config ports) name (ns_binds host_state) removed_binds)) (\<lambda>_.
      gpu_bind (on_states (state_store_write (gp_states ports) name host_state)) (\<lambda>_.
      gpu_bind (inject_persistent_device_allow ports name host_state) (\<lambda>_. gpu_return Synchronized))))))"

text \<open>What the stored state and the settings must show for nothing to be refreshed.\<close>

definition in_step :: "NspawnConfigInspection \<Rightarrow> NvidiaState \<Rightarrow> NvidiaState \<Rightarrow> bool" where
  "in_step config old_state host_state \<longleftrightarrow>
     same_payload old_state host_state \<and> ns_driver_version old_state \<noteq> []
     \<and> contains_str (in_content config) ''X-Lasper-Nvidia-Begin=managed-by-lasper''
     \<and> marker_binds_match_state (in_content config) host_state"

definition ensure_gpu_passthrough :: "'w GpuPorts \<Rightarrow> string \<Rightarrow> NvidiaCdiSource \<Rightarrow> ('w, NvidiaPreparationOutcome) gpu_op" where
  "ensure_gpu_passthrough ports name cdi_source =
     gpu_bind (on_host (store_read (gp_config ports) name)) (\<lambda>found.
       case found of
         None \<Rightarrow> gpu_return NotConfigured
       | Some config \<Rightarrow>
           gpu_bind (gpu_lift (is_gpu_enabled (gp_load_ini ports) config)) (\<lambda>enabled.
           if \<not> enabled then gpu_return NotConfigured
           else
             gpu_bind (load_persisted ports name) (\<lambda>persisted.
             let old_state = (case persisted of Some s \<Rightarrow> s | None \<Rightarrow> nvidia_state_default);
                 profile = (case ns_profile old_state of Some p \<Rightarrow> p | None \<Rightarrow> profile_default) in
             gpu_bind (gpu_lift (gp_discover ports profile cdi_source)) (\<lambda>host_state.
             if in_step config old_state host_state
             then gpu_bind (inject_persistent_device_allow ports name host_state) (\<lambda>_. gpu_return Synchronized)
             else refresh_gpu ports name config old_state host_state))))"

section \<open>A written block matches the state it was written from\<close>












section \<open>A second run finds nothing to do\<close>

text \<open>The stores that work on the machine itself.\<close>

definition direct_ports ::
  "(string \<Rightarrow> string + (string option \<Rightarrow> string \<Rightarrow> string option)) \<Rightarrow> (NspawnError \<Rightarrow> bool) \<Rightarrow> ConfigEnv \<Rightarrow>
   NspawnError + TrustedDirectory \<Rightarrow> u32 \<Rightarrow> IniCodec \<Rightarrow> (string \<Rightarrow> string) \<Rightarrow> NvidiaEnv \<Rightarrow>
   (string \<Rightarrow> string set \<Rightarrow> 'w \<Rightarrow> (NspawnError + string list) \<times> 'w) \<Rightarrow>
   (NvidiaPassthroughProfile \<Rightarrow> NvidiaCdiSource \<Rightarrow> NspawnError + NvidiaState) \<Rightarrow> 'w GpuPorts" where
  "direct_ports load polkit env locks uid ini esc nv cleanup discover =
     \<lparr>gp_load_ini = load, gp_polkit_rejection = polkit,
      gp_config = (\<lambda>op. execute_nspawn_config_operation default_roots env locks op uid),
      gp_units = execute_systemd_unit_operation default_roots ini esc,
      gp_states = execute_nvidia_state_operation nv, gp_cleanup = cleanup, gp_discover = discover\<rparr>"






lemma update_gpu_written:
  assumes "store_update_gpu (\<lambda>op. execute_nspawn_config_operation roots env locks op uid) name binds removed h = (Inr u, h')"
    and "parse_machine_name name = Inr m"
  obtains f c where "node h' (nspawn_path roots m) = Some (FileNode f)" "apply_gpu_passthrough_to_content c binds removed = Inr (hf_text f)"
    "length (hf_text f) \<le> MAX_NSPAWN_CONTENT_BYTES"
proof -
  let ?p = "nspawn_path roots m"
  obtain res where "execute_nspawn_config_operation roots env locks (UpdateGpu m binds removed) uid h = (Inr res, h')"
    using assms by (auto simp: store_update_gpu_def hlift_def hreturn_def elim!: hbindE)
  from run_under_lock [OF this] have run: "write_locked ?p (gpu_update m binds removed) h = (Inr (), h')"
    by (auto simp: update_gpu_at_def hlift_def hreturn_def elim!: hbindE)
  from apply_locked_outcome [OF run [unfolded write_locked_def] nspawn_path_plain]
  obtain c where c: "gpu_update m binds removed (text_at h ?p) = Inr c" "\<exists>mode. node h' ?p = Some (written_file h mode c)"
    by auto
  then obtain old where "apply_gpu_passthrough_to_content old binds removed = Inr c" "validate_content_size c = Inr ()"
    by (auto simp: gpu_update_def)
  then show thesis using that c(2) by (auto simp: written_file_def validate_content_size_def split: if_splits)
qed

text \<open>Every node of the host stays as it is, except in an area.\<close>

definition host_kept_except :: "(path \<Rightarrow> bool) \<Rightarrow> Host \<Rightarrow> Host \<Rightarrow> bool" where
  "host_kept_except area h h' \<longleftrightarrow> (\<forall>q n. node h q = Some n \<longrightarrow> \<not> area q \<longrightarrow> node h' q = Some n)"

lemma host_kept_nodes: "node h1 = node h \<Longrightarrow> host_kept_except area h1 h' \<Longrightarrow> host_kept_except area h h'"
  by (simp add: host_kept_except_def)

lemma host_kept_trans: "host_kept_except area h h1 \<Longrightarrow> host_kept_except area h1 h2 \<Longrightarrow> host_kept_except area h h2"
  by (simp add: host_kept_except_def)

lemma host_kept_mono: "host_kept_except area h h' \<Longrightarrow> (\<And>q. area q \<Longrightarrow> wider q) \<Longrightarrow> host_kept_except wider h h'"
  by (auto simp: host_kept_except_def)

lemma device_allow_keeps:
  assumes "store_write_nvidia_device_allow (execute_systemd_unit_operation roots ini esc) name paths h = (r, h')"
    and "parse_machine_name name = Inr m"
  shows "host_kept_except (unit_area roots m) h h'"
  unfolding host_kept_except_def
proof (intro allI impI)
  fix q n
  assume n: "node h q = Some n" and out: "\<not> unit_area roots m q"
  then have "\<not> may_change roots ini (WriteNvidiaDeviceAllow m paths) q n"
    using may_change_area [of roots ini "WriteNvidiaDeviceAllow m paths" q n] by auto
  then have "preserves (keeps_at q n) (execute_systemd_unit_operation roots ini esc (WriteNvidiaDeviceAllow m paths))"
    by (rule operation_keeps)
  moreover obtain r1 where "execute_systemd_unit_operation roots ini esc (WriteNvidiaDeviceAllow m paths) h = (r1, h')"
    using assms by (auto simp: store_write_nvidia_device_allow_def hbind_def hlift_def hreturn_def split: prod.splits sum.splits)
  ultimately show "node h' q = Some n" using n preservesD by (fastforce simp: keeps_at_def)
qed

lemma settings_outside_units: "\<not> unit_area default_roots k (nspawn_path default_roots m)"
proof -
  have "systemd_config_root default_roots = [RootDir, Normal ''etc'', Normal ''systemd'']"
    "systemd_runtime_root default_roots = [RootDir, Normal ''run'', Normal ''systemd'']" by code_simp+
  then show ?thesis
    by (simp add: unit_area_def below_def nspawn_path_def nspawn_config_dir_def service_override_dir_def transient_service_override_dir_def
        systemd_system_unit_dir_def systemd_runtime_unit_dir_def)
qed

lemma device_allow_keeps_settings:
  assumes "store_write_nvidia_device_allow (execute_systemd_unit_operation default_roots ini esc) name paths h = (r, h')"
    and "node h (nspawn_path default_roots m) = Some n"
  shows "node h' (nspawn_path default_roots m) = Some n"
proof (cases "parse_machine_name name")
  case (Inl e)
  then show ?thesis using assms by (simp add: store_write_nvidia_device_allow_def hbind_def hlift_def)
next
  case (Inr k)
  then show ?thesis
    using device_allow_keeps [OF assms(1)] assms(2) settings_outside_units by (auto simp: host_kept_except_def)
qed

lemma update_gpu_keeps:
  assumes "store_update_gpu (\<lambda>op. execute_nspawn_config_operation roots env locks op uid) name binds removed h = (r, h')"
    and "parse_machine_name name = Inr m"
  shows "host_kept_except (\<lambda>q. q = nspawn_path roots m) h h'"
  unfolding host_kept_except_def
proof (intro allI impI)
  fix q n
  assume n: "node h q = Some n" and q: "q \<noteq> nspawn_path roots m"
  obtain r1 where run: "execute_nspawn_config_operation roots env locks (UpdateGpu m binds removed) uid h = (r1, h')"
    using assms by (auto simp: store_update_gpu_def hbind_def hlift_def hreturn_def split: prod.splits sum.splits)
  then have "h' = h \<or> (\<exists>r2. run_config_operation roots env uid (UpdateGpu m binds removed) h = (r2, h'))"
    by (auto simp: execute_nspawn_config_operation_def hbind_def hlift_def split: sum.splits)
  then show "node h' q = Some n"
    using n q config_change [of roots env uid "UpdateGpu m binds removed" h _ h' q n] by fastforce
qed

text \<open>The run writes nothing but the device rules of the unit.\<close>

definition rules_only :: "MachineName \<Rightarrow> 'w GpuWorld \<Rightarrow> 'w GpuWorld \<Rightarrow> bool" where
  "rules_only m w w' \<longleftrightarrow> entry (gw_states w') = entry (gw_states w) \<and> gw_rootfs w' = gw_rootfs w \<and>
     host_kept_except (unit_area default_roots m) (gw_host w) (gw_host w')"

lemma inject_rules_only:
  assumes "gpu_bind (inject_persistent_device_allow ports name hs) (\<lambda>_. gpu_return Synchronized) w = (r, w')"
    and "gp_units ports = execute_systemd_unit_operation default_roots ini esc" and "parse_machine_name name = Inr m"
  shows "rules_only m w w'"
proof -
  obtain r1 h where "store_write_nvidia_device_allow (execute_systemd_unit_operation default_roots ini esc) name
      (map host_path (filter (\<lambda>b. \<not> pt_readonly b) (ns_binds hs))) (gw_host w) = (r1, h)" "w' = w\<lparr>gw_host := h\<rparr>"
    using assms(1,2)
    by (auto simp: gpu_bind_def inject_persistent_device_allow_def on_host_def gpu_return_def split: prod.splits sum.splits)
  then show ?thesis using device_allow_keeps assms(3) by (auto simp: rules_only_def)
qed














section \<open>Nothing changes before discovery has succeeded\<close>

lemma config_read_keeps:
  assumes "store_read (\<lambda>op. execute_nspawn_config_operation roots env locks op uid) name h = (r, h')"
  shows "node h' = node h" and "r = Inr (Some config) \<Longrightarrow> \<exists>m. parse_machine_name name = Inr m \<and> settings_text h (nspawn_path roots m) = Some (in_content config)"
proof -
  let ?exec = "\<lambda>op. execute_nspawn_config_operation roots env locks op uid"
  have "preserves (same_at p) (store_read ?exec name)" for p
    unfolding store_read_def execute_nspawn_config_operation_def settings_machine.simps option.case run_config_operation.simps
    by (intro same.keeps_rules same.keeps_read_config_at)
  then show "node h' = node h" using assms by (rule same_nodes)
  show "\<exists>m. parse_machine_name name = Inr m \<and> settings_text h (nspawn_path roots m) = Some (in_content config)" if ok: "r = Inr (Some config)"
  proof -
    obtain m content where m: "parse_machine_name name = Inr m" and rd: "read_bounded_utf8 (nspawn_path roots m) h = (Inr content, h')"
      and c: "in_content config = content"
      using assms unfolding ok
      by (auto simp: store_read_def execute_nspawn_config_operation_def read_config_at_def read_optional_config_def hmatch_def
        hlift_def hreturn_def hfail_def config_result_default_def elim!: hbindE split: prod.splits sum.splits if_splits option.splits)
    then show ?thesis using read_bounded_result(2) [OF rd] by auto
  qed
qed

lemma load_persisted_keeps:
  assumes "load_persisted ports name w = (r, w')" and "gp_states ports = execute_nvidia_state_operation nv"
  shows "entry (gw_states w') = entry (gw_states w)" "gw_host w' = gw_host w" "gw_rootfs w' = gw_rootfs w"
proof -
  obtain r1 d where 1: "state_store_read (execute_nvidia_state_operation nv) name (gw_states w) = (r1, d)" by force
  then have "w' = w\<lparr>gw_states := d\<rparr>" using assms by (cases r1) (auto simp: load_persisted_def on_states_def)
  moreover have "entry d = entry (gw_states w)"
    using 1 read_state_entries
    by (auto simp: state_store_read_def for_state_def dir_bind_split split: sum.splits)
  ultimately show "entry (gw_states w') = entry (gw_states w)" "gw_host w' = gw_host w" "gw_rootfs w' = gw_rootfs w" by simp_all
qed

lemma gpu_bind_split:
  "gpu_bind m f w = (r, w') \<longleftrightarrow> (\<exists>e. m w = (Inl e, w') \<and> r = Inl e) \<or> (\<exists>x w1. m w = (Inr x, w1) \<and> f x w1 = (r, w'))"
  by (auto simp: gpu_bind_def split: prod.splits sum.splits)

lemma on_host_split: "on_host m w = (r, w') \<longleftrightarrow> (\<exists>h. m (gw_host w) = (r, h) \<and> w' = w\<lparr>gw_host := h\<rparr>)"
  by (auto simp: on_host_def split: prod.splits)

lemma on_states_split: "on_states m w = (r, w') \<longleftrightarrow> (\<exists>d. m (gw_states w) = (r, d) \<and> w' = w\<lparr>gw_states := d\<rparr>)"
  by (auto simp: on_states_def split: prod.splits)

lemma on_rootfs_split: "on_rootfs m w = (r, w') \<longleftrightarrow> (\<exists>f. m (gw_rootfs w) = (r, f) \<and> w' = w\<lparr>gw_rootfs := f\<rparr>)"
  by (auto simp: on_rootfs_def split: prod.splits)

lemmas gpu_splits = gpu_bind_split on_host_split on_states_split on_rootfs_split

text \<open>The settings of a machine hold the binds of a state.\<close>

definition settings_updated :: "Host \<Rightarrow> MachineName \<Rightarrow> PassthroughBind list \<Rightarrow> PassthroughBind list \<Rightarrow> bool" where
  "settings_updated h m binds removed \<longleftrightarrow> (\<exists>f c. node h (nspawn_path default_roots m) = Some (FileNode f) \<and>
     apply_gpu_passthrough_to_content c binds removed = Inr (hf_text f))"

text \<open>The state that is in force before a run, and the profile that it asks discovery for.\<close>

definition state_in_force :: "NvidiaState option \<Rightarrow> NvidiaState" where
  "state_in_force persisted = (case persisted of Some s \<Rightarrow> s | None \<Rightarrow> nvidia_state_default)"

definition profile_in_force :: "NvidiaState \<Rightarrow> NvidiaPassthroughProfile" where
  "profile_in_force old = (case ns_profile old of Some p \<Rightarrow> p | None \<Rightarrow> profile_default)"

lemma refresh_effect:
  fixes w :: "'w GpuWorld"
  assumes "refresh_gpu ports name config old hs w = (r, w1)"
    and "ports = direct_ports load polkit env locks uid ini esc nv cleanup discover" and "parse_machine_name name = Inr m"
  shows "w1 = w \<or> (\<exists>updated. apply_gpu_passthrough_to_content (in_content config) (ns_binds hs) (calculate_removed_binds old hs) = Inr updated)
      \<and> (entry (gw_states w1) \<noteq> entry (gw_states w) \<longrightarrow>
           settings_updated (gw_host w1) m (ns_binds hs) (calculate_removed_binds old hs))
      \<and> host_kept_except (\<lambda>q. q = nspawn_path default_roots m \<or> unit_area default_roots m q) (gw_host w) (gw_host w1)"
proof -
  let ?removed = "calculate_removed_binds old hs" and ?area = "\<lambda>q. q = nspawn_path default_roots m \<or> unit_area default_roots m q"
  have ports: "gp_config ports = (\<lambda>op. execute_nspawn_config_operation default_roots env locks op uid)"
    "gp_units ports = execute_systemd_unit_operation default_roots ini esc"
    using assms(2) by (simp_all add: direct_ports_def)
  have upd: "settings_updated h m (ns_binds hs) ?removed"
    if "store_update_gpu (gp_config ports) name (ns_binds hs) ?removed (gw_host w) = (Inr u, h)" for u h
    unfolding settings_updated_def by (rule update_gpu_written [OF that [unfolded ports(1)] assms(3)]) blast
  have kept: "settings_updated h' m (ns_binds hs) ?removed"
    if "settings_updated h m (ns_binds hs) ?removed" "store_write_nvidia_device_allow (gp_units ports) name paths h = (x, h')" for h h' paths x
    using that device_allow_keeps_settings [OF that(2) [unfolded ports(2)]] by (auto simp: settings_updated_def)
  have start: "host_kept_except ?area (gw_host w) (gw_host w)" by (simp add: host_kept_except_def)
  have first: "host_kept_except ?area (gw_host w) h"
    if "store_update_gpu (gp_config ports) name (ns_binds hs) ?removed (gw_host w) = (x, h)" for x h
    using update_gpu_keeps [OF that [unfolded ports(1)] assms(3)] by (rule host_kept_mono) simp
  have second: "host_kept_except ?area (gw_host w) h'"
    if "host_kept_except ?area (gw_host w) h" "store_write_nvidia_device_allow (gp_units ports) name paths h = (x, h')" for h h' paths x
    using that(1) host_kept_mono [OF device_allow_keeps [OF that(2) [unfolded ports(2)] assms(3)]] by (rule host_kept_trans) simp
  show ?thesis
  proof (cases "apply_gpu_passthrough_to_content (in_content config) (ns_binds hs) ?removed")
    case (Inl e)
    then show ?thesis using assms(1) by (simp add: refresh_gpu_def Let_def gpu_splits gpu_lift_def)
  next
    case (Inr updated)
    then show ?thesis
      using assms(1) upd kept start first second
      by (auto simp: refresh_gpu_def Let_def gpu_splits gpu_lift_def gpu_return_def inject_persistent_device_allow_def)
  qed
qed

lemma ensure_reaches:
  fixes w :: "'w GpuWorld"
  assumes "ensure_gpu_passthrough ports name cdi w = (r, w1)"
    and rd: "store_read (gp_config ports) name (gw_host w) = (r1, h)" and lp: "load_persisted ports name (w\<lparr>gw_host := h\<rparr>) = (r2, w2)"
    and moved: "w1 \<noteq> w\<lparr>gw_host := h\<rparr>" "w1 \<noteq> w2"
  obtains config persisted hs where "r1 = Inr (Some config)" and "r2 = Inr persisted"
    and "gp_discover ports (profile_in_force (state_in_force persisted)) cdi = Inr hs"
    and "(if in_step config (state_in_force persisted) hs
      then gpu_bind (inject_persistent_device_allow ports name hs) (\<lambda>_. gpu_return Synchronized)
      else refresh_gpu ports name config (state_in_force persisted) hs) w2 = (r, w1)"
proof -
  note run = assms(1) [unfolded ensure_gpu_passthrough_def gpu_bind_def on_host_def rd prod.case gpu_lift_def]
  obtain config where config: "r1 = Inr (Some config)"
  proof (cases r1)
    case (Inr found)
    then show thesis using that run moved by (cases found) (simp_all add: gpu_return_def)
  qed (use run moved in simp)
  obtain enabled where "is_gpu_enabled (gp_load_ini ports) config = Inr enabled" "enabled"
    using run moved config by (cases "is_gpu_enabled (gp_load_ini ports) config") (auto simp: gpu_return_def split: if_splits)
  note run = run [unfolded config sum.case option.case this(1) eqTrueI [OF this(2)] not_True_eq_False if_False lp prod.case]
  obtain persisted where loaded: "r2 = Inr persisted" using run moved by (cases r2) simp_all
  note run = run [unfolded loaded sum.case Let_def, folded state_in_force_def, folded profile_in_force_def]
  show thesis
  proof (cases "gp_discover ports (profile_in_force (state_in_force persisted)) cdi")
    case (Inl e)
    then show thesis using run moved by simp
  next
    case (Inr hs)
    then show thesis using that [OF config loaded Inr] run by (simp add: gpu_bind_def fun_eq_iff split: if_splits)
  qed
qed

lemma load_persisted_read:
  assumes "load_persisted ports name w = (Inr persisted, w')" and "gp_states ports = execute_nvidia_state_operation nv"
    and "parse_machine_name name = Inr m"
  shows "fst (read_state nv (state_file_name m) (gw_states w)) = Inr persisted"
  using assms
  by (auto simp: load_persisted_def on_states_def state_store_read_def for_state_def dir_bind_split nvidia_result_default_def
      split: prod.splits sum.splits)

text \<open>
  C20. Synchronization fails closed: whichever calls fail, a run either changes no file, no stored state and no root
  filesystem; or discovery has succeeded before, for the profile of the stored state (the default profile if none is
  stored), and the settings could be read. Then, if the stored state and the settings as read are in step with what
  was discovered, the run leaves the stored states, the root filesystem and everything on the host outside the
  unit's drop-in directories as they were. Otherwise the settings as read admit the new binds; nothing that was on
  the host changes but the settings of the machine and the drop-in directories of its unit; and the stored state
  changes only once the settings hold the new binds, so that it never runs ahead of them.
\<close>

theorem gpu_sync_fails_closed:
  fixes w :: "'w GpuWorld"
  assumes "ensure_gpu_passthrough ports name cdi w = (r, w1)"
    and "ports = direct_ports load polkit env locks uid ini esc nv cleanup discover"
  shows "node (gw_host w1) = node (gw_host w) \<and> entry (gw_states w1) = entry (gw_states w) \<and> gw_rootfs w1 = gw_rootfs w
    \<or> (\<exists>m persisted hs config. parse_machine_name name = Inr m
        \<and> fst (read_state nv (state_file_name m) (gw_states w)) = Inr persisted
        \<and> discover (profile_in_force (state_in_force persisted)) cdi = Inr hs
        \<and> settings_text (gw_host w) (nspawn_path default_roots m) = Some (in_content config)
        \<and> (if in_step config (state_in_force persisted) hs then rules_only m w w1
           else (\<exists>updated. apply_gpu_passthrough_to_content (in_content config) (ns_binds hs)
                  (calculate_removed_binds (state_in_force persisted) hs) = Inr updated)
              \<and> (entry (gw_states w1) \<noteq> entry (gw_states w) \<longrightarrow>
                  settings_updated (gw_host w1) m (ns_binds hs) (calculate_removed_binds (state_in_force persisted) hs))
              \<and> host_kept_except (\<lambda>q. q = nspawn_path default_roots m \<or> unit_area default_roots m q) (gw_host w) (gw_host w1)))"
    (is "?same w1 \<or> ?changed")
proof -
  have ports: "gp_config ports = (\<lambda>op. execute_nspawn_config_operation default_roots env locks op uid)"
    "gp_states ports = execute_nvidia_state_operation nv" "gp_discover ports = discover"
    "gp_units ports = execute_systemd_unit_operation default_roots ini esc"
    using assms(2) by (simp_all add: direct_ports_def)
  obtain r1 h where rd: "store_read (gp_config ports) name (gw_host w) = (r1, h)" by force
  note read = config_read_keeps [OF rd [unfolded ports(1)]]
  obtain r2 w2 where lp: "load_persisted ports name (w\<lparr>gw_host := h\<rparr>) = (r2, w2)" by force
  note loaded = load_persisted_keeps [OF lp ports(2)]
  have same: "?same (w\<lparr>gw_host := h\<rparr>)" "?same w2" using read(1) loaded by simp_all
  show ?thesis
  proof (cases "w1 = w\<lparr>gw_host := h\<rparr> \<or> w1 = w2")
    case True
    then show ?thesis using same by auto
  next
    case False
    then have moved: "w1 \<noteq> w\<lparr>gw_host := h\<rparr>" "w1 \<noteq> w2" by simp_all
    obtain config persisted hs where config: "r1 = Inr (Some config)" and p: "r2 = Inr persisted"
      and found: "discover (profile_in_force (state_in_force persisted)) cdi = Inr hs"
      and rest: "(if in_step config (state_in_force persisted) hs
        then gpu_bind (inject_persistent_device_allow ports name hs) (\<lambda>_. gpu_return Synchronized)
        else refresh_gpu ports name config (state_in_force persisted) hs) w2 = (r, w1)"
      using ensure_reaches [OF assms(1) rd lp moved] unfolding ports(3) by metis
    obtain m where m: "parse_machine_name name = Inr m" "settings_text (gw_host w) (nspawn_path default_roots m) = Some (in_content config)"
      using read(2) [OF config] by blast
    have stored: "fst (read_state nv (state_file_name m) (gw_states w)) = Inr persisted"
      using load_persisted_read [OF lp [unfolded p] ports(2) m(1)] by simp
    have "rules_only m w w1" if "in_step config (state_in_force persisted) hs"
      using inject_rules_only [OF _ ports(4) m(1), of hs w2 r w1] rest that same(2) host_kept_nodes [of "gw_host w2" "gw_host w"]
      by (simp add: rules_only_def)
    moreover note refresh_effect [OF _ assms(2) m(1), of config "state_in_force persisted" hs w2 r w1]
    ultimately have ?changed
      using m found stored rest moved(2) same(2) host_kept_nodes [of "gw_host w2" "gw_host w"]
      by (intro exI [of _ m] exI [of _ persisted] exI [of _ hs] exI [of _ config]) (auto split: if_splits)
    then show ?thesis ..
  qed
qed

section \<open>A machine with one device\<close>

definition gpu_settings :: string where
  "gpu_settings = ''[Files]'' @ [nl] @ NVIDIA_BLOCK_BEGIN @ [nl] @ ''Bind=/dev/nvidia0'' @ [nl] @ NVIDIA_BLOCK_END @ [nl]"

definition gpu_found :: NvidiaState where
  "gpu_found = example_state\<lparr>ns_profile := Some profile_default\<rparr>"

definition gpu_codec :: NvidiaEnv where
  "gpu_codec = \<lparr>nv_debug = (\<lambda>s. s),
     nv_from_slice = (\<lambda>c. if c = [1] then Inr (with_marker gpu_found) else Inl (SerdeError ''syntax'')),
     nv_to_vec_pretty = (\<lambda>s. if s = with_marker gpu_found then Inr [1] else Inl (SerdeError ''unsupported''))\<rparr>"


definition gpu_ports :: "(NvidiaPassthroughProfile \<Rightarrow> NvidiaCdiSource \<Rightarrow> NspawnError + NvidiaState) \<Rightarrow> unit GpuPorts" where
  "gpu_ports discover = direct_ports (\<lambda>_. Inr (\<lambda>_ _. Some ''true'')) (\<lambda>_. False) store_env (Inr store_locks) 0 unit_ini (\<lambda>s. s) gpu_codec
     (\<lambda>_ _ u. (Inr [], u)) discover"

definition gpu_world :: "unit GpuWorld" where
  "gpu_world = \<lparr>gw_host = \<lparr>h_nodes = (store_path, FileNode \<lparr>hf_uid = 0, hf_mode = 420, hf_text = gpu_settings\<rparr>) # unit_directories @
         map (\<lambda>k. (take k store_path, DirectoryNode)) [2..<5],
       h_uid = 0, h_umask = 18, h_faults = [], h_locks = [], h_temps = [''a'', ''b'']\<rparr>,
     gw_states = states_dir\<lparr>td_entries := [(''web.json'', \<lparr>i_kind = RegularFile, i_bytes = [1], i_uid = 0, i_mode = 384\<rparr>)]\<rparr>,
     gw_rootfs = ()\<rparr>"







theorem gpu_sync_fails_closed_witness:
  "node (gw_host (snd (ensure_gpu_passthrough (gpu_ports (\<lambda>_ _. Inl (RuntimeError ''no CDI''))) ''web'' CdiGenerate gpu_world)))
    = node (gw_host gpu_world)"
  using gpu_sync_fails_closed [OF prod.collapse [symmetric] gpu_ports_def,
      of "\<lambda>_ _. Inl (RuntimeError ''no CDI'')" "''web''" CdiGenerate gpu_world] by simp

end
