(* ===== verification/Spec2Isabelle.thy ===== *)
theory Spec2Isabelle
  imports Rust_Prelude Machine_Identity Operation_Registry Request_Claims Domain_Values
    Display_Domain Bootstrap Deployment_Contract Deployment_State Deployment_Registry Deployment_Jobs
    Trusted_State Deployment_Store Job_Handlers Tar_Limits Nspawn_Spec Nspawn_Document Host_Files
    Unit_Overrides Oci_Promotion Wayland_Host Config_Store Nvidia_State Nvidia_Lifecycle
begin

text \<open>
  \<^bold>\<open>Verification of Lasper.\<close> Lasper manages systemd-nspawn machines. A terminal or command-line front end
  builds a deployment request out of validated values and sends it to a privileged daemon; the daemon reserves
  the names the request touches, records the job durably, runs it, and reports its progress and result. This
  development models the parts that decide: the values, the reservation of resources, the deployment jobs and
  their durable crash state, the checks on untrusted archives and what is written into a machine's
  configuration. Paths below are relative to \<open>src/\<close>.

  \<^bold>\<open>Modelling conventions\<close> (\<open>Rust_Prelude\<close>). A \<open>str\<close> is the list of its UTF-8 bytes, a machine integer a word
  of its width, \<open>Result\<close> a sum with the error on the left, \<open>?\<close> is \<^const>\<open>and_then\<close>, a \<open>HashMap\<close> an association
  list with distinct keys, a \<open>Path\<close> its byte string with equality on components. Code of other packages is a
  parameter: JSON, SHA-256, URL parsing, the text of UUIDs and of operating-system errors, \<open>Debug\<close> escapes, the
  INI writer. Where a theorem needs a law of such code (that a document reads back as it was written, that
  UUIDs have distinct texts), the law is an assumption of a locale or a named hypothesis, and a witness
  instantiates it.

  \<^bold>\<open>Theories and sources.\<close>
  \<^item> \<open>Machine_Identity\<close> (\<open>domain/machine.rs\<close>, \<open>domain/runtime.rs\<close>, \<open>domain/image.rs\<close>): names, classes,
    providers and the canonical snapshot. Shown: accepted names are safe path components and unit names, guest
    host names resolve, a snapshot does not depend on the order of observation.
  \<^item> \<open>Operation_Registry\<close> (\<open>application/operations\<close>): shared and exclusive claims with reservation guards. Shown,
    over every interleaving of reservations and drops: exclusion, no leaked claim, the exact refusals, and that a
    dropped reservation restores the registry.
  \<^item> \<open>Request_Claims\<close> (\<open>ipc/protocol\<close>, \<open>daemon/dispatch\<close>): the inventory of RPC methods and the claims of each
    request. A specification over the decoded requests says which machine, image or manager a request changes or
    uses. Shown: the wire names are a bijection, and while a request that changes a resource runs, every
    other that changes or uses the same one is refused.
  \<^item> \<open>Domain_Values\<close> (\<open>domain/storage.rs\<close>, \<open>domain/oci.rs\<close>, \<open>domain/provisioning.rs\<close> and neighbours): sizes,
    OCI references, artifacts, accounts. Shown: exact acceptance of sizes with their overflow, the grammar of
    references, safety of accounts and login shells.
  \<^item> \<open>Display_Domain\<close> (\<open>domain/wayland.rs\<close>, \<open>domain/x11.rs\<close>): display sockets and grants. Shown: paths handed to
    the guest stay under their root, grants resolve exactly, the panicking constructors do not panic.
  \<^item> \<open>Bootstrap\<close> (\<open>domain/bootstrap.rs\<close>, \<open>adapters/provisioning/engine/bootstrap_args.rs\<close>): bootstrap intent and
    the command lines of debootstrap, pacstrap and dnf5. Shown: no value can become an option.
  \<^item> \<open>Deployment_Contract\<close> (\<open>application/provisioning/contract\<close>): request, secrets, statuses and plan. Shown: a
    valid request is consistent, its plan claims every name it touches, secrets reach the accounts they are for.
  \<^item> \<open>Deployment_State\<close> (\<open>application/provisioning/state.rs\<close>): the ledger of created resources, the crash
    manifest and the session that writes it ahead of every effect.
  \<^item> \<open>Deployment_Registry\<close>, \<open>Deployment_Jobs\<close> (\<open>daemon/jobs/server.rs\<close>): the registry of submissions and jobs, and
    the daemon as a step relation of its registry, its operation claims and its clients. Shown by rule induction
    over all histories: jobs never get stuck, hold their claims until they end and release them then, results
    are stable, admission and eviction are exact, an unresolved deployment stays protected, the daemon can
    always drain.
  \<^item> \<open>Trusted_State\<close> (\<open>adapters/trusted_state.rs\<close>): bounded reads, stable locks and atomic writes over a directory
    in which any system call may fail. The faults are a script consumed by the calls, so that a theorem for all
    scripts holds for a crash or failure at any point.
  \<^item> \<open>Deployment_Store\<close> (\<open>adapters/provisioning/state.rs\<close>): the crash-state store, direct and elevated. The locale
    of a manifest store states the contract; both implementations are instances of it, and the session's
    write-ahead discipline is proved once against it.
  \<^item> \<open>Job_Handlers\<close> (\<open>daemon/jobs/mod.rs\<close>, \<open>forward_job_stream\<close>): the RPC handlers over registry and store. Shown: each
    request does exactly what it is for to the named job and nothing else, and is a sequence of steps of the daemon, so
    that every invariant of \<open>Deployment_Jobs\<close> holds across requests.
  \<^item> \<open>Tar_Limits\<close> (\<open>adapters/provisioning/engine/tar_limits.rs\<close>): the budget scan of an archive. Shown: it ends on
    every input within one turn per block, and accepts exactly the tar streams within budget, in unbounded
    arithmetic.
  \<^item> \<open>Nspawn_Spec\<close> (\<open>adapters/config/nspawn_spec.rs\<close>, \<open>adapters/config/nspawn_file.rs\<close>): the specification of a
    machine's configuration file and the entries generated from it. Shown: the file binds exactly the declared
    host paths and every entry stays on its line.
  \<^item> \<open>Nspawn_Document\<close> (\<open>adapters/config/nspawn_file.rs\<close>): editing the managed GPU block of an existing file. Shown:
    the new block reads back as written up to whitespace at the end of a line, and everything the administrator
    wrote survives in its order.
  \<^item> \<open>Host_Files\<close> (\<open>adapters/filesystem.rs\<close>): locked and atomic writes over a tree of files in which any call may
    fail. Its locales state what a relation between trees must satisfy to be kept by every operation composed of
    the calls; \<open>stays\<close>, \<open>same_process\<close> and the relations of the clients are instances.
  \<^item> \<open>Unit_Overrides\<close> (\<open>adapters/config/systemd_unit.rs\<close>): the drop-ins of a machine's unit. Shown: whatever fails,
    what each operation may replace or remove, with or without a proof that it is Lasper's, and that it does so only
    under an exclusive claim on the machine; and that a written override is found and removed again.
  \<^item> \<open>Oci_Promotion\<close> (\<open>promote_oci_content\<close> in \<open>adapters/config/store.rs\<close>): turning the runtime configuration of
    an OCI machine into an administrator's file. Shown: user and network policy are exactly those of the chosen
    mode and every other setting is carried over.
  \<^item> \<open>Wayland_Host\<close> (\<open>adapters/platform/wayland.rs\<close>, \<open>adapters/wayland.rs\<close>): discovery of the sockets of a desktop
    session and the check the privileged writer makes of one. Shown: what discovery finds passes the check while
    the host is unchanged, and what passes is, at that moment, the same socket of the same user.
  \<^item> \<open>Config_Store\<close> (\<open>adapters/config/store.rs\<close>, \<open>nspawn_source.rs\<close>, \<open>settings_lock.rs\<close>): the places settings are looked
    for, the operations on them and the clients of the store. The host is that of \<open>Host_Files\<close>, where any call may
    fail. Shown: what an operation may change, failing or not; that a created file exposes only verified sockets and
    existing sources; that only a trusted file is promoted; that inspection reports the settings in force; and that
    created settings are read back and removed.
  \<^item> \<open>Nvidia_State\<close> (\<open>adapters/platform/nvidia/state.rs\<close>, \<open>domain/nvidia.rs\<close>): the stored NVIDIA state of a machine, its
    migration and validation, and the operations on its file in a directory of \<open>Trusted_State\<close>. Shown: what may be
    replaced or removed; that migration is exact; that a written state is read back and recognised.
  \<^item> \<open>Nvidia_Lifecycle\<close> (\<open>adapters/platform/nvidia/lifecycle.rs\<close>): the run that brings settings, stored state, root
    filesystem and unit in step with the host, over the stores of \<open>Config_Store\<close>, \<open>Nvidia_State\<close> and \<open>Unit_Overrides\<close>.
    Shown: a run fails closed and what it may change, and after one that succeeded the next has nothing to refresh
    if the discovered state settles, or refreshes again if its version is unknown or a bind is doubled.

  \<^bold>\<open>Loops and bounds.\<close> Loops are structural recursion or functions with a termination proof; none runs on
  fuel, but following links stops where the kernel does (\<open>MAXSYMLINKS\<close>). \<open>scan_turns\<close> counts turns only to
  state the bound on them. The stream forwarder is a recursion over scripted turns, one script entry for each value its channels deliver.

  \<^bold>\<open>Not modelled.\<close> The terminal interface and the command line, D-Bus and process adapters, pseudo-terminals,
  mounts and images, the launcher and the sockets between client and daemon are interfaces of the operating
  system or of other packages. The configuration editor, sessions, NVIDIA discovery,
  X11 grants and the lifecycle services hold logic of their own and are the next parts to model.
\<close>

end
